(* ===== verification/Prelude.thy ===== *)
theory Prelude
  imports Main "HOL-Library.Log_Nat" "HOL-Library.Signed_Division"
begin

text \<open>
  Shared vocabulary of the development: the machine integers and the single precision
  floats of the server code, the lemma collections the component theories fill, and the
  generic facts on lists that more than one component needs.
\<close>

named_theorems c_arith \<open>facts on the wrap-around of C++ integers\<close>
named_theorems hero_defs \<open>definitions that handler proofs unfold\<close>
named_theorems hero_wf_intros \<open>handlers that keep the hero well-formed\<close>

section \<open>Machine integers\<close>

text \<open>
  A C++ \<open>int\<close> (and a protobuf \<open>int32\<close>) is an integer in the 32 bit two's complement
  range. Every sum, difference or product that the code stores in an \<open>int\<close> goes through
  \<open>wrap32\<close>, and a value stored in a \<open>u32\<close> through \<open>wrap_u32\<close>; 64 bit quantities (the
  server clock) are far from their bounds and stay plain integers.
\<close>

definition wrap32 :: "int \<Rightarrow> int" where
  "wrap32 x = (x + 2147483648) mod 4294967296 - 2147483648"

definition in32 :: "int \<Rightarrow> bool" where
  "in32 x \<longleftrightarrow> - 2147483648 \<le> x \<and> x < 2147483648"

definition wrap_u32 :: "int \<Rightarrow> int" where
  "wrap_u32 x = x mod 4294967296"

definition in_u32 :: "int \<Rightarrow> bool" where
  "in_u32 x \<longleftrightarrow> 0 \<le> x \<and> x < 4294967296"

lemma wrap32_in32 [simp]: "in32 (wrap32 x)"
proof -
  have "0 \<le> (x + 2147483648) mod 4294967296" "(x + 2147483648) mod 4294967296 < 4294967296"
    by simp_all
  then show ?thesis by (simp add: wrap32_def in32_def)
qed

lemma wrap32_id [c_arith]: "in32 x \<Longrightarrow> wrap32 x = x"
  by (simp add: wrap32_def in32_def)

lemma wrap32_idem [simp]: "wrap32 (wrap32 x) = wrap32 x"
  by (simp add: wrap32_id)

lemma wrap32_0 [simp]: "wrap32 0 = 0"
  by (simp add: wrap32_def)

lemma wrap32_diff: "\<exists>k. wrap32 x = x + k * 4294967296"
proof -
  have "(x + 2147483648) mod 4294967296 = x + 2147483648 - 4294967296 * ((x + 2147483648) div 4294967296)"
    by (simp add: minus_mult_div_eq_mod)
  then have "wrap32 x = x + (- ((x + 2147483648) div 4294967296)) * 4294967296"
    by (simp add: wrap32_def)
  then show ?thesis by blast
qed

lemma wrap32_cong: "wrap32 (x + k * 4294967296) = wrap32 x"
proof -
  have "(x + k * 4294967296 + 2147483648) mod 4294967296 = ((x + 2147483648) + k * 4294967296) mod 4294967296"
    by (simp add: algebra_simps)
  also have "\<dots> = (x + 2147483648) mod 4294967296" by simp
  finally show ?thesis by (simp add: wrap32_def)
qed

lemma wrap32_add_left [c_arith]: "wrap32 (wrap32 x + y) = wrap32 (x + y)"
proof -
  obtain k where "wrap32 x = x + k * 4294967296" using wrap32_diff by blast
  then have eq: "wrap32 x + y = (x + y) + k * 4294967296" by simp
  show ?thesis unfolding eq by (rule wrap32_cong)
qed

lemma wrap32_add_right [c_arith]: "wrap32 (y + wrap32 x) = wrap32 (y + x)"
  using wrap32_add_left [of x y] by (simp add: add.commute)

lemma wrap32_sub_left [c_arith]: "wrap32 (wrap32 x - y) = wrap32 (x - y)"
  using wrap32_add_left [of x "- y"] by simp

lemma wrap_u32_in [simp]: "in_u32 (wrap_u32 x)"
  by (simp add: wrap_u32_def in_u32_def)

lemma wrap_u32_id [c_arith]: "in_u32 x \<Longrightarrow> wrap_u32 x = x"
  by (simp add: wrap_u32_def in_u32_def)

lemma in32_0 [simp]: "in32 0"
  by (simp add: in32_def)

lemma sdiv_nonneg [c_arith]: "0 \<le> a \<Longrightarrow> 0 < b \<Longrightarrow> a sdiv b = a div b" for a b :: int
  by (simp add: signed_divide_int_def sgn_if)

section \<open>Single precision floats\<close>

text \<open>
  The code computes spirit recovery and recharge bonuses in \<open>float\<close>. A float value is the
  rational it denotes; \<open>f32\<close> rounds a rational to the nearest value with a 24 bit
  significand, ties to even, as every single precision operation of the code does. The
  magnitudes involved (below \<open>2 ^ 64\<close>) are far from overflow and from the subnormal range,
  so the exponent is not bounded.
\<close>

definition ilog2 :: "rat \<Rightarrow> int" where
  "ilog2 x = (let (a, b) = quotient_of x;
                  e = int (floorlog 2 (nat a)) - int (floorlog 2 (nat b))
              in if 2 powi e \<le> x then e else e - 1)"

definition round_even :: "rat \<Rightarrow> int" where
  "round_even x = (let n = \<lfloor>x\<rfloor>; d = x - of_int n
                   in if d < 1 / 2 then n else if 1 / 2 < d then n + 1
                      else if even n then n else n + 1)"

definition f32 :: "rat \<Rightarrow> rat" where
  "f32 x = (if x = 0 then 0
            else let u = 2 powi (ilog2 \<bar>x\<bar> - 23) in of_int (round_even (x / u)) * u)"

text \<open>A float stored into an integer variable is truncated towards zero.\<close>

definition ftoi :: "rat \<Rightarrow> int" where
  "ftoi x = (if 0 \<le> x then \<lfloor>x\<rfloor> else \<lceil>x\<rceil>)"

lemma round_even_int [simp]: "round_even (of_int n) = n"
  by (simp add: round_even_def)

lemma ftoi_int [simp]: "ftoi (of_int n) = n"
  by (simp add: ftoi_def)

lemma ftoi_nonneg: "0 \<le> x \<Longrightarrow> 0 \<le> ftoi x"
  by (simp add: ftoi_def)

lemma quotient_of_int_rat: "quotient_of (of_int n) = (n, 1)"
  by (simp add: quotient_of_int)

lemma floorlog_less_24: "0 < n \<Longrightarrow> n < 16777216 \<Longrightarrow> floorlog 2 n \<le> 24"
  by (rule floorlog_leI) simp_all

lemma ilog2_int_le: "0 < n \<Longrightarrow> n < 16777216 \<Longrightarrow> ilog2 (of_int n) \<le> 23"
proof -
  assume n: "0 < n" "n < 16777216"
  then have "floorlog 2 (nat n) \<le> 24"
    by (intro floorlog_less_24) auto
  moreover have "floorlog 2 1 = 1"
    by (simp add: floorlog_def)
  ultimately show ?thesis
    using n by (simp add: ilog2_def quotient_of_int_rat Let_def)
qed

lemma f32_int_exact: "\<bar>n\<bar> < 16777216 \<Longrightarrow> f32 (of_int n) = of_int n"
proof (cases "n = 0")
  case True
  then show ?thesis by (simp add: f32_def)
next
  case False
  assume small: "\<bar>n\<bar> < 16777216"
  define e where "e = ilog2 \<bar>of_int n\<bar>"
  have "\<bar>of_int n\<bar> = (of_int \<bar>n\<bar> :: rat)" by simp
  then have "e \<le> 23"
    using ilog2_int_le [of "\<bar>n\<bar>"] small False by (simp add: e_def del: of_int_abs)
  then obtain k where k: "e - 23 = - int k" by (metis nonneg_int_cases diff_ge_0_iff_ge minus_diff_eq)
  have u: "(2::rat) powi (e - 23) = 1 / 2 ^ k"
    by (simp add: k power_int_minus field_simps)
  have "of_int n / (1 / 2 ^ k) = (of_int (n * 2 ^ k) :: rat)"
    by simp
  then have "f32 (of_int n) = of_int (n * 2 ^ k) * (1 / 2 ^ k)"
    using False by (simp only: f32_def Let_def e_def [symmetric] u round_even_int) simp
  then show ?thesis by simp
qed

lemma round_even_nonneg: "0 \<le> x \<Longrightarrow> 0 \<le> round_even x"
proof -
  assume "0 \<le> x"
  then have "0 \<le> \<lfloor>x\<rfloor>" by simp
  then show ?thesis by (simp add: round_even_def Let_def)
qed

lemma f32_nonneg: "0 \<le> x \<Longrightarrow> 0 \<le> f32 x"
  by (auto simp: f32_def Let_def intro!: mult_nonneg_nonneg round_even_nonneg divide_nonneg_nonneg)

lemma floorlog_2_bounds: "0 < n \<Longrightarrow> 2 ^ (floorlog 2 n - 1) \<le> n \<and> n < 2 ^ floorlog 2 n" for n :: nat
  using floorlog_bounds [of n 2] by simp

lemma ilog2_le: "0 < x \<Longrightarrow> 2 powi (ilog2 x) \<le> x"
proof -
  assume x: "0 < x"
  obtain a b where q: "quotient_of x = (a, b)" by (cases "quotient_of x")
  have b: "0 < b" using quotient_of_denom_pos [OF q] .
  have xab: "x = of_int a / of_int b" using quotient_of_div [OF q] .
  have a: "0 < a" using x b by (simp add: xab zero_less_divide_iff)
  define k l where "k = floorlog 2 (nat a)" and "l = floorlog 2 (nat b)"
  have ka: "2 ^ (k - 1) \<le> nat a" "0 < k" using floorlog_2_bounds [of "nat a"] a
    by (auto simp: k_def floorlog_def)
  have lb: "nat b < 2 ^ l" using floorlog_2_bounds [of "nat b"] b by (simp add: l_def)
  have "(2::rat) ^ (k - 1) \<le> of_nat (nat a)" by (metis ka(1) of_nat_le_iff of_nat_numeral of_nat_power)
  then have A: "(2::rat) ^ (k - 1) \<le> of_int a" using a by simp
  have "of_nat (nat b) < (2::rat) ^ l" by (metis lb of_nat_less_iff of_nat_numeral of_nat_power)
  then have B: "of_int b < (2::rat) ^ l" using b by simp
  have "(2::rat) powi (int k - int l - 1) = 2 ^ (k - 1) / 2 ^ l"
  proof -
    have "int k - int l - 1 = int (k - 1) - int l" using ka(2) by simp
    moreover have "(2::rat) powi (int (k - 1) - int l) = 2 powi int (k - 1) / 2 powi int l"
      by (rule power_int_diff) simp
    ultimately show ?thesis by (simp only: power_int_of_nat)
  qed
  also have "\<dots> \<le> of_int a / of_int b"
    using A B a b by (intro frac_le) auto
  finally have "2 powi (int k - int l - 1) \<le> x" by (simp add: xab)
  then show ?thesis by (auto simp: ilog2_def q Let_def k_def l_def)
qed

lemma round_even_le: "round_even x \<le> \<lfloor>x\<rfloor> + 1" "\<lfloor>x\<rfloor> \<le> round_even x"
  by (auto simp: round_even_def Let_def)

lemma round_even_half: "of_int (round_even x) \<le> x + 1 / 2"
  by (auto simp: round_even_def Let_def) linarith+

lemma ilog2_le_23: "0 < x \<Longrightarrow> x < 2 ^ 24 \<Longrightarrow> ilog2 x \<le> 23"
proof (rule ccontr)
  assume x: "0 < x" "x < 2 ^ 24" and "\<not> ilog2 x \<le> 23"
  then have "(2::rat) powi 24 \<le> 2 powi ilog2 x" by (intro power_int_increasing) auto
  then show False using ilog2_le [OF x(1)] x(2) by simp
qed

text \<open>Rounding moves a positive value up by at most one part in \<open>2 ^ 24\<close>, and not below an integer.\<close>

lemma f32_upper: "0 < q \<Longrightarrow> f32 q \<le> q + q / 2 ^ 24"
proof -
  assume q: "0 < q"
  define u where "u = (2::rat) powi (ilog2 q - 23)"
  have u0: "0 < u" by (simp add: u_def)
  have "u * 2 ^ 23 = 2 powi ilog2 q" by (simp add: u_def power_int_diff)
  then have u: "u / 2 \<le> q / 2 ^ 24" using ilog2_le [OF q] by simp
  have "of_int (round_even (q / u)) * u \<le> (q / u + 1 / 2) * u" using round_even_half u0 by (intro mult_right_mono) auto
  also have "\<dots> = q + u / 2" using u0 by (simp add: distrib_right)
  finally show ?thesis using q u by (simp add: f32_def u_def Let_def)
qed

lemma f32_int_lower: "0 < q \<Longrightarrow> q < 2 ^ 24 \<Longrightarrow> of_int n \<le> q \<Longrightarrow> of_int n \<le> f32 q"
proof -
  assume q: "0 < q" "q < 2 ^ 24" and n: "of_int n \<le> q"
  obtain k where k: "ilog2 q - 23 = - int k"
    using ilog2_le_23 [OF q] by (metis nonneg_int_cases diff_ge_0_iff_ge minus_diff_eq)
  define u where "u = (2::rat) powi (ilog2 q - 23)"
  have u: "u = 1 / 2 ^ k" "0 < u" by (simp_all add: u_def k power_int_minus field_simps)
  have nu: "of_int n / u = of_int (n * 2 ^ k)" by (simp add: u)
  have "of_int n / u \<le> q / u" using n u(2) by (simp add: divide_right_mono)
  then have "n * 2 ^ k \<le> \<lfloor>q / u\<rfloor>" by (simp only: nu le_floor_iff)
  then have "n * 2 ^ k \<le> round_even (q / u)" using round_even_le(2) [of "q / u"] by linarith
  then have "of_int n / u \<le> of_int (round_even (q / u))" by (simp only: nu of_int_le_iff)
  then show ?thesis using q(1) u(2) by (simp add: f32_def u_def [symmetric] Let_def field_simps)
qed

lemma div_rat_bounds:
  assumes b: "0 < b"
  shows "of_int (a div b) \<le> (of_int a / of_int b :: rat)"
    "of_int a / of_int b + 1 / of_int b \<le> (of_int (a div b) + 1 :: rat)"
proof -
  have "(a div b) * b \<le> a" "a + 1 \<le> (a div b + 1) * b"
    using div_mult_mod_eq [of a b] pos_mod_bound [OF b, of a] pos_mod_sign [OF b, of a]
    unfolding distrib_right mult_1 by linarith+
  then have "of_int (a div b) * of_int b \<le> (of_int a :: rat)" "of_int a + 1 \<le> (of_int (a div b) + 1) * (of_int b :: rat)"
    by (metis of_int_le_iff of_int_mult, metis of_int_1 of_int_add of_int_le_iff of_int_mult)
  then show "of_int (a div b) \<le> (of_int a / of_int b :: rat)"
    "of_int a / of_int b + 1 / of_int b \<le> (of_int (a div b) + 1 :: rat)"
    using b by (simp_all add: field_simps)
qed

text \<open>A quotient of integers below \<open>2 ^ 24\<close>, rounded and then truncated, is the integer quotient.\<close>

lemma ftoi_f32_div:
  assumes a: "0 \<le> a" "a < 16777216" and b: "0 < b"
  shows "ftoi (f32 (of_int a / of_int b)) = a div b"
proof (cases "a = 0")
  case True
  then show ?thesis by (simp add: f32_def ftoi_def)
next
  case False
  define q where "q = (of_int a / of_int b :: rat)"
  have q0: "0 < q" using a b False by (simp add: q_def)
  have a24: "(of_int a :: rat) < 2 ^ 24" using a(2) of_int_less_iff [of a 16777216, where 'a = rat] by simp
  moreover have "q \<le> of_int a" using a b mult_left_mono [of 1 "of_int b" "of_int a :: rat"] by (simp add: q_def divide_le_eq)
  ultimately have lo: "of_int (a div b) \<le> f32 q"
    using f32_int_lower [OF q0] div_rat_bounds(1) [OF b, of a] by (simp add: q_def)
  have "q / 2 ^ 24 < 1 / of_int b" using a24 b by (simp add: q_def field_simps)
  then have hi: "f32 q < of_int (a div b) + 1"
    using f32_upper [OF q0] div_rat_bounds(2) [OF b, of a] by (simp add: q_def)
  have "ftoi (f32 q) = a div b" using lo hi f32_nonneg [of q] q0 by (simp add: ftoi_def floor_eq_iff)
  then show ?thesis by (simp add: q_def)
qed

section \<open>Invariants of step relations\<close>

text \<open>
  What every component with a step relation promises: one step keeps the invariant. Reachable
  states then satisfy it, whatever the interleaving of operations.
\<close>

locale invariant_system =
  fixes sys_step :: "'s \<Rightarrow> 's \<Rightarrow> bool"
    and sys_inv :: "'s \<Rightarrow> bool"
  assumes step_keeps: "sys_inv s \<Longrightarrow> sys_step s s' \<Longrightarrow> sys_inv s'"
begin

lemma invariant: "sys_inv s \<Longrightarrow> sys_step\<^sup>*\<^sup>* s s' \<Longrightarrow> sys_inv s'"
proof -
  assume inv: "sys_inv s" and run: "sys_step\<^sup>*\<^sup>* s s'"
  from run inv show ?thesis by (induction) (auto intro: step_keeps)
qed

end

end
