(* ===== verification/Std_Map.thy ===== *)
theory Std_Map
  imports Prelude
begin

text \<open>
  The containers of the C++ standard library the server keeps its state in.

  A \<open>std::map\<close> is iterated in key order, and several handlers depend on that order, so it
  is modelled by an association list with strictly increasing keys: \<open>map_find\<close> is
  \<open>find\<close>, \<open>map_assign\<close> is \<open>m[k] = v\<close>, \<open>map_insert\<close> is \<open>insert\<close> (which keeps an
  existing entry) and \<open>map_erase\<close> is \<open>erase\<close>. The locale \<open>std_map\<close> states the laws the
  clients rely on; the association lists are interpreted as an instance of it.
\<close>

type_synonym ('k, 'v) smap = "('k \<times> 'v) list"

fun map_find :: "'k \<Rightarrow> ('k, 'v) smap \<Rightarrow> 'v option" where
  "map_find k [] = None"
| "map_find k ((a, v) # m) = (if k = a then Some v else map_find k m)"

fun map_assign :: "'k::linorder \<Rightarrow> 'v \<Rightarrow> ('k, 'v) smap \<Rightarrow> ('k, 'v) smap" where
  "map_assign k v [] = [(k, v)]"
| "map_assign k v ((a, w) # m) =
     (if k < a then (k, v) # (a, w) # m
      else if k = a then (k, v) # m
      else (a, w) # map_assign k v m)"

definition map_insert :: "'k::linorder \<Rightarrow> 'v \<Rightarrow> ('k, 'v) smap \<Rightarrow> ('k, 'v) smap" where
  "map_insert k v m = (case map_find k m of None \<Rightarrow> map_assign k v m | Some _ \<Rightarrow> m)"

definition map_erase :: "'k \<Rightarrow> ('k, 'v) smap \<Rightarrow> ('k, 'v) smap" where
  "map_erase k m = filter (\<lambda>(a, _). a \<noteq> k) m"

definition map_wf :: "('k::linorder, 'v) smap \<Rightarrow> bool" where
  "map_wf m \<longleftrightarrow> sorted_wrt (<) (map fst m)"

section \<open>The contract of a standard map\<close>

locale std_map =
  fixes mempty :: "'m"
    and mfind :: "'k \<Rightarrow> 'm \<Rightarrow> 'v option"
    and massign :: "'k \<Rightarrow> 'v \<Rightarrow> 'm \<Rightarrow> 'm"
    and merase :: "'k \<Rightarrow> 'm \<Rightarrow> 'm"
    and minvar :: "'m \<Rightarrow> bool"
  assumes find_empty: "mfind k mempty = None"
    and find_assign: "minvar m \<Longrightarrow> mfind k (massign a v m) = (if k = a then Some v else mfind k m)"
    and find_erase: "minvar m \<Longrightarrow> mfind k (merase a m) = (if k = a then None else mfind k m)"
    and invar_empty: "minvar mempty"
    and invar_assign: "minvar m \<Longrightarrow> minvar (massign a v m)"
    and invar_erase: "minvar m \<Longrightarrow> minvar (merase a m)"
begin

text \<open>A loading loop \<open>for (...) m[key] = value\<close>: the last row of a key wins.\<close>

lemma invar_fold_assign: "minvar m \<Longrightarrow> minvar (fold (\<lambda>(a, v). massign a v) xs m)"
  by (induction xs arbitrary: m) (auto simp: invar_assign)

lemma find_fold_assign:
  "minvar m \<Longrightarrow> mfind k (fold (\<lambda>(a, v). massign a v) xs m) =
     (case map_of (rev xs) k of None \<Rightarrow> mfind k m | Some v \<Rightarrow> Some v)"
proof (induction xs arbitrary: m)
  case Nil
  then show ?case by simp
next
  case (Cons p xs)
  obtain a v where p: "p = (a, v)" by (cases p)
  have "mfind k (fold (\<lambda>(a, v). massign a v) (p # xs) m) =
     (case map_of (rev xs) k of None \<Rightarrow> mfind k (massign a v m) | Some w \<Rightarrow> Some w)"
    using Cons.IH [OF invar_assign [OF Cons.prems]] by (simp add: p)
  then show ?case
    using Cons.prems by (auto simp: p find_assign map_add_def split: option.splits)
qed

lemma find_erase_same: "minvar m \<Longrightarrow> mfind k (merase k m) = None"
  by (simp add: find_erase)

lemma assign_twice: "minvar m \<Longrightarrow> mfind k (massign a w (massign a v m)) = mfind k (massign a w m)"
  by (simp add: find_assign invar_assign)

end

section \<open>Association lists are a standard map\<close>

lemma map_find_None_notin: "map_find k m = None \<longleftrightarrow> k \<notin> fst ` set m"
  by (induction k m rule: map_find.induct) auto

lemma map_find_Some_in: "map_find k m = Some v \<Longrightarrow> (k, v) \<in> set m"
  by (induction k m rule: map_find.induct) (auto split: if_splits)

lemma map_find_in: "map_wf m \<Longrightarrow> (k, v) \<in> set m \<Longrightarrow> map_find k m = Some v"
  by (induction m) (force simp: map_wf_def)+

lemma map_find_assign: "map_find k (map_assign a v m) = (if k = a then Some v else map_find k m)"
  if "map_wf m"
  using that
proof (induction m)
  case Nil
  then show ?case by simp
next
  case (Cons p m)
  obtain b w where p: "p = (b, w)" by (cases p)
  have wf: "map_wf m" and lt: "\<And>x. x \<in> fst ` set m \<Longrightarrow> b < x"
    using Cons.prems by (auto simp: map_wf_def p)
  show ?case using Cons.IH [OF wf] by (auto simp: p)
qed

lemma fst_set_map_assign: "fst ` set (map_assign a v m) = insert a (fst ` set m)"
  by (induction a v m rule: map_assign.induct) auto

lemma set_map_assign: "set (map_assign k v m) \<subseteq> insert (k, v) (set m)"
  by (induction m) (auto split: if_splits)

lemma set_map_insert: "set (map_insert k v m) \<subseteq> insert (k, v) (set m)"
  using set_map_assign [of k v m] by (cases "map_find k m") (simp_all add: map_insert_def subset_insertI)

lemma map_wf_assign: "map_wf m \<Longrightarrow> map_wf (map_assign a v m)"
proof (induction m)
  case Nil
  then show ?case by (simp add: map_wf_def)
next
  case (Cons p m)
  obtain b w where p: "p = (b, w)" by (cases p)
  have IH: "map_wf (map_assign a v m)" and lt: "\<forall>x \<in> fst ` set m. b < x"
    using Cons by (auto simp: map_wf_def p)
  have "\<forall>x \<in> fst ` set (map_assign a v m). b < x" if "\<not> a < b" "a \<noteq> b"
    using lt that by (auto simp: fst_set_map_assign)
  then show ?case
    using IH Cons.prems by (auto simp: map_wf_def p)
qed

lemma map_find_erase: "map_find k (map_erase a m) = (if k = a then None else map_find k m)"
  by (induction m) (auto simp: map_erase_def)

lemma map_wf_erase: "map_wf m \<Longrightarrow> map_wf (map_erase a m)"
  by (auto simp: map_wf_def map_erase_def sorted_wrt_map intro: sorted_wrt_filter)

interpretation amap: std_map "[]" map_find map_assign map_erase map_wf
proof unfold_locales
  show "\<And>k. map_find k [] = None" by simp
  show "\<And>m k a v. map_wf m \<Longrightarrow> map_find k (map_assign a v m) = (if k = a then Some v else map_find k m)"
    by (rule map_find_assign)
  show "\<And>m k a. map_wf m \<Longrightarrow> map_find k (map_erase a m) = (if k = a then None else map_find k m)"
    by (simp add: map_find_erase)
  show "map_wf []" by (simp add: map_wf_def)
  show "\<And>m a v. map_wf m \<Longrightarrow> map_wf (map_assign a v m)" by (rule map_wf_assign)
  show "\<And>m a. map_wf m \<Longrightarrow> map_wf (map_erase a m)" by (rule map_wf_erase)
qed

lemma map_wf_Nil [simp]: "map_wf []"
  by (rule amap.invar_empty)

lemma map_wf_insert: "map_wf m \<Longrightarrow> map_wf (map_insert k v m)"
  by (simp add: map_insert_def map_wf_assign split: option.splits)

lemma map_find_insert:
  "map_wf m \<Longrightarrow> map_find k (map_insert a v m) =
     (if k = a \<and> map_find a m = None then Some v else map_find k m)"
  by (auto simp: map_insert_def map_find_assign split: option.splits)

lemma map_wf_Cons: "map_wf ((k, v) # m) \<longleftrightarrow> (\<forall>x \<in> fst ` set m. k < x) \<and> map_wf m"
  by (auto simp: map_wf_def)

lemma map_wf_distinct: "map_wf m \<Longrightarrow> distinct (map fst m)"
  by (simp add: map_wf_def strict_sorted_iff)

text \<open>Updating the values of a map in place keeps its keys.\<close>

lemma map_wf_map_values: "map_wf m \<Longrightarrow> map_wf (map (\<lambda>(k, v). (k, f k v)) m)"
proof -
  have "map fst (map (\<lambda>(k, v). (k, f k v)) m) = map fst m" by auto
  then show "map_wf m \<Longrightarrow> ?thesis" by (simp add: map_wf_def del: map_map)
qed

text \<open>\<open>m[k]\<close> in an expression: a missing key is first given the default value.\<close>

definition map_index :: "'v \<Rightarrow> 'k \<Rightarrow> ('k, 'v) smap \<Rightarrow> 'v" where
  "map_index d k m = (case map_find k m of None \<Rightarrow> d | Some v \<Rightarrow> v)"

lemma map_find_fold_insert:
  "map_wf m \<Longrightarrow> map_find k (fold (\<lambda>x. map_insert (f x) (g x)) xs m) =
     (case map_find k m of
        Some v \<Rightarrow> Some v
      | None \<Rightarrow> map_option g (find (\<lambda>x. f x = k) xs))"
proof (induction xs arbitrary: m)
  case Nil
  then show ?case by (simp split: option.splits)
next
  case (Cons x xs)
  have wf: "map_wf (map_insert (f x) (g x) m)" using Cons.prems by (rule map_wf_insert)
  show ?case
    using Cons.IH [OF wf] Cons.prems by (auto simp: map_find_insert split: option.splits)
qed

lemma map_wf_fold_insert: "map_wf m \<Longrightarrow> map_wf (fold (\<lambda>x. map_insert (f x) (g x)) xs m)"
  by (induction xs arbitrary: m) (auto intro: map_wf_insert)

lemma map_of_map_find: "map_of (map (\<lambda>x. (f x, g x)) xs) k = map_option g (find (\<lambda>x. f x = k) xs)"
  by (induction xs) auto

text \<open>Assigning behind all other keys, as a loop over another map does.\<close>

lemma map_assign_end: "\<forall>x \<in> fst ` set m. x < k \<Longrightarrow> map_assign k v m = m @ [(k, v)]"
  by (induction k v m rule: map_assign.induct) (auto dest: less_asym)

lemma map_assign_last: "\<forall>x \<in> fst ` set m. x < k \<Longrightarrow> map_assign k v (m @ [(k, w)]) = m @ [(k, v)]"
  by (induction k v m rule: map_assign.induct) (auto dest: less_asym)

lemma map_find_append: "map_find k (m @ m') = (case map_find k m of None \<Rightarrow> map_find k m' | Some v \<Rightarrow> Some v)"
  by (induction k m rule: map_find.induct) auto

lemma map_find_end: "\<forall>x \<in> fst ` set m. x < k \<Longrightarrow> map_find k m = None" for k :: "'k::linorder"
  by (auto simp: map_find_None_notin)

lemma map_wf_filter: "map_wf m \<Longrightarrow> map_wf (filter P m)"
  by (auto simp: map_wf_def sorted_wrt_map intro: sorted_wrt_filter)

lemma map_wf_append: "map_wf (m @ m') \<longleftrightarrow> map_wf m \<and> map_wf m' \<and> (\<forall>x \<in> fst ` set m. \<forall>y \<in> fst ` set m'. x < y)"
  by (auto simp: map_wf_def sorted_wrt_append)

lemma fold_assign_copy: "map_wf (m @ xs) \<Longrightarrow> fold (\<lambda>(a, b). map_assign a b) xs m = m @ xs"
proof (induction xs arbitrary: m)
  case (Cons p xs)
  obtain a b where p: "p = (a, b)" by (cases p)
  have "map_assign a b m = m @ [(a, b)]"
    using Cons.prems by (intro map_assign_end) (auto simp: p map_wf_append)
  then show ?case using Cons.IH [of "m @ [(a, b)]"] Cons.prems by (simp add: p)
qed simp

section \<open>Vectors and repeated fields\<close>

text \<open>Erasing the first element that satisfies a test, as an iterator loop with \<open>break\<close> does.\<close>

fun erase_first :: "('a \<Rightarrow> bool) \<Rightarrow> 'a list \<Rightarrow> 'a list" where
  "erase_first P [] = []"
| "erase_first P (x # xs) = (if P x then xs else x # erase_first P xs)"

text \<open>Replacing the first element that satisfies a test.\<close>

fun update_first :: "('a \<Rightarrow> bool) \<Rightarrow> ('a \<Rightarrow> 'a) \<Rightarrow> 'a list \<Rightarrow> 'a list" where
  "update_first P f [] = []"
| "update_first P f (x # xs) = (if P x then f x # xs else x # update_first P f xs)"

lemma set_erase_first_subset: "set (erase_first P xs) \<subseteq> set xs"
  by (induction xs) auto

lemma length_erase_first: "length (erase_first P xs) = (if \<exists>x \<in> set xs. P x then length xs - 1 else length xs)"
proof (induction xs)
  case (Cons x xs)
  then show ?case by (cases xs) auto
qed simp

lemma length_erase_first_le: "length (erase_first P xs) \<le> length xs"
  by (induction xs) auto

lemma distinct_map_erase_first: "distinct (map f xs) \<Longrightarrow> distinct (map f (erase_first P xs))"
  using set_erase_first_subset by (induction xs) (auto, fastforce)

lemma map_update_first: "(\<And>x. P x \<Longrightarrow> g (f x) = g x) \<Longrightarrow> map g (update_first P f xs) = map g xs"
  by (induction xs) auto

lemma length_update_first [simp]: "length (update_first P f xs) = length xs"
  by (induction xs) auto

end
