(* ===== verification/Messages.thy ===== *)
theory Messages
  imports Std_Map
begin

text \<open>
  The data the servers exchange: the protobuf messages of \<open>message/common.proto\<close> and
  \<open>message/dream_heroes.proto\<close> as records and datatypes with the names of the source,
  and the effects a handler of the game server has outside its own state (a message to the
  client, a row for the record tables, a task for the HTTP thread, a statement for the
  database server).

  The C++ enums \<open>SubType\<close>, \<open>LotionUseType\<close>, \<open>enLotteryBox\<close> and \<open>DealStatusType\<close> are
  filled from database columns by unchecked casts, so a variable of such a type can hold any
  integer; they are integers here, with the enumerators as constants.
\<close>

section \<open>Error codes\<close>

datatype (plugins only: size) GameError =
    Error_NO
  | Error_CanNotEnterGameTheInstanceIsLock
  | Error_CanNotEnterGameTheCharacterIsLock
  | Error_CanNotEnterGameTheSectionIsLock
  | Error_CanNotEnterGameNotEnoughSpirit
  | Error_CanNotBuyHeroNotEnoughgold
  | Error_CanNotPassGameTheInstanceNotHaveEnoughGold
  | Error_NotEnterTheExitGame
  | Error_NotFoundTheChapterWhenEnterGame
  | Error_TheChapterIsNotLock
  | Error_UnlockChapterFailedNotFoundTheUnlockChapter
  | Error_UnlockChapterFailedTheRequiredSectionNotPass
  | Error_UnlockChapterFailedYouHaveToCompleteEnoughTasks
  | Error_UnlockChapterFailedYouNotHaveEnoughGold
  | Error_RefreshAdvertisementTaskFailedInCD
  | Error_RefreshAdvertisementTaskFailedNotFoundGiveUpTaskID
  | Error_RefreshAdvertisementTaskFailedUnknow
  | Error_RefreshAdvertisementTaskFailedNotEnoughGold
  | Error_BuyHeroFailedNotEnoughGold
  | Error_BuyHeroFailedThePriceIsOld
  | Error_BuyHeroFailedNotFoundGrid
  | Error_BuyHeroFailedNotPassRequiredSection
  | Error_ModifyCurrentFailedTheCharacterIsLock
  | Error_BuyGoldFailedNotFoundConfig
  | Error_BuyGoldFailedNotFoundOrder
  | Error_BuyGoldFailedTheOrderHaveBeenCompleted
  | Error_CreateDealFailedTheHttpErrorRespone
  | Error_CreateDealFailedTheHttpResponeFailed
  | Error_CreateDealDailedTheHttpResponeErrorProduct_id
  | Error_VerifyDealFailedTheHttpErrorRespone
  | Error_VerifyDealFailedTheHttpResponeFailed
  | Error_BuySpiritFailedNotEnoughJewel
  | Error_BuySpiritFailedCanNotBuyMoreSpirit
  | Error_BuySpiritFailedNotFoundConfig
  | Error_CmdFailedRequiredGMLevel
  | Error_ReliveFailedNotEnoughGod
  | Error_FailedToBuyLotionNotEnoughGold
  | Error_FailedToBuyLotionNotEnoughJewel
  | Error_FailedToBuyLotionAlreadyHaveLotion
  | Error_FailedToBuyNotFoundThisLotion
  | Error_FailedExitGameNotFoundTheUseLotion
  | Error_FailedToLotteryTodayHaveBeenLotteried
  | Error_FailedToLotteryNothingCanBeLotteried
  | Error_FailedToLotteryErrorRating
  | Error_FailedToLotteryErrorLotionConfig
  | Error_FailedToApplyDealOrderNotFooundConfig
  | Error_FailedToEnterDailyGameYouHaveBeenAlreadyBeginGame
  | Error_FailedToUpdateDailyProgressErrorProgress
  | Error_FailedToUpdateDailyProgressTheGameNotBegin
  | Error_FailedToUpdateDailyProgressNoHp
  | Error_FailedToUpdateDailyProgressIsMaxProgress
  | Error_FailedToReceivedDailyGamePrizeNOPrize
  | Error_FailedToResetDailyGameNotEnoughJewel
  | Error_FailedToResetDailyGameUseOut
  | Error_FailedToResetDailyGameTheProgressIsZero
  | Error_FailedToResetDailyGameTheTheHpIsFull
  | Error_FailedToConcernWeiXinHaveBeenConcernedWeiXin
  | Error_FailedToConcernWeiXinErrorCdkey
  | Error_FailedToConcernWeiXinErrorCanNotConcernWeiXin
  | Error_Unknow

section \<open>Enumerations kept as integers\<close>

abbreviation (input) LotionUseType_gold :: int where "LotionUseType_gold \<equiv> 1"
abbreviation (input) LotionUseType_jewel :: int where "LotionUseType_jewel \<equiv> 2"

abbreviation (input) Lottery_Jewel :: int where "Lottery_Jewel \<equiv> 0"
abbreviation (input) Lottery_Gold :: int where "Lottery_Gold \<equiv> 1"
abbreviation (input) Lottery_Lotion :: int where "Lottery_Lotion \<equiv> 2"

abbreviation (input) DealStatusType_WaitToPay :: int where "DealStatusType_WaitToPay \<equiv> 0"
abbreviation (input) DealStatusType_WaitPrepareToPay :: int where "DealStatusType_WaitPrepareToPay \<equiv> 1"
abbreviation (input) DealStatusType_Complete :: int where "DealStatusType_Complete \<equiv> 2"
abbreviation (input) DealStatusType_WaitPrepareToVerify :: int where "DealStatusType_WaitPrepareToVerify \<equiv> 3"
abbreviation (input) DealStatusType_Failed :: int where "DealStatusType_Failed \<equiv> 4"

section \<open>Message bodies\<close>

type_synonym MsgIntPair = "int \<times> int"
type_synonym MsgIntBoolPair = "int \<times> bool"

record MsgObjConfig =
  obj_type :: int
  obj_id :: int

record MsgDropBoxConfig =
  box_obj :: MsgObjConfig
  box_base_gold :: int
  box_random_gold :: int

record MsgTaskInfo =
  taskid :: int
  argument_1 :: int
  usetime :: int

record MsgTaskConditionInfo =
  tasktype :: int
  cond_argument_1 :: int
  cond_argument_2 :: int

record MsgTaskConfigInfo =
  config_taskid :: int
  task_condition :: "MsgTaskConditionInfo list"
  require_time :: int
  require_unlock_chapter :: int
  require_unlock_section :: int
  require_unlock_complete_task_count :: int
  gift_gold :: int
  difficulty :: int
  task_describe :: string

record MsgShopConfigInfo =
  grid_id :: int
  hero_id :: int
  shop_require_gold :: int
  cheape_gold :: int
  shop_require_chapter_id :: int
  shop_require_section_id :: int
  shop_describe :: string
  shop_open :: bool

record MsgChapterConfigInfo =
  chapter_id :: int
  required_chapter_id :: int
  required_section_id :: int
  required_task_complete_count :: int
  require_gold :: int
  max_section_count :: int
  chapter_describe :: string

text \<open>The price in real money of a gold shop entry is only passed on to the client; it is kept
  as the text of its database column.\<close>

record MsgGoldShopConfigInfo =
  gs_id :: int
  gs_resource_id :: int
  gs_gold :: int
  gs_money :: string
  gs_describe :: string
  gs_jewel :: int
  gs_product_id :: string

record MsgSpiritShopInfo =
  spirit_index :: int
  spirit_amount :: int
  need_jewel :: int
  spirit_resource_id :: int
  spirit_describe :: string

record MsgLotionShopConfigInfo =
  lotion_id :: int
  use_type :: int
  use_count :: int
  lotion_resource_id :: int
  big_resource_id :: int
  lotion_describe :: string
  lotion_name :: string
  spell_id :: int

record MsgHeroData =
  hero_name :: string
  gold :: int
  records :: "MsgIntPair list"
  heroes :: "bool list"
  tasks :: "MsgTaskInfo list"
  current_hero :: int
  complete_task_count :: int
  new_tutorial :: int
  jewel :: int
  spirit :: int
  day_buy_spirit :: int
  lotions :: "int list"
  daily_game_progress :: int
  daily_game_gold :: int
  daily_game_score :: int
  daily_game_hp_pct :: int
  daily_game_record_progress :: int
  daily_reset_game_count :: int
  daily_top_grogress :: int
  daily_game_anger :: int
  concern_weixin :: bool
  grid_notify_state :: "MsgIntBoolPair list"

record MsgMapSpecialKill =
  kill_chapter_id :: int
  kill_section_id :: int
  kills :: "MsgObjConfig list"

record MsgDealInfo =
  deal_order :: int
  deal_product_id :: string
  deal_status :: int
  deal_complete_status :: int
  deal_cur_receipt :: string

record MsgHeroDataDB2GS =
  db_account :: int
  db_data :: MsgHeroData
  db_current_chapter :: int
  db_current_section :: int
  db_free_task_count :: int
  db_last_task_advertisement_time :: int
  db_special_kills :: "MsgMapSpecialKill list"
  db_gm_level :: int
  db_deals :: "MsgDealInfo list"
  db_special_creatures :: "MsgIntPair list"
  db_last_recover_spirit_time :: int
  db_last_buy_spirit_time :: int
  db_last_lottery_time :: int
  db_daily_game_time :: int
  db_daily_game_prize_time :: int
  db_last_daily_reset_game_time :: int

record MsgC2SReqExitGame =
  exit_chapter_id :: int
  exit_section_id :: int
  exit_task_infos :: "MsgTaskInfo list"
  exit_gold :: int
  exit_success :: bool
  exit_complete_tasks :: "int list"
  exit_special_kill_list :: "MsgObjConfig list"
  exit_special_creatures :: "MsgIntPair list"
  exit_use_lotions :: "int list"

record MsgS2CExitGameACK =
  ack_chapter_id :: int
  ack_section_id :: int
  ack_task_infos :: "MsgTaskInfo list"
  ack_current_gold :: int
  ack_task_gift :: "MsgIntPair list"
  ack_success :: bool
  ack_complete_task_count :: int
  ack_error :: GameError
  ack_special_creatures :: "MsgIntPair list"
  ack_current_lotions :: "int list"

record MsgS2CHeroesInit =
  init_info :: MsgHeroData
  init_task_config_infos :: "MsgTaskConfigInfo list"
  init_free_advertisement_config_count :: int
  init_current_advertisement_count :: int
  init_last_advertisement_time :: int
  init_advertisement_time_cd :: int
  init_gm_level :: int
  init_special_creatures :: "MsgIntPair list"
  init_relive_gold :: int
  init_refresh_task_gold :: int
  init_max_spirit :: int
  init_config_recover_spirit_minute :: int
  init_config_recover_spirit :: int
  init_config_enter_game_use_spirit :: int
  init_sprit_shop_infos :: "MsgSpiritShopInfo list"
  init_config_day_buy_spirit :: int
  init_last_recover_spirit_time :: int
  init_last_buy_spirit_time :: int
  init_day_refresh_time :: int
  init_lotion_shop_configs :: "MsgLotionShopConfigInfo list"
  init_last_lottery_time :: int
  init_server_time :: int
  init_daily_game_time :: int
  init_reset_jewel_configs :: "int list"
  init_daily_game_record_configs :: "int list"
  init_last_reset_daily_game_time :: int
  init_max_daily_game_progress :: int
  init_concern_weixin_config :: bool
  init_concern_weixin_gold :: int

record MsgActivity =
  activity_id :: int
  activity_name :: string
  activity_time_describe :: string
  activity_describe :: string

section \<open>Messages of a client and answers of the game server\<close>

text \<open>The requests for which \<open>Session::registerPBCall\<close> registers a handler, and one
  constructor for every other message type.\<close>

datatype (plugins only: size) c2s =
    MsgC2SReqGameGlobalConfig
  | MsgC2SReqShopConfig
  | MsgC2SReqEnterGame int int
  | MsgC2SReqExitGame_msg MsgC2SReqExitGame
  | MsgC2SReqUnlockChapter int
  | MsgC2SReqAdvertisementApplyTask bool
  | MsgC2SReqAdvertisementRefreshTask int bool
  | MsgC2SReqGoldShopConfigs
  | MsgC2SReqBuyHero int int
  | MsgC2SReqModifyCurrentHero int
  | MsgC2SReqCrearteDeal string int
  | MsgC2SReqVerifyDeal string int
  | MsgC2SReqModifyNewTutorial int
  | MsgC2SReliveReq
  | MsgC2SReqBuySpirit int
  | MsgC2SReqConcernWeiXin string
  | MsgC2SCmdReqResetConcernWeiXin
  | MsgC2SCmdReqModifyGMLevel string int
  | MsgC2SCmdReqEnterGame int int
  | MsgC2SCmdReqResetMap int int
  | MsgC2SCmdReqResetGame
  | MsgC2SCmdReqModifyGold int
  | MsgS2CCmdReqReplaceTask int
  | MsgC2SCmdReqModifyTaskCompleteCount int
  | MsgC2SCmdReqSetSpecialCreatureHis int int
  | MsgC2SCmdReqRemoveSpecialCreatureListHis
  | MsgC2SCmdReqModifyJewel int
  | MsgC2SCmdReqModifySpirit int
  | MsgC2SReqBuyLotion int
  | MsgC2SReqDayLottery
  | MsgC2SReqEnterDailyGame
  | MsgC2SReqReceiveDailyGamePrize
  | MsgC2SReqUpdateDailyGameProgress int int int int
  | MsgC2SCmdReqResetDailyLottery
  | MsgC2SCmdReqResetDailyGame
  | MsgC2SReqResetDailyGameProgress
  | MsgC2SReqDailyGameRankList
  | MsgC2SCmdClearDailyRankList
  | MsgC2SReqActivityAnnouncement
  | MsgC2SReqModifyNotifyGridState "MsgIntBoolPair list"
  | MsgUnregistered string

text \<open>Answers carry their fields in the order of the proto file.\<close>

datatype (plugins only: size) s2c =
    MsgS2CEnterGameACK int int "MsgDropBoxConfig list" "MsgObjConfig list" GameError int
  | MsgS2CExitGameACK_msg MsgS2CExitGameACK
  | MsgS2CUnlockChapterACK int int GameError
  | MsgS2CAdvertisementApplyTaskACK GameError "MsgTaskConfigInfo list" int
  | MsgS2CAdvertisementRefreshTaskACK int GameError "MsgTaskConfigInfo list" int
  | MsgS2CModifyCurrentHeroACK int GameError
  | MsgS2CBuyHeroACK int int GameError
  | MsgS2CGoldShopConfigsACK "MsgGoldShopConfigInfo list" int int
  | MsgS2CCrearteDealACK string string int int int GameError string
  | MsgS2CVerifyDealACK string int int int int GameError
  | MsgS2CApplyDealACK int string string GameError
  | MsgS2CRecoverSpiritNotify int
  | MsgS2CModifyNewTutorialACK int
  | MsgS2CReliveACK int GameError
  | MsgS2CActivityAnnouncementACK "MsgActivity list"
  | MsgS2CCmdClearDailyRankListACK GameError
  | MsgS2CCmdNotifySpecialCreatureHisModify "MsgIntPair list"
  | MsgS2CCmdModifyTaskCompleteCountACK int
  | MsgS2CCmdModifyGMLevelACK string int GameError
  | MsgS2CCmdResetMapACK int int GameError
  | MsgS2CCmdResetGameACK MsgHeroData int int GameError
  | MsgS2CCmdModifyGoldACK int
  | MsgS2CCmdReplaceTaskACK GameError "MsgTaskConfigInfo list"
  | MsgS2CCmdModifyJewelACK int GameError
  | MsgS2CCmdModifySpiritACK int GameError
  | MsgS2CCmdResetDailyLotteryACK GameError
  | MsgS2CCmdResetDailyGameACK GameError
  | MsgS2CCmdResetConcernWeiXinACK GameError
  | MsgS2CResetDailyGameProgressACK GameError int int int int
  | MsgS2CUpdateDailyGameProgressACK int int int int GameError int int int int
  | MsgS2CNotifyDailyGamePrize int int
  | MsgS2CReceiveDailyGamePrizeACK int GameError
  | MsgS2CModifyNotifyGridStateACK "MsgIntBoolPair list"
  | MsgS2CNotifyError GameError
  | MsgS2CShopConfigACK "MsgShopConfigInfo list"
  | MsgS2CSGameGlobalConfigACK "MsgChapterConfigInfo list"
  | MsgS2CNewTaskNotify MsgTaskConfigInfo
  | MsgS2CHeroesInit_msg MsgS2CHeroesInit
  | MsgS2CDayLotteryACK GameError int int int int int "int list" int
  | MsgS2CBuyLotionACK int int int GameError
  | MsgS2CBuySpiritACK int int int GameError
  | MsgS2CDailyGameRankListACK "(string \<times> int \<times> int) list"
  | MsgS2CConcernWeiXinACK int int GameError

end
