(* ===== verification/RecordManager.thy ===== *)
theory RecordManager
  imports Messages
begin

text \<open>
  \<open>gameserver/RecordManager.cpp\<close>: the log of game events. Every event becomes one row of a
  record table, queued per table; \<open>update\<close>, called once per server frame, empties the queues
  into \<open>insert\<close> statements of at most ten rows for the database server.

  A row is the list of its column values; the column that holds the current time is
  \<open>SNow\<close> with the server clock. A statement text is the list of the pieces the code
  concatenates: the table's head, commas and rows.
\<close>

datatype sqlval = SInt int | SStr string | SNow int

type_synonym row = "sqlval list"

datatype (plugins only: size) RecordType =
    RecordTypeLogin | RecordTypeLoginOut | RecordTypeEnterGame | RecordTypeLeaveGame
  | RecordTypeTaskComplete | RecordTypeTaskAccepte | RecordTypeTaskGiveUp
  | RecordTypeChapterUnlock | RecordTypeGoldModify | RecordTypeBuyHero
  | RecordTypeDealWaitToPay | RecordTypeDealToPay | RecordTypeWaitToVerify
  | RecordTypeGiveUpDeal | RecordTypeRelive | RecordTypeOnlineCount | RecordTypeBuySpirit
  | RecordDailyGame | RecordDailyGameReward | RecordDailyLotteryRecord | RecordCreateName

datatype (plugins only: size) GoldModifyType =
    GoldModify_LeaveGame | GoldModify_KillMonster | GoldModify_CompleteTask
  | GoldModify_UnlockChapter | GoldModify_BuyHero | GoldModify_BuyGold | GoldModify_AcceptTask
  | GoldModify_ReliveRecord | GoldModify_DailyGameReward | GoldModify_DailyLottery
  | GoldModify_DailyConcernWeiXin

fun gold_modify_int :: "GoldModifyType \<Rightarrow> int" where
  "gold_modify_int GoldModify_LeaveGame = 0"
| "gold_modify_int GoldModify_KillMonster = 1"
| "gold_modify_int GoldModify_CompleteTask = 2"
| "gold_modify_int GoldModify_UnlockChapter = 3"
| "gold_modify_int GoldModify_BuyHero = 4"
| "gold_modify_int GoldModify_BuyGold = 5"
| "gold_modify_int GoldModify_AcceptTask = 6"
| "gold_modify_int GoldModify_ReliveRecord = 7"
| "gold_modify_int GoldModify_DailyGameReward = 8"
| "gold_modify_int GoldModify_DailyLottery = 9"
| "gold_modify_int GoldModify_DailyConcernWeiXin = 10"

section \<open>The tables\<close>

text \<open>The constructor fills one \<open>insert\<close> head per table: its name and its columns.\<close>

fun sql_head :: "RecordType \<Rightarrow> string \<times> string list" where
  "sql_head RecordTypeLogin = (''login_record'', [''account_id'', ''nick_name'', ''record_time''])"
| "sql_head RecordTypeLoginOut = (''login_out_record'', [''account_id'', ''nick_name'', ''record_time''])"
| "sql_head RecordTypeEnterGame = (''enter_game_record'', [''account_id'', ''nick_name'', ''chapter_id'', ''section_id'', ''current_gold'', ''record_time''])"
| "sql_head RecordTypeLeaveGame = (''leave_game_record'', [''account_id'', ''nick_name'', ''chapter_id'', ''section_id'', ''success'', ''gold'', ''current_gold'', ''record_time''])"
| "sql_head RecordTypeTaskComplete = (''task_complete_record'', [''account_id'', ''nick_name'', ''chapter_id'', ''section_id'', ''task_id'', ''gold'', ''current_gold'', ''record_time''])"
| "sql_head RecordTypeTaskAccepte = (''task_accepte_record'', [''account_id'', ''nick_name'', ''gold'', ''current_gold'', ''task_id'', ''record_time''])"
| "sql_head RecordTypeTaskGiveUp = (''task_give_up_record'', [''account_id'', ''nick_name'', ''task_id'', ''record_time''])"
| "sql_head RecordTypeChapterUnlock = (''chapter_unlock_record'', [''account_id'', ''nick_name'', ''chapter_id'', ''gold'', ''current_gold'', ''record_time''])"
| "sql_head RecordTypeGoldModify = (''modify_gold_record'', [''account_id'', ''nick_name'', ''gold'', ''current_gold'', ''modify_type'', ''record_time''])"
| "sql_head RecordTypeBuyHero = (''buy_hero_record'', [''account_id'', ''nick_name'', ''grid_hero'', ''gold'', ''current_gold'', ''record_time''])"
| "sql_head RecordTypeDealWaitToPay = (''deal_wait_to_pay'', [''account_id'', ''status'', ''price'', ''order_id'', ''product_id'', ''record_time''])"
| "sql_head RecordTypeDealToPay = (''deal_to_pay'', [''account_id'', ''status'', ''order_id'', ''modify_gold'', ''current_gold'', ''product_id'', ''modify_jewel'', ''current_jewel'', ''record_time''])"
| "sql_head RecordTypeGiveUpDeal = (''give_up_deal'', [''account_id'', ''status'', ''price'', ''order_id'', ''product_id'', ''record_time''])"
| "sql_head RecordTypeWaitToVerify = (''deal_wait_to_verify_reocrd'', [''account_id'', ''order_id'', ''name'', ''receipt'', ''record_time''])"
| "sql_head RecordTypeRelive = (''relive_record'', [''account_id'', ''nick_name'', ''gold'', ''current_gold'', ''record_time''])"
| "sql_head RecordTypeOnlineCount = (''game_online_record'', [''online_player_count'', ''offline_player_count'', ''record_time''])"
| "sql_head RecordTypeBuySpirit = (''buy_spirit_record'', [''account_id'', ''nick_name'', ''spirit'', ''day_buy_count'', ''current_spirit'', ''use_jewel'', ''current_jewel'', ''record_time''])"
| "sql_head RecordDailyGame = (''daily_game_record'', [''account_id'', ''nick_name'', ''daily_game_rank'', ''daily_game_score'', ''record_time''])"
| "sql_head RecordDailyGameReward = (''daily_game_reward'', [''account_id'', ''nick_name'', ''daily_game_rank'', ''daily_gold'', ''current_gold'', ''record_time''])"
| "sql_head RecordDailyLotteryRecord = (''daily_lottery_record'', [''account_id'', ''nick_name'', ''daily_gold'', ''current_gold'', ''daily_jewel'', ''current_jewel'', ''lottery_lotion'', ''record_time''])"
| "sql_head RecordCreateName = (''create_name_record'', [''name'', ''day_create_count'', ''day_title'', ''record_time''])"

text \<open>A pushed row has one value for each column of its table.\<close>

definition row_fits :: "RecordType \<times> row \<Rightarrow> bool" where
  "row_fits p \<longleftrightarrow> length (snd p) = length (snd (sql_head (fst p)))"

section \<open>One row per event\<close>

text \<open>Each operation lists the rows it pushes, in order, with their table.\<close>

type_synonym pushes = "(RecordType \<times> row) list"

definition goldModifyRecord :: "int \<Rightarrow> int \<Rightarrow> string \<Rightarrow> int \<Rightarrow> int \<Rightarrow> GoldModifyType \<Rightarrow> pushes" where
  "goldModifyRecord now acc nick_name g current_gold en =
     [(RecordTypeGoldModify, [SInt acc, SStr nick_name, SInt g, SInt current_gold, SInt (gold_modify_int en), SNow now])]"

definition generateNameRecord :: "int \<Rightarrow> string \<Rightarrow> int \<Rightarrow> string \<Rightarrow> pushes" where
  "generateNameRecord now nick_name day_create_count day_title =
     [(RecordCreateName, [SStr nick_name, SInt day_create_count, SStr day_title, SNow now])]"

text \<open>The table's columns are \<open>daily_gold, current_gold, daily_jewel, current_jewel,
  lottery_lotion\<close>; the row lists jewel, current jewel, gold and current jewel again.\<close>

definition dailyLotteryRecord :: "int \<Rightarrow> int \<Rightarrow> string \<Rightarrow> int \<Rightarrow> int \<Rightarrow> int \<Rightarrow> int \<Rightarrow> int \<Rightarrow> pushes" where
  "dailyLotteryRecord now acc nick_name j current_jewel g current_gold lotion =
     (RecordDailyLotteryRecord, [SInt acc, SStr nick_name, SInt j, SInt current_jewel, SInt g, SInt current_jewel, SInt lotion, SNow now])
     # (if g \<noteq> 0 then goldModifyRecord now acc nick_name g current_gold GoldModify_DailyLottery else [])"

definition dailyGameRewardRecord :: "int \<Rightarrow> int \<Rightarrow> string \<Rightarrow> int \<Rightarrow> int \<Rightarrow> int \<Rightarrow> pushes" where
  "dailyGameRewardRecord now acc nick_name daily_game_rank daily_gold current_gold =
     (RecordDailyGameReward, [SInt acc, SStr nick_name, SInt daily_game_rank, SInt daily_gold, SInt current_gold, SNow now])
     # (if daily_gold \<noteq> 0 then goldModifyRecord now acc nick_name daily_gold current_gold GoldModify_DailyGameReward else [])"

definition dailyGameRecord :: "int \<Rightarrow> int \<Rightarrow> string \<Rightarrow> int \<Rightarrow> int \<Rightarrow> pushes" where
  "dailyGameRecord now acc nick_name daily_game_rank score =
     [(RecordDailyGame, [SInt acc, SStr nick_name, SInt daily_game_rank, SInt score, SNow now])]"

definition reliveRecord :: "int \<Rightarrow> int \<Rightarrow> string \<Rightarrow> int \<Rightarrow> int \<Rightarrow> pushes" where
  "reliveRecord now acc nick_name g current_gold =
     [(RecordTypeRelive, [SInt acc, SStr nick_name, SInt g, SInt current_gold, SNow now])]"

definition buySpiritRecord :: "int \<Rightarrow> int \<Rightarrow> string \<Rightarrow> int \<Rightarrow> int \<Rightarrow> int \<Rightarrow> int \<Rightarrow> int \<Rightarrow> pushes" where
  "buySpiritRecord now acc nick_name sp day_buy_count current_spirit use_jewel current_jewel =
     [(RecordTypeBuySpirit, [SInt acc, SStr nick_name, SInt sp, SInt day_buy_count, SInt current_spirit, SInt use_jewel, SInt current_jewel, SNow now])]"

definition loginRecord :: "int \<Rightarrow> int \<Rightarrow> string \<Rightarrow> pushes" where
  "loginRecord now acc nick_name = [(RecordTypeLogin, [SInt acc, SStr nick_name, SNow now])]"

definition loginOutRecord :: "int \<Rightarrow> int \<Rightarrow> string \<Rightarrow> pushes" where
  "loginOutRecord now acc nick_name = [(RecordTypeLoginOut, [SInt acc, SStr nick_name, SNow now])]"

definition enterGameRecord :: "int \<Rightarrow> int \<Rightarrow> string \<Rightarrow> int \<Rightarrow> int \<Rightarrow> int \<Rightarrow> pushes" where
  "enterGameRecord now acc nick_name chapter section current_gold =
     [(RecordTypeEnterGame, [SInt acc, SStr nick_name, SInt chapter, SInt section, SInt current_gold, SNow now])]"

definition leaveGameRecord :: "int \<Rightarrow> int \<Rightarrow> string \<Rightarrow> int \<Rightarrow> int \<Rightarrow> bool \<Rightarrow> int \<Rightarrow> int \<Rightarrow> pushes" where
  "leaveGameRecord now acc nick_name chapter section success g current_gold =
     [(RecordTypeLeaveGame, [SInt acc, SStr nick_name, SInt chapter, SInt section, SInt (if success then 1 else 0), SInt g, SInt current_gold, SNow now])]"

definition taskCompleteRecord :: "int \<Rightarrow> int \<Rightarrow> string \<Rightarrow> int \<Rightarrow> int \<Rightarrow> int \<Rightarrow> int \<Rightarrow> int \<Rightarrow> pushes" where
  "taskCompleteRecord now acc nick_name chapter section task g current_gold =
     [(RecordTypeTaskComplete, [SInt acc, SStr nick_name, SInt chapter, SInt section, SInt task, SInt g, SInt current_gold, SNow now])]"

definition taskAccepteRecordRecord :: "int \<Rightarrow> int \<Rightarrow> string \<Rightarrow> int \<Rightarrow> int \<Rightarrow> int \<Rightarrow> pushes" where
  "taskAccepteRecordRecord now acc nick_name g current_gold task =
     [(RecordTypeTaskAccepte, [SInt acc, SStr nick_name, SInt g, SInt current_gold, SInt task, SNow now])]"

definition taskGiveUpRecord :: "int \<Rightarrow> int \<Rightarrow> string \<Rightarrow> int \<Rightarrow> pushes" where
  "taskGiveUpRecord now acc nick_name task =
     [(RecordTypeTaskGiveUp, [SInt acc, SStr nick_name, SInt task, SNow now])]"

definition chapterUnlockRecord :: "int \<Rightarrow> int \<Rightarrow> string \<Rightarrow> int \<Rightarrow> int \<Rightarrow> int \<Rightarrow> pushes" where
  "chapterUnlockRecord now acc nick_name chapter g current_gold =
     goldModifyRecord now acc nick_name g current_gold GoldModify_UnlockChapter @
     [(RecordTypeChapterUnlock, [SInt acc, SStr nick_name, SInt chapter, SInt g, SInt current_gold, SNow now])]"

definition buyHeroRecord :: "int \<Rightarrow> int \<Rightarrow> string \<Rightarrow> int \<Rightarrow> int \<Rightarrow> int \<Rightarrow> pushes" where
  "buyHeroRecord now acc nick_name grid g current_gold =
     goldModifyRecord now acc nick_name g current_gold GoldModify_BuyHero @
     [(RecordTypeBuyHero, [SInt acc, SStr nick_name, SInt grid, SInt g, SInt current_gold, SNow now])]"

definition dealWaitToPayRecord :: "int \<Rightarrow> int \<Rightarrow> string \<Rightarrow> int \<Rightarrow> int \<Rightarrow> int \<Rightarrow> pushes" where
  "dealWaitToPayRecord now acc key_code status price order_id =
     [(RecordTypeDealWaitToPay, [SInt acc, SInt status, SInt price, SInt order_id, SStr key_code, SNow now])]"

definition dealWaitToVerifyRecord :: "int \<Rightarrow> int \<Rightarrow> string \<Rightarrow> int \<Rightarrow> string \<Rightarrow> pushes" where
  "dealWaitToVerifyRecord now acc nm order_id receipt =
     [(RecordTypeWaitToVerify, [SInt acc, SInt order_id, SStr nm, SStr receipt, SNow now])]"

definition dealPayRecord :: "int \<Rightarrow> int \<Rightarrow> string \<Rightarrow> int \<Rightarrow> int \<Rightarrow> int \<Rightarrow> int \<Rightarrow> int \<Rightarrow> int \<Rightarrow> pushes" where
  "dealPayRecord now acc key_code status order_id modify_gold current_gold modify_jewel current_jewel =
     [(RecordTypeDealToPay, [SInt acc, SInt status, SInt order_id, SInt modify_gold, SInt current_gold, SStr key_code, SInt modify_jewel, SInt current_jewel, SNow now])]"

definition gameOnlineRecord :: "int \<Rightarrow> int \<Rightarrow> int \<Rightarrow> pushes" where
  "gameOnlineRecord now online_count offline_count =
     [(RecordTypeOnlineCount, [SInt online_count, SInt offline_count, SNow now])]"

definition giveUpDealRecord :: "int \<Rightarrow> int \<Rightarrow> string \<Rightarrow> int \<Rightarrow> int \<Rightarrow> int \<Rightarrow> pushes" where
  "giveUpDealRecord now acc key_code status price order_id =
     [(RecordTypeGiveUpDeal, [SInt acc, SInt status, SInt price, SInt order_id, SStr key_code, SNow now])]"

section \<open>The queues and their flush\<close>

text \<open>The pieces of a statement text, over the type of the rows.\<close>

datatype 'r sqlpiece = Head | Comma | Row 'r

type_synonym record_manager = "RecordType \<Rightarrow> row list"

definition push_back :: "record_manager \<Rightarrow> RecordType \<times> row \<Rightarrow> record_manager" where
  "push_back m p = m(fst p := m (fst p) @ [snd p])"

definition record_types :: "RecordType list" where
  "record_types =
     [RecordTypeLogin, RecordTypeLoginOut, RecordTypeEnterGame, RecordTypeLeaveGame,
      RecordTypeTaskComplete, RecordTypeTaskAccepte, RecordTypeTaskGiveUp,
      RecordTypeChapterUnlock, RecordTypeGoldModify, RecordTypeBuyHero,
      RecordTypeDealWaitToPay, RecordTypeDealToPay, RecordTypeWaitToVerify,
      RecordTypeGiveUpDeal, RecordTypeRelive, RecordTypeOnlineCount, RecordTypeBuySpirit,
      RecordDailyGame, RecordDailyGameReward, RecordDailyLotteryRecord, RecordCreateName]"

text \<open>The inner loop over one queue: \<open>j\<close> counts the rows of the statement under
  construction, \<open>sql\<close> is its text; the result is the list of statements sent.\<close>

fun update_queue :: "'r list \<Rightarrow> nat \<Rightarrow> 'r sqlpiece list \<Rightarrow> 'r sqlpiece list list" where
  "update_queue [] j sql = (if sql = [] then [] else [sql])"
| "update_queue (r # rs) j sql =
     (if 10 \<le> j
      then sql # update_queue rs 1 [Head, Row r]
      else update_queue rs (Suc j) (sql @ (if j = 0 then [Head] else [Comma]) @ [Row r]))"

fun update_types :: "record_manager \<Rightarrow> RecordType list \<Rightarrow> (RecordType \<times> row sqlpiece list) list" where
  "update_types m [] = []"
| "update_types m (t # ts) = map (Pair t) (update_queue (m t) 0 []) @ update_types m ts"

definition record_update :: "record_manager \<Rightarrow> record_manager \<times> (RecordType \<times> row sqlpiece list) list" where
  "record_update m = ((\<lambda>_. []), update_types m record_types)"

section \<open>What a statement inserts\<close>

text \<open>The text of a statement is well formed when it is the head followed by rows separated by
  commas; \<open>stmt_rows\<close> reads the rows off a well formed text.\<close>

fun comma_rows :: "'r list \<Rightarrow> 'r sqlpiece list" where
  "comma_rows [] = []"
| "comma_rows (r # rs) = Comma # Row r # comma_rows rs"

fun stmt :: "'r list \<Rightarrow> 'r sqlpiece list" where
  "stmt [] = []"
| "stmt (r # rs) = Head # Row r # comma_rows rs"

fun stmt_rows :: "'r sqlpiece list \<Rightarrow> 'r list" where
  "stmt_rows [] = []"
| "stmt_rows (Row r # ps) = r # stmt_rows ps"
| "stmt_rows (_ # ps) = stmt_rows ps"

definition stmt_ok :: "'r sqlpiece list \<Rightarrow> bool" where
  "stmt_ok ps \<longleftrightarrow> ps \<noteq> [] \<and> ps = stmt (stmt_rows ps)"

lemma comma_rows_append: "comma_rows (xs @ ys) = comma_rows xs @ comma_rows ys"
  by (induction xs) auto

lemma stmt_snoc: "xs \<noteq> [] \<Longrightarrow> stmt (xs @ [r]) = stmt xs @ [Comma, Row r]"
  by (cases xs) (auto simp: comma_rows_append)

lemma stmt_Nil_iff [simp]: "stmt xs = [] \<longleftrightarrow> xs = []"
  by (cases xs) auto

lemma stmt_rows_comma_rows [simp]: "stmt_rows (comma_rows xs) = xs"
  by (induction xs) auto

lemma stmt_rows_stmt [simp]: "stmt_rows (stmt xs) = xs"
  by (cases xs) auto

lemma stmt_ok_stmt [simp]: "stmt_ok (stmt xs) \<longleftrightarrow> xs \<noteq> []"
  by (simp add: stmt_ok_def)

text \<open>The reference: cut the queue into pieces of ten and send one statement per piece.\<close>

function chunks :: "nat \<Rightarrow> 'a list \<Rightarrow> 'a list list" where
  "chunks n xs = (if xs = [] \<or> n = 0 then [] else take n xs # chunks n (drop n xs))"
  by pat_completeness auto
termination
  by (relation "measure (\<lambda>(n, xs). length xs)") auto

declare chunks.simps [simp del]

lemma chunks_Nil [simp]: "chunks n [] = []"
  by (simp add: chunks.simps)

lemma concat_chunks: "0 < n \<Longrightarrow> concat (chunks n xs) = xs"
proof (induction n xs rule: chunks.induct)
  case (1 n xs)
  then show ?case by (cases "xs = []") (simp_all add: chunks.simps [of n xs])
qed

lemma chunks_length: "c \<in> set (chunks n xs) \<Longrightarrow> c \<noteq> [] \<and> length c \<le> n"
proof (induction n xs rule: chunks.induct)
  case (1 n xs)
  then show ?case by (cases "xs = [] \<or> n = 0") (auto simp: chunks.simps [of n xs])
qed

lemma chunks_append: "length xs = n \<Longrightarrow> 0 < n \<Longrightarrow> chunks n (xs @ ys) = xs # chunks n ys"
  by (subst chunks.simps) auto

lemma chunks_short: "xs \<noteq> [] \<Longrightarrow> length xs \<le> n \<Longrightarrow> chunks n xs = [xs]"
  by (cases "n = 0") (simp_all add: chunks.simps [of n xs])

lemma update_queue_chunks:
  "acc \<noteq> [] \<Longrightarrow> length acc \<le> 10 \<Longrightarrow>
   update_queue rs (length acc) (stmt acc) = map stmt (chunks 10 (acc @ rs))"
proof (induction rs arbitrary: acc)
  case Nil
  then show ?case by (simp add: chunks_short)
next
  case (Cons r rs)
  show ?case
  proof (cases "10 \<le> length acc")
    case True
    then have len: "length acc = 10" using Cons.prems by simp
    have "update_queue rs 1 [Head, Row r] = map stmt (chunks 10 ([r] @ rs))"
      using Cons.IH [of "[r]"] by simp
    then show ?thesis
      using True len by (simp add: chunks_append)
  next
    case False
    then have "update_queue rs (length (acc @ [r])) (stmt (acc @ [r])) = map stmt (chunks 10 ((acc @ [r]) @ rs))"
      using Cons.prems by (intro Cons.IH) auto
    then show ?thesis
      using False Cons.prems by (simp add: stmt_snoc)
  qed
qed

lemma update_queue_spec: "update_queue rs 0 [] = map stmt (chunks 10 rs)"
proof (cases rs)
  case (Cons r rs')
  have "update_queue rs' (length [r]) (stmt [r]) = map stmt (chunks 10 ([r] @ rs'))"
    by (rule update_queue_chunks) auto
  then show ?thesis by (simp add: Cons)
qed simp

lemma update_types_spec:
  "update_types m ts = concat (map (\<lambda>t. map (Pair t \<circ> stmt) (chunks 10 (m t))) ts)"
  by (induction ts) (simp_all add: update_queue_spec)

lemma set_record_types: "t \<in> set record_types"
  by (cases t) (simp_all add: record_types_def)

lemma distinct_record_types: "distinct record_types"
  by (simp add: record_types_def)

text \<open>All rows of one table, in the order the statements insert them.\<close>

definition inserted :: "RecordType \<Rightarrow> (RecordType \<times> row sqlpiece list) list \<Rightarrow> row list" where
  "inserted t out = concat (map (stmt_rows \<circ> snd) (filter (\<lambda>p. fst p = t) out))"

lemma inserted_update_types:
  "distinct ts \<Longrightarrow> inserted t (update_types m ts) = (if t \<in> set ts then m t else [])"
proof (induction ts)
  case Nil
  then show ?case by (simp add: inserted_def)
next
  case (Cons a ts)
  have app: "inserted t (xs @ ys) = inserted t xs @ inserted t ys" for xs ys
    by (simp add: inserted_def)
  have one: "inserted t (map (Pair a) (update_queue (m a) 0 [])) = (if t = a then m a else [])"
    by (simp add: inserted_def update_queue_spec comp_def concat_chunks filter_map)
  show ?case using Cons by (auto simp: app one)
qed

section \<open>Properties\<close>

definition rows_fit :: "record_manager \<Rightarrow> bool" where
  "rows_fit m \<longleftrightarrow> (\<forall>t. list_all (\<lambda>r. row_fits (t, r)) (m t))"

lemma rows_fit_push_back: "rows_fit m \<Longrightarrow> row_fits p \<Longrightarrow> rows_fit (push_back m p)"
  by (cases p) (auto simp: rows_fit_def push_back_def)

lemma rows_fit_pushes: "rows_fit m \<Longrightarrow> list_all row_fits ps \<Longrightarrow> rows_fit (fold (\<lambda>p m. push_back m p) ps m)"
  by (induction ps arbitrary: m) (auto simp: rows_fit_push_back)

lemma update_types_rows:
  "p \<in> set (update_types m ts) \<Longrightarrow>
     snd p = stmt (stmt_rows (snd p)) \<and> stmt_rows (snd p) \<noteq> [] \<and> length (stmt_rows (snd p)) \<le> 10"
  by (auto simp: update_types_spec dest: chunks_length)

text \<open>
  One run of \<open>RecordManager::update\<close> inserts, table by table, exactly the queued rows in
  the order they were queued, and leaves every queue empty: no event is lost, written twice or
  written to another table.
\<close>

theorem record_update_inserts:
  "inserted t (snd (record_update m)) = m t \<and> fst (record_update m) t = []"
  by (simp add: record_update_def inserted_update_types distinct_record_types set_record_types)

text \<open>
  Every statement that \<open>RecordManager::update\<close> sends is a complete \<open>insert\<close>: the head of
  its table, then between one and ten rows separated by commas.
\<close>

theorem record_update_statements:
  "list_all (\<lambda>p. stmt_ok (snd p) \<and> 0 < length (stmt_rows (snd p)) \<and> length (stmt_rows (snd p)) \<le> 10)
     (snd (record_update m))"
  by (auto simp: record_update_def list_all_iff stmt_ok_def dest!: update_types_rows)

end
