(* ===== verification/Strings.thy ===== *)
theory Strings
  imports Std_Map
begin

text \<open>
  String handling of \<open>common/utilities.cpp\<close> and of the C library, as the database layer and
  the configuration loader use it: \<open>SplitStringA\<close>, \<open>atoi\<close> and the \<open>%d\<close> conversion of
  \<open>sprintf\<close>. \<open>SplitStringA\<close> is translated with its list of delimiter positions and proved
  equal to a one-pass reference for the one-character delimiters all callers pass; printing a
  number and reading it back gives the number.
\<close>

section \<open>SplitStringA\<close>

text \<open>\<open>std::string::find\<close>: the first occurrence of \<open>d\<close> at or after position \<open>p\<close>.\<close>

fun find_at :: "string \<Rightarrow> nat \<Rightarrow> string \<Rightarrow> nat option" where
  "find_at d i [] = (if d = [] then Some i else None)"
| "find_at d i (c # cs) = (if take (length d) (c # cs) = d then Some i else find_at d (Suc i) cs)"

definition str_find :: "string \<Rightarrow> string \<Rightarrow> nat \<Rightarrow> nat option" where
  "str_find s d p = (if length s < p then None else find_at d p (drop p s))"

lemma find_at_bounds: "find_at d i t = Some q \<Longrightarrow> i \<le> q \<and> q + length d \<le> i + length t"
proof (induction d i t rule: find_at.induct)
  case (2 d i c cs)
  show ?case
  proof (cases "take (length d) (c # cs) = d")
    case True
    then have "length d \<le> length (c # cs)" by (metis length_take min.absorb_iff1 min.commute)
    then show ?thesis using 2 True by simp
  next
    case False
    then show ?thesis using 2 by simp
  qed
qed (auto split: if_splits)

lemma str_find_bounds: "str_find s d p = Some q \<Longrightarrow> p \<le> q \<and> q + length d \<le> length s"
  using find_at_bounds [of d p "drop p s" q] by (auto simp: str_find_def split: if_splits)

text \<open>The \<open>while\<close> loop that collects the positions of the delimiter.\<close>

function split_positions :: "string \<Rightarrow> string \<Rightarrow> nat \<Rightarrow> nat list" where
  "split_positions s d p =
     (if d = [] then []
      else case str_find s d p of
             None \<Rightarrow> []
           | Some q \<Rightarrow> q # split_positions s d (q + length d))"
  by pat_completeness auto
termination
proof (relation "measure (\<lambda>(s, d, p). Suc (length s) - p)")
  fix s d :: string and p q
  assume "d \<noteq> []" "str_find s d p = Some q"
  then show "((s, d, q + length d), s, d, p) \<in> measure (\<lambda>(s, d, p). Suc (length s) - p)"
    using str_find_bounds [of s d p q] by (cases d) auto
qed simp

declare split_positions.simps [simp del]

text \<open>The body of the second loop: the piece in front of the \<open>i\<close>-th delimiter.\<close>

definition split_piece :: "string \<Rightarrow> string \<Rightarrow> nat list \<Rightarrow> nat \<Rightarrow> string" where
  "split_piece s d ps i =
     (if i = 0 then take (ps ! 0) s
      else let offset = ps ! (i - 1) + length d
           in if offset < length s
              then if i = length ps then drop offset s
                   else take (ps ! i - ps ! (i - 1) - length d) (drop offset s)
              else [])"

definition SplitStringA :: "string \<Rightarrow> string \<Rightarrow> string list" where
  "SplitStringA s d =
     (if d = [] \<or> s = [] then []
      else let ps = split_positions s d 0
           in if ps = [] then [s]
              else filter (\<lambda>x. x \<noteq> []) (map (split_piece s d ps) [0..<Suc (length ps)]))"

section \<open>The reference: fields between delimiters\<close>

function fields :: "char \<Rightarrow> string \<Rightarrow> string list" where
  "fields c s = takeWhile (\<lambda>x. x \<noteq> c) s #
     (case dropWhile (\<lambda>x. x \<noteq> c) s of [] \<Rightarrow> [] | _ # r \<Rightarrow> fields c r)"
  by pat_completeness auto
termination
proof (relation "measure (\<lambda>(c, s). length s)")
  fix c and s r :: string and x
  assume "dropWhile (\<lambda>x. x \<noteq> c) s = x # r"
  then have "length (x # r) \<le> length s" by (metis length_dropWhile_le)
  then show "((c, r), c, s) \<in> measure (\<lambda>(c, s). length s)" by simp
qed simp

declare fields.simps [simp del]

definition split_char :: "char \<Rightarrow> string \<Rightarrow> string list" where
  "split_char c s = filter (\<lambda>x. x \<noteq> []) (fields c s)"

text \<open>The pieces from offset \<open>o\<close> on, one delimiter position after the other.\<close>

fun pieces :: "string \<Rightarrow> string \<Rightarrow> nat \<Rightarrow> nat list \<Rightarrow> string list" where
  "pieces s d k [] = [drop k s]"
| "pieces s d k (p # ps) = take (p - k) (drop k s) # pieces s d (p + length d) ps"

lemma pieces_split_piece:
  "ps = qs @ rs \<Longrightarrow> qs \<noteq> [] \<Longrightarrow>
   map (split_piece s d ps) [length qs..<Suc (length ps)] = pieces s d (last qs + length d) rs"
proof (induction rs arbitrary: qs)
  case Nil
  then show ?case
    by (auto simp: split_piece_def Let_def last_conv_nth nth_append)
next
  case (Cons r rs)
  have upt: "[length qs..<Suc (length ps)] = length qs # [length (qs @ [r])..<Suc (length ps)]"
    using Cons.prems by (simp add: upt_conv_Cons del: upt_Suc)
  have prev: "ps ! (length qs - 1) = last qs" "ps ! length qs = r"
    using Cons.prems by (auto simp: nth_append last_conv_nth)
  have "split_piece s d ps (length qs) = take (r - (last qs + length d)) (drop (last qs + length d) s)"
    using Cons.prems prev by (auto simp: split_piece_def Let_def)
  moreover have "map (split_piece s d ps) [length (qs @ [r])..<Suc (length ps)] = pieces s d (r + length d) rs"
    using Cons.IH [of "qs @ [r]"] Cons.prems by simp
  ultimately show ?case unfolding upt by simp
qed

lemma split_piece_pieces:
  "ps \<noteq> [] \<Longrightarrow> map (split_piece s d ps) [0..<Suc (length ps)] = pieces s d 0 ps"
proof -
  assume "ps \<noteq> []"
  then obtain p qs where ps: "ps = p # qs" by (cases ps) auto
  have "[0..<Suc (length ps)] = 0 # [length [p]..<Suc (length ps)]"
    by (simp add: upt_conv_Cons del: upt_Suc)
  moreover have "map (split_piece s d ps) [length [p]..<Suc (length ps)] = pieces s d (last [p] + length d) qs"
    by (rule pieces_split_piece) (simp_all add: ps)
  ultimately show ?thesis by (simp add: ps split_piece_def del: upt_Suc)
qed

lemma find_at_char:
  "find_at [c] i t = (if c \<in> set t then Some (i + length (takeWhile (\<lambda>x. x \<noteq> c) t)) else None)"
  by (induction t arbitrary: i) auto

lemma dropWhile_neq_drop: "c \<in> set t \<Longrightarrow>
  dropWhile (\<lambda>x. x \<noteq> c) t = c # drop (Suc (length (takeWhile (\<lambda>x. x \<noteq> c) t))) t"
  by (induction t) auto

lemma takeWhile_neq_take: "take (length (takeWhile P t)) t = takeWhile P t"
  by (metis takeWhile_eq_take)

lemma pieces_fields:
  "k \<le> length s \<Longrightarrow> pieces s [c] k (split_positions s [c] k) = fields c (drop k s)"
proof (induction "length s - k" arbitrary: k rule: less_induct)
  case (less k)
  show ?case
  proof (cases "c \<in> set (drop k s)")
    case False
    then have pos: "split_positions s [c] k = []"
      using less.prems by (subst split_positions.simps) (simp add: str_find_def find_at_char)
    have id: "takeWhile (\<lambda>x. x \<noteq> c) (drop k s) = drop k s" "dropWhile (\<lambda>x. x \<noteq> c) (drop k s) = []"
      using False by (auto simp: takeWhile_eq_all_conv dropWhile_eq_Nil_conv)
    show ?thesis by (subst fields.simps) (simp add: pos id)
  next
    case True
    define n where "n = length (takeWhile (\<lambda>x. x \<noteq> c) (drop k s))"
    have pos: "split_positions s [c] k = (k + n) # split_positions s [c] (k + n + 1)"
      using less.prems True by (subst split_positions.simps) (simp add: str_find_def find_at_char n_def)
    have lt: "k + n < length s"
      using str_find_bounds [of s "[c]" k "k + n"] less.prems True by (simp add: str_find_def find_at_char n_def)
    have "pieces s [c] (k + n + 1) (split_positions s [c] (k + n + 1)) = fields c (drop (k + n + 1) s)"
      using less.hyps [of "k + n + 1"] lt by simp
    moreover have "take n (drop k s) = takeWhile (\<lambda>x. x \<noteq> c) (drop k s)"
      by (simp add: n_def takeWhile_neq_take)
    moreover have "dropWhile (\<lambda>x. x \<noteq> c) (drop k s) = c # drop (k + n + 1) s"
      using dropWhile_neq_drop [OF True] by (simp add: n_def add.commute add.left_commute)
    ultimately show ?thesis by (subst fields.simps) (simp add: pos)
  qed
qed

lemma fields_Nil: "fields c [] = [[]]"
  by (subst fields.simps) simp

lemma split_char_Nil [simp]: "split_char c [] = []"
  by (simp add: split_char_def fields_Nil)

text \<open>The translated routine agrees with the reference.\<close>

lemma SplitStringA_char: "SplitStringA s [c] = split_char c s"
proof (cases "s = []")
  case True
  then show ?thesis by (simp add: SplitStringA_def)
next
  case False
  define ps where "ps = split_positions s [c] 0"
  have pf: "pieces s [c] 0 ps = fields c s"
    using pieces_fields [of 0 s c] by (simp add: ps_def)
  show ?thesis
  proof (cases "ps = []")
    case True
    then show ?thesis
      using pf [symmetric] False by (simp add: SplitStringA_def split_char_def Let_def ps_def [symmetric])
  next
    case ne: False
    then show ?thesis
      using pf split_piece_pieces [OF ne, of s "[c]"] False
      by (simp add: SplitStringA_def split_char_def Let_def ps_def [symmetric] del: upt_Suc)
  qed
qed

lemma in_set_neq: "c \<notin> set x \<Longrightarrow> y \<in> set x \<Longrightarrow> y \<noteq> c"
  by blast

lemma fields_append: "c \<notin> set x \<Longrightarrow> fields c (x @ c # r) = x # fields c r"
  by (subst fields.simps) (simp add: takeWhile_append2 dropWhile_append2 in_set_neq)

lemma fields_single: "c \<notin> set x \<Longrightarrow> fields c x = [x]"
  by (subst fields.simps) (simp add: in_set_neq takeWhile_eq_all_conv [THEN iffD2] dropWhile_eq_Nil_conv [THEN iffD2])

lemma split_char_append: "c \<notin> set x \<Longrightarrow> x \<noteq> [] \<Longrightarrow> split_char c (x @ c # r) = x # split_char c r"
  by (simp add: split_char_def fields_append)

lemma split_char_skip: "split_char c (c # r) = split_char c r"
  using fields_append [of c "[]" r] by (simp add: split_char_def)

lemma split_char_single: "c \<notin> set x \<Longrightarrow> x \<noteq> [] \<Longrightarrow> split_char c x = [x]"
  by (simp add: split_char_def fields_single)

text \<open>Fields written with a trailing delimiter, or with a delimiter between them, are read back.\<close>

lemma split_char_terminated:
  "\<forall>x \<in> set xs. x \<noteq> [] \<and> c \<notin> set x \<Longrightarrow> split_char c (concat (map (\<lambda>x. x @ [c]) xs)) = xs"
  by (induction xs) (simp_all add: split_char_append)

fun join :: "char \<Rightarrow> string list \<Rightarrow> string" where
  "join c [] = []"
| "join c [x] = x"
| "join c (x # y # xs) = x @ c # join c (y # xs)"

lemma split_char_join: "\<forall>x \<in> set xs. x \<noteq> [] \<and> c \<notin> set x \<Longrightarrow> split_char c (join c xs) = xs"
  by (induction c xs rule: join.induct) (simp_all add: split_char_append split_char_single)

section \<open>Numbers as text\<close>

definition digit_char :: "nat \<Rightarrow> char" where
  "digit_char n = char_of (48 + n)"

definition is_digit :: "char \<Rightarrow> bool" where
  "is_digit c \<longleftrightarrow> 48 \<le> (of_char c :: nat) \<and> (of_char c :: nat) \<le> 57"

definition digit_val :: "char \<Rightarrow> int" where
  "digit_val c = int (of_char c - 48)"

function show_nat :: "nat \<Rightarrow> string" where
  "show_nat n = (if n < 10 then [digit_char n] else show_nat (n div 10) @ [digit_char (n mod 10)])"
  by pat_completeness auto
termination
  by (relation "measure id") auto

declare show_nat.simps [simp del]

text \<open>The conversion \<open>%d\<close> of \<open>sprintf\<close>.\<close>

definition show_int :: "int \<Rightarrow> string" where
  "show_int n = (if n < 0 then CHR ''-'' # show_nat (nat (- n)) else show_nat (nat n))"

text \<open>
  \<open>atoi\<close>: leading white space, an optional sign, then digits up to the first character that is
  none. The value is stored in an \<open>int\<close>.
\<close>

definition is_space :: "char \<Rightarrow> bool" where
  "is_space c \<longleftrightarrow> (of_char c :: nat) = 32 \<or> (9 \<le> (of_char c :: nat) \<and> (of_char c :: nat) \<le> 13)"

fun read_digits :: "int \<Rightarrow> string \<Rightarrow> int" where
  "read_digits a [] = a"
| "read_digits a (c # cs) = (if is_digit c then read_digits (10 * a + digit_val c) cs else a)"

fun atoi_signed :: "string \<Rightarrow> int" where
  "atoi_signed [] = 0"
| "atoi_signed (c # cs) =
     (if c = CHR ''-'' then - read_digits 0 cs
      else if c = CHR ''+'' then read_digits 0 cs
      else read_digits 0 (c # cs))"

definition atoi :: "string \<Rightarrow> int" where
  "atoi s = wrap32 (atoi_signed (dropWhile is_space s))"

lemma is_digit_digit_char [simp]: "n < 10 \<Longrightarrow> is_digit (digit_char n)"
  by (simp add: is_digit_def digit_char_def of_char_of take_bit_eq_mod)

lemma digit_val_digit_char [simp]: "n < 10 \<Longrightarrow> digit_val (digit_char n) = int n"
  by (simp add: digit_val_def digit_char_def of_char_of take_bit_eq_mod)

lemma show_nat_digits: "c \<in> set (show_nat n) \<Longrightarrow> is_digit c"
  by (induction n rule: show_nat.induct) (subst (asm) (2) show_nat.simps, auto split: if_splits)

lemma show_nat_nonempty [simp]: "show_nat n \<noteq> []"
  by (subst show_nat.simps) simp

lemma read_digits_append:
  "\<forall>c \<in> set ds. is_digit c \<Longrightarrow> read_digits a (ds @ r) = read_digits (read_digits a ds) r"
  by (induction ds arbitrary: a) auto

lemma read_digits_show_nat: "read_digits 0 (show_nat n) = int n"
proof (induction n rule: show_nat.induct)
  case (1 n)
  show ?case
  proof (cases "n < 10")
    case True
    then show ?thesis by (subst show_nat.simps) simp
  next
    case False
    then have "read_digits 0 (show_nat n) = 10 * int (n div 10) + int (n mod 10)"
      using 1 by (subst show_nat.simps) (simp add: read_digits_append show_nat_digits)
    then show ?thesis by presburger
  qed
qed

lemma digit_not_special: "is_digit c \<Longrightarrow> c \<noteq> CHR ''-'' \<and> c \<noteq> CHR ''+'' \<and> \<not> is_space c"
  by (auto simp: is_digit_def is_space_def)

lemma digit_not_delimiter: "is_digit c \<Longrightarrow> c \<noteq> CHR '';'' \<and> c \<noteq> CHR '','' \<and> c \<noteq> CHR '':''"
  by (auto simp: is_digit_def)

lemma show_nat_Cons: "\<exists>c cs. show_nat n = c # cs \<and> is_digit c"
  by (metis list.exhaust list.set_intros(1) show_nat_digits show_nat_nonempty)

lemma atoi_signed_show_int: "atoi_signed (dropWhile is_space (show_int n)) = n"
proof (cases "n < 0")
  case True
  have "\<not> is_space CHR ''-''" by (simp add: is_space_def)
  then show ?thesis using True by (simp add: show_int_def read_digits_show_nat)
next
  case False
  obtain c cs where c: "show_nat (nat n) = c # cs" "is_digit c" using show_nat_Cons by blast
  then have "atoi_signed (dropWhile is_space (show_int n)) = read_digits 0 (show_nat (nat n))"
    using False digit_not_special [of c] by (simp add: show_int_def)
  then show ?thesis using False by (simp add: read_digits_show_nat)
qed

text \<open>Printing and reading back.\<close>

lemma atoi_show_int: "in32 n \<Longrightarrow> atoi (show_int n) = n"
  by (simp add: atoi_def atoi_signed_show_int wrap32_id)

lemma show_int_nonempty [simp]: "show_int n \<noteq> []"
  by (simp add: show_int_def)

lemma show_int_chars: "x \<in> set (show_int n) \<Longrightarrow> is_digit x \<or> x = CHR ''-''"
  by (auto simp: show_int_def dest: show_nat_digits split: if_splits)

lemma show_int_delims [simp]:
  "CHR '';'' \<notin> set (show_int n)" "CHR '','' \<notin> set (show_int n)" "CHR '':'' \<notin> set (show_int n)"
  by (auto dest!: show_int_chars simp: is_digit_def)

end
