(* ===== verification/GameConfig.thy ===== *)
theory GameConfig
  imports Messages Strings "HOL-Library.Product_Lexorder"
begin

text \<open>
  \<open>gameserver/GameConfig.h\<close>, \<open>gameserver/GameConfig.cpp\<close> and the clock test of
  \<open>gameserver/stdafx.cpp\<close>: the configuration tables, how they are loaded from the world
  database, the lookups the handlers use, and the two tests for ''the same game day''.

  The database is a parameter: \<open>world_db\<close> gives, per table, the rows of the query in the order
  the database returns them; a row gives the integer and the text of a column. The process
  runs in a time zone without daylight saving, whose offset is the field \<open>cfg_tz\<close>;
  \<open>localtime\<close> and \<open>mktime\<close> are then the usual arithmetic on seconds.
\<close>

section \<open>Data\<close>

record globalConfig =
  config_gold :: int
  hero_unlock_count :: int
  day_Refresh_time :: int
  day_free_task_count :: int
  day_task_advertisement_task_cd :: int
  hero_max_tasks_count :: int
  channel_id :: int
  game_id :: int
  refresh_task_gold :: int
  relive_gold :: int
  config_max_spirit :: int
  config_jewel :: int
  config_recover_spirit_minute :: int
  config_recover_spirit :: int
  config_enter_game_use_spirit :: int
  config_day_buy_spirit :: int
  config_weixin_gold :: int
  daily_game_record_config :: "int list"
  daily_game_reset_jewel_config :: "int list"
  config_weixin_cd_key :: string

text \<open>The class hierarchies below \<open>BaseShopPromotion\<close> and \<open>EventTimeBase\<close>.\<close>

datatype BaseShopPromotion =
    HeroPromotion "(int, int) smap"
  | RechargeRattingPromotion (recharge_ratting: int) (rechagre_type: int)
  | OpenHideHeroPromotion "int list"

datatype EventTimeBase =
    TimeNormal int int int
  | TimeWeek int int int
  | TimeOpenServerOffsetTime int int int

record TimeShopSalesPromotionConfig =
  tp_id :: int
  tp_time :: "EventTimeBase option"
  tp_promotion :: "BaseShopPromotion option"
  tp_name :: string
  tp_time_describe :: string
  tp_describe :: string

record ObjDropBoxConfig =
  drop_obj_id :: int
  drop_type :: int
  base_gold :: int
  random_gold :: int

record MapBehaviorConfig =
  behavior_key :: "int \<times> int"
  obj_behavior_id :: int
  obj_count :: int
  max_pos_count :: int

record MapRandomObjsConfig =
  random_key :: "int \<times> int"
  random_behavior_id :: int
  random_objs :: "(int \<times> int) list"

record GoldShopConfigInfo =
  appstore_product_id :: string
  gold_shop_info :: MsgGoldShopConfigInfo

record LotteryDrawBoxConfig =
  lottery_type :: int
  sub_index :: int
  base_count :: int
  random_count :: int
  rating :: int

record DailyGamePrizeConfig =
  begin_rank :: int
  end_rank :: int
  prize_gold :: int

type_synonym MAPDROPBOXCONFIGS = "(int, ObjDropBoxConfig) smap"
type_synonym MAPTYPEDROPBOXCONFIGS = "(int, MAPDROPBOXCONFIGS) smap"

record GameConfig =
  cfg_tasks :: "(int, MsgTaskConfigInfo) smap"
  cfg_shop_heroes :: "(int, MsgShopConfigInfo) smap"
  cfg_time_sales :: "(int, TimeShopSalesPromotionConfig) smap"
  cfg_chapters :: "(int, MsgChapterConfigInfo) smap"
  cfg_gold_shop :: "(int, (int, GoldShopConfigInfo) smap) smap"
  cfg_drop_box :: MAPTYPEDROPBOXCONFIGS
  cfg_behavior :: "(int \<times> int, (int, MapBehaviorConfig) smap) smap"
  cfg_random_obj :: "(int \<times> int, (int, MapRandomObjsConfig) smap) smap"
  cfg_map_drop_box :: "(int \<times> int, MAPTYPEDROPBOXCONFIGS) smap"
  cfg_spirit_shop :: "(int, MsgSpiritShopInfo) smap"
  cfg_lotion_shop :: "(int, MsgLotionShopConfigInfo) smap"
  cfg_lottery :: "LotteryDrawBoxConfig list"
  cfg_prizes :: "DailyGamePrizeConfig list"
  cfg_global :: globalConfig
  cfg_server_open_time :: int
  cfg_server_char :: int
  cfg_need_connect_platform :: bool
  cfg_game_id :: int
  cfg_server_type :: int
  cfg_can_concern_weixin :: bool
  cfg_server_title :: string
  cfg_tz :: int

section \<open>Lookups\<close>

definition getShopConfig :: "GameConfig \<Rightarrow> int \<Rightarrow> MsgShopConfigInfo option" where
  "getShopConfig cfg g = map_find g (cfg_shop_heroes cfg)"

definition setHeroShopConfig :: "int \<Rightarrow> bool \<Rightarrow> GameConfig \<Rightarrow> GameConfig" where
  "setHeroShopConfig g b cfg =
     (case map_find g (cfg_shop_heroes cfg) of
        None \<Rightarrow> cfg
      | Some c \<Rightarrow> cfg\<lparr>cfg_shop_heroes := map_assign g (c\<lparr>shop_open := b\<rparr>) (cfg_shop_heroes cfg)\<rparr>)"

definition getGoldShopConfigInfos :: "GameConfig \<Rightarrow> int \<Rightarrow> (int, GoldShopConfigInfo) smap option" where
  "getGoldShopConfigInfos cfg channel = map_find channel (cfg_gold_shop cfg)"

text \<open>The lookup by product id returns the entry with the smallest shop id.\<close>

fun find_product :: "string \<Rightarrow> (int, GoldShopConfigInfo) smap \<Rightarrow> GoldShopConfigInfo option" where
  "find_product k [] = None"
| "find_product k ((i, c) # m) = (if appstore_product_id c = k then Some c else find_product k m)"

definition getGoldShopConfigInfo :: "GameConfig \<Rightarrow> int \<Rightarrow> string \<Rightarrow> GoldShopConfigInfo option" where
  "getGoldShopConfigInfo cfg channel k =
     (case getGoldShopConfigInfos cfg channel of None \<Rightarrow> None | Some m \<Rightarrow> find_product k m)"

definition getChapterConfigInfo :: "GameConfig \<Rightarrow> int \<Rightarrow> MsgChapterConfigInfo option" where
  "getChapterConfigInfo cfg i = map_find i (cfg_chapters cfg)"

definition getMapTask :: "GameConfig \<Rightarrow> int \<Rightarrow> MsgTaskConfigInfo option" where
  "getMapTask cfg i = map_find i (cfg_tasks cfg)"

definition getTimeShopSalesPromotionConfig :: "GameConfig \<Rightarrow> int \<Rightarrow> TimeShopSalesPromotionConfig option" where
  "getTimeShopSalesPromotionConfig cfg i = map_find i (cfg_time_sales cfg)"

definition getLotionShop :: "GameConfig \<Rightarrow> int \<Rightarrow> MsgLotionShopConfigInfo option" where
  "getLotionShop cfg i = map_find i (cfg_lotion_shop cfg)"

definition getMapDropBox :: "GameConfig \<Rightarrow> int \<Rightarrow> int \<Rightarrow> MAPTYPEDROPBOXCONFIGS option" where
  "getMapDropBox cfg c s = map_find (c, s) (cfg_map_drop_box cfg)"

definition getSpiritShop :: "GameConfig \<Rightarrow> int \<Rightarrow> MsgSpiritShopInfo option" where
  "getSpiritShop cfg i = map_find i (cfg_spirit_shop cfg)"

section \<open>Clock\<close>

definition local_day :: "int \<Rightarrow> int \<Rightarrow> int" where
  "local_day tz t = (t + tz) div 86400"

definition local_hour :: "int \<Rightarrow> int \<Rightarrow> int" where
  "local_hour tz t = ((t + tz) mod 86400) div 3600"

text \<open>\<open>localtime\<close>, then hour \<open>h\<close> with minute and second zero, then \<open>mktime\<close>.\<close>

definition at_local_hour :: "int \<Rightarrow> int \<Rightarrow> int \<Rightarrow> int" where
  "at_local_hour tz t h = local_day tz t * 86400 + h * 3600 - tz"

text \<open>\<open>GameConfig::isInToday\<close>: the window of a day that starts at the refresh hour of the
  current calendar day.\<close>

definition isInToday :: "GameConfig \<Rightarrow> int \<Rightarrow> int \<Rightarrow> bool" where
  "isInToday cfg now t =
     (let today = at_local_hour (cfg_tz cfg) now (day_Refresh_time (cfg_global cfg));
          tomorrow = today + 24 * 60 * 60
      in t < tomorrow \<and> today \<le> t)"

definition same_day :: "int \<Rightarrow> int \<Rightarrow> int \<Rightarrow> bool" where
  "same_day tz t1 t2 = (local_day tz t1 = local_day tz t2)"

text \<open>The function \<open>isInToday\<close> of \<open>stdafx.cpp\<close>: only the server clock is shifted by the
  refresh hour, and \<open>same_day\<close> takes \<open>unsigned int\<close>.\<close>

definition isInToday_stdafx :: "GameConfig \<Rightarrow> int \<Rightarrow> int \<Rightarrow> bool" where
  "isInToday_stdafx cfg now t =
     same_day (cfg_tz cfg) (wrap_u32 (now - day_Refresh_time (cfg_global cfg) * 60 * 60)) t"

definition getOpenServerPassedDay :: "GameConfig \<Rightarrow> int \<Rightarrow> int" where
  "getOpenServerPassedDay cfg curTime =
     wrap32 ((curTime - at_local_hour (cfg_tz cfg) (cfg_server_open_time cfg) 0) sdiv (24 * 60 * 60))"

definition generateTitle :: "GameConfig \<Rightarrow> GameConfig" where
  "generateTitle cfg = cfg\<lparr>cfg_server_title :=
     show_int (cfg_game_id cfg) @ '';'' @ show_int (cfg_server_char cfg) @ '';'' @ show_int (cfg_server_type cfg)\<rparr>"

section \<open>Loading\<close>

record dbrow =
  col_int :: "string \<Rightarrow> int"
  col_str :: "string \<Rightarrow> string"

type_synonym world_db = "string \<Rightarrow> dbrow list"

definition task_of_row :: "dbrow \<Rightarrow> MsgTaskConfigInfo" where
  "task_of_row row =
     \<lparr>config_taskid = col_int row ''task_id'',
      task_condition =
        [\<lparr>tasktype = col_int row ''type_1'', cond_argument_1 = col_int row ''argument_1'',
          cond_argument_2 = col_int row ''argument_1_1''\<rparr>,
         \<lparr>tasktype = col_int row ''type_2'', cond_argument_1 = col_int row ''argument_2'',
          cond_argument_2 = col_int row ''argument_2_1''\<rparr>],
      require_time = col_int row ''require_time'',
      require_unlock_chapter = col_int row ''require_chapter'',
      require_unlock_section = col_int row ''require_section'',
      require_unlock_complete_task_count = col_int row ''require_complete_task_count'',
      gift_gold = col_int row ''gift_gold'',
      difficulty = col_int row ''difficulty'',
      task_describe = col_str row ''describe''\<rparr>"

definition load_tasks :: "dbrow list \<Rightarrow> GameConfig \<Rightarrow> GameConfig" where
  "load_tasks rows cfg = cfg\<lparr>cfg_tasks :=
     fold (\<lambda>row. map_insert (config_taskid (task_of_row row)) (task_of_row row)) rows (cfg_tasks cfg)\<rparr>"

definition shop_of_row :: "dbrow \<Rightarrow> MsgShopConfigInfo" where
  "shop_of_row row =
     \<lparr>grid_id = col_int row ''grid_id'', hero_id = col_int row ''hero_id'',
      shop_require_gold = col_int row ''require_gold'', cheape_gold = 0,
      shop_require_chapter_id = col_int row ''require_chapter_id'',
      shop_require_section_id = col_int row ''require_section_id'',
      shop_describe = col_str row ''describe'', shop_open = (col_int row ''open'' \<noteq> 0)\<rparr>"

definition load_shop_heroes :: "dbrow list \<Rightarrow> GameConfig \<Rightarrow> GameConfig" where
  "load_shop_heroes rows cfg = cfg\<lparr>cfg_shop_heroes :=
     fold (\<lambda>row. map_insert (grid_id (shop_of_row row)) (shop_of_row row)) rows (cfg_shop_heroes cfg)\<rparr>"

definition chapter_of_row :: "dbrow \<Rightarrow> MsgChapterConfigInfo" where
  "chapter_of_row row =
     \<lparr>chapter_id = col_int row ''chapter_id'',
      required_chapter_id = col_int row ''require_chapter_id'',
      required_section_id = col_int row ''require_section_id'',
      required_task_complete_count = col_int row ''require_task_complete_count'',
      require_gold = col_int row ''require_gold'',
      max_section_count = col_int row ''max_section_count'',
      chapter_describe = col_str row ''describe''\<rparr>"

definition load_chapters :: "dbrow list \<Rightarrow> GameConfig \<Rightarrow> GameConfig" where
  "load_chapters rows cfg = cfg\<lparr>cfg_chapters :=
     fold (\<lambda>row. map_insert (chapter_id (chapter_of_row row)) (chapter_of_row row)) rows (cfg_chapters cfg)\<rparr>"

text \<open>The row of \<open>global_config\<close>, which also sets the size and the maximal progress of the
  daily rank list; the second result holds these two.\<close>

definition load_global :: "dbrow list \<Rightarrow> GameConfig \<Rightarrow> GameConfig \<times> (int \<times> int) option" where
  "load_global rows cfg =
     (case rows of
        [] \<Rightarrow> (cfg, None)
      | row # _ \<Rightarrow>
          (cfg\<lparr>cfg_global := (cfg_global cfg)
             \<lparr>config_gold := col_int row ''config_gold'',
              hero_unlock_count := col_int row ''hero_unlock_count'',
              day_Refresh_time := col_int row ''day_refresh_time'',
              day_free_task_count := col_int row ''day_free_task_count'',
              day_task_advertisement_task_cd := col_int row ''day_task_advertisement_task_cd'',
              hero_max_tasks_count := col_int row ''hero_max_tasks_count'',
              channel_id := col_int row ''channel_id'',
              game_id := col_int row ''game_id'',
              refresh_task_gold := col_int row ''refresh_task_gold'',
              relive_gold := col_int row ''relive_gold'',
              config_jewel := col_int row ''config_jewel'',
              config_recover_spirit := col_int row ''config_recover_spirit'',
              config_recover_spirit_minute := col_int row ''config_recover_spirit_minute'',
              config_max_spirit := col_int row ''config_max_spirit'',
              config_enter_game_use_spirit := col_int row ''config_enter_game_use_spirit'',
              config_day_buy_spirit := col_int row ''config_day_buy_spirit'',
              config_weixin_cd_key := col_str row ''weixin_cd_key'',
              config_weixin_gold := col_int row ''weixin_gold''\<rparr>\<rparr>,
           Some (col_int row ''daily_game_max_rank_size'', col_int row ''daily_game_max_progress'')))"

text \<open>The promotions: the column \<open>grid_ids\<close> is a list \<open>grid,gold;grid,gold;...\<close>, the column
  \<open>open_hide_grides\<close> a list \<open>grid,grid,...\<close>. An unknown type leaves a null pointer.\<close>

definition add_cheap_hero :: "string \<Rightarrow> (int, int) smap \<Rightarrow> (int, int) smap" where
  "add_cheap_hero e m =
     (case SplitStringA e '','' of [a, b] \<Rightarrow> map_assign (atoi a) (atoi b) m | _ \<Rightarrow> m)"

definition promotion_of_row :: "dbrow \<Rightarrow> BaseShopPromotion option" where
  "promotion_of_row row =
     (let t = col_int row ''promotion_type''
      in if t = 0 then
           Some (HeroPromotion (fold add_cheap_hero (SplitStringA (col_str row ''grid_ids'') '';'') []))
         else if t = 1 then
           Some (RechargeRattingPromotion (col_int row ''recharge_ratting'') (col_int row ''recharge_type''))
         else if t = 2 then
           Some (OpenHideHeroPromotion (map atoi (SplitStringA (col_str row ''open_hide_grides'') '','')))
         else None)"

definition time_of_row :: "dbrow \<Rightarrow> EventTimeBase option" where
  "time_of_row row =
     (let t = col_int row ''time_type''
      in if t = 0 then
           Some (TimeNormal (col_int row ''UNIX_TIMESTAMP(`show_time`)'')
                   (col_int row ''UNIX_TIMESTAMP(`begin_time`)'') (col_int row ''UNIX_TIMESTAMP(`end_time`)''))
         else if t = 1 then
           Some (TimeWeek (col_int row ''show_time_week'') (col_int row ''begin_time_week'')
                   (col_int row ''end_time_week''))
         else if t = 2 then
           Some (TimeOpenServerOffsetTime (col_int row ''offset_show_time'')
                   (col_int row ''offset_begin_time'') (col_int row ''offset_end_time''))
         else None)"

definition sales_of_row :: "dbrow \<Rightarrow> TimeShopSalesPromotionConfig" where
  "sales_of_row row =
     \<lparr>tp_id = col_int row ''sales_promotion_id'', tp_time = time_of_row row,
      tp_promotion = promotion_of_row row, tp_name = col_str row ''name'',
      tp_time_describe = col_str row ''time_describe'', tp_describe = col_str row ''describe''\<rparr>"

definition load_time_sales :: "dbrow list \<Rightarrow> GameConfig \<Rightarrow> GameConfig" where
  "load_time_sales rows cfg = cfg\<lparr>cfg_time_sales :=
     fold (\<lambda>row. map_insert (tp_id (sales_of_row row)) (sales_of_row row)) rows (cfg_time_sales cfg)\<rparr>"

definition gold_shop_of_row :: "dbrow \<Rightarrow> GoldShopConfigInfo" where
  "gold_shop_of_row row =
     \<lparr>appstore_product_id = col_str row ''appstore_key'',
      gold_shop_info =
        \<lparr>gs_id = col_int row ''shop_id'', gs_resource_id = col_int row ''resource_id'',
         gs_gold = col_int row ''gold'', gs_money = col_str row ''money'',
         gs_describe = col_str row ''describe'', gs_jewel = col_int row ''jewel'',
         gs_product_id = col_str row ''appstore_key''\<rparr>\<rparr>"

definition load_gold_shop_row :: "dbrow \<Rightarrow> (int, (int, GoldShopConfigInfo) smap) smap \<Rightarrow> (int, (int, GoldShopConfigInfo) smap) smap" where
  "load_gold_shop_row row m =
     (let ch = col_int row ''channel''; e = gold_shop_of_row row
      in map_assign ch (map_assign (gs_id (gold_shop_info e)) e (map_index [] ch m)) m)"

definition load_gold_shop :: "dbrow list \<Rightarrow> GameConfig \<Rightarrow> GameConfig" where
  "load_gold_shop rows cfg = cfg\<lparr>cfg_gold_shop := fold load_gold_shop_row rows (cfg_gold_shop cfg)\<rparr>"

definition drop_box_of_row :: "dbrow \<Rightarrow> ObjDropBoxConfig" where
  "drop_box_of_row row =
     \<lparr>drop_obj_id = col_int row ''obj_id'', drop_type = col_int row ''obj_type'',
      base_gold = col_int row ''base_gold'', random_gold = col_int row ''random_gold''\<rparr>"

definition load_drop_box_row :: "dbrow \<Rightarrow> MAPTYPEDROPBOXCONFIGS \<Rightarrow> MAPTYPEDROPBOXCONFIGS" where
  "load_drop_box_row row m =
     (let e = drop_box_of_row row
      in map_assign (drop_type e) (map_assign (drop_obj_id e) e (map_index [] (drop_type e) m)) m)"

definition load_drop_box :: "dbrow list \<Rightarrow> GameConfig \<Rightarrow> GameConfig" where
  "load_drop_box rows cfg = cfg\<lparr>cfg_drop_box := fold load_drop_box_row rows (cfg_drop_box cfg)\<rparr>"

definition load_behavior_row ::
  "dbrow \<Rightarrow> (int \<times> int, (int, MapBehaviorConfig) smap) smap \<Rightarrow> (int \<times> int, (int, MapBehaviorConfig) smap) smap" where
  "load_behavior_row row m =
     (let k = (col_int row ''chapter_id'', col_int row ''section_id'');
          e = \<lparr>behavior_key = k, obj_behavior_id = col_int row ''obj_behavior_id'',
               obj_count = col_int row ''obj_count'', max_pos_count = col_int row ''max_pos_count''\<rparr>
      in map_assign k (map_assign (obj_behavior_id e) e (map_index [] k m)) m)"

definition load_behavior :: "dbrow list \<Rightarrow> GameConfig \<Rightarrow> GameConfig" where
  "load_behavior rows cfg = cfg\<lparr>cfg_behavior := fold load_behavior_row rows (cfg_behavior cfg)\<rparr>"

text \<open>An object of a map is kept only when the drop table knows it; its drop entry is copied
  into the drop table of the map.\<close>

definition load_random_row :: "dbrow \<Rightarrow> GameConfig \<Rightarrow> GameConfig" where
  "load_random_row row cfg =
     (let behavior = col_int row ''behavior_id'';
          k = (col_int row ''chapter_id'', col_int row ''section_id'');
          oid = col_int row ''obj_id''; ty = col_int row ''obj_type'';
          ro = map_insert k [] (cfg_random_obj cfg)
      in case map_find ty (cfg_drop_box cfg) of
           None \<Rightarrow> cfg\<lparr>cfg_random_obj := ro\<rparr>
         | Some boxes \<Rightarrow>
             (case map_find oid boxes of
                None \<Rightarrow> cfg\<lparr>cfg_random_obj := ro\<rparr>
              | Some box \<Rightarrow>
                  let byk = map_insert behavior
                              \<lparr>random_key = k, random_behavior_id = behavior, random_objs = []\<rparr>
                              (map_index [] k ro);
                      objs = map_index \<lparr>random_key = (0, 0), random_behavior_id = 0, random_objs = []\<rparr> behavior byk;
                      objs' = objs\<lparr>random_objs := random_objs objs @ [(ty, oid)]\<rparr>;
                      drop = map_index [] k (cfg_map_drop_box cfg)
                  in cfg\<lparr>cfg_random_obj := map_assign k (map_assign behavior objs' byk) ro,
                         cfg_map_drop_box :=
                           map_assign k (map_assign ty (map_assign oid box (map_index [] ty drop)) drop)
                             (cfg_map_drop_box cfg)\<rparr>))"

definition load_random_objects :: "dbrow list \<Rightarrow> GameConfig \<Rightarrow> GameConfig" where
  "load_random_objects rows cfg = fold load_random_row rows cfg"

definition spirit_of_row :: "dbrow \<Rightarrow> MsgSpiritShopInfo" where
  "spirit_of_row row =
     \<lparr>spirit_index = col_int row ''index'', spirit_amount = col_int row ''spirit'',
      need_jewel = col_int row ''need_jewel'', spirit_resource_id = col_int row ''resource_id'',
      spirit_describe = col_str row ''describe''\<rparr>"

definition load_spirit_shop :: "dbrow list \<Rightarrow> GameConfig \<Rightarrow> GameConfig" where
  "load_spirit_shop rows cfg = cfg\<lparr>cfg_spirit_shop :=
     fold (\<lambda>(k, v). map_assign k v) (map (\<lambda>row. (spirit_index (spirit_of_row row), spirit_of_row row)) rows)
       (cfg_spirit_shop cfg)\<rparr>"

definition lotion_of_row :: "dbrow \<Rightarrow> MsgLotionShopConfigInfo" where
  "lotion_of_row row =
     \<lparr>lotion_id = col_int row ''lotion_id'', use_type = col_int row ''use_type'',
      use_count = col_int row ''use_count'', lotion_resource_id = col_int row ''resource_id'',
      big_resource_id = col_int row ''big_resource_id'', lotion_describe = col_str row ''describe'',
      lotion_name = col_str row ''name'', spell_id = col_int row ''spell_id''\<rparr>"

definition load_lotion_shop :: "dbrow list \<Rightarrow> GameConfig \<Rightarrow> GameConfig" where
  "load_lotion_shop rows cfg = cfg\<lparr>cfg_lotion_shop :=
     fold (\<lambda>(k, v). map_assign k v) (map (\<lambda>row. (lotion_id (lotion_of_row row), lotion_of_row row)) rows)
       (cfg_lotion_shop cfg)\<rparr>"

definition load_lottery :: "dbrow list \<Rightarrow> GameConfig \<Rightarrow> GameConfig" where
  "load_lottery rows cfg = cfg\<lparr>cfg_lottery := cfg_lottery cfg @
     map (\<lambda>row. \<lparr>lottery_type = col_int row ''type'', sub_index = col_int row ''sub_type'',
                 base_count = col_int row ''base_count'', random_count = col_int row ''randdom_count'',
                 rating = col_int row ''rating''\<rparr>) rows\<rparr>"

definition load_prizes :: "dbrow list \<Rightarrow> GameConfig \<Rightarrow> GameConfig" where
  "load_prizes rows cfg = cfg\<lparr>cfg_prizes := cfg_prizes cfg @
     map (\<lambda>row. \<lparr>begin_rank = col_int row ''rank_begin'', end_rank = col_int row ''rank_end'',
                 prize_gold = col_int row ''gold''\<rparr>) rows\<rparr>"

definition load_daily_lists :: "dbrow list \<Rightarrow> dbrow list \<Rightarrow> GameConfig \<Rightarrow> GameConfig" where
  "load_daily_lists recs resets cfg = cfg\<lparr>cfg_global := (cfg_global cfg)
     \<lparr>daily_game_record_config := daily_game_record_config (cfg_global cfg) @
        map (\<lambda>row. col_int row ''daily_game_record_progress'') recs,
      daily_game_reset_jewel_config := daily_game_reset_jewel_config (cfg_global cfg) @
        map (\<lambda>row. col_int row ''reset_jewel'') resets\<rparr>\<rparr>"

text \<open>\<open>GameConfig::Load\<close>, table by table in the order of the code. The result also carries the
  settings for the rank manager.\<close>

definition Load :: "world_db \<Rightarrow> GameConfig \<Rightarrow> GameConfig \<times> (int \<times> int) option" where
  "Load db cfg =
     (let cfg1 = load_chapters (db ''chapter_unlock_config'')
                   (load_shop_heroes (db ''hero_shop_config'')
                     (load_tasks (db ''dream_heroes_task_config'') cfg));
          (cfg2, rank) = load_global (db ''global_config'') cfg1;
          cfg3 = load_behavior (db ''map_obj_count'')
                   (load_drop_box (db ''drop_box'')
                     (load_gold_shop (db ''gold_shop_config_info'')
                       (load_time_sales (db ''time_shop_sales_promotion'') cfg2)));
          cfg4 = load_lottery (db ''lottery_draw_box_config'')
                   (load_lotion_shop (db ''lotion_shop_config'')
                     (load_spirit_shop (db ''spirit_shop_config'')
                       (load_random_objects (db ''random_object'') cfg3)));
          cfg5 = load_daily_lists (db ''daily_game_record_config'') (db ''daily_game_reset_config'')
                   (load_prizes (db ''daily_game_prize'') cfg4)
      in (cfg5, rank))"

section \<open>Properties of the clock\<close>

lemma local_day_bounds: "local_day tz t * 86400 - tz \<le> t \<and> t < local_day tz t * 86400 - tz + 86400"
proof -
  have "(t + tz) mod 86400 = t + tz - local_day tz t * 86400"
    by (simp add: local_day_def minus_div_mult_eq_mod [symmetric])
  moreover have "0 \<le> (t + tz) mod 86400" "(t + tz) mod 86400 < 86400" by simp_all
  ultimately show ?thesis by linarith
qed

lemma le_div_3600: "h * 3600 \<le> m \<longleftrightarrow> h \<le> m div 3600" for h m :: int
proof
  assume "h * 3600 \<le> m"
  then show "h \<le> m div 3600" using zdiv_mono1 [of "h * 3600" m 3600] by simp
next
  assume "h \<le> m div 3600"
  moreover have "m div 3600 * 3600 \<le> m"
    using minus_div_mult_eq_mod [of m 3600] pos_mod_sign [of 3600 m] by linarith
  ultimately show "h * 3600 \<le> m" by linarith
qed

text \<open>The position of a time in its day, by hours.\<close>

lemma local_hour_le_iff: "h * 3600 \<le> t + tz - local_day tz t * 86400 \<longleftrightarrow> h \<le> local_hour tz t"
proof -
  have "(t + tz) mod 86400 = t + tz - local_day tz t * 86400"
    by (simp add: local_day_def minus_div_mult_eq_mod [symmetric])
  then show ?thesis by (simp only: local_hour_def le_div_3600)
qed

lemma isInToday_now:
  "0 \<le> day_Refresh_time (cfg_global cfg) \<Longrightarrow>
   isInToday cfg now now \<longleftrightarrow> day_Refresh_time (cfg_global cfg) \<le> local_hour (cfg_tz cfg) now"
  using local_day_bounds [where tz = "cfg_tz cfg" and t = now]
    local_hour_le_iff [of "day_Refresh_time (cfg_global cfg)" now "cfg_tz cfg"]
  by (auto simp: isInToday_def Let_def at_local_hour_def)

lemma isInToday_before_refresh:
  "local_hour (cfg_tz cfg) now < day_Refresh_time (cfg_global cfg) \<Longrightarrow> t \<le> now \<Longrightarrow> \<not> isInToday cfg now t"
  using local_hour_le_iff [of "day_Refresh_time (cfg_global cfg)" now "cfg_tz cfg"]
  by (auto simp: isInToday_def Let_def at_local_hour_def)

lemma isInToday_after_refresh:
  "day_Refresh_time (cfg_global cfg) \<le> local_hour (cfg_tz cfg) now \<Longrightarrow> t \<le> now \<Longrightarrow>
   0 \<le> day_Refresh_time (cfg_global cfg) \<Longrightarrow>
   isInToday cfg now t \<longleftrightarrow> local_day (cfg_tz cfg) t = local_day (cfg_tz cfg) now \<and>
     day_Refresh_time (cfg_global cfg) \<le> local_hour (cfg_tz cfg) t"
proof -
  assume now: "day_Refresh_time (cfg_global cfg) \<le> local_hour (cfg_tz cfg) now" and le: "t \<le> now"
    and r0: "0 \<le> day_Refresh_time (cfg_global cfg)"
  let ?tz = "cfg_tz cfg" and ?r = "day_Refresh_time (cfg_global cfg)"
  have bt: "local_day ?tz t * 86400 - ?tz \<le> t" "t < local_day ?tz t * 86400 - ?tz + 86400"
    and bn: "local_day ?tz now * 86400 - ?tz \<le> now" "now < local_day ?tz now * 86400 - ?tz + 86400"
    using local_day_bounds by blast+
  have hour: "?r \<le> local_hour ?tz t \<longleftrightarrow> ?r * 3600 \<le> t + ?tz - local_day ?tz t * 86400"
    using local_hour_le_iff by blast
  have win: "isInToday cfg now t \<longleftrightarrow> local_day ?tz now * 86400 + ?r * 3600 - ?tz \<le> t"
    using le bn r0 by (auto simp: isInToday_def Let_def at_local_hour_def)
  have "local_day ?tz t = local_day ?tz now" if "local_day ?tz now * 86400 + ?r * 3600 - ?tz \<le> t"
    using that r0 bt bn le by linarith
  then show ?thesis using win hour by auto
qed

lemma at_local_hour_0: "at_local_hour tz t 0 = local_day tz t * 86400 - tz"
  by (simp add: at_local_hour_def)

lemma passed_days: "cur - at_local_hour tz opened 0 = (cur + tz) - local_day tz opened * 86400"
  by (simp add: at_local_hour_0)

section \<open>Properties of the loader\<close>

lemmas load_defs = load_tasks_def load_shop_heroes_def load_chapters_def load_time_sales_def
  load_gold_shop_def load_drop_box_def load_behavior_def load_spirit_shop_def load_lotion_shop_def
  load_lottery_def load_prizes_def load_daily_lists_def

lemma load_global_tables [simp]:
  "cfg_tasks (fst (load_global rows cfg)) = cfg_tasks cfg"
  "cfg_shop_heroes (fst (load_global rows cfg)) = cfg_shop_heroes cfg"
  "cfg_chapters (fst (load_global rows cfg)) = cfg_chapters cfg"
  "cfg_lotion_shop (fst (load_global rows cfg)) = cfg_lotion_shop cfg"
  "cfg_spirit_shop (fst (load_global rows cfg)) = cfg_spirit_shop cfg"
  "cfg_drop_box (fst (load_global rows cfg)) = cfg_drop_box cfg"
  "cfg_map_drop_box (fst (load_global rows cfg)) = cfg_map_drop_box cfg"
  by (simp_all add: load_global_def split: list.splits)

lemma load_random_row_tables [simp]:
  "cfg_tasks (load_random_row row cfg) = cfg_tasks cfg"
  "cfg_shop_heroes (load_random_row row cfg) = cfg_shop_heroes cfg"
  "cfg_chapters (load_random_row row cfg) = cfg_chapters cfg"
  "cfg_lotion_shop (load_random_row row cfg) = cfg_lotion_shop cfg"
  "cfg_spirit_shop (load_random_row row cfg) = cfg_spirit_shop cfg"
  "cfg_drop_box (load_random_row row cfg) = cfg_drop_box cfg"
  by (simp_all add: load_random_row_def Let_def split: option.splits)

lemma load_random_objects_tables [simp]:
  "cfg_tasks (load_random_objects rows cfg) = cfg_tasks cfg"
  "cfg_shop_heroes (load_random_objects rows cfg) = cfg_shop_heroes cfg"
  "cfg_chapters (load_random_objects rows cfg) = cfg_chapters cfg"
  "cfg_lotion_shop (load_random_objects rows cfg) = cfg_lotion_shop cfg"
  "cfg_spirit_shop (load_random_objects rows cfg) = cfg_spirit_shop cfg"
  "cfg_drop_box (load_random_objects rows cfg) = cfg_drop_box cfg"
  unfolding load_random_objects_def by (induction rows arbitrary: cfg) simp_all

lemma Load_fst:
  "fst (Load db cfg) =
     load_daily_lists (db ''daily_game_record_config'') (db ''daily_game_reset_config'')
      (load_prizes (db ''daily_game_prize'') (load_lottery (db ''lottery_draw_box_config'')
        (load_lotion_shop (db ''lotion_shop_config'') (load_spirit_shop (db ''spirit_shop_config'')
          (load_random_objects (db ''random_object'') (load_behavior (db ''map_obj_count'')
            (load_drop_box (db ''drop_box'') (load_gold_shop (db ''gold_shop_config_info'')
              (load_time_sales (db ''time_shop_sales_promotion'')
                (fst (load_global (db ''global_config'')
                  (load_chapters (db ''chapter_unlock_config'')
                    (load_shop_heroes (db ''hero_shop_config'')
                      (load_tasks (db ''dream_heroes_task_config'') cfg))))))))))))))"
  by (simp add: Load_def Let_def split: prod.splits)

text \<open>No map of the loaded object tables disagrees with the drop table it was copied from.\<close>

definition drop_lookup :: "int \<Rightarrow> int \<Rightarrow> MAPTYPEDROPBOXCONFIGS \<Rightarrow> ObjDropBoxConfig option" where
  "drop_lookup ty oid m = Option.bind (map_find ty m) (map_find oid)"

definition map_drop_lookup :: "GameConfig \<Rightarrow> int \<times> int \<Rightarrow> int \<Rightarrow> int \<Rightarrow> ObjDropBoxConfig option" where
  "map_drop_lookup cfg k ty oid = Option.bind (map_find k (cfg_map_drop_box cfg)) (drop_lookup ty oid)"

text \<open>All three levels of the nested map are maps.\<close>

definition drop_maps_wf :: "GameConfig \<Rightarrow> bool" where
  "drop_maps_wf cfg \<longleftrightarrow> map_wf (cfg_map_drop_box cfg) \<and>
     (\<forall>k m. map_find k (cfg_map_drop_box cfg) = Some m \<longrightarrow>
        map_wf m \<and> (\<forall>ty b. map_find ty m = Some b \<longrightarrow> map_wf b))"

lemma drop_index_wf:
  "drop_maps_wf cfg \<Longrightarrow> map_wf (map_index [] k (cfg_map_drop_box cfg)) \<and>
     map_wf (map_index [] ty (map_index [] k (cfg_map_drop_box cfg)))"
  by (cases k) (auto simp: drop_maps_wf_def map_index_def split: option.splits)

lemma load_random_row_wf: "drop_maps_wf cfg \<Longrightarrow> drop_maps_wf (load_random_row row cfg)"
  using drop_index_wf [of cfg]
  by (auto simp: load_random_row_def Let_def drop_maps_wf_def map_find_assign map_wf_assign
      split: option.splits if_splits)
    (auto simp: map_index_def split: option.splits)

lemma load_random_row_lookup:
  "drop_maps_wf cfg \<Longrightarrow> map_drop_lookup (load_random_row row cfg) k ty oid = Some b \<Longrightarrow>
   map_drop_lookup cfg k ty oid = Some b \<or> drop_lookup ty oid (cfg_drop_box cfg) = Some b"
  using drop_index_wf [of cfg]
  by (auto simp: load_random_row_def Let_def map_drop_lookup_def drop_lookup_def map_find_assign
      drop_maps_wf_def map_index_def split: option.splits if_splits bind_splits)

lemma load_random_objects_lookup:
  "drop_maps_wf cfg \<Longrightarrow> map_drop_lookup (load_random_objects rows cfg) k ty oid = Some b \<Longrightarrow>
   map_drop_lookup cfg k ty oid = Some b \<or> drop_lookup ty oid (cfg_drop_box cfg) = Some b"
proof (induction rows arbitrary: cfg)
  case (Cons row rows)
  have "map_drop_lookup (load_random_objects rows (load_random_row row cfg)) k ty oid = Some b"
    using Cons.prems(2) by (simp add: load_random_objects_def)
  from Cons.IH [OF load_random_row_wf [OF Cons.prems(1)] this]
  show ?case
    using load_random_row_lookup [OF Cons.prems(1), of row k ty oid b] by auto
qed (simp add: load_random_objects_def)

lemma row_keys [simp]:
  "config_taskid (task_of_row r) = col_int r ''task_id''"
  "grid_id (shop_of_row r) = col_int r ''grid_id''"
  "chapter_id (chapter_of_row r) = col_int r ''chapter_id''"
  "lotion_id (lotion_of_row r) = col_int r ''lotion_id''"
  "spirit_index (spirit_of_row r) = col_int r ''index''"
  by (simp_all add: task_of_row_def shop_of_row_def chapter_of_row_def lotion_of_row_def spirit_of_row_def)

text \<open>A configuration for the examples: refresh at five in the morning, eight hours east.\<close>

definition sample_global :: globalConfig where
  "sample_global =
     \<lparr>config_gold = 100, hero_unlock_count = 3, day_Refresh_time = 5, day_free_task_count = 3,
      day_task_advertisement_task_cd = 60, hero_max_tasks_count = 3, channel_id = 1, game_id = 1,
      refresh_task_gold = 50, relive_gold = 20, config_max_spirit = 30, config_jewel = 10,
      config_recover_spirit_minute = 5, config_recover_spirit = 1, config_enter_game_use_spirit = 2,
      config_day_buy_spirit = 3, config_weixin_gold = 500, daily_game_record_config = [10, 20],
      daily_game_reset_jewel_config = [5, 10], config_weixin_cd_key = ''key''\<rparr>"

definition sample_config :: GameConfig where
  "sample_config =
     \<lparr>cfg_tasks = [], cfg_shop_heroes = [], cfg_time_sales = [], cfg_chapters = [],
      cfg_gold_shop = [], cfg_drop_box = [], cfg_behavior = [], cfg_random_obj = [],
      cfg_map_drop_box = [], cfg_spirit_shop = [], cfg_lotion_shop = [], cfg_lottery = [],
      cfg_prizes = [], cfg_global = sample_global, cfg_server_open_time = 0, cfg_server_char = 97,
      cfg_need_connect_platform = False, cfg_game_id = 1, cfg_server_type = 0,
      cfg_can_concern_weixin = True, cfg_server_title = [], cfg_tz = 28800\<rparr>"

text \<open>
  \<open>GameConfig::Load\<close> on empty tables: a lookup by id finds the first database row with that
  id for the tables filled with \<open>insert\<close> (tasks, hero shop, chapters) and the last one for the
  tables filled with \<open>operator[]\<close> (lotions, spirit shop), and nothing when there is no such row.
\<close>

theorem Load_lookup:
  assumes "cfg_tasks cfg = []" "cfg_shop_heroes cfg = []" "cfg_chapters cfg = []"
    "cfg_lotion_shop cfg = []" "cfg_spirit_shop cfg = []"
  shows "getMapTask (fst (Load db cfg)) k =
       map_option task_of_row (find (\<lambda>r. col_int r ''task_id'' = k) (db ''dream_heroes_task_config''))
   \<and> getShopConfig (fst (Load db cfg)) k =
       map_option shop_of_row (find (\<lambda>r. col_int r ''grid_id'' = k) (db ''hero_shop_config''))
   \<and> getChapterConfigInfo (fst (Load db cfg)) k =
       map_option chapter_of_row (find (\<lambda>r. col_int r ''chapter_id'' = k) (db ''chapter_unlock_config''))
   \<and> getLotionShop (fst (Load db cfg)) k =
       map_option lotion_of_row (find (\<lambda>r. col_int r ''lotion_id'' = k) (rev (db ''lotion_shop_config'')))
   \<and> getSpiritShop (fst (Load db cfg)) k =
       map_option spirit_of_row (find (\<lambda>r. col_int r ''index'' = k) (rev (db ''spirit_shop_config'')))"
proof -
  have last: "map_find k (fold (\<lambda>(a, v). map_assign a v) (map (\<lambda>r. (f r, g r)) rows) []) =
      map_option g (find (\<lambda>r. f r = k) (rev rows))" for f g and rows :: "dbrow list"
    by (simp add: amap.find_fold_assign rev_map map_of_map_find split: option.splits)
  show ?thesis
    by (simp add: assms Load_fst load_defs getMapTask_def getShopConfig_def getChapterConfigInfo_def
        getLotionShop_def getSpiritShop_def map_find_fold_insert last)
qed

definition sample_db :: world_db where
  "sample_db t = (if t = ''dream_heroes_task_config''
     then [\<lparr>col_int = (\<lambda>c. if c = ''task_id'' then 7 else 1), col_str = (\<lambda>_. ''first'')\<rparr>,
           \<lparr>col_int = (\<lambda>c. if c = ''task_id'' then 7 else 2), col_str = (\<lambda>_. ''second'')\<rparr>]
     else [])"

theorem Load_lookup_witness:
  "map_option task_describe (getMapTask (fst (Load sample_db sample_config)) 7) = Some ''first''
   \<and> getMapTask (fst (Load sample_db sample_config)) 8 = None"
  using Load_lookup [of sample_config sample_db 7] Load_lookup [of sample_config sample_db 8]
  by (simp add: sample_config_def sample_db_def task_of_row_def)

text \<open>
  \<open>GameConfig::Load\<close> on empty tables: every entry of the drop table of a map is the entry of
  the global drop table for the same object, so \<open>EnterGame\<close> hands out configured amounts only.
\<close>

theorem Load_map_drops:
  assumes "cfg_map_drop_box cfg = []"
    and "map_drop_lookup (fst (Load db cfg)) k ty oid = Some b"
  shows "drop_lookup ty oid (cfg_drop_box (fst (Load db cfg))) = Some b"
proof -
  have field: "map_drop_lookup cfg1 k ty oid = map_drop_lookup cfg2 k ty oid"
    if "cfg_map_drop_box cfg1 = cfg_map_drop_box cfg2" for cfg1 cfg2
    using that by (simp add: map_drop_lookup_def)
  define base where "base = load_behavior (db ''map_obj_count'') (load_drop_box (db ''drop_box'')
     (load_gold_shop (db ''gold_shop_config_info'') (load_time_sales (db ''time_shop_sales_promotion'')
       (fst (load_global (db ''global_config'') (load_chapters (db ''chapter_unlock_config'')
         (load_shop_heroes (db ''hero_shop_config'') (load_tasks (db ''dream_heroes_task_config'') cfg))))))))"
  have empty: "cfg_map_drop_box base = []"
    by (simp add: base_def load_defs assms(1))
  have fin: "cfg_map_drop_box (fst (Load db cfg)) = cfg_map_drop_box (load_random_objects (db ''random_object'') base)"
    "cfg_drop_box (fst (Load db cfg)) = cfg_drop_box base"
    by (simp_all add: Load_fst load_defs base_def)
  have "map_drop_lookup (load_random_objects (db ''random_object'') base) k ty oid = Some b"
    using assms(2) field [OF fin(1)] by simp
  moreover have "drop_maps_wf base" by (simp add: drop_maps_wf_def empty)
  moreover have "map_drop_lookup base k ty oid = None" by (simp add: map_drop_lookup_def empty)
  ultimately show ?thesis
    using load_random_objects_lookup [of base "db ''random_object''" k ty oid b] by (simp add: fin(2))
qed

definition sample_drop_db :: world_db where
  "sample_drop_db t =
     (if t = ''drop_box''
      then [\<lparr>col_int = (\<lambda>c. if c = ''obj_id'' then 4 else if c = ''obj_type'' then 2 else 10), col_str = (\<lambda>_. [])\<rparr>]
      else if t = ''random_object''
      then [\<lparr>col_int = (\<lambda>c. if c = ''obj_id'' then 4 else if c = ''obj_type'' then 2 else 1), col_str = (\<lambda>_. [])\<rparr>]
      else [])"

theorem Load_map_drops_witness:
  "map_drop_lookup (fst (Load sample_drop_db sample_config)) (1, 1) 2 4 =
     Some \<lparr>drop_obj_id = 4, drop_type = 2, base_gold = 10, random_gold = 10\<rparr>
   \<and> drop_lookup 2 4 (cfg_drop_box (fst (Load sample_drop_db sample_config))) =
     Some \<lparr>drop_obj_id = 4, drop_type = 2, base_gold = 10, random_gold = 10\<rparr>"
proof -
  have "map_drop_lookup (fst (Load sample_drop_db sample_config)) (1, 1) 2 4 =
     Some \<lparr>drop_obj_id = 4, drop_type = 2, base_gold = 10, random_gold = 10\<rparr>"
    by (simp add: Load_fst load_defs sample_drop_db_def sample_config_def map_drop_lookup_def
        drop_lookup_def load_random_objects_def load_random_row_def load_drop_box_row_def drop_box_of_row_def
        map_index_def map_insert_def Let_def)
  then show ?thesis
    using Load_map_drops [of sample_config sample_drop_db "(1, 1)" 2 4] by (simp add: sample_config_def)
qed

text \<open>
  \<open>GameConfig::isInToday\<close> after the refresh hour: a past time counts as today exactly when
  it lies on the same calendar day, at or after the refresh hour.
\<close>

theorem isInToday_spec:
  "0 \<le> day_Refresh_time (cfg_global cfg) \<Longrightarrow>
   day_Refresh_time (cfg_global cfg) \<le> local_hour (cfg_tz cfg) now \<Longrightarrow> t \<le> now \<Longrightarrow>
   isInToday cfg now t \<longleftrightarrow> local_day (cfg_tz cfg) t = local_day (cfg_tz cfg) now \<and>
     day_Refresh_time (cfg_global cfg) \<le> local_hour (cfg_tz cfg) t"
  using isInToday_after_refresh by blast

theorem isInToday_spec_witness:
  "isInToday sample_config (30 * 3600) (22 * 3600) \<and> \<not> isInToday sample_config (30 * 3600) (20 * 3600)"
  using isInToday_spec [of sample_config "30 * 3600" "22 * 3600"]
    isInToday_spec [of sample_config "30 * 3600" "20 * 3600"]
  by (simp add: sample_config_def sample_global_def local_hour_def local_day_def)

text \<open>
  \<open>GameConfig::isInToday\<close> before the refresh hour: no past or present time counts as today,
  not even the current one. Every daily limit that is tested with it is off between midnight and
  the refresh hour.
\<close>

theorem isInToday_before_refresh_hour:
  "local_hour (cfg_tz cfg) now < day_Refresh_time (cfg_global cfg) \<Longrightarrow> t \<le> now \<Longrightarrow> \<not> isInToday cfg now t"
  by (rule isInToday_before_refresh)

theorem isInToday_before_refresh_hour_witness:
  "local_hour 28800 (20 * 3600) = 4 \<and> \<not> isInToday sample_config (20 * 3600) (20 * 3600)"
  using isInToday_before_refresh_hour [of sample_config "20 * 3600" "20 * 3600"]
  by (simp add: sample_config_def sample_global_def local_hour_def)

text \<open>
  \<open>GameConfig::getOpenServerPassedDay\<close> is the number of calendar days between the opening of
  the server and a later time.
\<close>

theorem getOpenServerPassedDay_days:
  "cfg_server_open_time cfg \<le> cur \<Longrightarrow> in32 (local_day (cfg_tz cfg) cur - local_day (cfg_tz cfg) (cfg_server_open_time cfg)) \<Longrightarrow>
   getOpenServerPassedDay cfg cur = local_day (cfg_tz cfg) cur - local_day (cfg_tz cfg) (cfg_server_open_time cfg)"
proof -
  let ?tz = "cfg_tz cfg" and ?o = "cfg_server_open_time cfg"
  assume le: "?o \<le> cur" and r: "in32 (local_day ?tz cur - local_day ?tz ?o)"
  have pos: "0 \<le> (cur + ?tz) - local_day ?tz ?o * 86400"
    using local_day_bounds [where tz = ?tz and t = ?o] le by linarith
  have "((cur + ?tz) - local_day ?tz ?o * 86400) div 86400 = local_day ?tz cur - local_day ?tz ?o"
    using div_mult_self1 [of 86400 "cur + ?tz" "- local_day ?tz ?o"] by (simp add: local_day_def)
  then have "(cur - at_local_hour ?tz ?o 0) sdiv (24 * 60 * 60) = local_day ?tz cur - local_day ?tz ?o"
    using pos by (simp add: passed_days sdiv_nonneg)
  then show ?thesis using r by (simp add: getOpenServerPassedDay_def wrap32_id)
qed

end
