(* ===== verification/RankManager.thy ===== *)
theory RankManager
  imports RecordManager GameConfig "HOL-Library.Sublist"
begin

text \<open>
  \<open>gameserver/RankManager.cpp\<close>: the rank list of the daily game. The manager keeps the entries
  as a list and, beside it, a map from accounts to ranks; \<open>updateHeroDailyRank\<close> records a score
  and re-ranks, \<open>removeHero\<close> takes a hero out, \<open>save\<close> writes the list to the database, and
  \<open>GetDailyGamePrize\<close> looks up the prize of a rank. The lemmas show which updates keep list and
  map in step, and which do not.
\<close>

section \<open>State and operations\<close>

record DailyGameRankTg =
  rk_name :: string
  rk_acc :: int
  rk_score :: int
  rk_rank :: int
  rk_time :: int

record RankManager =
  heroes_daily_rank :: "DailyGameRankTg list"
  heroes_rank :: "(int, int) smap"
  daily_max_rank_size :: int
  min_daily_score :: int
  daily_game_begin_time :: int
  max_daily_progress :: int

definition ClearRankList :: "RankManager \<Rightarrow> RankManager" where
  "ClearRankList rm = rm\<lparr>heroes_daily_rank := [], heroes_rank := []\<rparr>"

text \<open>The comparison object \<open>DailyRank\<close>.\<close>

definition DailyRank :: "DailyGameRankTg \<Rightarrow> DailyGameRankTg \<Rightarrow> bool" where
  "DailyRank t1 t2 =
     (if rk_score t1 > rk_score t2 then True
      else if rk_score t1 = rk_score t2 then rk_time t1 < rk_time t2
      else False)"

text \<open>\<open>std::list::sort\<close> is stable; the comparison orders by falling score, then rising time.\<close>

definition rank_key :: "DailyGameRankTg \<Rightarrow> int \<times> int" where
  "rank_key e = (- rk_score e, rk_time e)"

definition rank_sort :: "DailyGameRankTg list \<Rightarrow> DailyGameRankTg list" where
  "rank_sort = sort_key rank_key"

lemma DailyRank_key: "DailyRank t1 t2 \<longleftrightarrow> rank_key t1 < rank_key t2"
  by (auto simp: DailyRank_def rank_key_def less_prod_def)

definition rank_of_row :: "dbrow \<Rightarrow> DailyGameRankTg" where
  "rank_of_row row =
     \<lparr>rk_name = col_str row ''name'', rk_acc = col_int row ''account_id'', rk_score = col_int row ''score'',
      rk_rank = col_int row ''rank'', rk_time = col_int row ''UNIX_TIMESTAMP(`time`)''\<rparr>"

fun load_ranks :: "GameConfig \<Rightarrow> int \<Rightarrow> dbrow list \<Rightarrow> RankManager \<Rightarrow> RankManager" where
  "load_ranks cfg now [] rm = rm"
| "load_ranks cfg now (row # rows) rm =
     (if isInToday_stdafx cfg now (wrap_u32 (col_int row ''UNIX_TIMESTAMP(`time`)''))
      then load_ranks cfg now rows
             (rm\<lparr>heroes_daily_rank := heroes_daily_rank rm @ [rank_of_row row],
                 heroes_rank := map_assign (rk_acc (rank_of_row row)) (rk_rank (rank_of_row row)) (heroes_rank rm)\<rparr>)
      else load_ranks cfg now rows rm)"

definition RankManager_Load :: "GameConfig \<Rightarrow> int \<Rightarrow> dbrow list \<Rightarrow> RankManager \<Rightarrow> RankManager" where
  "RankManager_Load cfg now rows rm = load_ranks cfg now rows (ClearRankList rm)"

definition getHeroDailyRank :: "RankManager \<Rightarrow> int \<Rightarrow> int" where
  "getHeroDailyRank rm acc =
     (case map_find acc (heroes_rank rm) of None \<Rightarrow> wrap32 (daily_max_rank_size rm + 1) | Some r \<Rightarrow> r)"

fun find_prize :: "int \<Rightarrow> DailyGamePrizeConfig list \<Rightarrow> int" where
  "find_prize r [] = 0"
| "find_prize r (c # cs) = (if begin_rank c \<le> r \<and> r \<le> end_rank c then prize_gold c else find_prize r cs)"

definition GetDailyGamePrize :: "GameConfig \<Rightarrow> int \<Rightarrow> int" where
  "GetDailyGamePrize cfg r = find_prize r (cfg_prizes cfg)"

text \<open>
  The batches of \<open>save\<close> and \<open>DailyGameUpdate\<close>: \<open>number\<close> is the counter of the loop, \<open>sql\<close> the text
  under construction. At 20 the text is sent and the counter reset, and the loop header then
  increments it.
\<close>

fun rank_batches :: "DailyGameRankTg list \<Rightarrow> nat \<Rightarrow> DailyGameRankTg sqlpiece list \<Rightarrow> DailyGameRankTg sqlpiece list list" where
  "rank_batches [] number sql = (if sql = [] then [] else [sql])"
| "rank_batches (e # es) number sql =
     (let sql' = (if number = 0 then [Head] else sql @ [Comma]) @ [Row e]
      in if 20 \<le> number then sql' # rank_batches es (Suc 0) []
         else rank_batches es (Suc number) sql')"

datatype rank_sql = DeleteRanks | ReplaceRanks "DailyGameRankTg sqlpiece list"

definition rank_save :: "RankManager \<Rightarrow> rank_sql list" where
  "rank_save rm = DeleteRanks # map ReplaceRanks (rank_batches (heroes_daily_rank rm) 0 [])"

text \<open>
  \<open>removeHero\<close>: \<open>erase\<close> returns the next iterator and the loop header advances it once more.
  When the erased entry was the last, the header advances the end iterator, which is
  undefined behaviour: the result is then \<open>None\<close>.
\<close>

fun remove_loop :: "int \<Rightarrow> int \<Rightarrow> DailyGameRankTg list \<Rightarrow> (int, int) smap \<Rightarrow> (DailyGameRankTg list \<times> (int, int) smap) option" where
  "remove_loop acc temp_rank [] m = Some ([], m)"
| "remove_loop acc temp_rank (e # es) m =
     (let e' = e\<lparr>rk_rank := temp_rank\<rparr>; m1 = map_assign (rk_acc e) temp_rank m
      in if rk_acc e = acc
         then (case es of
                 [] \<Rightarrow> None
               | n # es' \<Rightarrow> map_option (\<lambda>(l, m2). (n # l, m2)) (remove_loop acc temp_rank es' m1))
         else map_option (\<lambda>(l, m2). (e' # l, m2))
                (remove_loop acc (temp_rank + 1) es (map_assign (rk_acc e) (temp_rank + 1) m1)))"

definition removeHero :: "int \<Rightarrow> RankManager \<Rightarrow> RankManager option" where
  "removeHero acc rm =
     map_option (\<lambda>(l, m). rm\<lparr>heroes_daily_rank := l, heroes_rank := m\<rparr>)
       (remove_loop acc 1 (heroes_daily_rank rm) [])"

text \<open>The ranking loop of \<open>updateHeroDailyRank\<close>; the last component is the out parameter.\<close>

fun rank_loop :: "int \<Rightarrow> int \<Rightarrow> DailyGameRankTg list \<Rightarrow> (int, int) smap \<Rightarrow> int \<Rightarrow> DailyGameRankTg list \<times> (int, int) smap \<times> int" where
  "rank_loop acc temp_rank [] m rank = ([], m, rank)"
| "rank_loop acc temp_rank (e # es) m rank =
     (let (es', m', rank') = rank_loop acc (temp_rank + 1) es (map_assign (rk_acc e) temp_rank m)
                               (if rk_acc e = acc then temp_rank else rank)
      in (e\<lparr>rk_rank := temp_rank\<rparr> # es', m', rank'))"

definition updateHeroDailyRank :: "int \<Rightarrow> int \<Rightarrow> string \<Rightarrow> int \<Rightarrow> RankManager \<Rightarrow> RankManager \<times> int" where
  "updateHeroDailyRank now acc nm score rm =
     (let rank0 = wrap32 (daily_max_rank_size rm + 1);
          full = \<not> (int (length (heroes_rank rm)) < daily_max_rank_size rm mod 18446744073709551616);
          need_rank = (min_daily_score rm < score);
          present = (\<exists>e \<in> set (heroes_daily_rank rm). rk_acc e = acc);
          need_add = ((need_rank \<or> \<not> full) \<and> \<not> present);
          rm1 = rm\<lparr>heroes_daily_rank :=
                  update_first (\<lambda>e. rk_acc e = acc) (\<lambda>e. e\<lparr>rk_score := score, rk_name := nm\<rparr>) (heroes_daily_rank rm)\<rparr>;
          rank1 = (if need_add then wrap32 (int (length (heroes_daily_rank rm1)) + 1) else rank0);
          rm2 = (if need_add
                 then rm1\<lparr>heroes_rank := map_assign acc rank1 (heroes_rank rm1),
                          min_daily_score := score,
                          heroes_daily_rank := heroes_daily_rank rm1 @
                            [\<lparr>rk_name = nm, rk_acc = acc, rk_score = score, rk_rank = rank1, rk_time = wrap_u32 now\<rparr>]\<rparr>
                 else rm1)
      in if need_rank
         then let (l, m, rank2) = rank_loop acc 1 (rank_sort (heroes_daily_rank rm2)) [] rank1
              in (rm2\<lparr>heroes_daily_rank := l, heroes_rank := m\<rparr>, rank2)
         else (rm2, rank1))"

section \<open>The ranking loop\<close>

fun number_ranks :: "int \<Rightarrow> DailyGameRankTg list \<Rightarrow> DailyGameRankTg list" where
  "number_ranks k [] = []"
| "number_ranks k (e # es) = e\<lparr>rk_rank := k\<rparr> # number_ranks (k + 1) es"

definition entry_of :: "int \<Rightarrow> DailyGameRankTg list \<Rightarrow> DailyGameRankTg option" where
  "entry_of acc es = find (\<lambda>e. rk_acc e = acc) es"

lemma entry_of_simps [simp]:
  "entry_of acc [] = None"
  "entry_of acc (e # es) = (if rk_acc e = acc then Some e else entry_of acc es)"
  by (simp_all add: entry_of_def)

lemma entry_of_None: "entry_of acc es = None \<longleftrightarrow> acc \<notin> rk_acc ` set es"
  by (induction es) auto

lemma entry_of_in: "entry_of acc es = Some e \<Longrightarrow> e \<in> set es \<and> rk_acc e = acc"
  by (induction es) (auto split: if_splits)

lemma entry_of_unique: "distinct (map rk_acc es) \<Longrightarrow> e \<in> set es \<Longrightarrow> entry_of (rk_acc e) es = Some e"
  by (induction es) (auto simp: rev_image_eqI)

lemma number_ranks_acc [simp]: "map rk_acc (number_ranks k es) = map rk_acc es"
  by (induction k es rule: number_ranks.induct) auto

lemma number_ranks_acc_set [simp]: "rk_acc ` set (number_ranks k es) = rk_acc ` set es"
  by (metis list.set_map number_ranks_acc)

lemma number_ranks_rank: "map rk_rank (number_ranks k es) = map (\<lambda>i. k + int i) [0..<length es]"
  by (induction k es rule: number_ranks.induct) (auto simp: map_upt_Suc simp del: upt_Suc)

lemma number_ranks_key [simp]: "map rank_key (number_ranks k es) = map rank_key es"
  by (induction k es rule: number_ranks.induct) (auto simp: rank_key_def)

lemma rank_loop_spec:
  assumes "distinct (map rk_acc es)" "map_wf m"
  shows "\<exists>m' r'. rank_loop acc k es m r = (number_ranks k es, m', r') \<and> map_wf m' \<and>
    (\<forall>a. map_find a m' = (case entry_of a (number_ranks k es) of None \<Rightarrow> map_find a m | Some e \<Rightarrow> Some (rk_rank e))) \<and>
    r' = (case entry_of acc (number_ranks k es) of None \<Rightarrow> r | Some e \<Rightarrow> rk_rank e)"
  using assms
proof (induction acc k es m r rule: rank_loop.induct)
  case (2 acc k e es m r)
  let ?m = "map_assign (rk_acc e) k m" and ?r = "if rk_acc e = acc then k else r"
  have wf: "map_wf ?m" using "2.prems" by (simp add: map_wf_assign)
  have dist: "distinct (map rk_acc es)" using "2.prems" by simp
  from "2.IH" [OF dist wf] obtain m' r' where IH: "rank_loop acc (k + 1) es ?m ?r = (number_ranks (k + 1) es, m', r')" "map_wf m'"
    "\<forall>a. map_find a m' = (case entry_of a (number_ranks (k + 1) es) of None \<Rightarrow> map_find a ?m | Some e \<Rightarrow> Some (rk_rank e))"
    "r' = (case entry_of acc (number_ranks (k + 1) es) of None \<Rightarrow> ?r | Some e \<Rightarrow> rk_rank e)"
    by blast
  have new: "entry_of (rk_acc e) (number_ranks (k + 1) es) = None"
    using "2.prems" by (simp add: entry_of_None)
  show ?case
    using IH new "2.prems"(2) by (auto simp: map_find_assign split: option.splits)
qed simp

section \<open>List and map in step\<close>

definition accounts_distinct :: "RankManager \<Rightarrow> bool" where
  "accounts_distinct rm \<longleftrightarrow> distinct (map rk_acc (heroes_daily_rank rm))"

text \<open>The ranking a client can rely on: nobody stands in front of a better entry, the ranks are
  \<open>1, 2, ...\<close> down the list, and the map holds exactly these ranks.\<close>

definition rank_ok :: "RankManager \<Rightarrow> bool" where
  "rank_ok rm \<longleftrightarrow> accounts_distinct rm \<and>
     sorted_wrt (\<lambda>a b. \<not> DailyRank b a) (heroes_daily_rank rm) \<and>
     map rk_rank (heroes_daily_rank rm) = map (\<lambda>i. 1 + int i) [0..<length (heroes_daily_rank rm)] \<and>
     map_wf (heroes_rank rm) \<and>
     (\<forall>a. map_find a (heroes_rank rm) = map_option rk_rank (entry_of a (heroes_daily_rank rm)))"

lemma sorted_rank_key:
  "sorted_wrt (\<lambda>a b. \<not> DailyRank b a) es \<longleftrightarrow> sorted (map rank_key es)"
  by (simp add: DailyRank_key sorted_map linorder_not_less)

definition with_score :: "int \<Rightarrow> string \<Rightarrow> int \<Rightarrow> DailyGameRankTg list \<Rightarrow> DailyGameRankTg list" where
  "with_score acc nm score es =
     update_first (\<lambda>e. rk_acc e = acc) (\<lambda>e. e\<lparr>rk_score := score, rk_name := nm\<rparr>) es"

lemma with_score_acc [simp]: "map rk_acc (with_score acc nm score es) = map rk_acc es"
  by (simp add: with_score_def map_update_first)

lemma with_score_length [simp]: "length (with_score acc nm score es) = length es"
  by (simp add: with_score_def)

lemma entry_of_with_score:
  "entry_of a (with_score acc nm score es) =
     (if a = acc then map_option (\<lambda>e. e\<lparr>rk_score := score, rk_name := nm\<rparr>) (entry_of a es) else entry_of a es)"
  by (induction es) (auto simp: with_score_def)

text \<open>The entry a hero has after a score was recorded, before ranks are assigned.\<close>

definition new_entry :: "int \<Rightarrow> int \<Rightarrow> string \<Rightarrow> int \<Rightarrow> DailyGameRankTg list \<Rightarrow> DailyGameRankTg list" where
  "new_entry now acc nm score es =
     (if acc \<in> rk_acc ` set es then with_score acc nm score es
      else es @ [\<lparr>rk_name = nm, rk_acc = acc, rk_score = score,
                  rk_rank = wrap32 (int (length es) + 1), rk_time = wrap_u32 now\<rparr>])"

lemma with_score_absent: "acc \<notin> rk_acc ` set es \<Longrightarrow> with_score acc nm score es = es"
  by (induction es) (auto simp: with_score_def)

lemma new_entry_distinct: "distinct (map rk_acc es) \<Longrightarrow> distinct (map rk_acc (new_entry now acc nm score es))"
proof (cases "acc \<in> rk_acc ` set es")
  case True
  then show "distinct (map rk_acc es) \<Longrightarrow> ?thesis"
    by (simp add: new_entry_def del: distinct_map)
qed (auto simp: new_entry_def)

lemma set_map_acc: "(\<exists>e \<in> set es. rk_acc e = acc) \<longleftrightarrow> acc \<in> rk_acc ` set es"
  by auto

lemma update_ranked:
  assumes "min_daily_score rm < score"
  shows "\<exists>m r. rank_loop acc 1 (rank_sort (new_entry now acc nm score (heroes_daily_rank rm))) []
       (if acc \<in> rk_acc ` set (heroes_daily_rank rm) then wrap32 (daily_max_rank_size rm + 1)
        else wrap32 (int (length (heroes_daily_rank rm)) + 1)) =
       (heroes_daily_rank (fst (updateHeroDailyRank now acc nm score rm)), m, r) \<and>
     heroes_rank (fst (updateHeroDailyRank now acc nm score rm)) = m \<and>
     snd (updateHeroDailyRank now acc nm score rm) = r"
  using assms
  by (auto simp: updateHeroDailyRank_def Let_def new_entry_def with_score_def [symmetric]
      with_score_absent set_map_acc split: prod.splits)

lemma set_rank_sort [simp]: "set (rank_sort es) = set es"
  by (simp add: rank_sort_def)

lemma rank_sort_distinct: "distinct (map rk_acc es) \<Longrightarrow> distinct (map rk_acc (rank_sort es))"
  by (simp add: rank_sort_def distinct_map)

lemma sorted_rank_sort: "sorted (map rank_key (rank_sort es))"
  by (simp add: rank_sort_def)

lemma length_rank_sort [simp]: "length (rank_sort es) = length es"
  by (simp add: rank_sort_def)

lemma entry_of_rank_sort: "distinct (map rk_acc es) \<Longrightarrow> entry_of a (rank_sort es) = entry_of a es"
proof (cases "entry_of a es")
  case None
  then have "entry_of a (rank_sort es) = None" by (simp add: entry_of_None)
  with None show ?thesis by simp
next
  case (Some e)
  assume "distinct (map rk_acc es)"
  then show ?thesis
    using entry_of_in [OF Some] entry_of_unique [OF rank_sort_distinct, of es e] by (simp add: Some)
qed

lemma length_number_ranks [simp]: "length (number_ranks k es) = length es"
  by (induction k es rule: number_ranks.induct) auto

lemma entry_of_number_ranks:
  "entry_of a es = Some e \<Longrightarrow> \<exists>r. entry_of a (number_ranks k es) = Some (e\<lparr>rk_rank := r\<rparr>)"
  by (induction k es rule: number_ranks.induct) (auto split: if_splits)

lemma entry_of_number_ranks_None: "entry_of a (number_ranks k es) = None \<longleftrightarrow> entry_of a es = None"
  by (induction k es rule: number_ranks.induct) auto

lemma entry_of_new_entry:
  "entry_of a (new_entry now acc nm score es) =
     (if a = acc
      then Some (case entry_of acc es of
                   None \<Rightarrow> \<lparr>rk_name = nm, rk_acc = acc, rk_score = score,
                            rk_rank = wrap32 (int (length es) + 1), rk_time = wrap_u32 now\<rparr>
                 | Some e \<Rightarrow> e\<lparr>rk_score := score, rk_name := nm\<rparr>)
      else entry_of a es)"
proof -
  have app: "entry_of b (es @ [x]) = (case entry_of b es of None \<Rightarrow> entry_of b [x] | Some e \<Rightarrow> Some e)" for b x
    by (induction es) auto
  show ?thesis
    using entry_of_None [of acc es]
    by (auto simp: new_entry_def entry_of_with_score app split: option.splits)
qed

text \<open>An update above the minimal score leaves list and map in step.\<close>

lemma updateHeroDailyRank_ranked:
  fixes now acc :: int and nm :: string
  assumes d: "accounts_distinct rm" and s: "min_daily_score rm < score"
  defines "es \<equiv> rank_sort (new_entry now acc nm score (heroes_daily_rank rm))"
  shows "heroes_daily_rank (fst (updateHeroDailyRank now acc nm score rm)) = number_ranks 1 es"
    and "rank_ok (fst (updateHeroDailyRank now acc nm score rm))"
    and "entry_of acc (number_ranks 1 es) = Some e \<Longrightarrow> snd (updateHeroDailyRank now acc nm score rm) = rk_rank e"
proof -
  let ?u = "updateHeroDailyRank now acc nm score rm"
  have dist: "distinct (map rk_acc es)"
    using d by (simp add: es_def accounts_distinct_def rank_sort_distinct new_entry_distinct)
  obtain m r where u: "\<exists>r0. rank_loop acc 1 es [] r0 = (heroes_daily_rank (fst ?u), m, r)"
    "heroes_rank (fst ?u) = m" "snd ?u = r"
    using update_ranked [OF s, of acc now nm] unfolding es_def by blast
  then obtain r0 where l: "rank_loop acc 1 es [] r0 = (heroes_daily_rank (fst ?u), m, r)" by blast
  have spec: "heroes_daily_rank (fst ?u) = number_ranks 1 es" "map_wf m"
    "\<forall>a. map_find a m = (case entry_of a (number_ranks 1 es) of None \<Rightarrow> None | Some e \<Rightarrow> Some (rk_rank e))"
    "r = (case entry_of acc (number_ranks 1 es) of None \<Rightarrow> r0 | Some e \<Rightarrow> rk_rank e)"
    using rank_loop_spec [OF dist map_wf_Nil, of acc 1 r0] l by (auto split: option.splits)
  show "heroes_daily_rank (fst ?u) = number_ranks 1 es" by (rule spec(1))
  show "rank_ok (fst ?u)"
    using spec dist u(2) sorted_rank_sort
    by (auto simp: rank_ok_def accounts_distinct_def sorted_rank_key number_ranks_rank es_def
        simp del: distinct_map split: option.splits)
  show "entry_of acc (number_ranks 1 es) = Some e \<Longrightarrow> snd ?u = rk_rank e"
    using spec(4) u(3) by simp
qed

section \<open>Removal\<close>

fun bump_ranks :: "int \<Rightarrow> DailyGameRankTg list \<Rightarrow> (int, int) smap \<Rightarrow> (int, int) smap" where
  "bump_ranks k [] m = m"
| "bump_ranks k (e # es) m = bump_ranks (k + 1) es (map_assign (rk_acc e) (k + 1) (map_assign (rk_acc e) k m))"

lemma remove_loop_prefix:
  "acc \<notin> rk_acc ` set xs \<Longrightarrow>
   remove_loop acc k (xs @ zs) m =
     map_option (\<lambda>(l, m'). (number_ranks k xs @ l, m'))
       (remove_loop acc (k + int (length xs)) zs (bump_ranks k xs m))"
proof (induction xs arbitrary: k m)
  case Nil
  then show ?case by (simp add: option.map_ident case_prod_beta)
next
  case (Cons x xs)
  then show ?case
    by (simp add: Let_def option.map_comp comp_def case_prod_beta add.assoc)
qed

lemma remove_loop_absent:
  "acc \<notin> rk_acc ` set xs \<Longrightarrow> remove_loop acc k xs m = Some (number_ranks k xs, bump_ranks k xs m)"
  using remove_loop_prefix [of acc xs k "[]" m] by simp

lemma bump_ranks_wf: "map_wf m \<Longrightarrow> map_wf (bump_ranks k xs m)"
  by (induction k xs m rule: bump_ranks.induct) (auto intro: map_wf_assign)

lemma bump_ranks_find:
  "map_wf m \<Longrightarrow> distinct (map rk_acc xs) \<Longrightarrow>
   map_find a (bump_ranks k xs m) =
     (case entry_of a (number_ranks k xs) of None \<Rightarrow> map_find a m | Some e \<Rightarrow> Some (rk_rank e + 1))"
proof (induction k xs m rule: bump_ranks.induct)
  case (2 k e es m)
  have "entry_of (rk_acc e) (number_ranks (k + 1) es) = None"
    using "2.prems" by (simp add: entry_of_None)
  then show ?case
    using 2 by (auto simp: map_find_assign map_wf_assign split: option.splits)
qed simp

lemma removeHero_split:
  assumes "heroes_daily_rank rm = xs @ e # y # ys" "distinct (map rk_acc (heroes_daily_rank rm))" "rk_acc e = acc"
  shows "removeHero acc rm = Some (rm\<lparr>heroes_daily_rank := number_ranks 1 xs @ y # number_ranks (1 + int (length xs)) ys,
       heroes_rank := bump_ranks (1 + int (length xs)) ys
         (map_assign acc (1 + int (length xs)) (bump_ranks 1 xs []))\<rparr>)"
proof -
  have nx: "acc \<notin> rk_acc ` set xs" "acc \<notin> rk_acc ` set ys" using assms by auto
  show ?thesis
    using assms(1,3) by (simp add: removeHero_def remove_loop_prefix [OF nx(1)] remove_loop_absent [OF nx(2)] Let_def)
qed

section \<open>Batches\<close>

lemma rank_batches_first:
  "acc \<noteq> [] \<Longrightarrow> length acc \<le> 20 \<Longrightarrow>
   rank_batches es (length acc) (stmt acc) =
     stmt (acc @ take (21 - length acc) es) # rank_batches (drop (21 - length acc) es) (Suc 0) []"
proof (induction es arbitrary: acc)
  case (Cons e es)
  have n: "21 - length acc = Suc (20 - length acc)" using Cons.prems by simp
  show ?case
  proof (cases "length acc = 20")
    case True
    then show ?thesis using Cons.prems by (simp add: Let_def stmt_snoc)
  next
    case False
    then have "rank_batches es (length (acc @ [e])) (stmt (acc @ [e])) =
        stmt ((acc @ [e]) @ take (21 - length (acc @ [e])) es) # rank_batches (drop (21 - length (acc @ [e])) es) (Suc 0) []"
      using Cons.prems by (intro Cons.IH) auto
    then show ?thesis using False Cons.prems by (simp add: Let_def stmt_snoc n)
  qed
qed simp

lemma comma_rows_Nil_iff [simp]: "comma_rows xs = [] \<longleftrightarrow> xs = []"
  by (cases xs) auto

lemma rank_batches_rest:
  "length acc \<le> 19 \<Longrightarrow>
   rank_batches es (Suc (length acc)) (comma_rows acc) = map comma_rows (chunks 20 (acc @ es))"
proof (induction es arbitrary: acc)
  case Nil
  then show ?case by (cases "acc = []") (simp_all add: chunks_short)
next
  case (Cons e es)
  show ?case
  proof (cases "length acc = 19")
    case True
    have "rank_batches es (Suc 0) [] = map comma_rows (chunks 20 es)"
      using Cons.IH [of "[]"] by simp
    then show ?thesis
      using True chunks_append [of "acc @ [e]" 20 es] by (simp add: Let_def comma_rows_append)
  next
    case False
    then have "rank_batches es (Suc (length (acc @ [e]))) (comma_rows (acc @ [e])) = map comma_rows (chunks 20 ((acc @ [e]) @ es))"
      using Cons.prems by (intro Cons.IH) auto
    then show ?thesis using False Cons.prems by (simp add: Let_def comma_rows_append)
  qed
qed

lemma rank_batches_spec:
  "es \<noteq> [] \<Longrightarrow> rank_batches es 0 [] = stmt (take 21 es) # map comma_rows (chunks 20 (drop 21 es))"
proof (cases es)
  case (Cons e es')
  have "rank_batches es' (length [e]) (stmt [e]) = stmt ([e] @ take 20 es') # rank_batches (drop 20 es') (Suc 0) []"
    using rank_batches_first [of "[e]" es'] by simp
  then show ?thesis using rank_batches_rest [of "[]" "drop 20 es'"] by (simp add: Cons Let_def)
qed simp

lemma comma_rows_not_stmt: "xs \<noteq> [] \<Longrightarrow> \<not> stmt_ok (comma_rows xs)"
  by (cases xs) (auto simp: stmt_ok_def)

section \<open>Properties\<close>

text \<open>The operations the other components call, as one step of the rank manager.\<close>

inductive rank_step :: "RankManager \<Rightarrow> RankManager \<Rightarrow> bool" where
  rank_update: "rank_step rm (fst (updateHeroDailyRank now acc nm score rm))"
| rank_remove: "removeHero acc rm = Some rm' \<Longrightarrow> rank_step rm rm'"
| rank_clear: "rank_step rm (ClearRankList rm)"

inductive_cases rank_stepE: "rank_step rm rm'"

lemma update_accounts:
  "map rk_acc (heroes_daily_rank (fst (updateHeroDailyRank now acc nm score rm))) = map rk_acc (heroes_daily_rank rm)
   \<or> acc \<notin> rk_acc ` set (heroes_daily_rank rm) \<and>
     map rk_acc (heroes_daily_rank (fst (updateHeroDailyRank now acc nm score rm))) = map rk_acc (heroes_daily_rank rm) @ [acc]"
  if "\<not> min_daily_score rm < score"
  using that
  by (auto simp: updateHeroDailyRank_def Let_def with_score_def [symmetric] with_score_absent set_map_acc)

lemma update_distinct: "accounts_distinct rm \<Longrightarrow> accounts_distinct (fst (updateHeroDailyRank now acc nm score rm))"
proof (cases "min_daily_score rm < score")
  case True
  then show "accounts_distinct rm \<Longrightarrow> ?thesis"
    using updateHeroDailyRank_ranked(2) [of rm score now acc nm] by (simp add: rank_ok_def)
next
  case False
  then show "accounts_distinct rm \<Longrightarrow> ?thesis"
    using update_accounts [OF False, of now acc nm] by (auto simp: accounts_distinct_def simp del: distinct_map)
qed

lemma remove_loop_subseq:
  "remove_loop acc k es m = Some (l, m') \<Longrightarrow> subseq (map rk_acc l) (map rk_acc es)"
proof (induction acc k es m arbitrary: l m' rule: remove_loop.induct)
  case (2 acc k e es m)
  show ?case
  proof (cases "rk_acc e = acc")
    case True
    then show ?thesis using 2 by (cases es) (auto simp: Let_def)
  next
    case False
    then show ?thesis using 2 by (auto simp: Let_def)
  qed
qed simp

lemma remove_distinct: "removeHero acc rm = Some rm' \<Longrightarrow> accounts_distinct rm \<Longrightarrow> accounts_distinct rm'"
  by (auto simp: removeHero_def accounts_distinct_def simp del: distinct_map
      dest!: remove_loop_subseq subseq_conv_nths [THEN iffD1] intro: distinct_nthsI)

interpretation ranks: invariant_system rank_step accounts_distinct
proof unfold_locales
  fix rm rm'
  assume "accounts_distinct rm" "rank_step rm rm'"
  then show "accounts_distinct rm'"
    by (auto elim!: rank_stepE intro: remove_distinct update_distinct)
      (simp add: ClearRankList_def accounts_distinct_def)
qed

text \<open>
  C17. \<open>RankManager::updateHeroDailyRank\<close> with a score above \<open>_min_daily_score\<close> leaves the list
  sorted by falling score and rising time with the ranks \<open>1, 2, ...\<close>, the map \<open>_heroes_rank\<close> equal
  to the ranks of the list, the hero's entry with the new score and name at the returned rank, and
  score, time and name of everybody else unchanged.
\<close>

theorem updateHeroDailyRank_correct:
  assumes "accounts_distinct rm" "min_daily_score rm < score"
  shows "rank_ok (fst (updateHeroDailyRank now acc nm score rm)) \<and>
    (\<exists>e. entry_of acc (heroes_daily_rank (fst (updateHeroDailyRank now acc nm score rm))) = Some e \<and>
       rk_score e = score \<and> rk_name e = nm \<and> rk_rank e = snd (updateHeroDailyRank now acc nm score rm)) \<and>
    getHeroDailyRank (fst (updateHeroDailyRank now acc nm score rm)) acc = snd (updateHeroDailyRank now acc nm score rm) \<and>
    (\<forall>a e. a \<noteq> acc \<longrightarrow> entry_of a (heroes_daily_rank rm) = Some e \<longrightarrow>
       (\<exists>r. entry_of a (heroes_daily_rank (fst (updateHeroDailyRank now acc nm score rm))) = Some (e\<lparr>rk_rank := r\<rparr>)))"
proof -
  let ?u = "updateHeroDailyRank now acc nm score rm"
  define n where "n = new_entry now acc nm score (heroes_daily_rank rm)"
  have dn: "distinct (map rk_acc n)"
    using assms(1) by (simp add: n_def accounts_distinct_def new_entry_distinct)
  have l: "heroes_daily_rank (fst ?u) = number_ranks 1 (rank_sort n)" and ok: "rank_ok (fst ?u)"
    using updateHeroDailyRank_ranked [OF assms, of now acc nm] by (simp_all add: n_def)
  have keep: "\<exists>r. entry_of a (heroes_daily_rank (fst ?u)) = Some (e\<lparr>rk_rank := r\<rparr>)" if "entry_of a n = Some e" for a e
    using that entry_of_number_ranks [of a "rank_sort n" e 1] by (simp add: l entry_of_rank_sort [OF dn])
  obtain e where e: "entry_of acc n = Some e" "rk_score e = score" "rk_name e = nm"
    by (auto simp: n_def entry_of_new_entry split: option.splits)
  then obtain r where r: "entry_of acc (heroes_daily_rank (fst ?u)) = Some (e\<lparr>rk_rank := r\<rparr>)"
    using keep by blast
  then have snd: "snd ?u = r"
    using updateHeroDailyRank_ranked(3) [OF assms, of acc now nm "e\<lparr>rk_rank := r\<rparr>"] by (simp add: l n_def)
  have "getHeroDailyRank (fst ?u) acc = r"
    using ok r by (simp add: getHeroDailyRank_def rank_ok_def)
  moreover have "entry_of a n = entry_of a (heroes_daily_rank rm)" if "a \<noteq> acc" for a
    using that by (simp add: n_def entry_of_new_entry)
  ultimately show ?thesis using ok e r snd keep by auto
qed

definition sample_ranks :: RankManager where
  "sample_ranks = \<lparr>heroes_daily_rank =
       [\<lparr>rk_name = ''a'', rk_acc = 1, rk_score = 50, rk_rank = 1, rk_time = 10\<rparr>,
        \<lparr>rk_name = ''b'', rk_acc = 2, rk_score = 40, rk_rank = 2, rk_time = 11\<rparr>,
        \<lparr>rk_name = ''c'', rk_acc = 3, rk_score = 30, rk_rank = 3, rk_time = 12\<rparr>],
     heroes_rank = [(1, 1), (2, 2), (3, 3)], daily_max_rank_size = 3, min_daily_score = 30,
     daily_game_begin_time = 1, max_daily_progress = 100\<rparr>"

theorem updateHeroDailyRank_correct_witness:
  "rank_ok (fst (updateHeroDailyRank 20 9 ''d'' 45 sample_ranks))
   \<and> getHeroDailyRank (fst (updateHeroDailyRank 20 9 ''d'' 45 sample_ranks)) 9 =
      snd (updateHeroDailyRank 20 9 ''d'' 45 sample_ranks)"
  using updateHeroDailyRank_correct [of sample_ranks 45 20 9 "''d''"]
  by (simp add: sample_ranks_def accounts_distinct_def)

text \<open>
  The rank list never holds an account twice: over every sequence of recorded scores, removals
  and clearings, accounts stay distinct.
\<close>

theorem rank_accounts_distinct:
  "accounts_distinct rm \<Longrightarrow> rank_step\<^sup>*\<^sup>* rm rm' \<Longrightarrow> accounts_distinct rm'"
  by (rule ranks.invariant)

theorem rank_accounts_distinct_witness:
  "accounts_distinct (fst (updateHeroDailyRank 20 9 ''d'' 45 sample_ranks))"
proof -
  have "rank_step\<^sup>*\<^sup>* sample_ranks (fst (updateHeroDailyRank 20 9 ''d'' 45 sample_ranks))"
    by (rule r_into_rtranclp) (rule rank_update)
  moreover have "accounts_distinct sample_ranks"
    by (simp add: accounts_distinct_def sample_ranks_def)
  ultimately show ?thesis using rank_accounts_distinct by blast
qed

text \<open>
  \<open>_daily_max_rank_size\<close> does not bound the list: a new hero whose score is above
  \<open>_min_daily_score\<close> is added whatever the size is, and nobody leaves for it.
\<close>

theorem rank_list_unbounded:
  "accounts_distinct rm \<Longrightarrow> min_daily_score rm < score \<Longrightarrow> acc \<notin> rk_acc ` set (heroes_daily_rank rm) \<Longrightarrow>
   length (heroes_daily_rank (fst (updateHeroDailyRank now acc nm score rm))) = Suc (length (heroes_daily_rank rm))"
  using updateHeroDailyRank_ranked(1) [of rm score now acc nm] by (simp add: new_entry_def)

theorem rank_list_unbounded_witness:
  "daily_max_rank_size sample_ranks = 3 \<and>
   length (heroes_daily_rank (fst (updateHeroDailyRank 20 9 ''d'' 45 sample_ranks))) = 4"
  using rank_list_unbounded [of sample_ranks 45 9 20 "''d''"]
  by (simp add: sample_ranks_def accounts_distinct_def)

text \<open>
  A score at or below \<open>_min_daily_score\<close> of a hero already on the list overwrites his score but
  ranks nobody again: order, stored ranks and the map stay as they were, and the rank reported to
  the hero is one past the end of the list although the map still holds his old rank.
\<close>

theorem low_score_not_ranked:
  assumes "score \<le> min_daily_score rm" "acc \<in> rk_acc ` set (heroes_daily_rank rm)"
  shows "map rk_acc (heroes_daily_rank (fst (updateHeroDailyRank now acc nm score rm))) = map rk_acc (heroes_daily_rank rm)
   \<and> map rk_rank (heroes_daily_rank (fst (updateHeroDailyRank now acc nm score rm))) = map rk_rank (heroes_daily_rank rm)
   \<and> heroes_rank (fst (updateHeroDailyRank now acc nm score rm)) = heroes_rank rm
   \<and> snd (updateHeroDailyRank now acc nm score rm) = wrap32 (daily_max_rank_size rm + 1)
   \<and> map_option rk_score (entry_of acc (heroes_daily_rank (fst (updateHeroDailyRank now acc nm score rm)))) = Some score"
proof -
  have rr: "map rk_rank (with_score acc nm score es) = map rk_rank es" for es
    by (simp add: with_score_def map_update_first)
  obtain e where "entry_of acc (heroes_daily_rank rm) = Some e"
    using assms(2) entry_of_None [of acc "heroes_daily_rank rm"] by auto
  then show ?thesis
    using assms by (simp add: updateHeroDailyRank_def Let_def with_score_def [symmetric] set_map_acc rr entry_of_with_score)
qed

theorem low_score_not_ranked_witness:
  "map (\<lambda>e. (rk_acc e, rk_score e)) (heroes_daily_rank (fst (updateHeroDailyRank 20 1 ''a'' 5 sample_ranks))) =
     [(1, 5), (2, 40), (3, 30)]
   \<and> getHeroDailyRank (fst (updateHeroDailyRank 20 1 ''a'' 5 sample_ranks)) 1 = 1
   \<and> snd (updateHeroDailyRank 20 1 ''a'' 5 sample_ranks) = 4"
  using low_score_not_ranked [of 5 sample_ranks 1 20 "''a''"]
  by (simp add: sample_ranks_def updateHeroDailyRank_def getHeroDailyRank_def wrap32_def)

text \<open>
  \<open>RankManager::removeHero\<close> for a hero that is not last on the list: the list keeps exactly the
  others, in order; but the map still holds the removed hero at his old position, the hero right
  behind him has no rank any more (a lookup gives one past the maximal size), and every hero in
  front of him is looked up one rank too low.
\<close>

theorem removeHero_effect:
  assumes "heroes_daily_rank rm = xs @ e # y # ys" "accounts_distinct rm"
  shows "\<exists>rm'. removeHero (rk_acc e) rm = Some rm' \<and>
    map rk_acc (heroes_daily_rank rm') = map rk_acc (xs @ y # ys) \<and>
    getHeroDailyRank rm' (rk_acc e) = 1 + int (length xs) \<and>
    getHeroDailyRank rm' (rk_acc y) = wrap32 (daily_max_rank_size rm + 1) \<and>
    (\<forall>a b. entry_of a (number_ranks 1 xs) = Some b \<longrightarrow> getHeroDailyRank rm' a = rk_rank b + 1)"
proof -
  have d: "distinct (map rk_acc (heroes_daily_rank rm))" using assms(2) by (simp add: accounts_distinct_def)
  let ?m = "map_assign (rk_acc e) (1 + int (length xs)) (bump_ranks 1 xs [])"
  let ?rm = "rm\<lparr>heroes_daily_rank := number_ranks 1 xs @ y # number_ranks (1 + int (length xs)) ys,
       heroes_rank := bump_ranks (1 + int (length xs)) ys ?m\<rparr>"
  have r: "removeHero (rk_acc e) rm = Some ?rm"
    by (rule removeHero_split [OF assms(1) d refl])
  have wf: "map_wf (bump_ranks 1 xs [])" "map_wf ?m"
    by (simp_all add: bump_ranks_wf map_wf_assign)
  have dx: "distinct (map rk_acc xs)" "distinct (map rk_acc ys)" using d assms(1) by auto
  have find: "map_find a (heroes_rank ?rm) =
      (case entry_of a (number_ranks (1 + int (length xs)) ys) of
         Some b \<Rightarrow> Some (rk_rank b + 1)
       | None \<Rightarrow> if a = rk_acc e then Some (1 + int (length xs))
                 else map_option (\<lambda>b. rk_rank b + 1) (entry_of a (number_ranks 1 xs)))" for a
    by (simp add: bump_ranks_find [OF wf(2) dx(2)] map_find_assign [OF wf(1)] bump_ranks_find [OF map_wf_Nil dx(1)]
        split: option.splits)
  have absent: "entry_of (rk_acc e) (number_ranks k ys) = None" "entry_of (rk_acc y) (number_ranks k ys) = None"
    "entry_of (rk_acc y) (number_ranks j xs) = None" for k j
    using d assms(1) by (auto simp: entry_of_None)
  have front: "entry_of a (number_ranks k ys) = None \<and> a \<noteq> rk_acc e" if "entry_of a (number_ranks 1 xs) = Some b" for a b k
  proof -
    have "a \<in> rk_acc ` set xs"
      using that entry_of_None [of a "number_ranks 1 xs"] by auto
    moreover have "rk_acc e \<notin> rk_acc ` set xs" "rk_acc ` set xs \<inter> rk_acc ` set ys = {}"
      using d assms(1) by auto
    ultimately show ?thesis by (simp add: entry_of_None) blast
  qed
  have "rk_acc y \<noteq> rk_acc e" using d assms(1) by auto
  then have "getHeroDailyRank ?rm (rk_acc e) = 1 + int (length xs)"
    "getHeroDailyRank ?rm (rk_acc y) = wrap32 (daily_max_rank_size rm + 1)"
    by (simp_all only: getHeroDailyRank_def find absent) simp_all
  moreover have "getHeroDailyRank ?rm a = rk_rank b + 1" if "entry_of a (number_ranks 1 xs) = Some b" for a b
    using front [OF that] that by (simp only: getHeroDailyRank_def find) simp
  ultimately show ?thesis using r by auto
qed

theorem removeHero_effect_witness:
  "map_option (\<lambda>rm. (map rk_acc (heroes_daily_rank rm), getHeroDailyRank rm 2, getHeroDailyRank rm 3, getHeroDailyRank rm 1))
     (removeHero 2 sample_ranks) = Some ([1, 3], 2, 4, 2)"
  using removeHero_effect [of sample_ranks
      "[\<lparr>rk_name = ''a'', rk_acc = 1, rk_score = 50, rk_rank = 1, rk_time = 10\<rparr>]"
      "\<lparr>rk_name = ''b'', rk_acc = 2, rk_score = 40, rk_rank = 2, rk_time = 11\<rparr>"
      "\<lparr>rk_name = ''c'', rk_acc = 3, rk_score = 30, rk_rank = 3, rk_time = 12\<rparr>" "[]"]
  by (auto simp: sample_ranks_def accounts_distinct_def wrap32_def)

text \<open>
  \<open>RankManager::removeHero\<close> on the hero at the end of the list advances the end iterator of the
  list: the call has no defined result.
\<close>

theorem removeHero_last_undefined:
  "heroes_daily_rank rm = xs @ [e] \<Longrightarrow> accounts_distinct rm \<Longrightarrow> removeHero (rk_acc e) rm = None"
  by (simp add: removeHero_def accounts_distinct_def remove_loop_prefix Let_def)

theorem removeHero_last_undefined_witness: "removeHero 3 sample_ranks = None"
  using removeHero_last_undefined [of sample_ranks
      "[\<lparr>rk_name = ''a'', rk_acc = 1, rk_score = 50, rk_rank = 1, rk_time = 10\<rparr>,
        \<lparr>rk_name = ''b'', rk_acc = 2, rk_score = 40, rk_rank = 2, rk_time = 11\<rparr>]"
      "\<lparr>rk_name = ''c'', rk_acc = 3, rk_score = 30, rk_rank = 3, rk_time = 12\<rparr>"]
  by (simp add: sample_ranks_def accounts_distinct_def)

text \<open>
  What \<open>RankManager::save\<close> sends: the deletion of the table, one complete statement with the
  first 21 entries, and for the rest statements of up to 20 entries that lack the
  \<open>replace into\<close> head, so that of a longer list only the first 21 ranks are stored.
\<close>

theorem rank_save_statements:
  "rank_save rm = DeleteRanks #
     map ReplaceRanks ((if heroes_daily_rank rm = [] then [] else [stmt (take 21 (heroes_daily_rank rm))]) @
       map comma_rows (chunks 20 (drop 21 (heroes_daily_rank rm))))
   \<and> concat (map stmt_rows (filter stmt_ok (rank_batches (heroes_daily_rank rm) 0 []))) = take 21 (heroes_daily_rank rm)"
proof -
  have bad: "filter stmt_ok (map comma_rows (chunks 20 es)) = []" for es :: "DailyGameRankTg list"
    using chunks_length [of _ 20 es] by (auto simp: filter_empty_conv comma_rows_not_stmt)
  show ?thesis
    by (cases "heroes_daily_rank rm = []") (simp_all add: rank_save_def rank_batches_spec bad)
qed

lemma find_prize_spec:
  "find_prize r cs = (case find (\<lambda>c. begin_rank c \<le> r \<and> r \<le> end_rank c) cs of None \<Rightarrow> 0 | Some c \<Rightarrow> prize_gold c)"
  by (induction cs) auto

end
