(* ===== verification/ShopSales.thy ===== *)
theory ShopSales
  imports GameConfig
begin

text \<open>
  \<open>gameserver/ShopSalesPromotionManager.cpp\<close>: the timed promotions. A promotion moves from
  \<open>Wait\<close> over \<open>Apply\<close> (announced) and \<open>Excute\<close> (in effect) to \<open>Destroy\<close>; in effect, it changes the
  discounts of hero grids, the recharge bonus or the visibility of hidden heroes.

  The methods \<open>DayPass\<close>, \<open>apply\<close> and \<open>excute\<close> of \<open>TimeShopPromotion\<close> call each other; they are
  translated as mutually recursive functions with a call depth, and proved to return within depth
  six with the result of a closed, non-recursive description. \<open>None\<close> is a dereferenced null
  pointer (a promotion without configuration) or an exhausted call depth.
\<close>

section \<open>The ledger of the manager\<close>

record Ledger =
  cheap_gold :: "(int, int) smap"
  led_recharge_ratting :: int
  led_recharge_gold_ratting :: int
  led_recharge_jewel_ratting :: int

definition modifyRechargeRatting :: "int \<Rightarrow> Ledger \<Rightarrow> Ledger" where
  "modifyRechargeRatting r lg = lg\<lparr>led_recharge_ratting := wrap32 (led_recharge_ratting lg + r)\<rparr>"

definition modifyGoldRechargeRatting :: "int \<Rightarrow> Ledger \<Rightarrow> Ledger" where
  "modifyGoldRechargeRatting r lg = lg\<lparr>led_recharge_gold_ratting := wrap32 (led_recharge_gold_ratting lg + r)\<rparr>"

definition modifyJewelRechargeRatting :: "int \<Rightarrow> Ledger \<Rightarrow> Ledger" where
  "modifyJewelRechargeRatting r lg = lg\<lparr>led_recharge_jewel_ratting := wrap32 (led_recharge_jewel_ratting lg + r)\<rparr>"

definition getGoldRechargeRatting :: "Ledger \<Rightarrow> int" where
  "getGoldRechargeRatting lg = wrap32 (led_recharge_ratting lg + led_recharge_gold_ratting lg)"

definition getJewelRechargeRatting :: "Ledger \<Rightarrow> int" where
  "getJewelRechargeRatting lg = wrap32 (led_recharge_ratting lg + led_recharge_jewel_ratting lg)"

definition modifyCheapGold :: "int \<Rightarrow> int \<Rightarrow> Ledger \<Rightarrow> Ledger" where
  "modifyCheapGold grid c lg =
     (let m = map_insert grid 0 (cheap_gold lg); number = map_index 0 grid m
      in lg\<lparr>cheap_gold := map_assign grid (wrap32 (number + c)) m\<rparr>)"

definition getCheapGold :: "Ledger \<Rightarrow> int \<Rightarrow> int" where
  "getCheapGold lg grid = (case map_find grid (cheap_gold lg) of None \<Rightarrow> 0 | Some c \<Rightarrow> c)"

section \<open>A promotion\<close>

datatype ShopSalesPromotionType =
    ShopSalesPromotionType_Wait
  | ShopSalesPromotionType_Apply
  | ShopSalesPromotionType_Excute
  | ShopSalesPromotionType_Destroy

text \<open>Pending events: the event type under which it is registered, the method to call and the
  time it is due.\<close>

datatype promo_event = EVENT_SHOP_SALES_PROMOTION_APPLY | EVENT_SHOP_SALES_PROMOTION_EXIT

datatype promo_call = Call_apply | Call_excute | Call_exit

record ShopSalesPromotion =
  promo_id :: int
  promo_type :: ShopSalesPromotionType
  promo_name :: string
  promo_time_describe :: string
  promo_describe :: string
  promo_events :: "(promo_event \<times> promo_call \<times> int) list"

type_synonym promo_state = "ShopSalesPromotion \<times> Ledger \<times> GameConfig"

definition addEvent :: "promo_event \<Rightarrow> promo_call \<Rightarrow> int \<Rightarrow> ShopSalesPromotion \<Rightarrow> ShopSalesPromotion" where
  "addEvent ev call due p = p\<lparr>promo_events := promo_events p @ [(ev, call, due)]\<rparr>"

definition removeEvents :: "promo_event \<Rightarrow> ShopSalesPromotion \<Rightarrow> ShopSalesPromotion" where
  "removeEvents ev p = p\<lparr>promo_events := filter (\<lambda>e. fst e \<noteq> ev) (promo_events p)\<rparr>"

definition base_apply :: "ShopSalesPromotion \<Rightarrow> ShopSalesPromotion" where
  "base_apply p = (removeEvents EVENT_SHOP_SALES_PROMOTION_APPLY p)\<lparr>promo_type := ShopSalesPromotionType_Apply\<rparr>"

definition base_exit :: "ShopSalesPromotion \<Rightarrow> ShopSalesPromotion" where
  "base_exit p = (removeEvents EVENT_SHOP_SALES_PROMOTION_EXIT p)\<lparr>promo_type := ShopSalesPromotionType_Wait\<rparr>"

definition local_wday :: "int \<Rightarrow> int \<Rightarrow> int" where
  "local_wday tz t = (local_day tz t + 4) mod 7"

text \<open>
  \<open>excute(bool)\<close>: the effect of a promotion, switched on or off. For a recharge promotion the inner
  \<open>switch\<close> tests the member \<open>PromotionType_\<close>, which is \<open>RechargePromotionType\<close> (1) there, against
  the enumerators \<open>ALL\<close> (0), \<open>GOLD\<close> (1) and \<open>JEWEL\<close> (2); the configured \<open>rechagre_type\<close> is not read.
\<close>

fun PromotionType_int :: "BaseShopPromotion \<Rightarrow> int" where
  "PromotionType_int (HeroPromotion _) = 0"
| "PromotionType_int (RechargeRattingPromotion _ _) = 1"
| "PromotionType_int (OpenHideHeroPromotion _) = 2"

fun promotion_effect :: "bool \<Rightarrow> BaseShopPromotion \<Rightarrow> Ledger \<times> GameConfig \<Rightarrow> Ledger \<times> GameConfig" where
  "promotion_effect b (HeroPromotion m) (lg, cfg) =
     (fold (\<lambda>(g, c). modifyCheapGold g (if b then c else - c)) m lg, cfg)"
| "promotion_effect b (RechargeRattingPromotion r t) (lg, cfg) =
     (let modify = (if b then r else - r);
          k = PromotionType_int (RechargeRattingPromotion r t)
      in (if k = 0 then modifyRechargeRatting modify lg
          else if k = 1 then modifyGoldRechargeRatting modify lg
          else if k = 2 then modifyJewelRechargeRatting modify lg
          else lg, cfg))"
| "promotion_effect b (OpenHideHeroPromotion gs) (lg, cfg) = (lg, fold (\<lambda>g. setHeroShopConfig g b) gs cfg)"

definition excute_flag :: "bool \<Rightarrow> promo_state \<Rightarrow> promo_state option" where
  "excute_flag b = (\<lambda>(p, lg, cfg).
     case getTimeShopSalesPromotionConfig cfg (promo_id p) of
       None \<Rightarrow> None
     | Some c \<Rightarrow>
         (case tp_promotion c of
            None \<Rightarrow> None
          | Some promo \<Rightarrow>
              let (lg', cfg') = promotion_effect b promo (lg, cfg)
              in Some (p\<lparr>promo_type := ShopSalesPromotionType_Excute\<rparr>, lg', cfg')))"

definition promo_exit :: "promo_state \<Rightarrow> promo_state option" where
  "promo_exit = (\<lambda>(p, lg, cfg).
     case excute_flag False (base_exit p, lg, cfg) of
       None \<Rightarrow> None
     | Some (p', lg', cfg') \<Rightarrow> Some (p'\<lparr>promo_type := ShopSalesPromotionType_Destroy\<rparr>, lg', cfg'))"

definition promo_time :: "GameConfig \<Rightarrow> int \<Rightarrow> EventTimeBase option" where
  "promo_time cfg i = Option.bind (getTimeShopSalesPromotionConfig cfg i) tp_time"

text \<open>The tests of the three blocks of \<open>DayPass\<close>; a normal promotion passes none of them.\<close>

definition show_due :: "GameConfig \<Rightarrow> int \<Rightarrow> EventTimeBase \<Rightarrow> bool" where
  "show_due cfg now tb =
     (case tb of
        TimeNormal _ _ _ \<Rightarrow> False
      | TimeWeek s b e \<Rightarrow>
          let w = local_wday (cfg_tz cfg) now
          in if s \<le> e then s \<le> w \<and> w \<le> e else w \<le> s \<or> e \<le> w
      | TimeOpenServerOffsetTime s b e \<Rightarrow>
          let d = getOpenServerPassedDay cfg now
          in \<not> e < s \<and> s \<le> d \<and> d \<le> e)"

definition begin_due :: "GameConfig \<Rightarrow> int \<Rightarrow> EventTimeBase \<Rightarrow> bool" where
  "begin_due cfg now tb =
     (case tb of
        TimeNormal _ _ _ \<Rightarrow> False
      | TimeWeek s b e \<Rightarrow>
          let w = local_wday (cfg_tz cfg) now
          in if b \<le> e then b \<le> w \<and> w \<le> e else w \<le> b \<or> e \<le> w
      | TimeOpenServerOffsetTime s b e \<Rightarrow>
          let d = getOpenServerPassedDay cfg now in b \<le> d \<and> d \<le> e)"

definition exit_due :: "GameConfig \<Rightarrow> int \<Rightarrow> EventTimeBase \<Rightarrow> bool" where
  "exit_due cfg now tb =
     (case tb of
        TimeNormal _ _ _ \<Rightarrow> False
      | TimeWeek s b e \<Rightarrow>
          let w = local_wday (cfg_tz cfg) now
          in if b \<le> e then w < b \<or> e < w else b < w \<and> w < e
      | TimeOpenServerOffsetTime s b e \<Rightarrow>
          let d = getOpenServerPassedDay cfg now in d < b \<or> e < d)"

text \<open>In the waiting block an offset window with \<open>show > end\<close> returns at once.\<close>

definition wait_return :: "EventTimeBase \<Rightarrow> bool" where
  "wait_return tb = (case tb of TimeOpenServerOffsetTime s b e \<Rightarrow> e < s | _ \<Rightarrow> False)"

fun DayPass :: "nat \<Rightarrow> int \<Rightarrow> promo_state \<Rightarrow> promo_state option"
  and promo_apply :: "nat \<Rightarrow> int \<Rightarrow> promo_state \<Rightarrow> promo_state option"
  and promo_excute :: "nat \<Rightarrow> int \<Rightarrow> promo_state \<Rightarrow> promo_state option" where
  "DayPass 0 now st = None"
| "DayPass (Suc n) now (p, lg, cfg) =
     (case promo_time cfg (promo_id p) of
        None \<Rightarrow> None
      | Some tb \<Rightarrow>
          if promo_type p = ShopSalesPromotionType_Wait \<and> wait_return tb then Some (p, lg, cfg)
          else
            Option.bind
              (if promo_type p = ShopSalesPromotionType_Wait \<and> show_due cfg now tb
               then promo_apply n now (p, lg, cfg) else Some (p, lg, cfg))
              (\<lambda>(p1, lg1, cfg1).
                 Option.bind
                   (if promo_type p1 = ShopSalesPromotionType_Apply \<and> begin_due cfg1 now tb
                    then promo_excute n now (p1, lg1, cfg1) else Some (p1, lg1, cfg1))
                   (\<lambda>(p2, lg2, cfg2).
                      if promo_type p2 = ShopSalesPromotionType_Excute \<and> exit_due cfg2 now tb
                      then promo_exit (p2, lg2, cfg2) else Some (p2, lg2, cfg2))))"
| "promo_apply 0 now st = None"
| "promo_apply (Suc n) now (p, lg, cfg) =
     (let p' = (base_apply p)\<lparr>promo_type := ShopSalesPromotionType_Apply\<rparr>
      in case promo_time cfg (promo_id p) of
           None \<Rightarrow> None
         | Some (TimeNormal s b e) \<Rightarrow>
             if b - now \<le> 0 then promo_excute n now (p', lg, cfg)
             else Some (addEvent EVENT_SHOP_SALES_PROMOTION_APPLY Call_excute b p', lg, cfg)
         | Some _ \<Rightarrow> DayPass n now (p', lg, cfg))"
| "promo_excute 0 now st = None"
| "promo_excute (Suc n) now st =
     (case excute_flag True st of
        None \<Rightarrow> None
      | Some (p, lg, cfg) \<Rightarrow>
          (case promo_time cfg (promo_id p) of
             None \<Rightarrow> None
           | Some (TimeNormal s b e) \<Rightarrow>
               if 0 < e - now then Some (addEvent EVENT_SHOP_SALES_PROMOTION_EXIT Call_exit e p, lg, cfg)
               else promo_exit (p, lg, cfg)
           | Some _ \<Rightarrow> DayPass n now (p, lg, cfg)))"

text \<open>The call depth used by all callers.\<close>

abbreviation (input) promo_depth :: nat where "promo_depth \<equiv> 6"

definition promo_init :: "int \<Rightarrow> int \<Rightarrow> Ledger \<times> GameConfig \<Rightarrow> (bool \<times> promo_state) option" where
  "promo_init now i = (\<lambda>(lg, cfg).
     case getTimeShopSalesPromotionConfig cfg i of
       None \<Rightarrow> None
     | Some c \<Rightarrow>
         let p = \<lparr>promo_id = i, promo_type = ShopSalesPromotionType_Wait, promo_name = tp_name c,
                  promo_time_describe = tp_time_describe c, promo_describe = tp_describe c, promo_events = []\<rparr>
         in (case tp_time c of
               None \<Rightarrow> None
             | Some (TimeNormal s b e) \<Rightarrow>
                 if e < s then Some (False, p, lg, cfg)
                 else if s - now \<le> 0 then map_option (Pair True) (promo_apply promo_depth now (p, lg, cfg))
                 else Some (True, addEvent EVENT_SHOP_SALES_PROMOTION_APPLY Call_apply s p, lg, cfg)
             | Some _ \<Rightarrow> map_option (Pair True) (DayPass promo_depth now (p, lg, cfg))))"

text \<open>An event that is due is taken out of the list and its method called.\<close>

definition promo_fire :: "int \<Rightarrow> promo_event \<times> promo_call \<times> int \<Rightarrow> promo_state \<Rightarrow> promo_state option" where
  "promo_fire now ev = (\<lambda>(p, lg, cfg).
     let p' = p\<lparr>promo_events := remove1 ev (promo_events p)\<rparr>
     in case fst (snd ev) of
          Call_apply \<Rightarrow> promo_apply promo_depth now (p', lg, cfg)
        | Call_excute \<Rightarrow> promo_excute promo_depth now (p', lg, cfg)
        | Call_exit \<Rightarrow> promo_exit (p', lg, cfg))"

section \<open>The manager\<close>

record ShopSalesPromotionManager =
  ledger :: Ledger
  shopSalesPromotions :: "ShopSalesPromotion list"

fun init_promotions :: "int \<Rightarrow> int list \<Rightarrow> ShopSalesPromotionManager \<times> GameConfig \<Rightarrow> (ShopSalesPromotionManager \<times> GameConfig) option" where
  "init_promotions now [] st = Some st"
| "init_promotions now (i # is) (pm, cfg) =
     (case promo_init now i (ledger pm, cfg) of
        None \<Rightarrow> None
      | Some (ok, p, lg, cfg') \<Rightarrow>
          init_promotions now is
            (pm\<lparr>ledger := lg, shopSalesPromotions := shopSalesPromotions pm @ (if ok then [p] else [])\<rparr>, cfg'))"

definition ShopSales_init :: "int \<Rightarrow> ShopSalesPromotionManager \<times> GameConfig \<Rightarrow> (ShopSalesPromotionManager \<times> GameConfig) option" where
  "ShopSales_init now st = init_promotions now (map fst (cfg_time_sales (snd st))) st"

fun daypass_all :: "int \<Rightarrow> ShopSalesPromotion list \<Rightarrow> Ledger \<times> GameConfig \<Rightarrow> (ShopSalesPromotion list \<times> Ledger \<times> GameConfig) option" where
  "daypass_all now [] (lg, cfg) = Some ([], lg, cfg)"
| "daypass_all now (p # ps) (lg, cfg) =
     (case DayPass promo_depth now (p, lg, cfg) of
        None \<Rightarrow> None
      | Some (p', lg', cfg') \<Rightarrow> map_option (\<lambda>(ps', w). (p' # ps', w)) (daypass_all now ps (lg', cfg')))"

definition ShopSales_DayPass :: "int \<Rightarrow> ShopSalesPromotionManager \<times> GameConfig \<Rightarrow> (ShopSalesPromotionManager \<times> GameConfig) option" where
  "ShopSales_DayPass now = (\<lambda>(pm, cfg).
     map_option (\<lambda>(ps, lg, cfg'). (pm\<lparr>ledger := lg, shopSalesPromotions := ps\<rparr>, cfg'))
       (daypass_all now (shopSalesPromotions pm) (ledger pm, cfg)))"

definition ShopSales_update :: "ShopSalesPromotionManager \<Rightarrow> ShopSalesPromotionManager" where
  "ShopSales_update pm = pm\<lparr>shopSalesPromotions :=
     filter (\<lambda>p. promo_type p \<noteq> ShopSalesPromotionType_Destroy) (shopSalesPromotions pm)\<rparr>"

definition ReqActivityAnnouncement :: "ShopSalesPromotionManager \<Rightarrow> s2c" where
  "ReqActivityAnnouncement pm = MsgS2CActivityAnnouncementACK
     (map (\<lambda>p. \<lparr>activity_id = promo_id p, activity_name = promo_name p,
                 activity_time_describe = promo_time_describe p, activity_describe = promo_describe p\<rparr>)
       (filter (\<lambda>p. promo_type p = ShopSalesPromotionType_Apply \<or> promo_type p = ShopSalesPromotionType_Excute)
          (shopSalesPromotions pm)))"

section \<open>What the effects leave alone\<close>

definition same_clock :: "GameConfig \<Rightarrow> GameConfig \<Rightarrow> bool" where
  "same_clock cfg cfg' \<longleftrightarrow> cfg_time_sales cfg' = cfg_time_sales cfg \<and> cfg_tz cfg' = cfg_tz cfg \<and>
     cfg_server_open_time cfg' = cfg_server_open_time cfg"

lemma same_clock_refl [simp]: "same_clock cfg cfg"
  by (simp add: same_clock_def)

lemma same_clock_setHeroShopConfig [simp]: "same_clock cfg (setHeroShopConfig g b cfg') \<longleftrightarrow> same_clock cfg cfg'"
  by (simp add: same_clock_def setHeroShopConfig_def split: option.splits)

lemma same_clock_fold: "same_clock cfg (fold (\<lambda>g. setHeroShopConfig g b) gs cfg') \<longleftrightarrow> same_clock cfg cfg'"
  by (induction gs arbitrary: cfg') simp_all

lemma same_clock_due:
  assumes "same_clock cfg cfg'"
  shows "promo_time cfg' = promo_time cfg" "show_due cfg' = show_due cfg" "begin_due cfg' = begin_due cfg"
    "exit_due cfg' = exit_due cfg"
    "getTimeShopSalesPromotionConfig cfg' = getTimeShopSalesPromotionConfig cfg"
  using assms
  by (auto simp: same_clock_def fun_eq_iff promo_time_def getTimeShopSalesPromotionConfig_def show_due_def
      begin_due_def exit_due_def getOpenServerPassedDay_def split: EventTimeBase.splits)

lemma promotion_effect_clock: "same_clock cfg (snd (promotion_effect b promo (lg, cfg)))"
  by (cases promo) (simp_all add: Let_def same_clock_fold)

lemma excute_flag_Some:
  assumes "excute_flag b (p, lg, cfg) = Some (p', lg', cfg')"
  shows "p' = p\<lparr>promo_type := ShopSalesPromotionType_Excute\<rparr>" "same_clock cfg cfg'"
  using assms promotion_effect_clock [of cfg b _ lg]
  by (auto simp: excute_flag_def Let_def split: option.splits prod.splits) (metis snd_conv)

section \<open>The closed description of \<open>DayPass\<close>\<close>

definition daypass_spec :: "int \<Rightarrow> EventTimeBase \<Rightarrow> promo_state \<Rightarrow> promo_state option" where
  "daypass_spec now tb = (\<lambda>(p, lg, cfg).
     case promo_type p of
       ShopSalesPromotionType_Wait \<Rightarrow>
         if show_due cfg now tb
         then if begin_due cfg now tb then excute_flag True (base_apply p, lg, cfg)
              else Some (base_apply p, lg, cfg)
         else Some (p, lg, cfg)
     | ShopSalesPromotionType_Apply \<Rightarrow>
         if begin_due cfg now tb then excute_flag True (p, lg, cfg) else Some (p, lg, cfg)
     | ShopSalesPromotionType_Excute \<Rightarrow>
         if exit_due cfg now tb then promo_exit (p, lg, cfg) else Some (p, lg, cfg)
     | ShopSalesPromotionType_Destroy \<Rightarrow> Some (p, lg, cfg))"

lemma begin_not_exit: "begin_due cfg now tb \<Longrightarrow> \<not> exit_due cfg now tb"
  by (auto simp: begin_due_def exit_due_def Let_def split: EventTimeBase.splits if_splits)

lemma wait_return_show: "wait_return tb \<Longrightarrow> \<not> show_due cfg now tb"
  by (auto simp: wait_return_def show_due_def Let_def split: EventTimeBase.splits)

lemma not_normal: "begin_due cfg now tb \<or> show_due cfg now tb \<Longrightarrow> \<exists>s b e. tb = TimeWeek s b e \<or> tb = TimeOpenServerOffsetTime s b e"
  by (cases tb) (auto simp: begin_due_def show_due_def)

lemma DayPass_Excute:
  "promo_time cfg (promo_id p) = Some tb \<Longrightarrow> promo_type p = ShopSalesPromotionType_Excute \<Longrightarrow>
   DayPass (Suc n) now (p, lg, cfg) = daypass_spec now tb (p, lg, cfg)"
  by (simp add: daypass_spec_def)

lemma promo_excute_begin:
  assumes "promo_time cfg (promo_id p) = Some tb" "begin_due cfg now tb"
  shows "promo_excute (Suc (Suc n)) now (p, lg, cfg) = excute_flag True (p, lg, cfg)"
proof (cases "excute_flag True (p, lg, cfg)")
  case (Some st)
  obtain p' lg' cfg' where st: "st = (p', lg', cfg')" by (cases st) auto
  note ex = excute_flag_Some [OF Some [unfolded st]] and due = same_clock_due [OF excute_flag_Some(2) [OF Some [unfolded st]]]
  have "DayPass (Suc n) now (p', lg', cfg') = Some (p', lg', cfg')"
    using ex assms begin_not_exit [OF assms(2)] by (subst DayPass_Excute [of _ _ tb]) (auto simp: due daypass_spec_def)
  then show ?thesis
    using Some st not_normal [of cfg now tb] assms ex by (auto simp: due simp del: DayPass.simps)
qed simp

lemma DayPass_Apply:
  assumes "promo_time cfg (promo_id p) = Some tb" "promo_type p = ShopSalesPromotionType_Apply"
  shows "DayPass (Suc (Suc (Suc n))) now (p, lg, cfg) = daypass_spec now tb (p, lg, cfg)"
proof (cases "begin_due cfg now tb")
  case True
  show ?thesis
  proof (cases "excute_flag True (p, lg, cfg)")
    case None
    then show ?thesis
      using assms True promo_excute_begin [OF assms(1) True, of n lg]
      by (simp add: daypass_spec_def del: promo_excute.simps)
  next
    case (Some st)
    obtain p' lg' cfg' where st: "st = (p', lg', cfg')" by (cases st) auto
    show ?thesis
      using assms True Some st promo_excute_begin [OF assms(1) True, of n lg] begin_not_exit [OF True]
        same_clock_due(4) [OF excute_flag_Some(2) [OF Some [unfolded st]]]
      by (simp add: daypass_spec_def del: promo_excute.simps)
  qed
qed (use assms in \<open>simp add: daypass_spec_def\<close>)

lemma base_apply_simps [simp]:
  "promo_id (base_apply p) = promo_id p" "promo_type (base_apply p) = ShopSalesPromotionType_Apply"
  "(base_apply p)\<lparr>promo_type := ShopSalesPromotionType_Apply\<rparr> = base_apply p"
  by (simp_all add: base_apply_def removeEvents_def)

lemma promo_apply_show:
  assumes "promo_time cfg (promo_id p) = Some tb" "show_due cfg now tb"
  shows "promo_apply (Suc (Suc (Suc (Suc n)))) now (p, lg, cfg) = daypass_spec now tb (base_apply p, lg, cfg)"
  using assms not_normal [of cfg now tb] DayPass_Apply [of cfg "base_apply p" tb n now lg]
  by (auto simp: Let_def simp del: DayPass.simps)

lemma DayPass_spec:
  assumes "promo_time cfg (promo_id p) = Some tb"
  shows "DayPass (Suc (Suc (Suc (Suc (Suc n))))) now (p, lg, cfg) = daypass_spec now tb (p, lg, cfg)"
proof (cases "promo_type p")
  case ShopSalesPromotionType_Wait
  show ?thesis
  proof (cases "show_due cfg now tb")
    case False
    then show ?thesis using ShopSalesPromotionType_Wait assms by (auto simp: daypass_spec_def)
  next
    case True
    then have nr: "\<not> wait_return tb" using wait_return_show by blast
    note ap = promo_apply_show [OF assms True, of n lg]
    show ?thesis
    proof (cases "begin_due cfg now tb")
      case False
      then show ?thesis
        using ShopSalesPromotionType_Wait True nr assms ap by (simp add: daypass_spec_def del: promo_apply.simps)
    next
      case started: True
      show ?thesis
      proof (cases "excute_flag True (base_apply p, lg, cfg)")
        case None
        then show ?thesis
          using ShopSalesPromotionType_Wait True nr started assms ap by (simp add: daypass_spec_def del: promo_apply.simps)
      next
        case (Some st)
        obtain p' lg' cfg' where st: "st = (p', lg', cfg')" by (cases st) auto
        show ?thesis
          using ShopSalesPromotionType_Wait True nr started assms ap Some st begin_not_exit [OF started]
            excute_flag_Some(1) [OF Some [unfolded st]]
            same_clock_due(4) [OF excute_flag_Some(2) [OF Some [unfolded st]]]
          by (simp add: daypass_spec_def del: promo_apply.simps)
      qed
    qed
  qed
next
  case ShopSalesPromotionType_Apply
  then show ?thesis using DayPass_Apply [OF assms] by simp
next
  case ShopSalesPromotionType_Excute
  then show ?thesis using DayPass_Excute [OF assms] by simp
next
  case ShopSalesPromotionType_Destroy
  then show ?thesis using assms by (simp add: daypass_spec_def)
qed

section \<open>Accounts of the ledger\<close>

text \<open>The ledger is a map of in-range discounts with in-range bonuses.\<close>

definition ledger_wf :: "Ledger \<Rightarrow> bool" where
  "ledger_wf lg \<longleftrightarrow> map_wf (cheap_gold lg) \<and> (\<forall>g. in32 (getCheapGold lg g)) \<and>
     in32 (led_recharge_ratting lg) \<and> in32 (led_recharge_gold_ratting lg) \<and> in32 (led_recharge_jewel_ratting lg)"

fun promotion_wf :: "BaseShopPromotion \<Rightarrow> bool" where
  "promotion_wf (HeroPromotion m) = map_wf m"
| "promotion_wf _ = True"

lemma modifyCheapGold_get:
  "map_wf (cheap_gold lg) \<Longrightarrow>
   getCheapGold (modifyCheapGold g c lg) h = (if h = g then wrap32 (getCheapGold lg g + c) else getCheapGold lg h)"
  by (auto simp: modifyCheapGold_def getCheapGold_def Let_def map_find_assign map_wf_insert map_find_insert map_index_def
      split: option.splits)

lemma modifyCheapGold_wf: "ledger_wf lg \<Longrightarrow> ledger_wf (modifyCheapGold g c lg)"
  using modifyCheapGold_get [of lg g c]
  by (auto simp: ledger_wf_def) (simp_all add: modifyCheapGold_def Let_def map_wf_assign map_wf_insert)

lemma fold_modifyCheapGold:
  "ledger_wf lg \<Longrightarrow> map_wf m \<Longrightarrow>
   ledger_wf (fold (\<lambda>(g, c). modifyCheapGold g (f c)) m lg) \<and>
   getCheapGold (fold (\<lambda>(g, c). modifyCheapGold g (f c)) m lg) h =
     (case map_find h m of None \<Rightarrow> getCheapGold lg h | Some c \<Rightarrow> wrap32 (getCheapGold lg h + f c))"
proof (induction m arbitrary: lg)
  case (Cons x m)
  obtain g c where x: "x = (g, c)" by (cases x)
  have wf: "map_wf m" "\<forall>k \<in> fst ` set m. g < k" using Cons.prems by (simp_all add: x map_wf_Cons)
  then have "map_find g m = None" by (auto simp: map_find_None_notin)
  moreover have "ledger_wf (modifyCheapGold g (f c) lg)" using Cons.prems by (simp add: modifyCheapGold_wf)
  ultimately show ?case
    using Cons.IH [of "modifyCheapGold g (f c) lg"] wf(1) Cons.prems(1)
    by (auto simp: x modifyCheapGold_get ledger_wf_def split: option.splits)
qed simp

lemma promotion_effect_wf:
  "ledger_wf lg \<Longrightarrow> promotion_wf promo \<Longrightarrow> ledger_wf (fst (promotion_effect b promo (lg, cfg)))"
proof (cases promo)
  case (HeroPromotion m)
  then show "ledger_wf lg \<Longrightarrow> promotion_wf promo \<Longrightarrow> ?thesis"
    using fold_modifyCheapGold [of lg m "\<lambda>c. if b then c else - c"] by simp
next
  case (RechargeRattingPromotion r t)
  then show "ledger_wf lg \<Longrightarrow> ?thesis"
    by (simp add: Let_def ledger_wf_def modifyGoldRechargeRatting_def getCheapGold_def)
qed simp

fun cheap_of :: "int \<Rightarrow> BaseShopPromotion \<Rightarrow> int" where
  "cheap_of g (HeroPromotion m) = (case map_find g m of None \<Rightarrow> 0 | Some c \<Rightarrow> c)"
| "cheap_of g _ = 0"

fun gold_bonus_of :: "BaseShopPromotion \<Rightarrow> int" where
  "gold_bonus_of (RechargeRattingPromotion r t) = r"
| "gold_bonus_of _ = 0"

text \<open>The promotion a running object stands for, and whether it is in effect.\<close>

definition promotion_of :: "GameConfig \<Rightarrow> ShopSalesPromotion \<Rightarrow> BaseShopPromotion option" where
  "promotion_of cfg p = Option.bind (getTimeShopSalesPromotionConfig cfg (promo_id p)) tp_promotion"

definition in_effect :: "ShopSalesPromotion \<Rightarrow> bool" where
  "in_effect p \<longleftrightarrow> promo_type p = ShopSalesPromotionType_Excute"

definition sales_wf :: "GameConfig \<Rightarrow> bool" where
  "sales_wf cfg \<longleftrightarrow> (\<forall>i c promo. getTimeShopSalesPromotionConfig cfg i = Some c \<longrightarrow> tp_promotion c = Some promo \<longrightarrow> promotion_wf promo)"

text \<open>What a running promotion adds to an account, given the amount of each promotion.\<close>

definition promo_share :: "(BaseShopPromotion \<Rightarrow> int) \<Rightarrow> GameConfig \<Rightarrow> ShopSalesPromotion \<Rightarrow> int" where
  "promo_share amount cfg p =
     (if in_effect p then (case promotion_of cfg p of None \<Rightarrow> 0 | Some promo \<Rightarrow> amount promo) else 0)"

lemma promo_share_clock: "same_clock cfg cfg' \<Longrightarrow> promo_share amount cfg' = promo_share amount cfg"
  by (simp add: fun_eq_iff promo_share_def promotion_of_def same_clock_due)

text \<open>
  An account of the ledger: a number that switching a promotion on raises by an amount of that
  promotion and switching it off lowers by the same amount.
\<close>

locale ledger_account =
  fixes balance :: "Ledger \<Rightarrow> int"
    and amount :: "BaseShopPromotion \<Rightarrow> int"
  assumes effect: "ledger_wf lg \<Longrightarrow> promotion_wf promo \<Longrightarrow>
      balance (fst (promotion_effect b promo (lg, cfg))) = wrap32 (balance lg + (if b then amount promo else - amount promo))"
    and balance_range: "ledger_wf lg \<Longrightarrow> in32 (balance lg)"
begin

lemma on_off:
  "ledger_wf lg \<Longrightarrow> promotion_wf promo \<Longrightarrow>
   balance (fst (promotion_effect False promo (promotion_effect True promo (lg, cfg)))) = balance lg"
proof -
  assume wf: "ledger_wf lg" "promotion_wf promo"
  obtain lg' cfg' where on: "promotion_effect True promo (lg, cfg) = (lg', cfg')" by fastforce
  have "ledger_wf lg'" using promotion_effect_wf [OF wf, of True cfg] by (simp add: on)
  moreover have "balance lg' = wrap32 (balance lg + amount promo)" using effect [OF wf, of True cfg] by (simp add: on)
  ultimately have "balance (fst (promotion_effect False promo (lg', cfg'))) = wrap32 (wrap32 (balance lg + amount promo) - amount promo)"
    using effect [of lg' promo False cfg'] wf(2) by simp
  then show ?thesis using balance_range [OF wf(1)] by (simp add: on wrap32_sub_left wrap32_id)
qed

lemma excute_flag_balance:
  assumes wf: "ledger_wf lg" "sales_wf cfg" and ex: "excute_flag b (p, lg, cfg) = Some (p', lg', cfg')"
  shows "ledger_wf lg' \<and> balance lg' = wrap32 (balance lg + (if b then promo_share amount cfg p' else - promo_share amount cfg p'))"
proof -
  obtain c promo where c: "getTimeShopSalesPromotionConfig cfg (promo_id p) = Some c" "tp_promotion c = Some promo"
    "promotion_effect b promo (lg, cfg) = (lg', cfg')" "p' = p\<lparr>promo_type := ShopSalesPromotionType_Excute\<rparr>"
    using ex by (auto simp: excute_flag_def Let_def split: option.splits prod.splits)
  have "promotion_wf promo" using wf(2) c by (auto simp: sales_wf_def)
  moreover have "promo_share amount cfg p' = amount promo"
    using c by (simp add: promo_share_def in_effect_def promotion_of_def)
  ultimately show ?thesis
    using effect [OF wf(1), of promo b cfg] promotion_effect_wf [OF wf(1), of promo b cfg] c(3) by simp
qed

lemma excute_balance:
  assumes "ledger_wf lg" "sales_wf cfg" "excute_flag True (p, lg, cfg) = Some (p', lg', cfg')" "\<not> in_effect p"
  shows "ledger_wf lg' \<and> balance lg' = wrap32 (balance lg + promo_share amount cfg p' - promo_share amount cfg p)"
  using excute_flag_balance [OF assms(1-3)] assms(4) by (simp add: promo_share_def)

lemma exit_balance:
  assumes "ledger_wf lg" "sales_wf cfg" "promo_exit (p, lg, cfg) = Some (p', lg', cfg')" "in_effect p"
  shows "ledger_wf lg' \<and> balance lg' = wrap32 (balance lg + promo_share amount cfg p' - promo_share amount cfg p)"
proof -
  obtain q where q: "excute_flag False (base_exit p, lg, cfg) = Some (q, lg', cfg')"
    "p' = q\<lparr>promo_type := ShopSalesPromotionType_Destroy\<rparr>"
    using assms(3) by (auto simp: promo_exit_def split: option.splits)
  have "promo_share amount cfg q = promo_share amount cfg p"
    using excute_flag_Some(1) [OF q(1)] assms(4)
    by (simp add: promo_share_def in_effect_def promotion_of_def base_exit_def removeEvents_def)
  moreover have "promo_share amount cfg p' = 0" by (simp add: promo_share_def in_effect_def q(2))
  ultimately show ?thesis using excute_flag_balance [OF assms(1,2) q(1)] by simp
qed

end

interpretation discount: ledger_account "\<lambda>lg. getCheapGold lg g" "cheap_of g" for g
proof unfold_locales
  fix lg promo b cfg
  assume wf: "ledger_wf lg" "promotion_wf promo"
  then have id: "wrap32 (getCheapGold lg g) = getCheapGold lg g" by (simp add: ledger_wf_def wrap32_id)
  show "getCheapGold (fst (promotion_effect b promo (lg, cfg))) g =
      wrap32 (getCheapGold lg g + (if b then cheap_of g promo else - cheap_of g promo))"
  proof (cases promo)
    case (HeroPromotion m)
    then show ?thesis
      using wf id fold_modifyCheapGold [of lg m "\<lambda>c. if b then c else - c" g]
      by (simp split: option.splits)
  qed (use id in \<open>simp_all add: Let_def modifyGoldRechargeRatting_def getCheapGold_def\<close>)
qed (simp add: ledger_wf_def)

interpretation gold_bonus: ledger_account led_recharge_gold_ratting gold_bonus_of
proof unfold_locales
  fix lg promo b cfg
  assume wf: "ledger_wf lg" "promotion_wf promo"
  have keep: "led_recharge_gold_ratting (fold (\<lambda>(g, c). modifyCheapGold g (f c)) m lg) = led_recharge_gold_ratting lg"
    for m f and lg :: Ledger
    by (induction m arbitrary: lg) (auto simp: modifyCheapGold_def Let_def)
  show "led_recharge_gold_ratting (fst (promotion_effect b promo (lg, cfg))) =
      wrap32 (led_recharge_gold_ratting lg + (if b then gold_bonus_of promo else - gold_bonus_of promo))"
    using wf(1) by (cases promo) (simp_all add: keep Let_def modifyGoldRechargeRatting_def ledger_wf_def wrap32_id)
qed (simp add: ledger_wf_def)

section \<open>Runs of the manager\<close>

text \<open>
  The pending event of a promotion always fits its type, and only promotions with fixed times have
  one.
\<close>

definition events_fit :: "ShopSalesPromotionType \<Rightarrow> (promo_event \<times> promo_call \<times> int) list \<Rightarrow> bool" where
  "events_fit t evs \<longleftrightarrow> evs = [] \<or>
     (\<exists>d. evs = [(EVENT_SHOP_SALES_PROMOTION_APPLY, Call_apply, d)] \<and> t = ShopSalesPromotionType_Wait
        \<or> evs = [(EVENT_SHOP_SALES_PROMOTION_APPLY, Call_excute, d)] \<and> t = ShopSalesPromotionType_Apply
        \<or> evs = [(EVENT_SHOP_SALES_PROMOTION_EXIT, Call_exit, d)] \<and> t = ShopSalesPromotionType_Excute)"

definition promo_ok :: "GameConfig \<Rightarrow> ShopSalesPromotion \<Rightarrow> bool" where
  "promo_ok cfg p \<longleftrightarrow> events_fit (promo_type p) (promo_events p) \<and>
     (promo_events p \<noteq> [] \<longrightarrow> (\<exists>s b e. promo_time cfg (promo_id p) = Some (TimeNormal s b e)))"

text \<open>One promotion moves: what any of its methods does to its own state, the ledger and the
  configuration.\<close>

definition promo_move :: "promo_state \<Rightarrow> promo_state \<Rightarrow> bool" where
  "promo_move = (\<lambda>(p, lg, cfg) (p', lg', cfg').
     promo_ok cfg p' \<and> same_clock cfg cfg' \<and> ledger_wf lg' \<and>
     (\<forall>g. getCheapGold lg' g = wrap32 (getCheapGold lg g + promo_share (cheap_of g) cfg p' - promo_share (cheap_of g) cfg p)) \<and>
     led_recharge_gold_ratting lg' =
       wrap32 (led_recharge_gold_ratting lg + promo_share gold_bonus_of cfg p' - promo_share gold_bonus_of cfg p))"

lemma promo_move_same:
  assumes "ledger_wf lg" "promo_ok cfg p'" "\<not> in_effect p" "\<not> in_effect p'"
  shows "promo_move (p, lg, cfg) (p', lg, cfg)"
  using assms by (auto simp: promo_move_def promo_share_def ledger_wf_def wrap32_id)

lemma promo_move_refl: "ledger_wf lg \<Longrightarrow> promo_ok cfg p \<Longrightarrow> promo_move (p, lg, cfg) (p, lg, cfg)"
  by (auto simp: promo_move_def ledger_wf_def wrap32_id)

lemma promo_move_excute:
  assumes "ledger_wf lg" "sales_wf cfg" "excute_flag True (p, lg, cfg) = Some (p', lg', cfg')" "\<not> in_effect p"
    "promo_events p = []"
  shows "promo_move (p, lg, cfg) (p', lg', cfg')"
  using discount.excute_balance [OF assms(1-4)] gold_bonus.excute_balance [OF assms(1-4)] excute_flag_Some [OF assms(3)] assms(5)
  by (auto simp: promo_move_def promo_ok_def events_fit_def)

lemma promo_move_exit:
  assumes "ledger_wf lg" "sales_wf cfg" "promo_exit (p, lg, cfg) = Some (p', lg', cfg')" "in_effect p"
    "promo_ok cfg p"
  shows "promo_move (p, lg, cfg) (p', lg', cfg')"
proof -
  obtain q where q: "excute_flag False (base_exit p, lg, cfg) = Some (q, lg', cfg')"
    "p' = q\<lparr>promo_type := ShopSalesPromotionType_Destroy\<rparr>"
    using assms(3) by (auto simp: promo_exit_def split: option.splits)
  have "promo_events p' = []"
    using q assms(4,5) excute_flag_Some(1) [OF q(1)]
    by (auto simp: promo_ok_def events_fit_def in_effect_def base_exit_def removeEvents_def)
  then show ?thesis
    using discount.exit_balance [OF assms(1-4)] gold_bonus.exit_balance [OF assms(1-4)] excute_flag_Some(2) [OF q(1)]
    by (auto simp: promo_move_def promo_ok_def events_fit_def)
qed

lemma promo_share_events [simp]: "promo_share a cfg (p\<lparr>promo_events := evs\<rparr>) = promo_share a cfg p"
  by (simp add: promo_share_def in_effect_def promotion_of_def)

lemma promo_share_base_apply: "\<not> in_effect p \<Longrightarrow> promo_share a cfg (base_apply p) = promo_share a cfg p"
  by (simp add: promo_share_def in_effect_def)

lemma promo_move_cong:
  "(\<And>a. promo_share a cfg q = promo_share a cfg p) \<Longrightarrow> promo_move (q, lg, cfg) st \<Longrightarrow> promo_move (p, lg, cfg) st"
  by (auto simp: promo_move_def)

lemma base_apply_events: "promo_ok cfg p \<Longrightarrow> \<not> in_effect p \<Longrightarrow> promo_events (base_apply p) = []"
  by (auto simp: promo_ok_def events_fit_def base_apply_def removeEvents_def in_effect_def)

lemma due_no_events:
  "promo_ok cfg p \<Longrightarrow> promo_time cfg (promo_id p) = Some tb \<Longrightarrow> begin_due cfg now tb \<or> show_due cfg now tb \<Longrightarrow> promo_events p = []"
  using not_normal [of cfg now tb] by (auto simp: promo_ok_def)

lemma daypass_move:
  assumes "ledger_wf lg" "sales_wf cfg" "promo_ok cfg p" "promo_time cfg (promo_id p) = Some tb"
    "daypass_spec now tb (p, lg, cfg) = Some st"
  shows "promo_move (p, lg, cfg) st"
proof -
  obtain p' lg' cfg' where st: "st = (p', lg', cfg')" by (cases st) auto
  note step = assms(5) [unfolded st daypass_spec_def prod.case] and ev = due_no_events [OF assms(3,4), of now]
  show ?thesis
  proof (cases "promo_type p")
    case ShopSalesPromotionType_Wait
    then have ni: "\<not> in_effect p" "\<not> in_effect (base_apply p)" by (simp_all add: in_effect_def)
    have be: "promo_events (base_apply p) = []" by (rule base_apply_events [OF assms(3) ni(1)])
    show ?thesis
    proof (cases "show_due cfg now tb")
      case False
      then show ?thesis
        using step ShopSalesPromotionType_Wait assms st by (simp add: promo_move_refl)
    next
      case shown: True
      show ?thesis
      proof (cases "begin_due cfg now tb")
        case True
        then have "promo_move (base_apply p, lg, cfg) st"
          using step shown ShopSalesPromotionType_Wait st be ni assms(1,2) by (simp add: promo_move_excute)
        then show ?thesis by (rule promo_move_cong [rotated]) (simp add: promo_share_base_apply ni)
      next
        case False
        then show ?thesis
          using step shown ShopSalesPromotionType_Wait st be ni assms(1)
          by (auto intro!: promo_move_same simp: promo_ok_def events_fit_def)
      qed
    qed
  next
    case ShopSalesPromotionType_Apply
    then have "\<not> in_effect p" by (simp add: in_effect_def)
    then show ?thesis
      using step ShopSalesPromotionType_Apply st assms ev
      by (cases "begin_due cfg now tb") (auto intro: promo_move_excute promo_move_refl)
  next
    case ShopSalesPromotionType_Excute
    then have "in_effect p" by (simp add: in_effect_def)
    then show ?thesis
      using step ShopSalesPromotionType_Excute st assms
      by (cases "exit_due cfg now tb") (auto intro: promo_move_exit promo_move_refl)
  next
    case ShopSalesPromotionType_Destroy
    then show ?thesis using step st assms by (simp add: promo_move_refl)
  qed
qed

lemma wrap32_chain: "wrap32 (wrap32 (a + x - y) + z - x) = wrap32 (a + z - y)"
proof -
  have "wrap32 (wrap32 (a + x - y) + z - x) = wrap32 (wrap32 (a + x - y) + (z - x))" by (simp add: algebra_simps)
  also have "\<dots> = wrap32 (a + x - y + (z - x))" by (rule wrap32_add_left)
  finally show ?thesis by (simp add: algebra_simps)
qed

lemma promo_ok_clock: "same_clock cfg cfg' \<Longrightarrow> promo_ok cfg' p = promo_ok cfg p"
  by (simp add: promo_ok_def same_clock_due)

lemma same_clock_trans: "same_clock a b \<Longrightarrow> same_clock b c \<Longrightarrow> same_clock a c"
  by (simp add: same_clock_def)

lemma promo_move_trans:
  assumes m1: "promo_move (p, lg, cfg) (p1, lg1, cfg1)" and m2: "promo_move (p1, lg1, cfg1) st"
  shows "promo_move (p, lg, cfg) st"
proof -
  obtain p2 lg2 cfg2 where st: "st = (p2, lg2, cfg2)" by (cases st) auto
  have c1: "same_clock cfg cfg1" and c2: "same_clock cfg1 cfg2"
    using m1 m2 by (simp_all add: promo_move_def st)
  have "getCheapGold lg2 g = wrap32 (getCheapGold lg g + promo_share (cheap_of g) cfg p2 - promo_share (cheap_of g) cfg p)" for g
    using m1 m2 by (simp add: promo_move_def st promo_share_clock [OF c1] wrap32_chain)
  moreover have "led_recharge_gold_ratting lg2 =
      wrap32 (led_recharge_gold_ratting lg + promo_share gold_bonus_of cfg p2 - promo_share gold_bonus_of cfg p)"
    using m1 m2 by (simp add: promo_move_def st promo_share_clock [OF c1] wrap32_chain)
  ultimately show ?thesis
    using m1 m2 same_clock_trans [OF c1 c2] by (simp add: promo_move_def st promo_ok_clock [OF c1])
qed

lemma addEvent_move:
  "promo_move (p, lg, cfg) (p', lg', cfg') \<Longrightarrow> promo_events p' = [] \<Longrightarrow>
   events_fit (promo_type p') [(ev, call, d)] \<Longrightarrow> promo_time cfg (promo_id p') = Some (TimeNormal s b e) \<Longrightarrow>
   promo_move (p, lg, cfg) (addEvent ev call d p', lg', cfg')"
  by (auto simp: promo_move_def addEvent_def promo_ok_def)

lemma promo_excute_normal_move:
  assumes "ledger_wf lg" "sales_wf cfg" "\<not> in_effect p" "promo_events p = []"
    "promo_time cfg (promo_id p) = Some (TimeNormal s b e)" "promo_excute (Suc n) now (p, lg, cfg) = Some st"
  shows "promo_move (p, lg, cfg) st"
proof -
  obtain p1 lg1 cfg1 where ex: "excute_flag True (p, lg, cfg) = Some (p1, lg1, cfg1)"
    using assms(6) by (auto split: option.splits)
  note p1 = excute_flag_Some(1) [OF ex] and clock = same_clock_due [OF excute_flag_Some(2) [OF ex]]
  have m: "promo_move (p, lg, cfg) (p1, lg1, cfg1)"
    by (rule promo_move_excute [OF assms(1,2) ex assms(3,4)])
  have st: "(if 0 < e - now then Some (addEvent EVENT_SHOP_SALES_PROMOTION_EXIT Call_exit e p1, lg1, cfg1)
             else promo_exit (p1, lg1, cfg1)) = Some st"
    using assms(5,6) by (auto simp: ex p1 clock split: if_splits)
  show ?thesis
  proof (cases "0 < e - now")
    case True
    have "promo_move (p, lg, cfg) (addEvent EVENT_SHOP_SALES_PROMOTION_EXIT Call_exit e p1, lg1, cfg1)"
      by (rule addEvent_move [OF m]) (use p1 assms(4,5) in \<open>simp_all add: events_fit_def\<close>)
    then show ?thesis using True st by simp
  next
    case False
    then obtain p2 lg2 cfg2 where exit: "promo_exit (p1, lg1, cfg1) = Some (p2, lg2, cfg2)" "st = (p2, lg2, cfg2)"
      using st by (cases st) auto
    have "sales_wf cfg1" using assms(2) by (simp add: sales_wf_def clock)
    moreover have "promo_ok cfg1 p1" using p1 assms(4) by (simp add: promo_ok_def events_fit_def)
    moreover have "ledger_wf lg1" using m by (simp add: promo_move_def)
    moreover have "in_effect p1" using p1 by (simp add: in_effect_def)
    ultimately have "promo_move (p1, lg1, cfg1) st" using promo_move_exit [of lg1 cfg1 p1] exit by simp
    then show ?thesis by (rule promo_move_trans [OF m])
  qed
qed

lemma promo_apply_normal_move:
  assumes "ledger_wf lg" "sales_wf cfg" "\<not> in_effect p" "promo_ok cfg p"
    "promo_time cfg (promo_id p) = Some (TimeNormal s b e)" "promo_apply (Suc (Suc n)) now (p, lg, cfg) = Some st"
  shows "promo_move (p, lg, cfg) st"
proof -
  have be: "promo_events (base_apply p) = []" by (rule base_apply_events [OF assms(4,3)])
  have ni: "\<not> in_effect (base_apply p)" by (simp add: in_effect_def)
  have ap: "(if b - now \<le> 0 then promo_excute (Suc n) now (base_apply p, lg, cfg)
      else Some (addEvent EVENT_SHOP_SALES_PROMOTION_APPLY Call_excute b (base_apply p), lg, cfg)) = Some st"
    using assms(5,6) by (auto simp: Let_def simp del: promo_excute.simps split: if_splits)
  show ?thesis
  proof (cases "b - now \<le> 0")
    case True
    then have "promo_move (base_apply p, lg, cfg) st"
      using ap promo_excute_normal_move [OF assms(1,2) ni be, of s b e n now st] assms(5) by simp
    then show ?thesis by (rule promo_move_cong [rotated]) (simp add: promo_share_base_apply assms(3))
  next
    case False
    have "promo_move (p, lg, cfg) (base_apply p, lg, cfg)"
      by (rule promo_move_same) (use assms be ni in \<open>simp_all add: promo_ok_def events_fit_def\<close>)
    then have "promo_move (p, lg, cfg) (addEvent EVENT_SHOP_SALES_PROMOTION_APPLY Call_excute b (base_apply p), lg, cfg)"
      by (rule addEvent_move) (use be assms(5) in \<open>simp_all add: events_fit_def\<close>)
    then show ?thesis using False ap by simp
  qed
qed

lemma promo_ok_no_events: "promo_events p = [] \<Longrightarrow> promo_ok cfg p"
  by (simp add: promo_ok_def events_fit_def)

lemma promo_fire_move:
  assumes wf: "ledger_wf lg" "sales_wf cfg" "promo_ok cfg p" and ev: "ev \<in> set (promo_events p)"
    and fire: "promo_fire now ev (p, lg, cfg) = Some st"
  shows "promo_move (p, lg, cfg) st"
proof -
  define q where "q = p\<lparr>promo_events := remove1 ev (promo_events p)\<rparr>"
  have one: "promo_events p = [ev]" using wf(3) ev by (auto simp: promo_ok_def events_fit_def)
  then have q: "promo_events q = []" "promo_id q = promo_id p" "promo_type q = promo_type p" by (simp_all add: q_def)
  obtain s b e where tn: "promo_time cfg (promo_id p) = Some (TimeNormal s b e)"
    using wf(3) one by (auto simp: promo_ok_def)
  obtain x call d where evd: "ev = (x, call, d)" by (cases ev) auto
  have fit: "events_fit (promo_type p) [(x, call, d)]" using wf(3) one evd by (simp add: promo_ok_def)
  have fire': "(case call of
      Call_apply \<Rightarrow> promo_apply (Suc (Suc 4)) now (q, lg, cfg)
    | Call_excute \<Rightarrow> promo_excute (Suc 5) now (q, lg, cfg)
    | Call_exit \<Rightarrow> promo_exit (q, lg, cfg)) = Some st"
    using fire by (simp add: promo_fire_def q_def evd Let_def eval_nat_numeral
        del: promo_apply.simps promo_excute.simps split: promo_call.splits)
  have ok: "promo_ok cfg q" by (rule promo_ok_no_events [OF q(1)])
  have tq: "promo_time cfg (promo_id q) = Some (TimeNormal s b e)" using tn q by simp
  have "promo_move (q, lg, cfg) st"
  proof (cases call)
    case Call_apply
    then have "\<not> in_effect q" using fit q by (auto simp: events_fit_def in_effect_def)
    moreover have "promo_apply (Suc (Suc 4)) now (q, lg, cfg) = Some st" using fire' unfolding Call_apply by simp
    ultimately show ?thesis by (rule promo_apply_normal_move [OF wf(1,2) _ ok tq])
  next
    case Call_excute
    then have "\<not> in_effect q" using fit q by (auto simp: events_fit_def in_effect_def)
    moreover have "promo_excute (Suc 5) now (q, lg, cfg) = Some st" using fire' unfolding Call_excute by simp
    ultimately show ?thesis by (rule promo_excute_normal_move [OF wf(1,2) _ q(1) tq])
  next
    case Call_exit
    then have eff: "in_effect q" using fit q by (auto simp: events_fit_def in_effect_def)
    obtain p' lg' cfg' where st: "st = (p', lg', cfg')" by (cases st) auto
    have "promo_exit (q, lg, cfg) = Some (p', lg', cfg')" using fire' unfolding Call_exit st by simp
    then show ?thesis unfolding st by (rule promo_move_exit [OF wf(1,2) _ eff ok])
  qed
  then show ?thesis by (rule promo_move_cong [rotated]) (simp add: q_def)
qed

text \<open>The manager's books: every discount and the gold bonus are the sums over the promotions in
  effect; \<open>base\<close> is the value of \<open>_recharge_gold_ratting\<close> before the first promotion.\<close>

definition sales_inv :: "int \<Rightarrow> ShopSalesPromotionManager \<times> GameConfig \<Rightarrow> bool" where
  "sales_inv base = (\<lambda>(pm, cfg). sales_wf cfg \<and> ledger_wf (ledger pm) \<and>
     list_all (promo_ok cfg) (shopSalesPromotions pm) \<and>
     (\<forall>g. getCheapGold (ledger pm) g = wrap32 (sum_list (map (promo_share (cheap_of g) cfg) (shopSalesPromotions pm)))) \<and>
     led_recharge_gold_ratting (ledger pm) =
       wrap32 (base + sum_list (map (promo_share gold_bonus_of cfg) (shopSalesPromotions pm))))"

inductive sales_step :: "ShopSalesPromotionManager \<times> GameConfig \<Rightarrow> ShopSalesPromotionManager \<times> GameConfig \<Rightarrow> bool" where
  sales_day_pass: "ShopSales_DayPass now st = Some st' \<Longrightarrow> sales_step st st'"
| sales_update: "sales_step (pm, cfg) (ShopSales_update pm, cfg)"
| sales_event: "shopSalesPromotions pm = xs @ p # ys \<Longrightarrow> ev \<in> set (promo_events p) \<Longrightarrow> snd (snd ev) \<le> now \<Longrightarrow>
     promo_fire now ev (p, ledger pm, cfg) = Some (p', lg', cfg') \<Longrightarrow>
     sales_step (pm, cfg) (pm\<lparr>ledger := lg', shopSalesPromotions := xs @ p' # ys\<rparr>, cfg')"

lemma sales_inv_move:
  assumes inv: "sales_inv base (pm, cfg)" and ps: "shopSalesPromotions pm = xs @ p # ys"
    and mv: "promo_move (p, ledger pm, cfg) (p', lg', cfg')"
  shows "sales_inv base (pm\<lparr>ledger := lg', shopSalesPromotions := xs @ p' # ys\<rparr>, cfg')"
proof -
  have clock: "same_clock cfg cfg'" and ok: "promo_ok cfg p'" and wf: "ledger_wf lg'"
    using mv by (auto simp: promo_move_def)
  have sum: "wrap32 (wrap32 (k + sum_list (map f (xs @ p # ys))) + f p' - f p) = wrap32 (k + sum_list (map f (xs @ p' # ys)))"
    for k and f :: "ShopSalesPromotion \<Rightarrow> int"
    using wrap32_add_left [of "k + sum_list (map f (xs @ p # ys))" "f p' - f p"] by (simp add: algebra_simps)
  have oks: "promo_ok cfg' = promo_ok cfg" by (simp add: fun_eq_iff promo_ok_clock [OF clock])
  show ?thesis
    using inv mv sum [of 0] sum ok wf
    by (simp add: oks sales_inv_def ps promo_move_def promo_share_clock [OF clock] sales_wf_def same_clock_due [OF clock])
qed

lemma daypass_all_inv:
  "sales_inv base (pm\<lparr>ledger := lg, shopSalesPromotions := xs @ ps\<rparr>, cfg) \<Longrightarrow>
   daypass_all now ps (lg, cfg) = Some (ps', lg', cfg') \<Longrightarrow>
   sales_inv base (pm\<lparr>ledger := lg', shopSalesPromotions := xs @ ps'\<rparr>, cfg')"
proof (induction ps arbitrary: xs lg cfg ps')
  case (Cons p ps)
  obtain p1 lg1 cfg1 ps1 where d: "DayPass (Suc (Suc (Suc (Suc (Suc 1))))) now (p, lg, cfg) = Some (p1, lg1, cfg1)"
    "daypass_all now ps (lg1, cfg1) = Some (ps1, lg', cfg')" "ps' = p1 # ps1"
    using Cons.prems(2) by (auto simp: eval_nat_numeral simp del: DayPass.simps split: option.splits)
  obtain tb where tb: "promo_time cfg (promo_id p) = Some tb"
    using d(1) by (auto split: option.splits)
  have wf: "ledger_wf lg" "sales_wf cfg" "promo_ok cfg p" using Cons.prems(1) by (auto simp: sales_inv_def)
  have "daypass_spec now tb (p, lg, cfg) = Some (p1, lg1, cfg1)"
    using d(1) DayPass_spec [OF tb, of 1 now lg] by simp
  then have "promo_move (p, lg, cfg) (p1, lg1, cfg1)" by (rule daypass_move [OF wf tb])
  then have "sales_inv base (pm\<lparr>ledger := lg1, shopSalesPromotions := (xs @ [p1]) @ ps\<rparr>, cfg1)"
    using sales_inv_move [OF Cons.prems(1), of xs p ps p1 lg1 cfg1] by simp
  then show ?case using Cons.IH [OF _ d(2)] d(3) by fastforce
qed simp

interpretation sales: invariant_system sales_step "sales_inv base" for base
proof unfold_locales
  fix st st'
  assume inv: "sales_inv base st" and step: "sales_step st st'"
  from step inv show "sales_inv base st'"
  proof cases
    case (sales_day_pass now)
    obtain pm cfg where st: "st = (pm, cfg)" by (cases st)
    obtain ps' lg' cfg' where d: "daypass_all now (shopSalesPromotions pm) (ledger pm, cfg) = Some (ps', lg', cfg')"
      "st' = (pm\<lparr>ledger := lg', shopSalesPromotions := ps'\<rparr>, cfg')"
      using sales_day_pass by (auto simp: ShopSales_DayPass_def st)
    show ?thesis using daypass_all_inv [where xs = "[]" and pm = pm and base = base, OF _ d(1)] inv d(2) by (simp add: st)
  next
    case (sales_update pm cfg)
    have drop: "sum_list (map (promo_share a cfg) (filter (\<lambda>p. promo_type p \<noteq> ShopSalesPromotionType_Destroy) ps)) =
        sum_list (map (promo_share a cfg) ps)" for a ps
      by (induction ps) (auto simp: promo_share_def in_effect_def)
    then show ?thesis
      using inv sales_update by (auto simp: sales_inv_def ShopSales_update_def list_all_iff)
  next
    case (sales_event pm xs p ys ev now cfg p' lg' cfg')
    have "promo_move (p, ledger pm, cfg) (p', lg', cfg')"
      by (rule promo_fire_move) (use inv sales_event in \<open>auto simp: sales_inv_def\<close>)
    then show ?thesis using sales_inv_move [of base pm cfg xs p ys p' lg' cfg'] inv sales_event by simp
  qed
qed

section \<open>Properties\<close>

definition sample_sales :: GameConfig where
  "sample_sales = sample_config\<lparr>cfg_time_sales :=
     [(1, \<lparr>tp_id = 1, tp_time = Some (TimeWeek 1 2 4), tp_promotion = Some (HeroPromotion [(7, 100)]),
           tp_name = ''sale'', tp_time_describe = [], tp_describe = []\<rparr>)]\<rparr>"

definition sample_promo :: ShopSalesPromotion where
  "sample_promo = \<lparr>promo_id = 1, promo_type = ShopSalesPromotionType_Wait, promo_name = ''sale'',
     promo_time_describe = [], promo_describe = [], promo_events = []\<rparr>"

definition sample_ledger :: Ledger where
  "sample_ledger = \<lparr>cheap_gold = [], led_recharge_ratting = 0, led_recharge_gold_ratting = 0, led_recharge_jewel_ratting = 0\<rparr>"

definition sample_manager :: ShopSalesPromotionManager where
  "sample_manager = \<lparr>ledger = sample_ledger, shopSalesPromotions = [sample_promo]\<rparr>"

lemma DayPass_spec5:
  "promo_time cfg (promo_id p) = Some tb \<Longrightarrow> DayPass (5 + n) now (p, lg, cfg) = daypass_spec now tb (p, lg, cfg)"
  using DayPass_spec [of cfg p tb n now lg] by (simp add: eval_nat_numeral del: DayPass.simps)

lemma daypass_spec_total:
  assumes "promotion_of cfg p \<noteq> None"
  shows "\<exists>st. daypass_spec now tb (p, lg, cfg) = Some st"
proof -
  have ex: "\<exists>st. excute_flag b (q, lg, cfg) = Some st" if "promo_id q = promo_id p" for b q
    using assms that
    by (auto simp: excute_flag_def promotion_of_def Let_def bind_eq_Some_conv split: option.splits prod.splits)
  have "\<exists>st. promo_exit (p, lg, cfg) = Some st"
    using ex [of "base_exit p" False] by (auto simp: promo_exit_def base_exit_def removeEvents_def split: option.splits)
  then show ?thesis
    using ex [of p True] ex [of "base_apply p" True]
    by (auto simp: daypass_spec_def split: ShopSalesPromotionType.splits)
qed

text \<open>
  C35. \<open>TimeShopPromotion::DayPass\<close>, \<open>apply\<close> and \<open>excute\<close> call each other, but for a promotion with a
  time and an effect the calls end within depth five and \<open>DayPass\<close> does what the closed description
  says: a waiting promotion is announced when its show window is open and put into effect when its
  begin window is open too, an announced one is put into effect, one in effect leaves it when the
  exit test holds, and a destroyed one stays as it is.
\<close>

theorem DayPass_returns:
  assumes "promo_time cfg (promo_id p) = Some tb" "promotion_of cfg p \<noteq> None"
  shows "DayPass (5 + n) now (p, lg, cfg) = daypass_spec now tb (p, lg, cfg) \<and>
    (\<exists>st. DayPass (5 + n) now (p, lg, cfg) = Some st)"
  using DayPass_spec5 [OF assms(1)] daypass_spec_total [OF assms(2)] by auto

theorem DayPass_returns_witness:
  "map_option (\<lambda>(p, lg, cfg). (promo_type p, getCheapGold lg 7)) (DayPass (5 + 1) (5 * 86400) (sample_promo, sample_ledger, sample_sales))
     = Some (ShopSalesPromotionType_Excute, 100)"
proof -
  have w: "local_wday 28800 (5 * 86400) = 2"
    by (simp add: local_wday_def local_day_def)
  have "promo_time sample_sales (promo_id sample_promo) = Some (TimeWeek 1 2 4)"
    by (simp add: promo_time_def getTimeShopSalesPromotionConfig_def sample_sales_def sample_promo_def)
  moreover have "promotion_of sample_sales sample_promo \<noteq> None"
    by (simp add: promotion_of_def getTimeShopSalesPromotionConfig_def sample_sales_def sample_promo_def)
  ultimately have "DayPass (5 + 1) (5 * 86400) (sample_promo, sample_ledger, sample_sales) =
      daypass_spec (5 * 86400) (TimeWeek 1 2 4) (sample_promo, sample_ledger, sample_sales)"
    using DayPass_returns by blast
  then show ?thesis
    using w
    by (simp add: daypass_spec_def show_due_def begin_due_def Let_def sample_sales_def sample_config_def sample_promo_def
        sample_ledger_def excute_flag_def getTimeShopSalesPromotionConfig_def base_apply_def removeEvents_def
        modifyCheapGold_def getCheapGold_def map_insert_def map_index_def wrap32_def)
qed



text \<open>
  Switching a promotion on and off again restores every discount and the gold bonus.
\<close>

theorem promotion_on_off:
  assumes "ledger_wf lg" "promotion_wf promo"
  shows "getCheapGold (fst (promotion_effect False promo (promotion_effect True promo (lg, cfg)))) g = getCheapGold lg g \<and>
    led_recharge_gold_ratting (fst (promotion_effect False promo (promotion_effect True promo (lg, cfg)))) = led_recharge_gold_ratting lg"
  using discount.on_off [OF assms] gold_bonus.on_off [OF assms] by blast

theorem promotion_on_off_witness:
  "getCheapGold (fst (promotion_effect False (HeroPromotion [(7, 100)]) (promotion_effect True (HeroPromotion [(7, 100)]) (sample_ledger, sample_sales)))) 7 = 0"
proof -
  have "ledger_wf sample_ledger" by (simp add: ledger_wf_def sample_ledger_def getCheapGold_def)
  moreover have "promotion_wf (HeroPromotion [(7, 100)])" by (simp add: map_wf_Cons)
  moreover have "getCheapGold sample_ledger 7 = 0" by (simp add: sample_ledger_def getCheapGold_def)
  ultimately show ?thesis using promotion_on_off by metis
qed

text \<open>
  The configured kind of a recharge promotion (all, gold or jewel) has no influence: whatever it
  is, only the gold bonus changes, never the jewel bonus or the common one.
\<close>

theorem recharge_type_ignored:
  "promotion_effect b (RechargeRattingPromotion r t) (lg, cfg) =
     (lg\<lparr>led_recharge_gold_ratting := wrap32 (led_recharge_gold_ratting lg + (if b then r else - r))\<rparr>, cfg)"
  by (simp add: Let_def modifyGoldRechargeRatting_def)

text \<open>
  A weekly promotion whose window wraps over the end of the week (\<open>begin > end\<close>) never leaves
  effect: \<open>DayPass\<close> on a promotion in effect changes nothing on any day.
\<close>

theorem wrapped_week_never_ends:
  assumes "promo_time cfg (promo_id p) = Some (TimeWeek s b e)" "e < b" "promo_type p = ShopSalesPromotionType_Excute"
  shows "DayPass (5 + n) now (p, lg, cfg) = Some (p, lg, cfg)"
proof -
  have "\<not> exit_due cfg now (TimeWeek s b e)" using assms(2) by (auto simp: exit_due_def Let_def)
  then show ?thesis
    using DayPass_spec [OF assms(1), of n now lg] assms(3) by (simp add: daypass_spec_def eval_nat_numeral del: DayPass.simps)
qed

definition wrapped_sales :: GameConfig where
  "wrapped_sales = sample_config\<lparr>cfg_time_sales :=
     [(1, \<lparr>tp_id = 1, tp_time = Some (TimeWeek 5 6 1), tp_promotion = Some (HeroPromotion [(7, 100)]),
           tp_name = ''weekend'', tp_time_describe = [], tp_describe = []\<rparr>)]\<rparr>"

theorem wrapped_week_never_ends_witness:
  "local_wday 28800 (6 * 86400) = 3 \<and>
   DayPass (5 + 1) (6 * 86400) (sample_promo\<lparr>promo_type := ShopSalesPromotionType_Excute\<rparr>, sample_ledger, wrapped_sales) =
     Some (sample_promo\<lparr>promo_type := ShopSalesPromotionType_Excute\<rparr>, sample_ledger, wrapped_sales)"
  using wrapped_week_never_ends [of wrapped_sales "sample_promo\<lparr>promo_type := ShopSalesPromotionType_Excute\<rparr>" 5 6 1 1 "6 * 86400" sample_ledger]
  by (simp add: promo_time_def getTimeShopSalesPromotionConfig_def wrapped_sales_def sample_promo_def local_wday_def local_day_def
      del: DayPass.simps)

end
