(* ===== verification/Hero_State.thy ===== *)
theory Hero_State
  imports RankManager ShopSales
begin

text \<open>
  The state of a player on the game server, class \<open>DreamHero\<close> of \<open>gameserver/DreamHero.h\<close>, and
  the effects its methods have outside of it. A method takes the hero (and the configuration, the
  server clock, the results of \<open>rand()\<close> or another manager where it reads them) and returns the
  hero afterwards with the list of its effects in order.
\<close>

section \<open>Data\<close>

record DealWaitToPay =
  key_code :: string
  deal_status_code :: int
  price :: int
  order_id :: int
  receipt :: string
  deal_type :: int

record DreamHero =
  special_kills :: "(int \<times> int, MsgObjConfig list) smap"
  special_creatures :: "(int, int) smap"
  info :: MsgHeroData
  current_chapter :: int
  current_section :: int
  current_task_count :: int
  last_task_advertisement_time :: int
  account :: int
  session :: "int option"
  online :: bool
  deals_wait_to_pay :: "(int, DealWaitToPay) smap"
  gm_level :: int
  last_recover_spirit_time :: int
  last_buy_spirit_time :: int
  last_day_lottery_time :: int
  destroy_clock :: bool
  daily_game_time :: int
  daily_game_prize_time :: int
  last_daily_reset_game_time :: int
  channel :: int

text \<open>The row that \<open>SaveHero\<close> writes into the table \<open>character\<close>. A column that holds a formatted
  time is kept as the time itself.\<close>

record character_row =
  c_account_id :: int
  c_name :: string
  c_gold :: int
  c_record_his :: string
  c_heroes_state :: string
  c_tasks :: string
  c_special_kill :: string
  c_current_hero :: int
  c_current_chapter :: int
  c_current_section :: int
  c_complete_task_count :: int
  c_special_creatures :: string
  c_free_task_count :: int
  c_last_task_advertisement_time :: int
  c_gm_level :: int
  c_current_task_count :: int
  c_tutorial_flag :: int
  c_jewel :: int
  c_spirit :: int
  c_last_recover_spirit_time :: int
  c_day_buy_spirit :: int
  c_last_buy_spirit_time :: int
  c_lotions :: string
  c_last_lottery_time :: int
  c_daily_game_progress :: int
  c_daily_game_score :: int
  c_daily_game_gold :: int
  c_daily_game_time :: int
  c_daily_game_prize_time :: int
  c_daily_game_hp_pct :: int
  c_daily_game_record_progress :: int
  c_daily_reset_game_count :: int
  c_last_daily_reset_game_time :: int
  c_daily_top_grogress :: int
  c_daily_game_anger :: int
  c_concern_weixin :: int
  c_grid_state_notify :: string

text \<open>The row of the table \<open>heroes_status\<close>, which the hero manager writes.\<close>

record heroes_status_row =
  hs_server_id :: string
  hs_day_create_heroes_count :: int
  hs_day_number :: string
  hs_heroes_online_count :: int
  hs_save_time :: int
  hs_deal_order_id :: int
  hs_daily_game_begin_time :: int

section \<open>Effects\<close>

text \<open>The tasks of the HTTP thread, with the arguments of their \<open>init\<close>.\<close>

datatype http_task =
    CreateDealHttpTask int string string int
  | VerifyDealHttpTaskIOS int string string int

text \<open>Statements for the database server: the row of a hero, the open deals of a hero (rows of
  order, account, product, status, price, time and completion status), the note that a receipt
  waits for verification, one deal of a player who is not online, prizes (gold, time, account),
  an administration level by name, the status row and the rank list.\<close>

datatype (plugins only: size) hero_sql =
    ReplaceCharacter character_row
  | ReplaceDeals "(int \<times> int \<times> string \<times> int \<times> int \<times> int \<times> int) sqlpiece list"
  | ReplaceVerify int int string
  | ReplaceDeal int int string int int int int
  | UpdatePrize "(int \<times> int \<times> int) list"
  | UpdateGMLevel int string
  | ReplaceStatus heroes_status_row
  | RankSql rank_sql

datatype (plugins only: size) effect =
    Send int s2c
  | Rec "RecordType \<times> row"
  | Http http_task
  | Db hero_sql
  | ReqHeroData int int
  | SaveAllHeroes

type_synonym handled = "DreamHero \<times> effect list"

text \<open>The pointer \<open>_session\<close> is the transaction id of the session. \<open>DreamHero::sendPBMessage\<close> hands a
  message to the session, if there is one.\<close>

definition sendPBMessage :: "DreamHero \<Rightarrow> s2c \<Rightarrow> effect list" where
  "sendPBMessage h m = (case session h of None \<Rightarrow> [] | Some t \<Rightarrow> [Send t m])"

abbreviation (input) recs :: "pushes \<Rightarrow> effect list" where "recs ps \<equiv> map Rec ps"

abbreviation (input) set_info_field :: "(MsgHeroData \<Rightarrow> MsgHeroData) \<Rightarrow> DreamHero \<Rightarrow> DreamHero" where
  "set_info_field f h \<equiv> h\<lparr>info := f (info h)\<rparr>"

abbreviation (input) set_gold :: "int \<Rightarrow> DreamHero \<Rightarrow> DreamHero" where
  "set_gold v h \<equiv> h\<lparr>info := (info h)\<lparr>gold := v\<rparr>\<rparr>"

abbreviation (input) set_jewel :: "int \<Rightarrow> DreamHero \<Rightarrow> DreamHero" where
  "set_jewel v h \<equiv> h\<lparr>info := (info h)\<lparr>jewel := v\<rparr>\<rparr>"

abbreviation (input) set_spirit :: "int \<Rightarrow> DreamHero \<Rightarrow> DreamHero" where
  "set_spirit v h \<equiv> h\<lparr>info := (info h)\<lparr>spirit := v\<rparr>\<rparr>"

abbreviation (input) set_lotions :: "int list \<Rightarrow> DreamHero \<Rightarrow> DreamHero" where
  "set_lotions v h \<equiv> h\<lparr>info := (info h)\<lparr>lotions := v\<rparr>\<rparr>"

abbreviation (input) set_tasks :: "MsgTaskInfo list \<Rightarrow> DreamHero \<Rightarrow> DreamHero" where
  "set_tasks v h \<equiv> h\<lparr>info := (info h)\<lparr>tasks := v\<rparr>\<rparr>"

section \<open>Well-formed heroes\<close>

text \<open>
  What the code relies on in a hero: no task is listed twice and none has the id 0 that marks
  ''no task''; no lotion is held twice and only lotions 0 to 3 exist; no chapter has two records;
  the chosen hero is unlocked; the maps are maps, with each deal stored under its order, and the
  purse counters are \<open>int\<close>s.
\<close>

definition tasks_ok :: "MsgTaskInfo list \<Rightarrow> bool" where
  "tasks_ok ts \<longleftrightarrow> distinct (map taskid ts) \<and> 0 \<notin> taskid ` set ts"

definition lotions_ok :: "int list \<Rightarrow> bool" where
  "lotions_ok ls \<longleftrightarrow> distinct ls \<and> set ls \<subseteq> {0..3}"

definition records_ok :: "MsgIntPair list \<Rightarrow> bool" where
  "records_ok rs \<longleftrightarrow> distinct (map fst rs)"

definition current_hero_ok :: "MsgHeroData \<Rightarrow> bool" where
  "current_hero_ok d \<longleftrightarrow> 0 \<le> current_hero d \<and> current_hero d < int (length (heroes d)) \<and>
     heroes d ! nat (current_hero d)"

definition deals_ok :: "(int, DealWaitToPay) smap \<Rightarrow> bool" where
  "deals_ok m \<longleftrightarrow> map_wf m \<and> (\<forall>(k, d) \<in> set m. order_id d = k)"

definition purse_ok :: "MsgHeroData \<Rightarrow> bool" where
  "purse_ok d \<longleftrightarrow> in32 (gold d) \<and> in32 (jewel d) \<and> in32 (spirit d)"

definition hero_wf :: "DreamHero \<Rightarrow> bool" where
  "hero_wf h \<longleftrightarrow> tasks_ok (tasks (info h)) \<and> lotions_ok (lotions (info h)) \<and> records_ok (records (info h)) \<and>
     current_hero_ok (info h) \<and> deals_ok (deals_wait_to_pay h) \<and> purse_ok (info h) \<and>
     map_wf (special_kills h) \<and> map_wf (special_creatures h)"

lemma hero_wfI:
  assumes "hero_wf h"
    and "tasks_ok (tasks (info h'))" "lotions_ok (lotions (info h'))" "records_ok (records (info h'))"
    "current_hero_ok (info h')" "deals_ok (deals_wait_to_pay h')" "purse_ok (info h')"
    "map_wf (special_kills h')" "map_wf (special_creatures h')"
  shows "hero_wf h'"
  using assms by (simp add: hero_wf_def)

lemma hero_wf_parts:
  "hero_wf h \<Longrightarrow> tasks_ok (tasks (info h))" "hero_wf h \<Longrightarrow> lotions_ok (lotions (info h))"
  "hero_wf h \<Longrightarrow> records_ok (records (info h))" "hero_wf h \<Longrightarrow> current_hero_ok (info h)"
  "hero_wf h \<Longrightarrow> deals_ok (deals_wait_to_pay h)" "hero_wf h \<Longrightarrow> purse_ok (info h)"
  "hero_wf h \<Longrightarrow> map_wf (special_kills h)" "hero_wf h \<Longrightarrow> map_wf (special_creatures h)"
  by (simp_all add: hero_wf_def)

lemmas hero_ok_defs = hero_wf_def purse_ok_def current_hero_ok_def

lemma hero_wf_gold [simp]: "hero_wf h \<Longrightarrow> in32 v \<Longrightarrow> hero_wf (set_gold v h)"
  by (simp add: hero_ok_defs)

lemma hero_wf_jewel [simp]: "hero_wf h \<Longrightarrow> in32 v \<Longrightarrow> hero_wf (set_jewel v h)"
  by (simp add: hero_ok_defs)

lemma hero_wf_spirit [simp]: "hero_wf h \<Longrightarrow> in32 v \<Longrightarrow> hero_wf (set_spirit v h)"
  by (simp add: hero_ok_defs)

lemma hero_wf_tasks [simp]: "hero_wf h \<Longrightarrow> tasks_ok ts \<Longrightarrow> hero_wf (set_tasks ts h)"
  by (simp add: hero_ok_defs)

lemma hero_wf_lotions [simp]: "hero_wf h \<Longrightarrow> lotions_ok ls \<Longrightarrow> hero_wf (set_lotions ls h)"
  by (simp add: hero_ok_defs)

text \<open>Tasks of the configuration are stored under their own id.\<close>

definition config_tasks_ok :: "GameConfig \<Rightarrow> bool" where
  "config_tasks_ok cfg \<longleftrightarrow> map_wf (cfg_tasks cfg) \<and> (\<forall>(k, c) \<in> set (cfg_tasks cfg). config_taskid c = k)"

text \<open>A hero for the examples.\<close>

definition sample_info :: MsgHeroData where
  "sample_info = \<lparr>hero_name = ''hero'', gold = 100, records = [(1, 1), (0, 0)], heroes = [True, False],
     tasks = [\<lparr>taskid = 7, argument_1 = 0, usetime = 0\<rparr>], current_hero = 0, complete_task_count = 2,
     new_tutorial = 0, jewel = 20, spirit = 10, day_buy_spirit = 0, lotions = [1], daily_game_progress = 0,
     daily_game_gold = 0, daily_game_score = 0, daily_game_hp_pct = 100, daily_game_record_progress = 0,
     daily_reset_game_count = 0, daily_top_grogress = 0, daily_game_anger = 0, concern_weixin = False,
     grid_notify_state = []\<rparr>"

definition sample_hero :: DreamHero where
  "sample_hero = \<lparr>special_kills = [], special_creatures = [], info = sample_info, current_chapter = -1,
     current_section = -1, current_task_count = 0, last_task_advertisement_time = 0, account = 42,
     session = Some 1, online = True, deals_wait_to_pay = [], gm_level = 0, last_recover_spirit_time = 0,
     last_buy_spirit_time = 0, last_day_lottery_time = 0, destroy_clock = False, daily_game_time = 0,
     daily_game_prize_time = 0, last_daily_reset_game_time = 0, channel = 1\<rparr>"

lemma sample_hero_wf [simp]: "hero_wf sample_hero"
  by (simp add: hero_wf_def sample_hero_def sample_info_def tasks_ok_def lotions_ok_def records_ok_def
      current_hero_ok_def deals_ok_def purse_ok_def in32_def)

end
