(* ===== verification/Hero_Save.thy ===== *)
theory Hero_Save
  imports Hero_State
begin

text \<open>
  Storing a player: \<open>DreamHero::SaveHero\<close> of \<open>gameserver/DreamHero.cpp\<close> writes the row of the table
  \<open>character\<close> with the lists packed into text columns, and \<open>DBQuestManager\<close> of
  \<open>databaseserver/db_quest.cpp\<close> reads it back into a \<open>MsgHeroDataDB2GS\<close>. The lemmas show that what was
  packed is unpacked again.

  A row is the record of its columns; the quoting of the statement and the formatting of times
  (written with \<open>build_unix_time_to_string\<close>, read with \<open>UNIX_TIMESTAMP\<close>) are not spelled out, and the
  fixed buffers of the \<open>sprintf\<close> calls are taken to be large enough.
\<close>

section \<open>Packing\<close>

definition pair_text :: "int \<times> int \<Rightarrow> string" where
  "pair_text p = show_int (fst p) @ '','' @ show_int (snd p)"

definition records_text :: "MsgIntPair list \<Rightarrow> string" where
  "records_text rs = join CHR '';'' (map pair_text rs)"

definition heroes_text :: "bool list \<Rightarrow> string" where
  "heroes_text bs = join CHR '';'' (map (\<lambda>b. show_int (if b then 1 else 0)) bs)"

definition task_text :: "MsgTaskInfo \<Rightarrow> string" where
  "task_text t = show_int (taskid t) @ '','' @ show_int (argument_1 t) @ '','' @ show_int (usetime t)"

definition tasks_text :: "MsgTaskInfo list \<Rightarrow> string" where
  "tasks_text ts = join CHR '';'' (map task_text ts)"

text \<open>One round of the loop over \<open>_special_kills\<close>: a map without kills leaves no trace.\<close>

definition kills_text :: "MsgObjConfig list \<Rightarrow> string" where
  "kills_text ks = concat (map (\<lambda>k. '':'' @ pair_text (obj_id k, obj_type k)) ks)"

definition special_kill_step :: "string \<Rightarrow> (int \<times> int) \<times> MsgObjConfig list \<Rightarrow> string" where
  "special_kill_step acc e =
     (let temp_str = kills_text (snd e)
      in if temp_str \<noteq> [] then (if acc \<noteq> [] then acc @ '';'' else acc) @ pair_text (fst e) @ temp_str else acc)"

definition special_kill_text :: "(int \<times> int, MsgObjConfig list) smap \<Rightarrow> string" where
  "special_kill_text m = foldl special_kill_step [] m"

definition grid_text :: "MsgIntBoolPair list \<Rightarrow> string" where
  "grid_text gs = join CHR '';'' (map (\<lambda>(i, b). pair_text (i, if b then 1 else 0)) gs)"

definition creatures_text :: "(int, int) smap \<Rightarrow> string" where
  "creatures_text m = join CHR '';'' (map pair_text m)"

definition lotions_text :: "int list \<Rightarrow> string" where
  "lotions_text ls = join CHR '','' (map show_int ls)"

definition save_row :: "DreamHero \<Rightarrow> character_row" where
  "save_row h = (let d = info h in
     \<lparr>c_account_id = account h, c_name = hero_name d, c_gold = gold d, c_record_his = records_text (records d),
      c_heroes_state = heroes_text (heroes d), c_tasks = tasks_text (tasks d),
      c_special_kill = special_kill_text (special_kills h), c_current_hero = current_hero d,
      c_current_chapter = current_chapter h, c_current_section = current_section h,
      c_complete_task_count = complete_task_count d, c_special_creatures = creatures_text (special_creatures h),
      c_free_task_count = current_task_count h, c_last_task_advertisement_time = last_task_advertisement_time h,
      c_gm_level = gm_level h, c_current_task_count = current_task_count h, c_tutorial_flag = new_tutorial d,
      c_jewel = jewel d, c_spirit = spirit d, c_last_recover_spirit_time = last_recover_spirit_time h,
      c_day_buy_spirit = day_buy_spirit d, c_last_buy_spirit_time = last_buy_spirit_time h,
      c_lotions = lotions_text (lotions d), c_last_lottery_time = last_day_lottery_time h,
      c_daily_game_progress = daily_game_progress d, c_daily_game_score = daily_game_score d,
      c_daily_game_gold = daily_game_gold d, c_daily_game_time = daily_game_time h,
      c_daily_game_prize_time = daily_game_prize_time h, c_daily_game_hp_pct = daily_game_hp_pct d,
      c_daily_game_record_progress = daily_game_record_progress d, c_daily_reset_game_count = daily_reset_game_count d,
      c_last_daily_reset_game_time = last_daily_reset_game_time h, c_daily_top_grogress = daily_top_grogress d,
      c_daily_game_anger = daily_game_anger d, c_concern_weixin = (if concern_weixin d then 1 else 0),
      c_grid_state_notify = grid_text (grid_notify_state d)\<rparr>)"

text \<open>The statement for the open deals: the head, then the rows with commas between them. The loop that
  follows in the code and should erase the completed deals starts at the end of the map, since
  \<open>it_deal != begin()\<close> assigns nothing: it never runs, and the hero stays as he is.\<close>

fun deal_rows :: "int \<Rightarrow> int \<Rightarrow> bool \<Rightarrow> DealWaitToPay list \<Rightarrow> (int \<times> int \<times> string \<times> int \<times> int \<times> int \<times> int) sqlpiece list" where
  "deal_rows now acc first [] = []"
| "deal_rows now acc first (e # es) =
     (if first then Head else Comma) #
     Row (order_id e, acc, key_code e, deal_status_code e, price e, now, deal_type e) # deal_rows now acc False es"

definition SaveHero :: "int \<Rightarrow> DreamHero \<Rightarrow> effect list" where
  "SaveHero now h = Db (ReplaceCharacter (save_row h)) #
     (if deals_wait_to_pay h \<noteq> []
      then [Db (ReplaceDeals (deal_rows now (account h) True (map snd (deals_wait_to_pay h))))] else [])"

section \<open>Unpacking\<close>

definition read_pair :: "string \<Rightarrow> MsgIntPair list" where
  "read_pair s = (case SplitStringA s '','' of [a, b] \<Rightarrow> [(atoi a, atoi b)] | _ \<Rightarrow> [])"

definition read_records :: "string \<Rightarrow> MsgIntPair list" where
  "read_records s = concat (map read_pair (SplitStringA s '';''))"

definition read_heroes :: "string \<Rightarrow> bool list" where
  "read_heroes s = map (\<lambda>x. atoi x \<noteq> 0) (SplitStringA s '';'')"

definition read_task :: "string \<Rightarrow> MsgTaskInfo list" where
  "read_task s = (case SplitStringA s '','' of
     [a, b, c] \<Rightarrow> [\<lparr>taskid = atoi a, argument_1 = atoi b, usetime = atoi c\<rparr>] | _ \<Rightarrow> [])"

definition read_tasks :: "string \<Rightarrow> MsgTaskInfo list" where
  "read_tasks s = concat (map read_task (SplitStringA s '';''))"

definition read_kill :: "string \<Rightarrow> MsgObjConfig list" where
  "read_kill s = (case SplitStringA s '','' of [a, b] \<Rightarrow> [\<lparr>obj_type = atoi b, obj_id = atoi a\<rparr>] | _ \<Rightarrow> [])"

definition read_map_kills :: "string \<Rightarrow> MsgMapSpecialKill list" where
  "read_map_kills s =
     (case SplitStringA s '':'' of
        m # k # ks \<Rightarrow>
          (case SplitStringA m '','' of
             [a, b] \<Rightarrow> [\<lparr>kill_chapter_id = atoi a, kill_section_id = atoi b, kills = concat (map read_kill (k # ks))\<rparr>]
           | _ \<Rightarrow> [])
      | _ \<Rightarrow> [])"

definition read_special_kills :: "string \<Rightarrow> MsgMapSpecialKill list" where
  "read_special_kills s = concat (map read_map_kills (SplitStringA s '';''))"

definition read_lotions :: "string \<Rightarrow> int list" where
  "read_lotions s = map atoi (SplitStringA s '','')"

definition read_creature :: "string \<Rightarrow> MsgIntPair list" where
  "read_creature s = (case SplitStringA s '','' of a # b # _ \<Rightarrow> [(atoi a, atoi b)] | _ \<Rightarrow> [])"

definition read_creatures :: "string \<Rightarrow> MsgIntPair list" where
  "read_creatures s = concat (map read_creature (SplitStringA s '';''))"

definition read_grid :: "string \<Rightarrow> MsgIntBoolPair list" where
  "read_grid s = (case SplitStringA s '','' of a # b # _ \<Rightarrow> [(atoi a, \<not> atoi b = 0)] | _ \<Rightarrow> [])"

definition read_grids :: "string \<Rightarrow> MsgIntBoolPair list" where
  "read_grids s = concat (map read_grid (SplitStringA s '';''))"

text \<open>\<open>dbDoQueryHeroInfo\<close>: the message built from the first row of the query, or \<open>None\<close> when a new hero
  has to be created. The deals are added by the second query.\<close>

definition dbDoQueryHeroInfo :: "character_row list \<Rightarrow> MsgHeroDataDB2GS option" where
  "dbDoQueryHeroInfo rows =
     (case rows of
        [] \<Rightarrow> None
      | row # _ \<Rightarrow> Some
          \<lparr>db_account = c_account_id row,
           db_data =
             \<lparr>hero_name = c_name row, gold = c_gold row, records = read_records (c_record_his row),
              heroes = read_heroes (c_heroes_state row), tasks = read_tasks (c_tasks row), current_hero = c_current_hero row,
              complete_task_count = c_complete_task_count row, new_tutorial = c_tutorial_flag row, jewel = c_jewel row,
              spirit = c_spirit row, day_buy_spirit = c_day_buy_spirit row, lotions = read_lotions (c_lotions row),
              daily_game_progress = c_daily_game_progress row, daily_game_gold = c_daily_game_gold row,
              daily_game_score = c_daily_game_score row, daily_game_hp_pct = c_daily_game_hp_pct row,
              daily_game_record_progress = c_daily_game_record_progress row,
              daily_reset_game_count = c_daily_reset_game_count row, daily_top_grogress = c_daily_top_grogress row,
              daily_game_anger = c_daily_game_anger row, concern_weixin = (c_concern_weixin row \<noteq> 0),
              grid_notify_state = read_grids (c_grid_state_notify row)\<rparr>,
           db_current_chapter = c_current_chapter row, db_current_section = c_current_section row,
           db_free_task_count = c_free_task_count row,
           db_last_task_advertisement_time = c_last_task_advertisement_time row,
           db_special_kills = read_special_kills (c_special_kill row), db_gm_level = c_gm_level row, db_deals = [],
           db_special_creatures = read_creatures (c_special_creatures row),
           db_last_recover_spirit_time = c_last_recover_spirit_time row,
           db_last_buy_spirit_time = c_last_buy_spirit_time row, db_last_lottery_time = c_last_lottery_time row,
           db_daily_game_time = c_daily_game_time row, db_daily_game_prize_time = c_daily_game_prize_time row,
           db_last_daily_reset_game_time = c_last_daily_reset_game_time row\<rparr>)"

text \<open>A row of \<open>deal_wait_to_pay\<close>; the query asks for the rows of the account whose status is not
  \<open>DealStatusType_Complete\<close>.\<close>

record deal_row =
  dr_order_id :: int
  dr_account_id :: int
  dr_key_code :: string
  dr_status :: int
  dr_complete_status :: int
  dr_receipt :: string

definition dbDoQueryHeroDeals :: "deal_row list \<Rightarrow> MsgHeroDataDB2GS \<Rightarrow> MsgHeroDataDB2GS" where
  "dbDoQueryHeroDeals rows m = m\<lparr>db_deals := db_deals m @
     map (\<lambda>r. \<lparr>deal_order = dr_order_id r, deal_product_id = dr_key_code r, deal_status = dr_status r,
               deal_complete_status = dr_complete_status r, deal_cur_receipt = dr_receipt r\<rparr>) rows\<rparr>"

definition queryHeroInfo :: "character_row list \<Rightarrow> deal_row list \<Rightarrow> int \<Rightarrow> MsgHeroDataDB2GS option" where
  "queryHeroInfo chars deals acc =
     map_option (\<lambda>m. dbDoQueryHeroDeals
         (filter (\<lambda>r. dr_account_id r = db_account m \<and> dr_complete_status r \<noteq> 2) deals) m)
       (dbDoQueryHeroInfo (filter (\<lambda>r. c_account_id r = acc) chars))"

section \<open>What was packed is unpacked\<close>

definition pair32 :: "int \<times> int \<Rightarrow> bool" where
  "pair32 p \<longleftrightarrow> in32 (fst p) \<and> in32 (snd p)"

lemma pair_text_clean [simp]:
  "pair_text p \<noteq> []" "CHR '';'' \<notin> set (pair_text p)" "CHR '':'' \<notin> set (pair_text p)"
  by (simp_all add: pair_text_def)

lemma split_pair_text: "SplitStringA (pair_text p) '','' = [show_int (fst p), show_int (snd p)]"
  by (simp add: pair_text_def SplitStringA_char split_char_append split_char_single)

lemma read_pair_text: "pair32 p \<Longrightarrow> read_pair (pair_text p) = [p]"
  by (simp add: read_pair_def split_pair_text pair32_def atoi_show_int)

lemma read_creature_text: "pair32 p \<Longrightarrow> read_creature (pair_text p) = [p]"
  by (simp add: read_creature_def split_pair_text pair32_def atoi_show_int)

lemma read_grid_text: "in32 i \<Longrightarrow> read_grid (pair_text (i, if b then 1 else 0)) = [(i, b)]"
proof -
  assume "in32 i"
  moreover have "in32 1" by (simp add: in32_def)
  ultimately show ?thesis by (simp add: read_grid_def split_pair_text atoi_show_int)
qed

text \<open>The shape shared by all packed lists: items without the delimiter, joined, are split and read back.\<close>

lemma split_join_text: "(\<And>x. x \<in> set xs \<Longrightarrow> f x \<noteq> [] \<and> c \<notin> set (f x)) \<Longrightarrow> SplitStringA (join c (map f xs)) [c] = map f xs"
  by (simp add: SplitStringA_char split_char_join)

lemma concat_read_join:
  assumes "\<And>x. x \<in> set xs \<Longrightarrow> f x \<noteq> [] \<and> c \<notin> set (f x)" "\<And>x. x \<in> set xs \<Longrightarrow> rd (f x) = [g x]"
  shows "concat (map rd (SplitStringA (join c (map f xs)) [c])) = map g xs"
proof -
  have "concat (map (\<lambda>x. rd (f x)) xs) = map g xs" using assms(2) by (induction xs) auto
  then show ?thesis using split_join_text [of xs f c] assms(1) by (simp add: comp_def)
qed

lemma read_records_text: "\<forall>p \<in> set rs. pair32 p \<Longrightarrow> read_records (records_text rs) = rs"
  using concat_read_join [of rs pair_text "CHR '';''" read_pair id]
  by (simp add: read_records_def records_text_def read_pair_text)

lemma read_creatures_text: "\<forall>p \<in> set m. pair32 p \<Longrightarrow> read_creatures (creatures_text m) = m"
  using concat_read_join [of m pair_text "CHR '';''" read_creature id]
  by (simp add: read_creatures_def creatures_text_def read_creature_text)

lemma read_grids_text: "\<forall>(i, b) \<in> set gs. in32 i \<Longrightarrow> read_grids (grid_text gs) = gs"
  using concat_read_join [of gs "\<lambda>(i, b). pair_text (i, if b then 1 else 0)" "CHR '';''" read_grid id]
  by (fastforce simp: read_grids_def grid_text_def read_grid_text split: prod.splits)

lemma read_heroes_text: "read_heroes (heroes_text bs) = bs"
proof -
  have "in32 1" by (simp add: in32_def)
  then have "atoi (show_int (if b then 1 else 0)) \<noteq> 0 \<longleftrightarrow> b" for b by (simp add: atoi_show_int)
  then show ?thesis
    using split_join_text [of bs "\<lambda>b. show_int (if b then 1 else 0)" "CHR '';''"]
    by (simp add: read_heroes_def heroes_text_def comp_def)
qed

lemma read_lotions_text: "\<forall>l \<in> set ls. in32 l \<Longrightarrow> read_lotions (lotions_text ls) = ls"
  using split_join_text [of ls show_int "CHR '',''"]
  by (simp add: read_lotions_def lotions_text_def atoi_show_int map_idI)

definition task32 :: "MsgTaskInfo \<Rightarrow> bool" where
  "task32 t \<longleftrightarrow> in32 (taskid t) \<and> in32 (argument_1 t) \<and> in32 (usetime t)"

lemma read_task_text: "task32 t \<Longrightarrow> read_task (task_text t) = [t]"
  by (simp add: read_task_def task_text_def SplitStringA_char split_char_append split_char_single task32_def atoi_show_int)

lemma read_tasks_text: "\<forall>t \<in> set ts. task32 t \<Longrightarrow> read_tasks (tasks_text ts) = ts"
  using concat_read_join [of ts task_text "CHR '';''" read_task id]
  by (simp add: read_tasks_def tasks_text_def read_task_text) (simp add: task_text_def)

subsection \<open>Special kills\<close>

definition map_kill_text :: "(int \<times> int) \<times> MsgObjConfig list \<Rightarrow> string" where
  "map_kill_text e = pair_text (fst e) @ kills_text (snd e)"

lemma join_snoc: "join c (xs @ [y]) = (if xs = [] then y else join c xs @ c # y)"
  by (induction c xs rule: join.induct) (auto simp: neq_Nil_conv)

lemma join_Nil_iff: "\<forall>x \<in> set xs. x \<noteq> [] \<Longrightarrow> join c xs = [] \<longleftrightarrow> xs = []"
  by (induction c xs rule: join.induct) auto

lemma kills_text_Nil_iff [simp]: "kills_text ks = [] \<longleftrightarrow> ks = []"
  by (cases ks) (simp_all add: kills_text_def)

lemma special_kill_step_join:
  "foldl special_kill_step (join CHR '';'' (map map_kill_text xs)) m =
     join CHR '';'' (map map_kill_text (xs @ filter (\<lambda>e. snd e \<noteq> []) m))"
proof (induction m arbitrary: xs)
  case (Cons e m)
  have ne: "join CHR '';'' (map map_kill_text xs) = [] \<longleftrightarrow> xs = []"
    by (simp add: join_Nil_iff map_kill_text_def)
  have "special_kill_step (join CHR '';'' (map map_kill_text xs)) e =
      join CHR '';'' (map map_kill_text (if snd e \<noteq> [] then xs @ [e] else xs))"
    using ne by (auto simp: special_kill_step_def Let_def map_kill_text_def join_snoc)
  then show ?case using Cons.IH by simp
qed simp

lemma special_kill_text_join:
  "special_kill_text m = join CHR '';'' (map map_kill_text (filter (\<lambda>e. snd e \<noteq> []) m))"
  using special_kill_step_join [of "[]" m] by (simp add: special_kill_text_def)

lemma split_map_kill_text:
  "SplitStringA (pair_text p @ kills_text ks) '':'' = pair_text p # map (\<lambda>k. pair_text (obj_id k, obj_type k)) ks"
  unfolding SplitStringA_char
proof (induction ks arbitrary: p)
  case Nil
  then show ?case by (simp add: kills_text_def split_char_single)
next
  case (Cons k ks)
  have "pair_text p @ kills_text (k # ks) = pair_text p @ CHR '':'' # (pair_text (obj_id k, obj_type k) @ kills_text ks)"
    by (simp add: kills_text_def)
  then show ?case using Cons.IH by (simp add: split_char_append)
qed

definition kill32 :: "MsgObjConfig \<Rightarrow> bool" where
  "kill32 k \<longleftrightarrow> in32 (obj_id k) \<and> in32 (obj_type k)"

lemma read_kill_text: "kill32 k \<Longrightarrow> read_kill (pair_text (obj_id k, obj_type k)) = [k]"
  by (simp add: read_kill_def split_pair_text kill32_def atoi_show_int)

lemma read_kills_text:
  "\<forall>k \<in> set ks. kill32 k \<Longrightarrow> concat (map (\<lambda>k. read_kill (pair_text (obj_id k, obj_type k))) ks) = ks"
  by (induction ks) (simp_all add: read_kill_text)

lemma read_map_kills_text:
  "pair32 p \<Longrightarrow> ks \<noteq> [] \<Longrightarrow> \<forall>k \<in> set ks. kill32 k \<Longrightarrow>
   read_map_kills (map_kill_text (p, ks)) = [\<lparr>kill_chapter_id = fst p, kill_section_id = snd p, kills = ks\<rparr>]"
  using read_kills_text [of ks]
  by (cases ks) (simp_all add: read_map_kills_def map_kill_text_def split_map_kill_text split_pair_text pair32_def
      atoi_show_int comp_def)

lemma map_kill_text_clean: "map_kill_text e \<noteq> [] \<and> CHR '';'' \<notin> set (map_kill_text e)"
  by (auto simp: map_kill_text_def kills_text_def)

definition kill_message :: "(int \<times> int) \<times> MsgObjConfig list \<Rightarrow> MsgMapSpecialKill" where
  "kill_message e = \<lparr>kill_chapter_id = fst (fst e), kill_section_id = snd (fst e), kills = snd e\<rparr>"

lemma read_special_kills_text:
  "\<forall>(p, ks) \<in> set m. pair32 p \<and> (\<forall>k \<in> set ks. kill32 k) \<Longrightarrow>
   read_special_kills (special_kill_text m) = map kill_message (filter (\<lambda>e. snd e \<noteq> []) m)"
  unfolding read_special_kills_def special_kill_text_join
  by (rule concat_read_join) (auto simp: map_kill_text_clean read_map_kills_text kill_message_def)

section \<open>The row of a hero is read back\<close>

text \<open>Every number that is packed into a text column is an \<open>int\<close>.\<close>

definition hero_ints :: "DreamHero \<Rightarrow> bool" where
  "hero_ints h \<longleftrightarrow> (\<forall>p \<in> set (records (info h)). pair32 p) \<and> (\<forall>t \<in> set (tasks (info h)). task32 t) \<and>
     (\<forall>l \<in> set (lotions (info h)). in32 l) \<and> (\<forall>(i, b) \<in> set (grid_notify_state (info h)). in32 i) \<and>
     (\<forall>p \<in> set (special_creatures h). pair32 p) \<and>
     (\<forall>(p, ks) \<in> set (special_kills h). pair32 p \<and> (\<forall>k \<in> set ks. kill32 k))"

definition hero_message :: "DreamHero \<Rightarrow> MsgHeroDataDB2GS" where
  "hero_message h =
     \<lparr>db_account = account h, db_data = info h, db_current_chapter = current_chapter h,
      db_current_section = current_section h, db_free_task_count = current_task_count h,
      db_last_task_advertisement_time = last_task_advertisement_time h,
      db_special_kills = map kill_message (filter (\<lambda>e. snd e \<noteq> []) (special_kills h)), db_gm_level = gm_level h,
      db_deals = [], db_special_creatures = special_creatures h,
      db_last_recover_spirit_time = last_recover_spirit_time h, db_last_buy_spirit_time = last_buy_spirit_time h,
      db_last_lottery_time = last_day_lottery_time h, db_daily_game_time = daily_game_time h,
      db_daily_game_prize_time = daily_game_prize_time h,
      db_last_daily_reset_game_time = last_daily_reset_game_time h\<rparr>"

lemma load_saved_row: "hero_ints h \<Longrightarrow> dbDoQueryHeroInfo [save_row h] = Some (hero_message h)"
  by (simp add: hero_ints_def dbDoQueryHeroInfo_def save_row_def Let_def hero_message_def read_records_text
      read_heroes_text read_tasks_text read_lotions_text read_grids_text read_special_kills_text read_creatures_text)

text \<open>The table keeps one row per account (\<open>replace into\<close>).\<close>

definition replace_row :: "character_row \<Rightarrow> character_row list \<Rightarrow> character_row list" where
  "replace_row r rows = filter (\<lambda>x. c_account_id x \<noteq> c_account_id r) rows @ [r]"

lemma query_after_save:
  "hero_ints h \<Longrightarrow> queryHeroInfo (replace_row (save_row h) rows) deals (account h) =
     Some (dbDoQueryHeroDeals (filter (\<lambda>r. dr_account_id r = account h \<and> dr_complete_status r \<noteq> 2) deals) (hero_message h))"
proof -
  assume h: "hero_ints h"
  have acc: "c_account_id (save_row h) = account h" by (simp add: save_row_def Let_def)
  have "filter (\<lambda>r. c_account_id r = account h) (replace_row (save_row h) rows) = [save_row h]"
    by (simp add: replace_row_def acc filter_empty_conv)
  then show ?thesis using load_saved_row [OF h] by (simp add: queryHeroInfo_def hero_message_def)
qed

end
