(* ===== verification/Hero_Play.thy ===== *)
theory Hero_Play
  imports Hero_State
begin

text \<open>
  Playing maps, in \<open>gameserver/DreamHero.cpp\<close>: drawing, refreshing and giving up tasks, unlocking
  chapters, entering a map and leaving it with its rewards. The results of \<open>rand()\<close> are arguments.
\<close>

section \<open>Tasks\<close>

definition no_task :: MsgTaskConfigInfo where
  "no_task = \<lparr>config_taskid = 0, task_condition = [], require_time = 0, require_unlock_chapter = 0,
     require_unlock_section = 0, require_unlock_complete_task_count = 0, gift_gold = 0, difficulty = 0,
     task_describe = []\<rparr>"

definition section_passed :: "MsgIntPair list \<Rightarrow> int \<Rightarrow> int \<Rightarrow> bool" where
  "section_passed rs ch sec = (case find (\<lambda>r. fst r = ch) rs of None \<Rightarrow> False | Some r \<Rightarrow> sec \<le> snd r)"

definition task_available :: "DreamHero \<Rightarrow> int \<Rightarrow> MsgTaskConfigInfo \<Rightarrow> bool" where
  "task_available h give_up c \<longleftrightarrow>
     \<not> (\<exists>t \<in> set (tasks (info h)). taskid t = config_taskid c \<or> give_up = config_taskid c) \<and>
     require_unlock_complete_task_count c \<le> complete_task_count (info h) \<and>
     (require_unlock_chapter c \<noteq> 0 \<longrightarrow> section_passed (records (info h)) (require_unlock_chapter c) (require_unlock_section c))"

definition task_candidates :: "GameConfig \<Rightarrow> DreamHero \<Rightarrow> int \<Rightarrow> int list" where
  "task_candidates cfg h give_up = map config_taskid (filter (task_available h give_up) (map snd (cfg_tasks cfg)))"

definition RadnomTaskInfo :: "GameConfig \<Rightarrow> nat \<Rightarrow> int \<Rightarrow> DreamHero \<Rightarrow> MsgTaskConfigInfo" where
  "RadnomTaskInfo cfg r give_up h =
     (let vc = task_candidates cfg h give_up
      in if vc = [] then no_task
         else case getMapTask cfg (vc ! (r mod length vc)) of None \<Rightarrow> no_task | Some c \<Rightarrow> c)"

definition new_task :: "int \<Rightarrow> MsgTaskInfo" where
  "new_task i = \<lparr>taskid = i, argument_1 = 0, usetime = 0\<rparr>"

definition dayRefresh :: "GameConfig \<Rightarrow> int \<Rightarrow> nat \<Rightarrow> bool \<Rightarrow> DreamHero \<Rightarrow> handled" where
  "dayRefresh cfg now r need_send_msg h =
     (let can_Refresh_task = (last_task_advertisement_time h = 0 \<or> \<not> isInToday cfg now (last_task_advertisement_time h));
          h1 = (if can_Refresh_task then h\<lparr>current_task_count := 0\<rparr> else h);
          t = RadnomTaskInfo cfg r 0 h1;
          add = (can_Refresh_task \<and> int (length (tasks (info h))) < hero_max_tasks_count (cfg_global cfg) \<and> config_taskid t \<noteq> 0);
          h2 = (if add then set_tasks (tasks (info h1) @ [new_task (config_taskid t)]) h1 else h1);
          effs = (if add \<and> need_send_msg then sendPBMessage h (MsgS2CNewTaskNotify t) else []);
          can_Refresh_spirit = (last_buy_spirit_time h = 0 \<or> \<not> isInToday cfg now (last_buy_spirit_time h));
          h3 = (if can_Refresh_spirit then h2\<lparr>info := (info h2)\<lparr>day_buy_spirit := 0\<rparr>\<rparr> else h2)
      in (h3, effs))"

definition refresh_error :: "GameConfig \<Rightarrow> int \<Rightarrow> bool \<Rightarrow> DreamHero \<Rightarrow> GameError" where
  "refresh_error cfg now use_gold h =
     (if gold (info h) < refresh_task_gold (cfg_global cfg) \<and> use_gold
      then Error_RefreshAdvertisementTaskFailedNotEnoughGold
      else if day_free_task_count (cfg_global cfg) < current_task_count h
      then if now - last_task_advertisement_time h < day_task_advertisement_task_cd (cfg_global cfg)
           then Error_RefreshAdvertisementTaskFailedInCD else Error_NO
      else Error_NO)"

text \<open>The block that gives up a task and counts the refresh.\<close>

definition refresh_prepare :: "GameConfig \<Rightarrow> int \<Rightarrow> int \<Rightarrow> DreamHero \<Rightarrow> DreamHero \<times> GameError" where
  "refresh_prepare cfg now give_up h =
     (if give_up \<noteq> 0 \<and> \<not> (\<exists>t \<in> set (tasks (info h)). taskid t = give_up)
      then (h, Error_RefreshAdvertisementTaskFailedNotFoundGiveUpTaskID)
      else
        let h1 = (if give_up \<noteq> 0 then set_tasks (erase_first (\<lambda>t. taskid t = give_up) (tasks (info h))) h else h)
        in if int (length (tasks (info h1))) \<le> hero_max_tasks_count (cfg_global cfg) - 1
           then (h1\<lparr>current_task_count := wrap32 (current_task_count h1 + 1), last_task_advertisement_time := wrap_u32 now\<rparr>, Error_NO)
           else (h1, Error_RefreshAdvertisementTaskFailedUnknow))"

definition RefreshTask :: "GameConfig \<Rightarrow> int \<Rightarrow> nat \<Rightarrow> int \<Rightarrow> bool \<Rightarrow> DreamHero \<Rightarrow> handled" where
  "RefreshTask cfg now r give_up use_gold h =
     (let e0 = refresh_error cfg now use_gold h;
          (h1, err) = (if e0 = Error_NO then refresh_prepare cfg now give_up h else (h, e0));
          t = RadnomTaskInfo cfg r give_up h1;
          have_task = (config_taskid t \<noteq> 0 \<and> err = Error_NO);
          h2 = (if have_task then set_tasks (tasks (info h1) @ [new_task (config_taskid t)]) h1 else h1);
          nm = hero_name (info h);
          refresh_gold = (if use_gold then refresh_task_gold (cfg_global cfg) else 0);
          current_gold = (if have_task then wrap32 (gold (info h) - refresh_task_gold (cfg_global cfg)) else gold (info h));
          h3 = (if have_task then set_gold current_gold h2 else h2);
          paid = (if have_task
                  then recs (goldModifyRecord now (account h) nm (wrap32 (- refresh_gold)) current_gold GoldModify_AcceptTask @
                             taskAccepteRecordRecord now (account h) nm refresh_gold current_gold (config_taskid t))
                  else []);
          infos = (if have_task then [t] else []);
          answer = (if give_up \<noteq> 0
                    then recs (taskGiveUpRecord now (account h) nm give_up) @
                         sendPBMessage h (MsgS2CAdvertisementRefreshTaskACK give_up err infos current_gold)
                    else sendPBMessage h (MsgS2CAdvertisementApplyTaskACK err infos current_gold))
      in (h3, paid @ answer))"

definition ReqAdvertisementApplyTask :: "GameConfig \<Rightarrow> int \<Rightarrow> nat \<Rightarrow> bool \<Rightarrow> DreamHero \<Rightarrow> handled" where
  "ReqAdvertisementApplyTask cfg now r use_gold h = RefreshTask cfg now r 0 use_gold h"

definition ReqAdvertisementRefreshTask :: "GameConfig \<Rightarrow> int \<Rightarrow> nat \<Rightarrow> int \<Rightarrow> bool \<Rightarrow> DreamHero \<Rightarrow> handled" where
  "ReqAdvertisementRefreshTask cfg now r give_up use_gold h = RefreshTask cfg now r give_up use_gold h"

definition ReqModifyTaskCompleteCount :: "int \<Rightarrow> DreamHero \<Rightarrow> handled" where
  "ReqModifyTaskCompleteCount count h =
     (let c = (if count < 0 then 0 else count);
          h1 = h\<lparr>info := (info h)\<lparr>complete_task_count := c\<rparr>\<rparr>
      in (h1, sendPBMessage h1 (MsgS2CCmdModifyTaskCompleteCountACK c)))"

text \<open>The loop of \<open>ReqReplaceTask\<close>; the \<open>i\<close>-th round uses the random number \<open>rs i\<close>. The loop
  variable is a \<open>size_t\<close>, so a negative count is compared as its value modulo \<open>2 ^ 64\<close>.\<close>

fun replace_loop :: "GameConfig \<Rightarrow> (nat \<Rightarrow> nat) \<Rightarrow> nat \<Rightarrow> nat \<Rightarrow> DreamHero \<Rightarrow> DreamHero \<times> MsgTaskConfigInfo list" where
  "replace_loop cfg rs i 0 h = (h, [])"
| "replace_loop cfg rs i (Suc n) h =
     (let t = RadnomTaskInfo cfg (rs i) 0 h
      in if config_taskid t \<noteq> 0
         then let (h', ts) = replace_loop cfg rs (Suc i) n (set_tasks (tasks (info h) @ [new_task (config_taskid t)]) h)
              in (h', t # ts)
         else replace_loop cfg rs (Suc i) n h)"

definition ReqReplaceTask :: "GameConfig \<Rightarrow> (nat \<Rightarrow> nat) \<Rightarrow> int \<Rightarrow> DreamHero \<Rightarrow> handled" where
  "ReqReplaceTask cfg rs count h =
     (let c = (if hero_max_tasks_count (cfg_global cfg) < count then hero_max_tasks_count (cfg_global cfg) else count);
          (h1, ts) = replace_loop cfg rs 0 (nat (c mod 18446744073709551616)) (set_tasks [] h)
      in (h1, sendPBMessage h (MsgS2CCmdReplaceTaskACK Error_NO ts)))"

section \<open>Unlocking a chapter\<close>

text \<open>The scan of the records: \<open>None\<close> is the early return when the chapter is there already.\<close>

fun unlock_scan :: "int \<Rightarrow> MsgChapterConfigInfo \<Rightarrow> MsgIntPair list \<Rightarrow> GameError \<Rightarrow> GameError option" where
  "unlock_scan ch c [] e = Some e"
| "unlock_scan ch c ((a, b) # rs) e =
     (if a = ch then None
      else unlock_scan ch c rs
             (if required_chapter_id c = a \<and> required_section_id c \<le> b then Error_NO else e))"

definition ReqUnlockChapter :: "GameConfig \<Rightarrow> int \<Rightarrow> int \<Rightarrow> DreamHero \<Rightarrow> handled" where
  "ReqUnlockChapter cfg now ch h =
     (let g = gold (info h);
          ack = (\<lambda>cur err. sendPBMessage h (MsgS2CUnlockChapterACK ch cur err))
      in case getChapterConfigInfo cfg ch of
           None \<Rightarrow> (h, ack g Error_UnlockChapterFailedNotFoundTheUnlockChapter)
         | Some c \<Rightarrow>
             if complete_task_count (info h) < required_task_complete_count c
             then (h, ack g Error_UnlockChapterFailedYouHaveToCompleteEnoughTasks)
             else
               (case unlock_scan ch c (records (info h)) Error_UnlockChapterFailedTheRequiredSectionNotPass of
                  None \<Rightarrow> (h, [])
                | Some err \<Rightarrow>
                    if err = Error_NO
                    then let rest = wrap32 (g - require_gold c)
                         in if rest < 0 then (h, ack g Error_UnlockChapterFailedYouNotHaveEnoughGold)
                            else (h\<lparr>info := (info h)\<lparr>records := records (info h) @ [(ch, 0)], gold := rest\<rparr>\<rparr>,
                                  recs (chapterUnlockRecord now (account h) (hero_name (info h)) ch (wrap32 (g - rest)) rest) @
                                  ack rest Error_NO)
                    else (h, ack g err)))"

section \<open>Entering a map\<close>

definition drop_boxes :: "GameConfig \<Rightarrow> MsgDropBoxConfig list" where
  "drop_boxes cfg = concat (map (\<lambda>(ty, m). map (\<lambda>(i, b).
     \<lparr>box_obj = \<lparr>obj_type = drop_type b, obj_id = drop_obj_id b\<rparr>, box_base_gold = base_gold b,
      box_random_gold = random_gold b\<rparr>) m) (cfg_drop_box cfg))"

definition EnterGame :: "GameConfig \<Rightarrow> int \<Rightarrow> int \<Rightarrow> int \<Rightarrow> bool \<Rightarrow> DreamHero \<Rightarrow> handled" where
  "EnterGame cfg now ch sec admin h =
     (let use_spirit = config_enter_game_use_spirit (cfg_global cfg);
          err = (if admin then Error_NO
                 else if ch = -1 \<and> sec = -1 then Error_NO
                 else if use_spirit \<noteq> 0 \<and> spirit (info h) < use_spirit then Error_CanNotEnterGameNotEnoughSpirit
                 else Error_NO)
      in if err = Error_NO
         then let kl = (case map_find (ch, sec) (special_kills h) of None \<Rightarrow> [] | Some k \<Rightarrow> k);
                  sp = (let s = wrap32 (spirit (info h) - use_spirit) in if s < 0 then 0 else s);
                  h1 = (set_spirit sp h)\<lparr>current_chapter := ch, current_section := sec\<rparr>
              in (h1, recs (enterGameRecord now (account h) (hero_name (info h)) ch sec (gold (info h))) @
                      sendPBMessage h1 (MsgS2CEnterGameACK ch sec (drop_boxes cfg) kl err sp))
         else (h, sendPBMessage h (MsgS2CEnterGameACK ch sec [] [] err (spirit (info h)))))"

definition ReqEnterGame :: "GameConfig \<Rightarrow> int \<Rightarrow> int \<Rightarrow> int \<Rightarrow> DreamHero \<Rightarrow> handled" where
  "ReqEnterGame cfg now ch sec h = EnterGame cfg now ch sec False h"

section \<open>Leaving a map\<close>

fun check_lotions :: "int list \<Rightarrow> int list \<Rightarrow> GameError" where
  "check_lotions vc [] = Error_NO"
| "check_lotions vc (u # us) =
     (if vc = [] then Error_FailedExitGameNotFoundTheUseLotion
      else if u \<notin> set vc then Error_FailedExitGameNotFoundTheUseLotion
      else check_lotions vc us)"

definition update_tasks :: "MsgTaskInfo list \<Rightarrow> MsgTaskInfo list \<Rightarrow> MsgTaskInfo list" where
  "update_tasks reported ts = fold (\<lambda>e. update_first (\<lambda>t. taskid t = taskid e) (\<lambda>_. e)) reported ts"

record exit_progress =
  ex_tasks :: "MsgTaskInfo list"
  ex_count :: int
  ex_gold :: int
  ex_gifts :: "MsgIntPair list"
  ex_records :: pushes

text \<open>One round of the loop over the completed tasks.\<close>

definition complete_task :: "GameConfig \<Rightarrow> int \<Rightarrow> DreamHero \<Rightarrow> int \<Rightarrow> exit_progress \<Rightarrow> exit_progress" where
  "complete_task cfg now h i x =
     (case getMapTask cfg i of
        None \<Rightarrow> x\<lparr>ex_gifts := ex_gifts x @ [(i, 0)]\<rparr>
      | Some c \<Rightarrow>
          if \<exists>t \<in> set (ex_tasks x). taskid t = i
          then let all_gold = wrap32 (ex_gold x + gift_gold c)
               in x\<lparr>ex_tasks := erase_first (\<lambda>t. taskid t = i) (ex_tasks x), ex_count := wrap32 (ex_count x + 1),
                    ex_gold := all_gold, ex_gifts := ex_gifts x @ [(i, gift_gold c)],
                    ex_records := ex_records x @
                      taskCompleteRecord now (account h) (hero_name (info h)) (current_chapter h) (current_section h) i
                        (gift_gold c) (wrap32 (all_gold + gold (info h)))\<rparr>
          else x\<lparr>ex_gifts := ex_gifts x @ [(i, 0)]\<rparr>)"

definition pass_section :: "int \<Rightarrow> int \<Rightarrow> MsgIntPair list \<Rightarrow> MsgIntPair list" where
  "pass_section ch sec rs = map (\<lambda>(a, b). if a = ch \<and> sec = b + 1 then (a, sec) else (a, b)) rs"

fun add_kills :: "MsgObjConfig list \<Rightarrow> MsgObjConfig list \<Rightarrow> MsgObjConfig list" where
  "add_kills [] ks = ks"
| "add_kills (k # new) ks =
     (if \<exists>x \<in> set ks. obj_id x = obj_id k \<and> obj_type x = obj_type k then add_kills new ks
      else add_kills new (ks @ [k]))"

text \<open>The answer when the request is refused.\<close>

definition exit_refused :: "MsgC2SReqExitGame \<Rightarrow> GameError \<Rightarrow> DreamHero \<Rightarrow> handled" where
  "exit_refused msg err h =
     (let h1 = h\<lparr>current_chapter := -1, current_section := -1\<rparr>
      in (h1, sendPBMessage h1 (MsgS2CExitGameACK_msg
           \<lparr>ack_chapter_id = exit_chapter_id msg, ack_section_id = exit_section_id msg, ack_task_infos = [],
            ack_current_gold = 0, ack_task_gift = [], ack_success = exit_success msg,
            ack_complete_task_count = complete_task_count (info h), ack_error = err,
            ack_special_creatures = special_creatures h, ack_current_lotions = []\<rparr>)))"

definition exit_accepted :: "GameConfig \<Rightarrow> int \<Rightarrow> MsgC2SReqExitGame \<Rightarrow> DreamHero \<Rightarrow> handled" where
  "exit_accepted cfg now msg h =
     (let d = info h;
          ls = (if exit_use_lotions msg \<noteq> [] then filter (\<lambda>l. l \<notin> set (exit_use_lotions msg)) (lotions d) else lotions d);
          x = fold (complete_task cfg now h) (exit_complete_tasks msg)
                \<lparr>ex_tasks = update_tasks (exit_task_infos msg) (tasks d), ex_count = complete_task_count d,
                 ex_gold = 0, ex_gifts = [], ex_records = []\<rparr>;
          g0 = (if gold d < 0 then 0 else gold d);
          g = fold (\<lambda>p a. wrap32 (a + snd p)) (ex_gifts x) (wrap32 (g0 + exit_gold msg));
          rs = (if exit_success msg then pass_section (exit_chapter_id msg) (exit_section_id msg) (records d) else records d);
          k = (current_chapter h, current_section h);
          kills = map_assign k (add_kills (exit_special_kill_list msg) (map_index [] k (special_kills h))) (special_kills h);
          creatures = fold (\<lambda>(a, b). map_assign a b) (exit_special_creatures msg) (special_creatures h);
          d1 = d\<lparr>lotions := ls, tasks := ex_tasks x, records := rs, gold := g, complete_task_count := ex_count x\<rparr>;
          diff = wrap32 (g - gold d);
          h1 = h\<lparr>info := d1, special_kills := kills, special_creatures := creatures, current_chapter := -1, current_section := -1\<rparr>;
          nm = hero_name d
      in (h1,
          recs (ex_records x @
            leaveGameRecord now (account h) nm (current_chapter h) (current_section h) (exit_success msg) diff g @
            goldModifyRecord now (account h) nm (wrap32 (diff - ex_gold x)) (wrap32 (g - ex_gold x)) GoldModify_KillMonster @
            goldModifyRecord now (account h) nm (ex_gold x) g GoldModify_CompleteTask @
            goldModifyRecord now (account h) nm diff g GoldModify_LeaveGame) @
          sendPBMessage h1 (MsgS2CExitGameACK_msg
           \<lparr>ack_chapter_id = exit_chapter_id msg, ack_section_id = exit_section_id msg, ack_task_infos = ex_tasks x,
            ack_current_gold = g, ack_task_gift = ex_gifts x, ack_success = exit_success msg,
            ack_complete_task_count = ex_count x, ack_error = Error_NO,
            ack_special_creatures = creatures, ack_current_lotions = ls\<rparr>)))"

definition ReqExitGame :: "GameConfig \<Rightarrow> int \<Rightarrow> MsgC2SReqExitGame \<Rightarrow> DreamHero \<Rightarrow> handled" where
  "ReqExitGame cfg now msg h =
     (if exit_chapter_id msg = -1 \<and> exit_section_id msg = -1 \<or> exit_chapter_id msg \<noteq> current_chapter h \<or>
         exit_section_id msg \<noteq> current_section h
      then exit_refused msg Error_NotEnterTheExitGame h
      else
        let err = check_lotions (lotions (info h)) (exit_use_lotions msg)
        in if err = Error_NO then exit_accepted cfg now msg h else exit_refused msg err h)"

section \<open>Drawing a task\<close>

lemma getMapTask_id: "config_tasks_ok cfg \<Longrightarrow> getMapTask cfg i = Some c \<Longrightarrow> config_taskid c = i"
  by (auto simp: config_tasks_ok_def getMapTask_def dest!: map_find_Some_in)

lemma task_candidates_available:
  "i \<in> set (task_candidates cfg h give_up) \<Longrightarrow>
   \<exists>c. config_taskid c = i \<and> c \<in> snd ` set (cfg_tasks cfg) \<and> task_available h give_up c"
  by (auto simp: task_candidates_def)

lemma RadnomTaskInfo_cases:
  assumes "config_tasks_ok cfg"
  shows "config_taskid (RadnomTaskInfo cfg r give_up h) = 0 \<or>
    getMapTask cfg (config_taskid (RadnomTaskInfo cfg r give_up h)) = Some (RadnomTaskInfo cfg r give_up h) \<and>
    task_available h give_up (RadnomTaskInfo cfg r give_up h)"
proof (cases "task_candidates cfg h give_up = []")
  case True
  then show ?thesis by (simp add: RadnomTaskInfo_def no_task_def)
next
  case False
  let ?vc = "task_candidates cfg h give_up"
  have "?vc ! (r mod length ?vc) \<in> set ?vc" using False by simp
  then obtain c where c: "config_taskid c = ?vc ! (r mod length ?vc)" "c \<in> snd ` set (cfg_tasks cfg)" "task_available h give_up c"
    using task_candidates_available by blast
  then have "(config_taskid c, c) \<in> set (cfg_tasks cfg)" using assms by (auto simp: config_tasks_ok_def)
  then have "getMapTask cfg (config_taskid c) = Some c"
    using assms map_find_in by (auto simp: getMapTask_def config_tasks_ok_def)
  then show ?thesis using False c by (simp add: RadnomTaskInfo_def Let_def)
qed

lemma RadnomTaskInfo_new:
  "config_tasks_ok cfg \<Longrightarrow> config_taskid (RadnomTaskInfo cfg r give_up h) \<noteq> 0 \<Longrightarrow>
   config_taskid (RadnomTaskInfo cfg r give_up h) \<notin> taskid ` set (tasks (info h))"
  using RadnomTaskInfo_cases [of cfg r give_up h] by (auto simp: task_available_def)

lemma tasks_ok_add:
  "tasks_ok ts \<Longrightarrow> i \<noteq> 0 \<Longrightarrow> i \<notin> taskid ` set ts \<Longrightarrow> tasks_ok (ts @ [new_task i])"
  by (auto simp: tasks_ok_def new_task_def)

lemma tasks_ok_erase: "tasks_ok ts \<Longrightarrow> tasks_ok (erase_first P ts)"
  using set_erase_first_subset [of P ts] by (auto simp: tasks_ok_def distinct_map_erase_first)

lemma hero_wf_add_task:
  "hero_wf h \<Longrightarrow> config_tasks_ok cfg \<Longrightarrow> config_taskid (RadnomTaskInfo cfg r give_up h) \<noteq> 0 \<Longrightarrow>
   hero_wf (set_tasks (tasks (info h) @ [new_task (config_taskid (RadnomTaskInfo cfg r give_up h))]) h)"
  by (rule hero_wf_tasks) (simp_all add: hero_wf_parts tasks_ok_add RadnomTaskInfo_new)

lemma hero_wf_counters [simp]:
  "hero_wf (h\<lparr>current_task_count := a\<rparr>) = hero_wf h"
  "hero_wf (h\<lparr>last_task_advertisement_time := b\<rparr>) = hero_wf h"
  "hero_wf (h\<lparr>current_chapter := a\<rparr>) = hero_wf h"
  "hero_wf (h\<lparr>current_section := a\<rparr>) = hero_wf h"
  "hero_wf (h\<lparr>info := (info h)\<lparr>day_buy_spirit := a\<rparr>\<rparr>) = hero_wf h"
  "hero_wf (h\<lparr>info := (info h)\<lparr>complete_task_count := a\<rparr>\<rparr>) = hero_wf h"
  by (simp_all add: hero_ok_defs)

lemma RadnomTaskInfo_info_only:
  "info h' = info h \<Longrightarrow> RadnomTaskInfo cfg r give_up h' = RadnomTaskInfo cfg r give_up h"
  by (simp add: RadnomTaskInfo_def task_candidates_def task_available_def [abs_def])

lemma dayRefresh_wf [hero_wf_intros]:
  "hero_wf h \<Longrightarrow> config_tasks_ok cfg \<Longrightarrow> hero_wf (fst (dayRefresh cfg now r b h))"
  using hero_wf_add_task [of h cfg r 0] RadnomTaskInfo_info_only [of "h\<lparr>current_task_count := 0\<rparr>" h cfg r 0]
  by (auto simp: dayRefresh_def Let_def hero_ok_defs)

lemma refresh_prepare_wf: "hero_wf h \<Longrightarrow> hero_wf (fst (refresh_prepare cfg now give_up h))"
  by (auto simp: refresh_prepare_def Let_def hero_wf_parts tasks_ok_erase)

lemma RefreshTask_wf [hero_wf_intros]:
  assumes "hero_wf h" "config_tasks_ok cfg"
  shows "hero_wf (fst (RefreshTask cfg now r give_up use_gold h))"
proof -
  obtain h1 err where p: "(if refresh_error cfg now use_gold h = Error_NO then refresh_prepare cfg now give_up h
      else (h, refresh_error cfg now use_gold h)) = (h1, err)" by (cases "refresh_error cfg now use_gold h = Error_NO") fastforce+
  then have wf1: "hero_wf h1" using assms(1) refresh_prepare_wf [of h cfg now give_up] by (auto split: if_splits)
  show ?thesis
    using wf1 hero_wf_add_task [OF wf1 assms(2), of r give_up]
    by (auto simp: RefreshTask_def Let_def p hero_ok_defs)
qed

lemma replace_loop_wf: "hero_wf h \<Longrightarrow> config_tasks_ok cfg \<Longrightarrow> hero_wf (fst (replace_loop cfg rs i n h))"
  by (induction cfg rs i n h rule: replace_loop.induct) (auto simp: Let_def hero_wf_add_task split: prod.splits)

lemma ReqReplaceTask_wf [hero_wf_intros]:
  "hero_wf h \<Longrightarrow> config_tasks_ok cfg \<Longrightarrow> hero_wf (fst (ReqReplaceTask cfg rs count h))"
  by (simp add: ReqReplaceTask_def Let_def case_prod_beta replace_loop_wf tasks_ok_def)

lemma ReqModifyTaskCompleteCount_wf [hero_wf_intros]: "hero_wf h \<Longrightarrow> hero_wf (fst (ReqModifyTaskCompleteCount c h))"
  by (simp add: ReqModifyTaskCompleteCount_def Let_def)

section \<open>Chapters and maps keep the hero well-formed\<close>

lemma unlock_scan_None: "unlock_scan ch c rs e = None \<longleftrightarrow> ch \<in> fst ` set rs"
  by (induction ch c rs e rule: unlock_scan.induct) auto

lemma unlock_scan_SomeD: "unlock_scan ch c rs e = Some e' \<Longrightarrow> (ch, b) \<notin> set rs"
  using unlock_scan_None [of ch c rs e] by force

lemma unlock_scan_Some:
  "ch \<notin> fst ` set rs \<Longrightarrow> unlock_scan ch c rs e =
     Some (if \<exists>b. (required_chapter_id c, b) \<in> set rs \<and> required_section_id c \<le> b then Error_NO else e)"
  by (induction ch c rs e rule: unlock_scan.induct) auto

lemma ReqUnlockChapter_wf [hero_wf_intros]: "hero_wf h \<Longrightarrow> hero_wf (fst (ReqUnlockChapter cfg now ch h))"
  by (auto simp: ReqUnlockChapter_def Let_def hero_ok_defs records_ok_def dest: unlock_scan_SomeD split: option.splits)

lemma EnterGame_wf [hero_wf_intros]: "hero_wf h \<Longrightarrow> hero_wf (fst (EnterGame cfg now ch sec admin h))"
  by (simp add: EnterGame_def Let_def)

lemma update_task_id: "map taskid (update_first (\<lambda>t. taskid t = taskid e) (\<lambda>_. e) ts) = map taskid ts"
  by (induction ts) auto

lemma update_tasks_id: "map taskid (update_tasks rep ts) = map taskid ts"
  unfolding update_tasks_def by (induction rep arbitrary: ts) (simp_all add: update_task_id)

lemma update_tasks_ok: "tasks_ok ts \<Longrightarrow> tasks_ok (update_tasks rep ts)"
  using update_tasks_id [of rep ts] by (simp add: tasks_ok_def) (metis list.set_map)

lemma complete_tasks_ok:
  "tasks_ok (ex_tasks x) \<Longrightarrow> tasks_ok (ex_tasks (fold (complete_task cfg now h) is x))"
  by (induction "is" arbitrary: x) (auto simp: complete_task_def Let_def tasks_ok_erase split: option.splits)

lemma pass_section_fst: "map fst (pass_section ch sec rs) = map fst rs"
  by (induction rs) (auto simp: pass_section_def)

lemma fold_wrap32 [simp]: "in32 a \<Longrightarrow> in32 (fold (\<lambda>p a. wrap32 (a + f p)) xs a)"
  by (induction xs arbitrary: a) auto

lemma exit_accepted_wf: "hero_wf h \<Longrightarrow> hero_wf (fst (exit_accepted cfg now msg h))"
proof -
  assume wf: "hero_wf h"
  define x where "x = fold (complete_task cfg now h) (exit_complete_tasks msg)
    \<lparr>ex_tasks = update_tasks (exit_task_infos msg) (tasks (info h)), ex_count = complete_task_count (info h),
     ex_gold = 0, ex_gifts = [], ex_records = []\<rparr>"
  have tx: "tasks_ok (ex_tasks x)"
    unfolding x_def by (rule complete_tasks_ok) (simp add: update_tasks_ok hero_wf_parts [OF wf])
  have cr: "map_wf (fold (\<lambda>(a, b). map_assign a b) (exit_special_creatures msg) (special_creatures h))"
    by (rule amap.invar_fold_assign) (rule hero_wf_parts(8) [OF wf])
  have ls: "lotions_ok (filter P (lotions (info h)))" for P
    using hero_wf_parts(2) [OF wf] by (auto simp: lotions_ok_def)
  have rs: "records_ok (pass_section ch sec (records (info h)))" for ch sec
    using hero_wf_parts(3) [OF wf] by (simp add: records_ok_def pass_section_fst)
  show ?thesis
    using wf tx cr ls rs
    by (simp add: exit_accepted_def Let_def x_def [symmetric] hero_ok_defs map_wf_assign)
qed

lemma ReqExitGame_wf [hero_wf_intros]: "hero_wf h \<Longrightarrow> hero_wf (fst (ReqExitGame cfg now msg h))"
  by (simp add: ReqExitGame_def Let_def exit_accepted_wf exit_refused_def)

section \<open>The rewards of a map\<close>

definition task_gift :: "GameConfig \<Rightarrow> int \<Rightarrow> int" where
  "task_gift cfg i = (case getMapTask cfg i of None \<Rightarrow> 0 | Some c \<Rightarrow> gift_gold c)"

text \<open>The tasks that a completion list pays for: those the hero holds and the configuration knows.\<close>

definition paid_tasks :: "GameConfig \<Rightarrow> int list \<Rightarrow> MsgTaskInfo list \<Rightarrow> int set" where
  "paid_tasks cfg is ts = {i \<in> set is. i \<in> taskid ` set ts \<and> getMapTask cfg i \<noteq> None}"

lemma finite_paid [simp]: "finite (paid_tasks cfg is ts)"
  by (simp add: paid_tasks_def)

lemma erase_first_ids:
  "distinct (map taskid ts) \<Longrightarrow> taskid ` set (erase_first (\<lambda>t. taskid t = i) ts) = taskid ` set ts - {i}"
  by (induction ts) (auto simp: image_iff)

lemma paid_Cons_paid:
  "distinct (map taskid ts) \<Longrightarrow> i \<in> taskid ` set ts \<Longrightarrow> getMapTask cfg i \<noteq> None \<Longrightarrow>
   paid_tasks cfg (i # is) ts = insert i (paid_tasks cfg is (erase_first (\<lambda>t. taskid t = i) ts)) \<and>
   i \<notin> paid_tasks cfg is (erase_first (\<lambda>t. taskid t = i) ts)"
  by (auto simp: paid_tasks_def erase_first_ids)

lemma paid_Cons_skip:
  "i \<notin> taskid ` set ts \<or> getMapTask cfg i = None \<Longrightarrow> paid_tasks cfg (i # is) ts = paid_tasks cfg is ts"
  by (auto simp: paid_tasks_def)

lemma ex_has_task: "(\<exists>t \<in> set ts. taskid t = i) \<longleftrightarrow> i \<in> taskid ` set ts"
  by auto

lemma complete_tasks_gifts:
  "distinct (map taskid (ex_tasks x)) \<Longrightarrow>
   sum_list (map snd (ex_gifts (fold (complete_task cfg now h) is x))) =
     sum_list (map snd (ex_gifts x)) + (\<Sum>i \<in> paid_tasks cfg is (ex_tasks x). task_gift cfg i)"
proof (induction "is" arbitrary: x)
  case Nil
  then show ?case by (simp add: paid_tasks_def)
next
  case (Cons i "is")
  show ?case
  proof (cases "i \<in> taskid ` set (ex_tasks x) \<and> getMapTask cfg i \<noteq> None")
    case True
    then obtain c where c: "getMapTask cfg i = Some c" by auto
    note paid = paid_Cons_paid [OF Cons.prems, of i cfg "is"]
    have "distinct (map taskid (ex_tasks (complete_task cfg now h i x)))"
      using True c Cons.prems by (simp add: complete_task_def ex_has_task Let_def distinct_map_erase_first)
    then show ?thesis
      using Cons.IH [of "complete_task cfg now h i x"] True c paid
      by (simp add: complete_task_def ex_has_task Let_def task_gift_def)
  next
    case False
    then have "complete_task cfg now h i x = x\<lparr>ex_gifts := ex_gifts x @ [(i, 0)]\<rparr>"
      by (auto simp: complete_task_def split: option.splits)
    then show ?thesis
      using Cons.IH [of "complete_task cfg now h i x"] Cons.prems False paid_Cons_skip [of i "ex_tasks x" cfg "is"] by simp
  qed
qed

lemma fold_gifts: "fold (\<lambda>p a. wrap32 (a + snd p)) gs (wrap32 a) = wrap32 (a + sum_list (map snd gs))"
  by (induction gs arbitrary: a) (simp_all add: wrap32_add_left algebra_simps)

definition exit_allowed :: "MsgC2SReqExitGame \<Rightarrow> DreamHero \<Rightarrow> bool" where
  "exit_allowed msg h \<longleftrightarrow> \<not> (exit_chapter_id msg = -1 \<and> exit_section_id msg = -1) \<and>
     exit_chapter_id msg = current_chapter h \<and> exit_section_id msg = current_section h \<and>
     set (exit_use_lotions msg) \<subseteq> set (lotions (info h))"

lemma check_lotions_iff: "check_lotions vc us = Error_NO \<longleftrightarrow> set us \<subseteq> set vc"
  by (induction vc us rule: check_lotions.induct) auto

lemma ReqExitGame_cases:
  "\<exists>err. ReqExitGame cfg now msg h = (if exit_allowed msg h then exit_accepted cfg now msg h else exit_refused msg err h) \<and>
     (\<not> exit_allowed msg h \<longrightarrow> err \<noteq> Error_NO)"
proof (cases "exit_allowed msg h")
  case True
  then show ?thesis
    using check_lotions_iff [of "lotions (info h)" "exit_use_lotions msg"]
    by (auto simp: ReqExitGame_def exit_allowed_def)
next
  case False
  then show ?thesis
    using check_lotions_iff [of "lotions (info h)" "exit_use_lotions msg"]
    by (cases "check_lotions (lotions (info h)) (exit_use_lotions msg) = Error_NO")
      (auto simp: ReqExitGame_def exit_allowed_def Let_def)
qed

lemma exit_accepted_info:
  "gold (info (fst (exit_accepted cfg now msg h))) =
     wrap32 ((if gold (info h) < 0 then 0 else gold (info h)) + exit_gold msg +
       (\<Sum>i \<in> paid_tasks cfg (exit_complete_tasks msg) (tasks (info h)). task_gift cfg i))"
  "lotions (info (fst (exit_accepted cfg now msg h))) = filter (\<lambda>l. l \<notin> set (exit_use_lotions msg)) (lotions (info h))"
  "current_chapter (fst (exit_accepted cfg now msg h)) = -1"
  "current_section (fst (exit_accepted cfg now msg h)) = -1"
  if "tasks_ok (tasks (info h))"
proof -
  let ?ts = "update_tasks (exit_task_infos msg) (tasks (info h))"
  have d: "distinct (map taskid ?ts)" using that by (simp add: tasks_ok_def update_tasks_id)
  have "taskid ` set ?ts = taskid ` set (tasks (info h))" by (metis list.set_map update_tasks_id)
  then have paid: "paid_tasks cfg is ?ts = paid_tasks cfg is (tasks (info h))" for "is" by (simp add: paid_tasks_def)
  show "gold (info (fst (exit_accepted cfg now msg h))) =
     wrap32 ((if gold (info h) < 0 then 0 else gold (info h)) + exit_gold msg +
       (\<Sum>i \<in> paid_tasks cfg (exit_complete_tasks msg) (tasks (info h)). task_gift cfg i))"
    using d by (simp add: exit_accepted_def Let_def fold_gifts complete_tasks_gifts paid)
qed (simp_all add: exit_accepted_def Let_def)

section \<open>Properties\<close>


text \<open>
  C9. The gold after an accepted \<open>ReqExitGame\<close> is the gold before (a debt counts as zero) plus the gold
  the client reports plus the gift of every reported task that the hero holds and the configuration
  knows, each counted once however often it is reported; the used lotions, and only those, are gone.
\<close>

theorem exit_game_rewards:
  assumes "hero_wf h" "exit_allowed msg h"
  shows "gold (info (fst (ReqExitGame cfg now msg h))) =
       wrap32 (max 0 (gold (info h)) + exit_gold msg +
         (\<Sum>i \<in> paid_tasks cfg (exit_complete_tasks msg) (tasks (info h)). task_gift cfg i))
     \<and> lotions (info (fst (ReqExitGame cfg now msg h))) = filter (\<lambda>l. l \<notin> set (exit_use_lotions msg)) (lotions (info h))"
proof -
  have "ReqExitGame cfg now msg h = exit_accepted cfg now msg h"
    using ReqExitGame_cases [of cfg now msg h] assms(2) by auto
  then show ?thesis
    using exit_accepted_info [OF hero_wf_parts(1) [OF assms(1)], of cfg now msg] by (simp add: max_def)
qed

definition sample_play :: GameConfig where
  "sample_play = sample_config\<lparr>cfg_tasks := [(7, no_task\<lparr>config_taskid := 7, gift_gold := 30\<rparr>), (8, no_task\<lparr>config_taskid := 8\<rparr>)],
     cfg_chapters := [(2, \<lparr>chapter_id = 2, required_chapter_id = 1, required_section_id = 1,
       required_task_complete_count = 1, require_gold = 60, max_section_count = 5, chapter_describe = []\<rparr>)]\<rparr>"

definition sample_exit :: MsgC2SReqExitGame where
  "sample_exit = \<lparr>exit_chapter_id = 1, exit_section_id = 2, exit_task_infos = [], exit_gold = 15, exit_success = True,
     exit_complete_tasks = [7, 7], exit_special_kill_list = [], exit_special_creatures = [], exit_use_lotions = [1]\<rparr>"

theorem exit_game_rewards_witness:
  "gold (info (fst (ReqExitGame sample_play 0 sample_exit (sample_hero\<lparr>current_chapter := 1, current_section := 2\<rparr>)))) = 145 \<and>
   lotions (info (fst (ReqExitGame sample_play 0 sample_exit (sample_hero\<lparr>current_chapter := 1, current_section := 2\<rparr>)))) = []"
proof -
  have paid: "paid_tasks sample_play [7, 7] [\<lparr>taskid = 7, argument_1 = 0, usetime = 0\<rparr>] = {7}"
    by (auto simp: paid_tasks_def sample_play_def getMapTask_def)
  have ok: "exit_allowed sample_exit (sample_hero\<lparr>current_chapter := 1, current_section := 2\<rparr>)"
    by (simp add: exit_allowed_def sample_exit_def sample_hero_def sample_info_def)
  have "hero_wf (sample_hero\<lparr>current_chapter := 1, current_section := 2\<rparr>)" by simp
  from exit_game_rewards [OF this ok, of sample_play 0] paid show ?thesis
    by (simp add: sample_exit_def sample_hero_def sample_info_def sample_play_def task_gift_def getMapTask_def no_task_def wrap32_def)
qed

text \<open>
  C26. \<open>DreamHero::ReqUnlockChapter\<close> unlocks a chapter exactly when it is configured and not yet
  unlocked, enough tasks are completed, the required section is passed and the gold suffices; it
  then appends the record \<open>(chapter, 0)\<close> and takes the price, and in every other case leaves the hero
  as he is.
\<close>

theorem unlock_chapter_spec:
  assumes "hero_wf h" "getChapterConfigInfo cfg ch = Some c" "in32 (require_gold c)" "0 \<le> require_gold c" "0 \<le> gold (info h)"
  shows "fst (ReqUnlockChapter cfg now ch h) =
    (if ch \<notin> fst ` set (records (info h)) \<and> required_task_complete_count c \<le> complete_task_count (info h) \<and>
        (\<exists>b. (required_chapter_id c, b) \<in> set (records (info h)) \<and> required_section_id c \<le> b) \<and> require_gold c \<le> gold (info h)
     then h\<lparr>info := (info h)\<lparr>records := records (info h) @ [(ch, 0)], gold := gold (info h) - require_gold c\<rparr>\<rparr>
     else h)"
proof (cases "ch \<in> fst ` set (records (info h))")
  case True
  then have "unlock_scan ch c (records (info h)) e = None" for e by (simp add: unlock_scan_None)
  then show ?thesis using True by (simp add: ReqUnlockChapter_def Let_def assms(2))
next
  case False
  have w: "wrap32 (gold (info h) - require_gold c) = gold (info h) - require_gold c"
    using assms(3-5) hero_wf_parts(6) [OF assms(1)] by (intro wrap32_id) (auto simp: purse_ok_def in32_def)
  show ?thesis using False by (auto simp: ReqUnlockChapter_def Let_def assms(2) unlock_scan_Some w)
qed

theorem unlock_chapter_spec_witness:
  "records (info (fst (ReqUnlockChapter sample_play 0 2 sample_hero))) = [(1, 1), (0, 0), (2, 0)] \<and>
   gold (info (fst (ReqUnlockChapter sample_play 0 2 sample_hero))) = 40"
  using unlock_chapter_spec [of sample_hero sample_play 2 "snd (hd (cfg_chapters sample_play))" 0]
  by (simp add: sample_play_def getChapterConfigInfo_def in32_def sample_hero_def sample_info_def
      del: sample_hero_wf) (use sample_hero_wf in \<open>simp add: sample_hero_def sample_info_def\<close>)

text \<open>
  \<open>DreamHero::EnterGame\<close> does not ask whether the chapter is unlocked: a player with enough spirit
  enters any map, even one whose chapter has no record, and only spirit is taken, never below zero.
\<close>

theorem enter_game_any_chapter:
  assumes "hero_wf h" "0 \<le> config_enter_game_use_spirit (cfg_global cfg)"
    "config_enter_game_use_spirit (cfg_global cfg) \<le> spirit (info h)"
  shows "fst (EnterGame cfg now ch sec False h) =
    h\<lparr>info := (info h)\<lparr>spirit := spirit (info h) - config_enter_game_use_spirit (cfg_global cfg)\<rparr>,
      current_chapter := ch, current_section := sec\<rparr>"
proof -
  have "wrap32 (spirit (info h) - config_enter_game_use_spirit (cfg_global cfg)) = spirit (info h) - config_enter_game_use_spirit (cfg_global cfg)"
    using assms(2,3) hero_wf_parts(6) [OF assms(1)] by (intro wrap32_id) (auto simp: purse_ok_def in32_def)
  then show ?thesis using assms by (simp add: EnterGame_def Let_def)
qed

theorem enter_game_any_chapter_witness:
  "99 \<notin> fst ` set (records (info sample_hero)) \<and>
   current_chapter (fst (EnterGame sample_config 0 99 1 False sample_hero)) = 99 \<and>
   spirit (info (fst (EnterGame sample_config 0 99 1 False sample_hero))) = 8"
proof -
  have "fst (EnterGame sample_config 0 99 1 False sample_hero) =
      sample_hero\<lparr>info := (info sample_hero)\<lparr>spirit := spirit (info sample_hero) - 2\<rparr>, current_chapter := 99, current_section := 1\<rparr>"
    using enter_game_any_chapter [of sample_hero sample_config 0 99 1]
    by (simp add: sample_config_def sample_global_def) (simp add: sample_hero_def sample_info_def)
  then show ?thesis by (simp add: sample_hero_def sample_info_def)
qed

text \<open>
  \<open>DreamHero::RefreshTask\<close> takes the refresh price for every drawn task, also when the client did
  not ask to pay with gold (\<open>gold == false\<close>); then no check was made, the gold may become negative and
  the log says that nothing was paid.
\<close>

theorem refresh_task_always_charges:
  assumes "refresh_error cfg now use_gold h = Error_NO" "refresh_prepare cfg now give_up h = (h1, Error_NO)"
    "config_taskid (RadnomTaskInfo cfg r give_up h1) \<noteq> 0"
  shows "gold (info (fst (RefreshTask cfg now r give_up use_gold h))) = wrap32 (gold (info h) - refresh_task_gold (cfg_global cfg)) \<and>
    tasks (info (fst (RefreshTask cfg now r give_up use_gold h))) =
      tasks (info h1) @ [new_task (config_taskid (RadnomTaskInfo cfg r give_up h1))]"
  using assms by (simp add: RefreshTask_def Let_def)

theorem refresh_task_always_charges_witness:
  "gold (info (fst (RefreshTask sample_play 1000 0 0 False (sample_hero\<lparr>info := sample_info\<lparr>gold := 10\<rparr>\<rparr>)))) = -40"
proof -
  let ?h = "sample_hero\<lparr>info := sample_info\<lparr>gold := 10\<rparr>\<rparr>"
  let ?h1 = "?h\<lparr>current_task_count := 1, last_task_advertisement_time := 1000\<rparr>"
  have e: "refresh_error sample_play 1000 False ?h = Error_NO"
    by (simp add: refresh_error_def sample_play_def sample_config_def sample_global_def sample_hero_def)
  have p: "refresh_prepare sample_play 1000 0 ?h = (?h1, Error_NO)"
    by (simp add: refresh_prepare_def sample_play_def sample_config_def sample_global_def sample_hero_def sample_info_def wrap32_def wrap_u32_def)
  have "config_taskid (RadnomTaskInfo sample_play 0 0 ?h1) = 8"
    by (simp add: RadnomTaskInfo_def task_candidates_def task_available_def Let_def sample_play_def sample_hero_def sample_info_def no_task_def getMapTask_def)
  then show ?thesis
    using refresh_task_always_charges [OF e p, of 0] by (simp add: sample_info_def sample_play_def sample_config_def sample_global_def wrap32_def)
qed



end
