(* ===== verification/Hero_Daily.thy ===== *)
theory Hero_Daily
  imports Hero_State
begin

text \<open>
  The daily game, in \<open>gameserver/DreamHero.cpp\<close>: reporting progress (which feeds the rank list of
  \<open>RankManager\<close>), buying a reset, being awarded the prize of a rank and collecting it.
\<close>

section \<open>Operations\<close>

definition reset_count :: "GameConfig \<Rightarrow> int \<Rightarrow> DreamHero \<Rightarrow> int" where
  "reset_count cfg now h =
     (if isInToday cfg now (last_daily_reset_game_time h) then wrap32 (daily_reset_game_count (info h) + 1) else 1)"

definition ReqResetDailyGameProgress :: "GameConfig \<Rightarrow> int \<Rightarrow> DreamHero \<Rightarrow> handled" where
  "ReqResetDailyGameProgress cfg now h =
     (let d = info h;
          ack = (\<lambda>h' e. sendPBMessage h' (MsgS2CResetDailyGameProgressACK e (daily_game_progress (info h'))
                   (daily_reset_game_count (info h')) (last_daily_reset_game_time h') (jewel (info h'))));
          fail = (\<lambda>e. (h, ack h e));
          costs = daily_game_reset_jewel_config (cfg_global cfg);
          c = reset_count cfg now h
      in if \<not> isInToday cfg now (daily_game_time h) \<or> daily_game_progress d = 0
         then fail Error_FailedToResetDailyGameTheProgressIsZero
         else if int (length costs) \<le> (c - 1) mod 18446744073709551616 then fail Error_FailedToResetDailyGameUseOut
         else if jewel d < costs ! nat (c - 1) then fail Error_FailedToResetDailyGameNotEnoughJewel
         else if daily_game_hp_pct d \<noteq> 100 \<or> daily_game_progress d \<noteq> 0
         then let h1 = h\<lparr>info := d\<lparr>daily_game_progress := 0, daily_game_record_progress := 0, daily_game_hp_pct := 100,
                            daily_game_anger := 0, jewel := wrap32 (jewel d - costs ! nat (c - 1)), daily_reset_game_count := c\<rparr>,
                         last_daily_reset_game_time := wrap_u32 now\<rparr>
              in (h1, ack h1 Error_NO)
         else fail Error_FailedToResetDailyGameTheTheHpIsFull)"

definition ReqReceiveDailyGamePrize :: "int \<Rightarrow> DreamHero \<Rightarrow> handled" where
  "ReqReceiveDailyGamePrize now h =
     (let d = info h
      in if daily_game_gold d = 0
         then (h, sendPBMessage h (MsgS2CReceiveDailyGamePrizeACK (gold d) Error_FailedToReceivedDailyGamePrizeNOPrize))
         else let g = wrap32 (gold d + daily_game_gold d);
                  h1 = h\<lparr>info := d\<lparr>gold := g, daily_game_gold := 0\<rparr>\<rparr>
              in (h1, recs (dailyGameRewardRecord now (account h) (hero_name d) 0 g g) @
                      sendPBMessage h1 (MsgS2CReceiveDailyGamePrizeACK g Error_NO)))"

definition DailyGamePrize :: "int \<Rightarrow> DreamHero \<Rightarrow> handled" where
  "DailyGamePrize prize h =
     (if daily_game_prize_time h \<noteq> daily_game_time h
      then let h1 = h\<lparr>daily_game_time := daily_game_prize_time h, info := (info h)\<lparr>daily_game_gold := prize\<rparr>\<rparr>
           in (h1, sendPBMessage h1 (MsgS2CNotifyDailyGamePrize prize (daily_game_time h1)))
      else (h, []))"

definition TryToGetGamePrize :: "GameConfig \<Rightarrow> RankManager \<Rightarrow> bool \<Rightarrow> DreamHero \<Rightarrow> handled" where
  "TryToGetGamePrize cfg rm sendmsg h =
     (if daily_game_begin_time rm \<noteq> daily_game_time h \<and> daily_game_time h \<noteq> 0 \<and> daily_game_time h \<noteq> daily_game_prize_time h
      then let g = GetDailyGamePrize cfg (wrap32 (daily_game_progress (info h) + 1));
               h1 = h\<lparr>info := (info h)\<lparr>daily_game_gold := g\<rparr>, daily_game_prize_time := daily_game_time h\<rparr>
           in (h1, if sendmsg then sendPBMessage h1 (MsgS2CNotifyDailyGamePrize g (daily_game_time h)) else [])
      else (h, []))"

definition ResetDailyGame :: "RankManager \<Rightarrow> DreamHero \<Rightarrow> (DreamHero \<times> RankManager) option" where
  "ResetDailyGame rm h =
     map_option (Pair (h\<lparr>info := (info h)\<lparr>daily_game_hp_pct := 100, daily_game_anger := 0, daily_game_progress := 0,
         daily_game_record_progress := 0, daily_reset_game_count := 0, daily_game_score := 0\<rparr>,
         daily_game_time := 0, daily_game_prize_time := 0, last_daily_reset_game_time := 0\<rparr>))
       (removeHero (account h) rm)"

text \<open>A new daily game has begun since the hero last played.\<close>

definition begin_daily_game :: "RankManager \<Rightarrow> DreamHero \<Rightarrow> DreamHero" where
  "begin_daily_game rm h =
     (if daily_game_begin_time rm \<noteq> daily_game_time h
      then h\<lparr>daily_game_time := daily_game_begin_time rm,
             info := (info h)\<lparr>daily_game_hp_pct := 100, daily_game_progress := 0, daily_game_score := 0,
               daily_game_anger := 0, daily_reset_game_count := 0\<rparr>\<rparr>
      else h)"

definition progress_error :: "RankManager \<Rightarrow> int \<Rightarrow> int \<Rightarrow> MsgHeroData \<Rightarrow> GameError" where
  "progress_error rm progress hp d =
     (if daily_game_progress d = max_daily_progress rm then Error_FailedToUpdateDailyProgressIsMaxProgress
      else if (progress = 1 \<or> progress = wrap32 (daily_game_record_progress d + 1)) \<and> daily_game_hp_pct d = 0
      then Error_FailedToUpdateDailyProgressNoHp
      else if 0 < daily_game_hp_pct d
      then if wrap32 (if 0 < hp then daily_game_progress d + 1 else daily_game_progress d) = progress \<or>
              progress = wrap32 (daily_game_record_progress d + 1)
           then Error_NO else Error_FailedToUpdateDailyProgressErrorProgress
      else Error_FailedToUpdateDailyProgressNoHp)"

definition ReqUpdateDailyGameProgress ::
  "int \<Rightarrow> RankManager \<Rightarrow> int \<Rightarrow> int \<Rightarrow> int \<Rightarrow> int \<Rightarrow> DreamHero \<Rightarrow> DreamHero \<times> RankManager \<times> effect list" where
  "ReqUpdateDailyGameProgress now rm progress score hp0 anger h =
     (let hp = (if hp0 < 0 then 0 else hp0);
          h0 = begin_daily_game rm h; d = info h0;
          err = progress_error rm progress hp d;
          ack = (\<lambda>h' rank e. sendPBMessage h' (MsgS2CUpdateDailyGameProgressACK (daily_game_score (info h')) rank
                   (daily_game_progress (info h')) (daily_game_record_progress (info h')) e (daily_game_hp_pct (info h'))
                   (daily_game_anger (info h')) (daily_game_time h') (wrap_u32 now)))
      in if err = Error_NO
         then let (rm1, rank0) = updateHeroDailyRank now (account h) (hero_name d) score rm;
                  h1 = h0\<lparr>info := d\<lparr>daily_game_score := score,
                            daily_game_progress := (if 0 < hp then progress else daily_game_progress d),
                            daily_top_grogress := (if daily_top_grogress d < progress then progress else daily_top_grogress d),
                            daily_game_hp_pct := hp, daily_game_anger := anger\<rparr>\<rparr>;
                  rank = getHeroDailyRank rm1 (account h)
              in (h1, rm1, recs (dailyGameRecord now (account h) (hero_name d) rank score) @ ack h1 rank Error_NO)
         else (h0, rm, ack h0 101 err))"

section \<open>The handlers keep the hero well-formed\<close>

lemma ReqResetDailyGameProgress_wf [hero_wf_intros]: "hero_wf h \<Longrightarrow> hero_wf (fst (ReqResetDailyGameProgress cfg now h))"
  by (simp add: ReqResetDailyGameProgress_def Let_def hero_ok_defs)

lemma ReqReceiveDailyGamePrize_wf [hero_wf_intros]: "hero_wf h \<Longrightarrow> hero_wf (fst (ReqReceiveDailyGamePrize now h))"
  by (simp add: ReqReceiveDailyGamePrize_def Let_def hero_ok_defs)

lemma DailyGamePrize_wf [hero_wf_intros]: "hero_wf h \<Longrightarrow> hero_wf (fst (DailyGamePrize g h))"
  by (simp add: DailyGamePrize_def Let_def hero_ok_defs)

lemma TryToGetGamePrize_wf [hero_wf_intros]: "hero_wf h \<Longrightarrow> hero_wf (fst (TryToGetGamePrize cfg rm b h))"
  by (simp add: TryToGetGamePrize_def Let_def hero_ok_defs)

lemma ResetDailyGame_wf [hero_wf_intros]: "hero_wf h \<Longrightarrow> ResetDailyGame rm h = Some (h', rm') \<Longrightarrow> hero_wf h'"
  by (auto simp: ResetDailyGame_def hero_ok_defs)

lemma begin_daily_game_wf: "hero_wf h \<Longrightarrow> hero_wf (begin_daily_game rm h)"
  by (simp add: begin_daily_game_def hero_ok_defs)

lemma ReqUpdateDailyGameProgress_wf [hero_wf_intros]:
  "hero_wf h \<Longrightarrow> hero_wf (fst (ReqUpdateDailyGameProgress now rm p s hp a h))"
  using begin_daily_game_wf [of h rm]
  by (auto simp: ReqUpdateDailyGameProgress_def Let_def hero_ok_defs split: prod.splits)

section \<open>Properties\<close>

text \<open>
  C37. \<open>DreamHero::ReqReceiveDailyGamePrize\<close> pays an awarded prize exactly once: the request moves the
  whole prize into the purse, and a second request changes nothing.
\<close>

theorem daily_prize_once:
  "gold (info (fst (ReqReceiveDailyGamePrize now h))) = wrap32 (gold (info h) + daily_game_gold (info h)) \<and>
   daily_game_gold (info (fst (ReqReceiveDailyGamePrize now h))) = 0 \<and>
   fst (ReqReceiveDailyGamePrize now' (fst (ReqReceiveDailyGamePrize now h))) = fst (ReqReceiveDailyGamePrize now h)"
  if "hero_wf h"
  using hero_wf_parts(6) [OF that] by (auto simp: ReqReceiveDailyGamePrize_def Let_def purse_ok_def wrap32_id)

theorem daily_prize_once_witness:
  "gold (info (fst (ReqReceiveDailyGamePrize 0 (sample_hero\<lparr>info := sample_info\<lparr>daily_game_gold := 50\<rparr>\<rparr>)))) = 150"
proof -
  have "hero_wf (sample_hero\<lparr>info := sample_info\<lparr>daily_game_gold := 50\<rparr>\<rparr>)"
    using sample_hero_wf by (simp add: hero_ok_defs sample_hero_def)
  from daily_prize_once [OF this, of 0 0] show ?thesis by (simp add: sample_info_def wrap32_def)
qed

text \<open>
  \<open>DreamHero::ReqResetDailyGameProgress\<close>: a reset is granted at most as often a day as there are
  configured prices, costs exactly the price of its number, never overdraws the jewels, and clears
  the progress; a refused request changes nothing. The answer that the health is full is never given.
\<close>

theorem daily_reset_spec:
  assumes "hero_wf h" "0 \<le> daily_reset_game_count (info h)" "daily_reset_game_count (info h) < 2147483647" "0 \<le> jewel (info h)"
    "\<forall>p \<in> set (daily_game_reset_jewel_config (cfg_global cfg)). 0 \<le> p"
  shows "fst (ReqResetDailyGameProgress cfg now h) =
    (let c = reset_count cfg now h; costs = daily_game_reset_jewel_config (cfg_global cfg)
     in if isInToday cfg now (daily_game_time h) \<and> daily_game_progress (info h) \<noteq> 0 \<and>
           c \<le> int (length costs) \<and> costs ! nat (c - 1) \<le> jewel (info h)
        then h\<lparr>info := (info h)\<lparr>daily_game_progress := 0, daily_game_record_progress := 0, daily_game_hp_pct := 100,
               daily_game_anger := 0, jewel := jewel (info h) - costs ! nat (c - 1), daily_reset_game_count := c\<rparr>,
               last_daily_reset_game_time := wrap_u32 now\<rparr>
        else h)"
proof -
  let ?c = "reset_count cfg now h" and ?costs = "daily_game_reset_jewel_config (cfg_global cfg)"
  have c1: "1 \<le> ?c" "?c < 2147483648"
    using assms(2,3) by (auto simp: reset_count_def wrap32_id in32_def)
  then have m: "(?c - 1) mod 18446744073709551616 = ?c - 1" by simp
  have "wrap32 (jewel (info h) - ?costs ! nat (?c - 1)) = jewel (info h) - ?costs ! nat (?c - 1)"
    if "?c \<le> int (length ?costs)" "?costs ! nat (?c - 1) \<le> jewel (info h)"
  proof -
    have "?costs ! nat (?c - 1) \<in> set ?costs" using that c1 by (intro nth_mem) linarith
    then have "0 \<le> ?costs ! nat (?c - 1)" using assms(5) by blast
    then show ?thesis
      using that assms(4) hero_wf_parts(6) [OF assms(1)] by (intro wrap32_id) (auto simp: purse_ok_def in32_def)
  qed
  then show ?thesis by (auto simp: ReqResetDailyGameProgress_def Let_def m)
qed

theorem daily_reset_spec_witness:
  "jewel (info (fst (ReqResetDailyGameProgress sample_config (30 * 3600)
     (sample_hero\<lparr>info := sample_info\<lparr>daily_game_progress := 4\<rparr>, daily_game_time := 25 * 3600\<rparr>)))) = 15"
proof -
  let ?h = "sample_hero\<lparr>info := sample_info\<lparr>daily_game_progress := 4\<rparr>, daily_game_time := 25 * 3600\<rparr>"
  have "hero_wf ?h" using sample_hero_wf by (simp add: hero_ok_defs sample_hero_def)
  from daily_reset_spec [OF this, of sample_config "30 * 3600"] show ?thesis
    by (simp add: sample_info_def sample_hero_def sample_config_def sample_global_def reset_count_def isInToday_def
        at_local_hour_def local_day_def Let_def)
qed

text \<open>
  The daily progress climbs one step at a time: a report is accepted only for the next step, for
  the current step after a defeat, or for the first step, and an accepted report of a living hero
  enters his score into the rank list.
\<close>

theorem daily_progress_steps:
  assumes "0 \<le> daily_game_progress (info h)" "daily_game_progress (info h) < 2147483647"
    "daily_game_record_progress (info h) = 0"
  shows "daily_game_progress (info (fst (ReqUpdateDailyGameProgress now rm p s hp a h))) \<le> daily_game_progress (info h) + 1 \<and>
    (progress_error rm p (max 0 hp) (info (begin_daily_game rm h)) = Error_NO \<longrightarrow>
       fst (snd (ReqUpdateDailyGameProgress now rm p s hp a h)) = fst (updateHeroDailyRank now (account h) (hero_name (info h)) s rm) \<and>
       daily_game_score (info (fst (ReqUpdateDailyGameProgress now rm p s hp a h))) = s)"
proof -
  let ?d = "info (begin_daily_game rm h)"
  have d: "0 \<le> daily_game_progress ?d" "daily_game_progress ?d \<le> daily_game_progress (info h)"
    "daily_game_record_progress ?d = 0" "hero_name ?d = hero_name (info h)"
    using assms by (simp_all add: begin_daily_game_def)
  have w: "wrap32 (daily_game_progress ?d + 1) = daily_game_progress ?d + 1" "wrap32 1 = 1"
    "wrap32 (daily_game_progress ?d) = daily_game_progress ?d"
    using assms d by (simp_all add: wrap32_id in32_def)
  have step: "p \<le> daily_game_progress ?d + 1" if "progress_error rm p hp' ?d = Error_NO" for hp'
    using that d w by (auto simp: progress_error_def split: if_splits)
  show ?thesis
    using step [of "if hp < 0 then 0 else hp"] d by (auto simp: ReqUpdateDailyGameProgress_def Let_def max_def split: prod.splits)
qed

theorem daily_progress_steps_witness:
  "daily_game_progress (info (fst (ReqUpdateDailyGameProgress 20 sample_ranks 1 45 80 0 sample_hero))) \<le> 1 \<and>
   map rk_acc (heroes_daily_rank (fst (snd (ReqUpdateDailyGameProgress 20 sample_ranks 1 45 80 0 sample_hero)))) = [1, 42, 2, 3]"
proof -
  have e: "progress_error sample_ranks 1 80 (info (begin_daily_game sample_ranks sample_hero)) = Error_NO"
    by (simp add: progress_error_def begin_daily_game_def sample_ranks_def sample_hero_def sample_info_def wrap32_def)
  have u: "map rk_acc (heroes_daily_rank (fst (updateHeroDailyRank 20 42 ''hero'' 45 sample_ranks))) = [1, 42, 2, 3]"
    by (simp add: updateHeroDailyRank_def sample_ranks_def Let_def rank_sort_def rank_key_def insort_key_def wrap32_def)
  have h: "account sample_hero = 42" "hero_name (info sample_hero) = ''hero''" "daily_game_progress (info sample_hero) = 0"
    "daily_game_record_progress (info sample_hero) = 0"
    by (simp_all add: sample_hero_def sample_info_def)
  show ?thesis using daily_progress_steps [of sample_hero 20 sample_ranks 1 45 80 0] e u h by simp
qed

end
