(* ===== verification/Hero_Deal.thy ===== *)
theory Hero_Deal
  imports Hero_State
begin

text \<open>
  Buying gold and jewels for money, in \<open>gameserver/DreamHero.cpp\<close>: a deal is created over HTTP
  (\<open>ReqCrearteDeal\<close>, \<open>addDealWaitToPay\<close>), the client's receipt is verified over HTTP
  (\<open>ReqVerifyDeal\<close>), and the answer credits the hero (\<open>addDealPay\<close>). The lemmas show that an order is
  credited at most once, over every sequence of these operations.
\<close>

section \<open>Operations\<close>

text \<open>\<open>(float)ratting / (float)100 + 1\<close> and the truncated product, in single precision.\<close>

definition recharge_scale :: "int \<Rightarrow> rat" where
  "recharge_scale ratting = f32 (f32 (f32 (of_int ratting) / 100) + 1)"

definition recharge_amount :: "int \<Rightarrow> int \<Rightarrow> int" where
  "recharge_amount n ratting = wrap32 (ftoi (f32 (f32 (of_int n) * recharge_scale ratting)))"

definition addDealPay :: "GameConfig \<Rightarrow> Ledger \<Rightarrow> int \<Rightarrow> string \<Rightarrow> int \<Rightarrow> int \<Rightarrow> GameError \<Rightarrow> bool \<Rightarrow> DreamHero \<Rightarrow> handled" where
  "addDealPay cfg lg now key status order err send_msg h =
     (let d = info h;
          answer = (\<lambda>h' e. if send_msg then sendPBMessage h' (MsgS2CVerifyDealACK key order status (gold (info h')) (jewel (info h')) e) else []);
          fail = (\<lambda>h' e. (h', answer h' e))
      in if err \<noteq> Error_NO then fail h Error_Unknow
         else case getGoldShopConfigInfo cfg (channel h) key of
           None \<Rightarrow> fail h Error_BuyGoldFailedNotFoundConfig
         | Some c \<Rightarrow>
             (case map_find order (deals_wait_to_pay h) of
                None \<Rightarrow> fail h Error_BuyGoldFailedNotFoundOrder
              | Some e \<Rightarrow>
                  if status = 0
                  then if deal_type e = DealStatusType_WaitToPay \<or> deal_type e = DealStatusType_WaitPrepareToPay
                       then let add_gold = recharge_amount (gs_gold (gold_shop_info c)) (getGoldRechargeRatting lg);
                                add_jewel = recharge_amount (gs_jewel (gold_shop_info c)) (getJewelRechargeRatting lg);
                                g = wrap32 (gold d + add_gold); j = wrap32 (jewel d + add_jewel);
                                h1 = h\<lparr>info := d\<lparr>gold := g, jewel := j\<rparr>,
                                       deals_wait_to_pay := map_assign order (e\<lparr>deal_type := DealStatusType_Complete\<rparr>) (deals_wait_to_pay h)\<rparr>
                            in (h1, answer h1 Error_NO @
                                    recs (goldModifyRecord now (account h) (hero_name d) add_gold g GoldModify_BuyHero @
                                          dealPayRecord now (account h) key status order add_gold g add_jewel j))
                       else if deal_type e = DealStatusType_Complete then fail h Error_BuyGoldFailedTheOrderHaveBeenCompleted
                       else fail h Error_Unknow
                  else fail (h\<lparr>deals_wait_to_pay := map_assign order (e\<lparr>deal_type := DealStatusType_Failed\<rparr>) (deals_wait_to_pay h)\<rparr>) Error_Unknow))"

definition addDealWaitToPay :: "int \<Rightarrow> string \<Rightarrow> string \<Rightarrow> int \<Rightarrow> int \<Rightarrow> int \<Rightarrow> string \<Rightarrow> GameError \<Rightarrow> DreamHero \<Rightarrow> handled" where
  "addDealWaitToPay now key secret status prc order url err h =
     (let h1 = (if err = Error_NO
                then h\<lparr>deals_wait_to_pay := map_insert order
                        \<lparr>key_code = key, deal_status_code = status, price = prc, order_id = order, receipt = [],
                         deal_type = DealStatusType_WaitToPay\<rparr> (deals_wait_to_pay h)\<rparr>
                else h)
      in (h1, sendPBMessage h1 (MsgS2CCrearteDealACK key secret status prc order err url) @
              (if err = Error_NO then recs (dealWaitToPayRecord now (account h) key status prc order) else [])))"

text \<open>The loop of \<open>ReqCrearteDeal\<close> erases, in the branch for Windows, every deal that still waits for
  its payment, and logs each.\<close>

definition ReqCrearteDeal :: "int \<Rightarrow> string \<Rightarrow> int \<Rightarrow> DreamHero \<Rightarrow> handled" where
  "ReqCrearteDeal now key ch h =
     (let gone = filter (\<lambda>(k, e). deal_type e = DealStatusType_WaitToPay) (deals_wait_to_pay h);
          h1 = h\<lparr>deals_wait_to_pay := filter (\<lambda>(k, e). deal_type e \<noteq> DealStatusType_WaitToPay) (deals_wait_to_pay h)\<rparr>
      in (h1, recs (concat (map (\<lambda>(k, e). giveUpDealRecord now (account h) (key_code e) (deal_status_code e) (price e) (order_id e)) gone)) @
              [Http (CreateDealHttpTask (account h) (hero_name (info h)) key ch)]))"

definition ReqVerifyDeal :: "int \<Rightarrow> string \<Rightarrow> int \<Rightarrow> DreamHero \<Rightarrow> effect list" where
  "ReqVerifyDeal now rcpt order h =
     (case map_find order (deals_wait_to_pay h) of
        None \<Rightarrow> []
      | Some _ \<Rightarrow> recs (dealWaitToVerifyRecord now (account h) (hero_name (info h)) order rcpt) @
                   [Db (ReplaceVerify order DealStatusType_WaitPrepareToVerify rcpt),
                    Http (VerifyDealHttpTaskIOS (account h) (hero_name (info h)) rcpt order)])"

section \<open>The handlers keep the hero well-formed\<close>

lemma deals_ok_assign: "deals_ok m \<Longrightarrow> order_id e = k \<Longrightarrow> deals_ok (map_assign k e m)"
proof -
  assume ok: "deals_ok m" and k: "order_id e = k"
  have "set (map_assign k e m) \<subseteq> insert (k, e) (set m)" by (induction k e m rule: map_assign.induct) auto
  then show ?thesis using ok k by (auto simp: deals_ok_def map_wf_assign)
qed

lemma deals_ok_order: "deals_ok m \<Longrightarrow> map_find k m = Some e \<Longrightarrow> order_id e = k"
  by (auto simp: deals_ok_def dest!: map_find_Some_in)

lemma deals_ok_filter: "deals_ok m \<Longrightarrow> deals_ok (filter P m)"
  by (auto simp: deals_ok_def map_wf_filter)

lemma addDealPay_wf [hero_wf_intros]: "hero_wf h \<Longrightarrow> hero_wf (fst (addDealPay cfg lg now key st order err b h))"
  by (auto simp: addDealPay_def Let_def hero_ok_defs deals_ok_assign deals_ok_order split: option.splits)

lemma addDealWaitToPay_wf [hero_wf_intros]: "hero_wf h \<Longrightarrow> hero_wf (fst (addDealWaitToPay now key s st p order url err h))"
  by (auto simp: addDealWaitToPay_def Let_def hero_ok_defs map_insert_def deals_ok_assign split: option.splits)

lemma ReqCrearteDeal_wf [hero_wf_intros]: "hero_wf h \<Longrightarrow> hero_wf (fst (ReqCrearteDeal now key ch h))"
  by (auto simp: ReqCrearteDeal_def Let_def hero_ok_defs deals_ok_filter)

section \<open>Runs of deal operations\<close>

inductive deal_step :: "DreamHero \<Rightarrow> DreamHero \<Rightarrow> bool" where
  deal_pay: "deal_step h (fst (addDealPay cfg lg now key st order err b h))"
| deal_wait: "deal_step h (fst (addDealWaitToPay now key s st p order url err h))"
| deal_create: "deal_step h (fst (ReqCrearteDeal now key ch h))"
| deal_other: "deals_wait_to_pay h' = deals_wait_to_pay h \<Longrightarrow> deal_step h h'"

inductive_cases deal_stepE: "deal_step h h'"

text \<open>An order that was credited, or failed: it stays in the map with that type.\<close>

definition deal_closed :: "int \<Rightarrow> DreamHero \<Rightarrow> bool" where
  "deal_closed order h \<longleftrightarrow> map_wf (deals_wait_to_pay h) \<and>
     (\<exists>e. map_find order (deals_wait_to_pay h) = Some e \<and>
        deal_type e \<in> {DealStatusType_Complete, DealStatusType_Failed})"

lemma map_find_filter:
  "map_wf m \<Longrightarrow> map_find k m = Some e \<Longrightarrow> P (k, e) \<Longrightarrow> map_find k (filter P m) = Some e"
proof (induction m)
  case (Cons p m)
  obtain a v where p: "p = (a, v)" by (cases p)
  show ?case
  proof (cases "k = a")
    case True
    then show ?thesis using Cons.prems by (simp add: p)
  next
    case False
    then show ?thesis using Cons by (auto simp: p map_wf_Cons)
  qed
qed simp

lemma deal_closed_pay: "deal_closed k h \<Longrightarrow> deal_closed k (fst (addDealPay cfg lg now key st order err b h))"
  by (auto simp: deal_closed_def addDealPay_def Let_def map_find_assign map_wf_assign split: option.splits)

lemma deal_closed_wait: "deal_closed k h \<Longrightarrow> deal_closed k (fst (addDealWaitToPay now key s st p order url err h))"
  by (auto simp: deal_closed_def addDealWaitToPay_def Let_def map_find_insert map_wf_insert)

lemma deal_closed_create: "deal_closed k h \<Longrightarrow> deal_closed k (fst (ReqCrearteDeal now key ch h))"
proof -
  assume "deal_closed k h"
  then obtain e where wf: "map_wf (deals_wait_to_pay h)" and f: "map_find k (deals_wait_to_pay h) = Some e"
    and t: "deal_type e \<in> {DealStatusType_Complete, DealStatusType_Failed}"
    by (auto simp: deal_closed_def)
  have "map_find k (filter (\<lambda>(k, e). deal_type e \<noteq> DealStatusType_WaitToPay) (deals_wait_to_pay h)) = Some e"
    using map_find_filter [OF wf f, of "\<lambda>(k, e). deal_type e \<noteq> DealStatusType_WaitToPay"] t by auto
  then show ?thesis using wf t by (simp add: deal_closed_def ReqCrearteDeal_def Let_def map_wf_filter)
qed

interpretation deals: invariant_system deal_step "deal_closed k" for k
proof unfold_locales
  fix h h'
  assume c: "deal_closed k h" and s: "deal_step h h'"
  from s show "deal_closed k h'"
  proof cases
    case deal_pay
    then show ?thesis using deal_closed_pay [OF c] by simp
  next
    case deal_wait
    then show ?thesis using deal_closed_wait [OF c] by simp
  next
    case deal_create
    then show ?thesis using deal_closed_create [OF c] by simp
  next
    case deal_other
    then show ?thesis using c by (simp add: deal_closed_def)
  qed
qed

lemma closed_not_credited:
  "deal_closed order h \<Longrightarrow> info (fst (addDealPay cfg lg now key st order err b h)) = info h"
  by (auto simp: deal_closed_def addDealPay_def Let_def split: option.splits)

lemma credit_closes:
  "hero_wf h \<Longrightarrow> info (fst (addDealPay cfg lg now key st order err b h)) \<noteq> info h \<Longrightarrow>
   deal_closed order (fst (addDealPay cfg lg now key st order err b h))"
  by (auto simp: hero_wf_def deals_ok_def deal_closed_def addDealPay_def Let_def map_find_assign map_wf_assign split: option.splits if_splits)

section \<open>Properties\<close>

text \<open>
  C1. An order is credited at most once: after \<open>addDealPay\<close> has credited an order, and whatever
  sequence of deal operations and of changes outside of the deals follows, \<open>addDealPay\<close> for that
  order leaves the player's data as they are.
\<close>

theorem deal_credited_once:
  assumes "hero_wf h" "info (fst (addDealPay cfg lg now key st order err b h)) \<noteq> info h"
    "deal_step\<^sup>*\<^sup>* (fst (addDealPay cfg lg now key st order err b h)) h'"
  shows "info (fst (addDealPay cfg' lg' now' key' st' order err' b' h')) = info h'"
  using closed_not_credited [OF deals.invariant [OF credit_closes [OF assms(1,2)] assms(3)]] .

definition sample_gold_shop :: GameConfig where
  "sample_gold_shop = sample_config\<lparr>cfg_gold_shop := [(1, [(1, \<lparr>appstore_product_id = ''p1'',
     gold_shop_info = \<lparr>gs_id = 1, gs_resource_id = 0, gs_gold = 500, gs_money = [], gs_describe = [], gs_jewel = 3,
       gs_product_id = ''p1''\<rparr>\<rparr>)])]\<rparr>"

definition paying_hero :: DreamHero where
  "paying_hero = sample_hero\<lparr>deals_wait_to_pay := [(9, \<lparr>key_code = ''p1'', deal_status_code = 0, price = 6, order_id = 9,
     receipt = [], deal_type = DealStatusType_WaitToPay\<rparr>)]\<rparr>"

lemma recharge_scale_0: "recharge_scale 0 = 1"
  using f32_int_exact [of 0] f32_int_exact [of 1] by (simp add: recharge_scale_def)

lemma recharge_amount_plain: "\<bar>n\<bar> < 16777216 \<Longrightarrow> recharge_amount n 0 = n"
proof -
  assume n: "\<bar>n\<bar> < 16777216"
  then have "in32 n" by (auto simp: in32_def)
  then show ?thesis using f32_int_exact [OF n] by (simp add: recharge_amount_def recharge_scale_0 wrap32_id)
qed

lemma paying_hero_wf: "hero_wf paying_hero"
  using sample_hero_wf by (simp add: paying_hero_def hero_ok_defs deals_ok_def map_wf_Cons)

lemma paying_hero_paid:
  "info (fst (addDealPay sample_gold_shop sample_ledger 0 ''p1'' 0 9 Error_NO True paying_hero)) =
     sample_info\<lparr>gold := 600, jewel := 23\<rparr>"
proof -
  have r: "getGoldRechargeRatting sample_ledger = 0" "getJewelRechargeRatting sample_ledger = 0"
    by (simp_all add: getGoldRechargeRatting_def getJewelRechargeRatting_def sample_ledger_def)
  have a: "recharge_amount 500 0 = 500" "recharge_amount 3 0 = 3" by (simp_all add: recharge_amount_plain)
  show ?thesis
    by (simp add: addDealPay_def Let_def sample_gold_shop_def sample_config_def getGoldShopConfigInfo_def getGoldShopConfigInfos_def
        paying_hero_def sample_hero_def sample_info_def r a wrap32_def)
qed

theorem deal_credited_once_witness:
  "gold (info (fst (addDealPay sample_gold_shop sample_ledger 1 ''p1'' 0 9 Error_NO True
     (fst (addDealPay sample_gold_shop sample_ledger 0 ''p1'' 0 9 Error_NO True paying_hero))))) = 600"
proof -
  have ne: "info (fst (addDealPay sample_gold_shop sample_ledger 0 ''p1'' 0 9 Error_NO True paying_hero)) \<noteq> info paying_hero"
    by (simp add: paying_hero_paid) (simp add: paying_hero_def sample_hero_def sample_info_def)
  from deal_credited_once [OF paying_hero_wf ne rtranclp.rtrancl_refl, of sample_gold_shop sample_ledger 1 "''p1''" 0 Error_NO True]
  show ?thesis by (simp add: paying_hero_paid)
qed

text \<open>
  C20. Without a promotion, a paid deal credits exactly the configured gold and jewels, provided both
  are below \<open>2 ^ 24\<close>, the bound of exact integers in a \<open>float\<close>; the order is then closed.
\<close>

theorem deal_credit_exact:
  assumes "hero_wf h" "getGoldShopConfigInfo cfg (channel h) key = Some c"
    "map_find order (deals_wait_to_pay h) = Some e" "deal_type e = DealStatusType_WaitToPay"
    "getGoldRechargeRatting lg = 0" "getJewelRechargeRatting lg = 0"
    "\<bar>gs_gold (gold_shop_info c)\<bar> < 16777216" "\<bar>gs_jewel (gold_shop_info c)\<bar> < 16777216"
  shows "gold (info (fst (addDealPay cfg lg now key 0 order Error_NO b h))) = wrap32 (gold (info h) + gs_gold (gold_shop_info c)) \<and>
    jewel (info (fst (addDealPay cfg lg now key 0 order Error_NO b h))) = wrap32 (jewel (info h) + gs_jewel (gold_shop_info c)) \<and>
    deal_closed order (fst (addDealPay cfg lg now key 0 order Error_NO b h))"
  using assms by (simp add: addDealPay_def Let_def recharge_amount_plain deal_closed_def hero_wf_def deals_ok_def map_wf_assign map_find_assign)

theorem deal_credit_exact_witness:
  "gold (info (fst (addDealPay sample_gold_shop sample_ledger 0 ''p1'' 0 9 Error_NO True paying_hero))) = 600"
proof -
  define c where "c = snd (hd (snd (hd (cfg_gold_shop sample_gold_shop))))"
  have "getGoldShopConfigInfo sample_gold_shop (channel paying_hero) ''p1'' = Some c"
    by (simp add: c_def getGoldShopConfigInfo_def getGoldShopConfigInfos_def sample_gold_shop_def paying_hero_def sample_hero_def)
  moreover have "map_find 9 (deals_wait_to_pay paying_hero) = Some (snd (hd (deals_wait_to_pay paying_hero)))"
    "deal_type (snd (hd (deals_wait_to_pay paying_hero))) = DealStatusType_WaitToPay" "gold (info paying_hero) = 100"
    by (simp_all add: paying_hero_def sample_hero_def sample_info_def)
  moreover have "gs_gold (gold_shop_info c) = 500" "gs_jewel (gold_shop_info c) = 3" by (simp_all add: c_def sample_gold_shop_def)
  moreover have "getGoldRechargeRatting sample_ledger = 0" "getJewelRechargeRatting sample_ledger = 0"
    by (simp_all add: getGoldRechargeRatting_def getJewelRechargeRatting_def sample_ledger_def)
  ultimately show ?thesis
    using deal_credit_exact [OF paying_hero_wf, of sample_gold_shop "''p1''" c 9 _ sample_ledger 0 True] by (auto simp: wrap32_def)
qed

end
