(* ===== verification/Hero_Login.thy ===== *)
theory Hero_Login
  imports Hero_Save Hero_Play Hero_Daily Hero_Deal
begin

text \<open>
  A player comes online, in \<open>gameserver/DreamHero.cpp\<close>: \<open>set_info\<close> takes over the stored data, resumes
  the open deals, adds the spirit recovered while away and awards the prize of the last daily game;
  \<open>LoadFromConfig\<close> makes a new player; \<open>SendClientInit\<close> sends everything to the client.
\<close>

section \<open>Operations\<close>

text \<open>The constructor. Members it does not set are set by \<open>set_info\<close> or \<open>LoadFromConfig\<close> before they are
  read; they start as zero here.\<close>

definition DreamHero_new :: DreamHero where
  "DreamHero_new =
     \<lparr>special_kills = [], special_creatures = [],
      info = \<lparr>hero_name = ''test'', gold = 0, records = [], heroes = [], tasks = [], current_hero = 0,
        complete_task_count = 0, new_tutorial = 0, jewel = 0, spirit = 0, day_buy_spirit = 0, lotions = [],
        daily_game_progress = 0, daily_game_gold = 0, daily_game_score = 0, daily_game_hp_pct = 0,
        daily_game_record_progress = 0, daily_reset_game_count = 0, daily_top_grogress = 0, daily_game_anger = 0,
        concern_weixin = False, grid_notify_state = []\<rparr>,
      current_chapter = -1, current_section = -1, current_task_count = 0, last_task_advertisement_time = 0,
      account = 0, session = None, online = False, deals_wait_to_pay = [], gm_level = 0,
      last_recover_spirit_time = 0, last_buy_spirit_time = 0, last_day_lottery_time = 0, destroy_clock = False,
      daily_game_time = 0, daily_game_prize_time = 0, last_daily_reset_game_time = 0, channel = 0\<rparr>"

text \<open>\<open>_special_kills[pair].push_back(kill)\<close> for every kill of every map.\<close>

definition push_kill :: "int \<times> int \<Rightarrow> MsgObjConfig \<Rightarrow> (int \<times> int, MsgObjConfig list) smap \<Rightarrow> (int \<times> int, MsgObjConfig list) smap" where
  "push_kill p k m = map_assign p (map_index [] p m @ [k]) m"

definition add_map_kills :: "MsgMapSpecialKill \<Rightarrow> (int \<times> int, MsgObjConfig list) smap \<Rightarrow> (int \<times> int, MsgObjConfig list) smap" where
  "add_map_kills e m = fold (push_kill (kill_chapter_id e, kill_section_id e)) (kills e) m"

definition deal_of_message :: "MsgDealInfo \<Rightarrow> DealWaitToPay" where
  "deal_of_message e = \<lparr>key_code = deal_product_id e, deal_status_code = deal_status e, price = 0,
     order_id = deal_order e, receipt = deal_cur_receipt e, deal_type = deal_complete_status e\<rparr>"

text \<open>The first part of \<open>set_info\<close>: the members are taken from the message.\<close>

definition take_message :: "MsgHeroDataDB2GS \<Rightarrow> int \<Rightarrow> DreamHero \<Rightarrow> DreamHero" where
  "take_message m ch h = h\<lparr>channel := ch, account := db_account m, info := db_data m,
     current_chapter := db_current_chapter m, current_section := db_current_section m,
     last_task_advertisement_time := wrap_u32 (db_last_task_advertisement_time m),
     current_task_count := db_free_task_count m,
     last_recover_spirit_time := wrap_u32 (db_last_recover_spirit_time m),
     last_buy_spirit_time := wrap_u32 (db_last_buy_spirit_time m),
     last_day_lottery_time := wrap_u32 (db_last_lottery_time m), gm_level := db_gm_level m,
     daily_game_time := wrap_u32 (db_daily_game_time m), daily_game_prize_time := wrap_u32 (db_daily_game_prize_time m),
     last_daily_reset_game_time := wrap_u32 (db_last_daily_reset_game_time m),
     special_kills := fold add_map_kills (db_special_kills m) [],
     deals_wait_to_pay := fold (\<lambda>e. map_insert (deal_order e) (deal_of_message e)) (db_deals m) (deals_wait_to_pay h),
     special_creatures := fold (\<lambda>(a, b). map_assign a b) (db_special_creatures m) []\<rparr>"

text \<open>The loop over the open deals: a prepared payment is credited, a prepared receipt is verified again.\<close>

definition resume_deal :: "GameConfig \<Rightarrow> Ledger \<Rightarrow> int \<Rightarrow> DealWaitToPay \<Rightarrow> DreamHero \<Rightarrow> handled" where
  "resume_deal cfg lg now e h =
     (if deal_type e = DealStatusType_WaitPrepareToPay
      then addDealPay cfg lg now (key_code e) (deal_status_code e) (order_id e) Error_NO False h
      else if deal_type e = DealStatusType_WaitPrepareToVerify
      then (h, [Http (VerifyDealHttpTaskIOS (account h) (hero_name (info h)) (receipt e) (order_id e))])
      else (h, []))"

fun resume_deals :: "GameConfig \<Rightarrow> Ledger \<Rightarrow> int \<Rightarrow> (int \<times> DealWaitToPay) list \<Rightarrow> DreamHero \<Rightarrow> handled" where
  "resume_deals cfg lg now [] h = (h, [])"
| "resume_deals cfg lg now ((k, e) # es) h =
     (let (h1, fx) = resume_deal cfg lg now e h; (h2, fx') = resume_deals cfg lg now es h1
      in (h2, fx @ fx'))"

text \<open>
  The spirit recovered since the last time, computed in \<open>float\<close>. A zero interval divides by zero and
  converts the infinite quotient to an \<open>int\<close>, which has no defined result: \<open>None\<close>.
\<close>

definition recover_offline :: "GameConfig \<Rightarrow> int \<Rightarrow> DreamHero \<Rightarrow> DreamHero option" where
  "recover_offline cfg now h =
     (let g = cfg_global cfg; entry_time = f32 (of_int (wrap32 (config_recover_spirit_minute g * 60)))
      in if last_recover_spirit_time h < now
         then if entry_time = 0 then None
         else let time_pass = wrap_u32 (now - last_recover_spirit_time h);
                  times = ftoi (f32 (f32 (of_int time_pass) / entry_time));
                  recovered = wrap32 (config_recover_spirit g * times);
                  sum = wrap32 (recovered + spirit (info h));
                  sp = (if config_max_spirit g < sum then config_max_spirit g else sum);
                  rest = f32 (f32 (of_int time_pass) - f32 (f32 (of_int times) * entry_time));
                  last = (if times \<noteq> 0 then wrap_u32 (ftoi (f32 (f32 (of_int now) - rest)))
                          else last_recover_spirit_time h)
              in Some ((set_spirit sp h)\<lparr>last_recover_spirit_time := last\<rparr>)
         else Some h)"

text \<open>A daily game has begun since: progress, score, resets, health and anger start anew.\<close>

definition reset_stale_game :: "RankManager \<Rightarrow> DreamHero \<Rightarrow> DreamHero" where
  "reset_stale_game rm h =
     (if daily_game_begin_time rm \<noteq> daily_game_time h
      then h\<lparr>info := (info h)\<lparr>daily_game_progress := 0, daily_game_score := 0, daily_reset_game_count := 0,
             daily_game_hp_pct := 100, daily_game_anger := 0\<rparr>\<rparr>
      else h)"

text \<open>The search of the recorded progress in the configuration has no effect: the code sets it to zero
  in either case.\<close>

definition set_info :: "GameConfig \<Rightarrow> Ledger \<Rightarrow> RankManager \<Rightarrow> int \<Rightarrow> MsgHeroDataDB2GS \<Rightarrow> int \<Rightarrow> DreamHero \<Rightarrow> handled option" where
  "set_info cfg lg rm now m ch h =
     (let h1 = take_message m ch h;
          (h2, fx) = resume_deals cfg lg now (deals_wait_to_pay h1) h1
      in case recover_offline cfg now h2 of
           None \<Rightarrow> None
         | Some h3 \<Rightarrow>
             let h4 = reset_stale_game rm h3;
                 found = daily_game_record_progress (info h4) \<in> set (daily_game_record_config (cfg_global cfg));
                 h5 = (if found then h4 else h4\<lparr>info := (info h4)\<lparr>daily_game_record_progress := 0\<rparr>\<rparr>);
                 h6 = h5\<lparr>info := (info h5)\<lparr>daily_game_record_progress := 0\<rparr>\<rparr>;
                 (h7, fx') = TryToGetGamePrize cfg rm False h6
             in Some (h7, fx @ fx'))"

text \<open>A new player; the name comes from \<open>DreamHeroManager::generateName\<close>.\<close>

definition LoadFromConfig :: "GameConfig \<Rightarrow> string \<Rightarrow> int \<Rightarrow> DreamHero \<Rightarrow> DreamHero" where
  "LoadFromConfig cfg name ch h =
     (let g = cfg_global cfg in
      h\<lparr>special_kills := [], special_creatures := [], current_chapter := 0, current_section := 0,
        current_task_count := 0, last_task_advertisement_time := 0,
        info := (info h)\<lparr>tasks := [], lotions := [],
          heroes := replicate (nat (hero_unlock_count g mod 18446744073709551616)) True,
          records := [(1, 1), (0, 0)], gold := config_gold g, complete_task_count := 0, daily_game_progress := 0,
          daily_game_gold := 0, daily_game_score := 0, daily_game_hp_pct := 100, daily_game_anger := 0,
          daily_game_record_progress := 0, daily_reset_game_count := 0, daily_top_grogress := 0, current_hero := 0,
          concern_weixin := False, hero_name := name, new_tutorial := 0, jewel := config_jewel g,
          spirit := config_max_spirit g, grid_notify_state := []\<rparr>,
        channel := ch, last_recover_spirit_time := 0, last_buy_spirit_time := 0, last_day_lottery_time := 0,
        daily_game_time := 0, daily_game_prize_time := 0, last_daily_reset_game_time := 0, gm_level := 1\<rparr>)"

definition SendResetGameACK :: "GameError \<Rightarrow> DreamHero \<Rightarrow> effect list" where
  "SendResetGameACK en h =
     sendPBMessage h (MsgS2CCmdResetGameACK (info h) (current_task_count h) (last_task_advertisement_time h) en)"

definition ResetGame :: "GameConfig \<Rightarrow> string \<Rightarrow> DreamHero \<Rightarrow> handled" where
  "ResetGame cfg name h = (let h1 = LoadFromConfig cfg name (channel h) h in (h1, SendResetGameACK Error_NO h1))"

definition task_configs :: "GameConfig \<Rightarrow> MsgTaskInfo list \<Rightarrow> MsgTaskConfigInfo list" where
  "task_configs cfg ts = concat (map (\<lambda>t. if taskid t \<noteq> 0
     then (case getMapTask cfg (taskid t) of None \<Rightarrow> [] | Some c \<Rightarrow> [c]) else []) ts)"

definition SendClientInit :: "GameConfig \<Rightarrow> RankManager \<Rightarrow> int \<Rightarrow> nat \<Rightarrow> DreamHero \<Rightarrow> handled" where
  "SendClientInit cfg rm now r h =
     (let g = cfg_global cfg;
          (h1, fx) = dayRefresh cfg now r False (h\<lparr>destroy_clock := False\<rparr>);
          msg = \<lparr>init_info = info h1, init_task_config_infos = task_configs cfg (tasks (info h1)),
            init_free_advertisement_config_count = day_free_task_count g,
            init_current_advertisement_count = current_task_count h1,
            init_last_advertisement_time = last_task_advertisement_time h1,
            init_advertisement_time_cd = day_task_advertisement_task_cd g, init_gm_level = gm_level h1,
            init_special_creatures = special_creatures h1, init_relive_gold = relive_gold g,
            init_refresh_task_gold = refresh_task_gold g, init_max_spirit = config_max_spirit g,
            init_config_recover_spirit_minute = config_recover_spirit_minute g,
            init_config_recover_spirit = config_recover_spirit g,
            init_config_enter_game_use_spirit = config_enter_game_use_spirit g,
            init_sprit_shop_infos = map snd (cfg_spirit_shop cfg), init_config_day_buy_spirit = config_day_buy_spirit g,
            init_last_recover_spirit_time = last_recover_spirit_time h1,
            init_last_buy_spirit_time = last_buy_spirit_time h1, init_day_refresh_time = day_Refresh_time g,
            init_lotion_shop_configs = map snd (cfg_lotion_shop cfg), init_last_lottery_time = last_day_lottery_time h1,
            init_server_time = now, init_daily_game_time = daily_game_time h1,
            init_reset_jewel_configs = daily_game_reset_jewel_config g,
            init_daily_game_record_configs = daily_game_record_config g,
            init_last_reset_daily_game_time = last_daily_reset_game_time h1,
            init_max_daily_game_progress = max_daily_progress rm,
            init_concern_weixin_config = cfg_can_concern_weixin cfg,
            init_concern_weixin_gold = config_weixin_gold g\<rparr>
      in (h1\<lparr>online := True\<rparr>, fx @ sendPBMessage h1 (MsgS2CHeroesInit_msg msg) @
            recs (loginRecord now (account h1) (hero_name (info h1)))))"

section \<open>A login keeps the hero well-formed\<close>

lemma resume_deals_wf [hero_wf_intros]: "hero_wf h \<Longrightarrow> hero_wf (fst (resume_deals cfg lg now es h))"
proof (induction cfg lg now es h rule: resume_deals.induct)
  case (2 cfg lg now k e es h)
  have "hero_wf (fst (resume_deal cfg lg now e h))"
    using "2.prems" by (simp add: resume_deal_def addDealPay_wf)
  then show ?case using "2.IH" by (cases "resume_deal cfg lg now e h") (auto split: prod.splits)
qed simp

lemma recover_offline_wf:
  "hero_wf h \<Longrightarrow> in32 (config_max_spirit (cfg_global cfg)) \<Longrightarrow> recover_offline cfg now h = Some h' \<Longrightarrow> hero_wf h'"
  by (auto simp: recover_offline_def Let_def hero_ok_defs split: if_splits)

lemma set_info_wf:
  assumes "hero_wf (take_message m ch h)" "in32 (config_max_spirit (cfg_global cfg))" "set_info cfg lg rm now m ch h = Some (h', fx)"
  shows "hero_wf h'"
proof -
  obtain h2 f2 where r: "resume_deals cfg lg now (deals_wait_to_pay (take_message m ch h)) (take_message m ch h) = (h2, f2)"
    by fastforce
  then have "hero_wf h2" using resume_deals_wf [OF assms(1)] by (metis fst_conv)
  moreover obtain h3 where h3: "recover_offline cfg now h2 = Some h3" using assms(3) r by (auto simp: set_info_def Let_def split: option.splits)
  ultimately have "hero_wf h3" using recover_offline_wf assms(2) by blast
  then have w: "hero_wf (reset_stale_game rm h3)" by (simp add: reset_stale_game_def hero_ok_defs)
  have "hero_wf (fst (TryToGetGamePrize cfg rm False h6))" if "h6 = (reset_stale_game rm h3)\<lparr>info := (info (reset_stale_game rm h3))\<lparr>daily_game_record_progress := 0\<rparr>\<rparr>" for h6
    by (rule TryToGetGamePrize_wf) (use w in \<open>simp add: that hero_ok_defs\<close>)
  then show ?thesis using assms(3) r h3 by (auto simp: set_info_def Let_def split: prod.splits if_splits)
qed

text \<open>The starting purse is made of \<open>int\<close>s, and at least one hero is unlocked at the start.\<close>

definition config_start_ok :: "GameConfig \<Rightarrow> bool" where
  "config_start_ok cfg \<longleftrightarrow> in32 (config_gold (cfg_global cfg)) \<and> in32 (config_jewel (cfg_global cfg)) \<and>
     in32 (config_max_spirit (cfg_global cfg)) \<and> 0 < hero_unlock_count (cfg_global cfg) mod 18446744073709551616"

lemma LoadFromConfig_wf:
  "config_start_ok cfg \<Longrightarrow> deals_ok (deals_wait_to_pay h) \<Longrightarrow> hero_wf (LoadFromConfig cfg name ch h)"
  by (auto simp: LoadFromConfig_def Let_def config_start_ok_def hero_ok_defs tasks_ok_def lotions_ok_def records_ok_def)

lemma new_hero_deals [simp]: "deals_ok (deals_wait_to_pay DreamHero_new)"
  by (simp add: DreamHero_new_def deals_ok_def)

lemma ResetGame_wf [hero_wf_intros]: "hero_wf h \<Longrightarrow> config_start_ok cfg \<Longrightarrow> hero_wf (fst (ResetGame cfg name h))"
  by (simp add: ResetGame_def Let_def LoadFromConfig_wf hero_wf_parts)

lemma hero_wf_flags [simp]:
  "hero_wf (h\<lparr>destroy_clock := b\<rparr>) = hero_wf h" "hero_wf (h\<lparr>online := b\<rparr>) = hero_wf h"
  "hero_wf (h\<lparr>session := t\<rparr>) = hero_wf h" "hero_wf (h\<lparr>account := a\<rparr>) = hero_wf h" "hero_wf (h\<lparr>gm_level := l\<rparr>) = hero_wf h"
  by (simp_all add: hero_wf_def)

lemma SendClientInit_wf [hero_wf_intros]:
  "hero_wf h \<Longrightarrow> config_tasks_ok cfg \<Longrightarrow> hero_wf (fst (SendClientInit cfg rm now r h))"
  using dayRefresh_wf [of "h\<lparr>destroy_clock := False\<rparr>" cfg now r False]
  by (auto simp: SendClientInit_def Let_def split: prod.splits)

section \<open>Taking over the stored data\<close>

lemma push_kill_new: "\<forall>x \<in> fst ` set m. x < p \<Longrightarrow> push_kill p k m = m @ [(p, [k])]"
  by (simp add: push_kill_def map_index_def map_find_end map_assign_end)

lemma push_kill_last: "\<forall>x \<in> fst ` set m. x < p \<Longrightarrow> push_kill p k (m @ [(p, ks)]) = m @ [(p, ks @ [k])]"
  by (simp add: push_kill_def map_index_def map_find_append map_find_end map_assign_last)

lemma push_kills: "\<forall>x \<in> fst ` set m. x < p \<Longrightarrow> fold (push_kill p) new (m @ [(p, ks)]) = m @ [(p, ks @ new)]"
  by (induction new arbitrary: ks) (simp_all add: push_kill_last)

lemma add_map_kills_new: "\<forall>x \<in> fst ` set m. x < fst e \<Longrightarrow> snd e \<noteq> [] \<Longrightarrow> add_map_kills (kill_message e) m = m @ [e]"
  by (cases e; cases "snd e") (simp_all add: add_map_kills_def kill_message_def push_kill_new push_kills)

lemma load_special_kills:
  "map_wf (m @ xs) \<Longrightarrow> \<forall>e \<in> set xs. snd e \<noteq> [] \<Longrightarrow> fold add_map_kills (map kill_message xs) m = m @ xs"
proof (induction xs arbitrary: m)
  case (Cons e xs)
  have "add_map_kills (kill_message e) m = m @ [e]"
    using Cons.prems by (intro add_map_kills_new) (auto simp: map_wf_append)
  then show ?case using Cons.IH [of "m @ [e]"] Cons.prems by simp
qed simp

text \<open>Times are unsigned 32 bit values.\<close>

definition hero_times :: "DreamHero \<Rightarrow> bool" where
  "hero_times h \<longleftrightarrow> in_u32 (last_task_advertisement_time h) \<and> in_u32 (last_recover_spirit_time h) \<and>
     in_u32 (last_buy_spirit_time h) \<and> in_u32 (last_day_lottery_time h) \<and> in_u32 (daily_game_time h) \<and>
     in_u32 (daily_game_prize_time h) \<and> in_u32 (last_daily_reset_game_time h)"

text \<open>The hero that a login starts from: what was saved, without a session and without deals.\<close>

definition stored_hero :: "int \<Rightarrow> DreamHero \<Rightarrow> DreamHero" where
  "stored_hero ch h = h\<lparr>special_kills := filter (\<lambda>e. snd e \<noteq> []) (special_kills h), session := None, online := False,
     deals_wait_to_pay := [], destroy_clock := False, channel := ch\<rparr>"

lemma take_stored_message:
  assumes "hero_times h" "map_wf (special_kills h)" "map_wf (special_creatures h)"
  shows "take_message (hero_message h) ch DreamHero_new = stored_hero ch h"
proof -
  define sk where "sk = filter (\<lambda>e. snd e \<noteq> []) (special_kills h)"
  have "map_wf sk" "\<forall>e \<in> set sk. snd e \<noteq> []" by (simp_all add: sk_def map_wf_filter assms(2))
  then have k: "fold add_map_kills (map kill_message sk) [] = sk"
    using load_special_kills [of "[]" sk] by (simp del: fold_map)
  have c: "fold (\<lambda>(a, b). map_assign a b) (special_creatures h) [] = special_creatures h"
    using fold_assign_copy [of "[]" "special_creatures h"] assms(3) by simp
  show ?thesis
    using assms(1) k c
    by (simp add: take_message_def hero_message_def stored_hero_def DreamHero_new_def hero_times_def wrap_u32_id
        sk_def [symmetric] del: fold_map)
qed

section \<open>What the later parts of a login keep\<close>

lemma addDealPay_daily [simp]:
  "daily_game_time (fst (addDealPay cfg lg now key st order err b h)) = daily_game_time h"
  "daily_game_prize_time (fst (addDealPay cfg lg now key st order err b h)) = daily_game_prize_time h"
  by (auto simp: addDealPay_def Let_def split: option.splits)

lemma fst_resume_deals [simp]:
  "fst (resume_deals cfg lg now ((k, e) # es) h) = fst (resume_deals cfg lg now es (fst (resume_deal cfg lg now e h)))"
  by (simp add: Let_def case_prod_beta)

lemma resume_deals_daily [simp]:
  "daily_game_time (fst (resume_deals cfg lg now es h)) = daily_game_time h"
  "daily_game_prize_time (fst (resume_deals cfg lg now es h)) = daily_game_prize_time h"
  by (induction es arbitrary: h) (auto simp: resume_deal_def simp del: resume_deals.simps(2))

lemma recover_offline_keeps:
  assumes "recover_offline cfg now h = Some h'"
  shows "h' = h\<lparr>info := (info h)\<lparr>spirit := spirit (info h')\<rparr>, last_recover_spirit_time := last_recover_spirit_time h'\<rparr>"
  using assms by (auto simp: recover_offline_def Let_def split: if_splits)

text \<open>For an absence below \<open>2 ^ 24\<close> seconds the float arithmetic counts the intervals exactly.\<close>

lemma recover_offline_Some:
  assumes "0 < config_recover_spirit_minute (cfg_global cfg)" "config_recover_spirit_minute (cfg_global cfg) * 60 < 16777216"
  shows "\<exists>h'. recover_offline cfg now h = Some h'"
proof -
  have "wrap32 (config_recover_spirit_minute (cfg_global cfg) * 60) = config_recover_spirit_minute (cfg_global cfg) * 60"
    using assms by (intro wrap32_id) (simp add: in32_def)
  then show ?thesis
    using f32_int_exact [of "config_recover_spirit_minute (cfg_global cfg) * 60"] assms
    by (simp add: recover_offline_def Let_def)
qed

lemma recover_times:
  assumes "0 < m" "m * 60 < 16777216" "0 \<le> t" "t < 16777216"
  shows "ftoi (f32 (f32 (of_int t) / f32 (of_int (wrap32 (m * 60))))) = t div (m * 60)"
proof -
  have w: "wrap32 (m * 60) = m * 60" using assms by (intro wrap32_id) (simp add: in32_def)
  have f: "f32 (of_int (m * 60)) = of_int (m * 60)" "f32 (of_int t) = of_int t"
    by (rule f32_int_exact, use assms in simp)+
  show ?thesis unfolding w f by (rule ftoi_f32_div) (use assms in auto)
qed

section \<open>Properties\<close>


definition sample_minutes :: GameConfig where
  "sample_minutes = sample_config\<lparr>cfg_global := (cfg_global sample_config)
     \<lparr>config_recover_spirit_minute := 5, config_recover_spirit := 2, config_max_spirit := 40\<rparr>\<rparr>"




text \<open>
  A player who was away when a new daily game began is always awarded the prize of the first
  rank: \<open>set_info\<close> clears the progress before \<open>TryToGetGamePrize\<close> computes the rank from it.
\<close>

theorem login_prize_first_rank:
  assumes "set_info cfg lg rm now m ch h = Some (h', fx)"
    "wrap_u32 (db_daily_game_time m) \<notin> {0, daily_game_begin_time rm, wrap_u32 (db_daily_game_prize_time m)}"
  shows "daily_game_gold (info h') = GetDailyGamePrize cfg 1"
proof -
  obtain h2 fx2 where r: "resume_deals cfg lg now (deals_wait_to_pay (take_message m ch h)) (take_message m ch h) = (h2, fx2)"
    by (cases "resume_deals cfg lg now (deals_wait_to_pay (take_message m ch h)) (take_message m ch h)")
  from assms(1) r obtain h3 where h3: "recover_offline cfg now h2 = Some h3"
    by (auto simp: set_info_def Let_def split: option.splits)
  have "daily_game_time h2 = wrap_u32 (db_daily_game_time m)" "daily_game_prize_time h2 = wrap_u32 (db_daily_game_prize_time m)"
    using resume_deals_daily [of cfg lg now "deals_wait_to_pay (take_message m ch h)" "take_message m ch h", unfolded r fst_conv]
    by (simp_all add: take_message_def)
  then have times: "daily_game_time h3 = wrap_u32 (db_daily_game_time m)" "daily_game_prize_time h3 = wrap_u32 (db_daily_game_prize_time m)"
    using arg_cong [OF recover_offline_keeps [OF h3], of daily_game_time]
      arg_cong [OF recover_offline_keeps [OF h3], of daily_game_prize_time] by simp_all
  have "wrap32 1 = 1" by (simp add: wrap32_def)
  then show ?thesis
    using assms times h3 r
    by (auto simp: set_info_def Let_def reset_stale_game_def TryToGetGamePrize_def split: if_splits)
qed

theorem login_prize_first_rank_witness:
  "\<exists>h' fx. set_info sample_minutes sample_ledger (sample_ranks\<lparr>daily_game_begin_time := 5\<rparr>) 1000
      ((hero_message sample_hero)\<lparr>db_daily_game_time := 3\<rparr>) 7 DreamHero_new = Some (h', fx) \<and>
    daily_game_gold (info h') = GetDailyGamePrize sample_minutes 1"
proof -
  let ?m = "(hero_message sample_hero)\<lparr>db_daily_game_time := 3\<rparr>" and ?rm = "sample_ranks\<lparr>daily_game_begin_time := 5\<rparr>"
  have ro: "recover_offline sample_minutes 1000 x = None \<longleftrightarrow> False" for x
    using recover_offline_Some [of sample_minutes 1000 x] by (auto simp: sample_minutes_def)
  have "\<exists>p. set_info sample_minutes sample_ledger ?rm 1000 ?m 7 DreamHero_new = Some p"
    by (auto simp: set_info_def Let_def ro split: option.splits prod.splits)
  then obtain h' fx where s: "set_info sample_minutes sample_ledger ?rm 1000 ?m 7 DreamHero_new = Some (h', fx)"
    by (metis surj_pair)
  have "wrap_u32 (db_daily_game_time ?m) \<notin> {0, daily_game_begin_time ?rm, wrap_u32 (db_daily_game_prize_time ?m)}"
    by (simp add: hero_message_def sample_hero_def wrap_u32_def)
  then show ?thesis using login_prize_first_rank [OF s] s by blast
qed

end
