(* ===== verification/Hero_Shop.thy ===== *)
theory Hero_Shop
  imports Hero_State
begin

text \<open>
  Spending and earning outside of maps, in \<open>gameserver/DreamHero.cpp\<close>: buying heroes, spirit and
  lotions, the daily lottery, reliving, the gift for following the game, the recovery of spirit and
  the commands of game masters that change a purse. \<open>None\<close> is an access outside of a repeated field.
\<close>

section \<open>Heroes\<close>

definition ReqModifyCurrentHero :: "int \<Rightarrow> DreamHero \<Rightarrow> handled option" where
  "ReqModifyCurrentHero grid h =
     (let d = info h
      in if grid < int (length (heroes d))
         then if grid < 0 then None
              else if heroes d ! nat grid
              then let h1 = h\<lparr>info := d\<lparr>current_hero := grid\<rparr>\<rparr>
                   in Some (h1, sendPBMessage h1 (MsgS2CModifyCurrentHeroACK grid Error_NO))
              else Some (h, sendPBMessage h (MsgS2CModifyCurrentHeroACK (current_hero d) Error_ModifyCurrentFailedTheCharacterIsLock))
         else Some (h, sendPBMessage h (MsgS2CModifyCurrentHeroACK (current_hero d) Error_ModifyCurrentFailedTheCharacterIsLock)))"

text \<open>The loop \<open>for (size_t i = 0; i <= buy_grid + 1 - heroes_length; i++) add_heroes(false)\<close>.\<close>

definition grow_heroes :: "int \<Rightarrow> bool list \<Rightarrow> bool list" where
  "grow_heroes grid hs =
     (if int (length hs) \<le> grid + 1 then hs @ replicate (Suc (nat (grid + 1 - int (length hs)))) False else hs)"

definition hero_price :: "Ledger \<Rightarrow> MsgShopConfigInfo \<Rightarrow> int \<Rightarrow> int" where
  "hero_price lg c grid =
     (let p = wrap32 (shop_require_gold c - getCheapGold lg grid) in if p < 0 then 0 else p)"

definition ReqBuyHero :: "GameConfig \<Rightarrow> Ledger \<Rightarrow> int \<Rightarrow> int \<Rightarrow> int \<Rightarrow> DreamHero \<Rightarrow> handled option" where
  "ReqBuyHero cfg lg now grid offer h =
     (let d = info h;
          fail = (\<lambda>e. Some (h, sendPBMessage h (MsgS2CBuyHeroACK grid (gold d) e)))
      in case getShopConfig cfg grid of
           None \<Rightarrow> fail Error_BuyHeroFailedNotFoundGrid
         | Some c \<Rightarrow>
             if shop_require_chapter_id c \<noteq> 0 \<and> shop_require_section_id c \<noteq> 0 \<and>
                \<not> (\<exists>r \<in> set (records d). fst r = shop_require_chapter_id c \<and> shop_require_section_id c \<le> snd r)
             then fail Error_BuyHeroFailedNotPassRequiredSection
             else if hero_price lg c grid \<noteq> offer then fail Error_BuyHeroFailedThePriceIsOld
             else
               let rest = wrap32 (gold d - hero_price lg c grid)
               in if rest < 0 then fail Error_BuyHeroFailedNotEnoughGold
                  else if grid < 0 then None
                  else
                    let h1 = h\<lparr>info := d\<lparr>gold := rest, heroes := (grow_heroes grid (heroes d))[nat grid := True]\<rparr>\<rparr>
                    in Some (h1, recs (buyHeroRecord now (account h) (hero_name d) grid (wrap32 (gold d - rest)) rest) @
                                 sendPBMessage h1 (MsgS2CBuyHeroACK grid rest Error_NO)))"

section \<open>Spirit\<close>

definition ReqBuySpirit :: "GameConfig \<Rightarrow> int \<Rightarrow> int \<Rightarrow> DreamHero \<Rightarrow> handled" where
  "ReqBuySpirit cfg now index h =
     (let d = info h;
          ack = (\<lambda>h' e. sendPBMessage h' (MsgS2CBuySpiritACK index (jewel (info h')) (spirit (info h')) e))
      in if config_day_buy_spirit (cfg_global cfg) \<le> day_buy_spirit d
         then (h, ack h Error_BuySpiritFailedCanNotBuyMoreSpirit)
         else case getSpiritShop cfg index of
                None \<Rightarrow> (h, ack h Error_BuySpiritFailedNotFoundConfig)
              | Some c \<Rightarrow>
                  if need_jewel c \<le> jewel d
                  then let j = wrap32 (jewel d - need_jewel c); s = wrap32 (spirit d + spirit_amount c);
                           h1 = h\<lparr>info := d\<lparr>jewel := j, spirit := s, day_buy_spirit := wrap32 (day_buy_spirit d + 1)\<rparr>,
                                  last_buy_spirit_time := wrap_u32 now\<rparr>
                       in (h1, recs (buySpiritRecord now (account h) (hero_name d) (spirit_amount c) (day_buy_spirit d) s (need_jewel c) j) @
                               ack h1 Error_NO)
                  else (h, ack h Error_BuySpiritFailedNotEnoughJewel))"

definition recoverSpirit :: "GameConfig \<Rightarrow> int \<Rightarrow> DreamHero \<Rightarrow> handled" where
  "recoverSpirit cfg now h =
     (let mx = config_max_spirit (cfg_global cfg);
          s0 = spirit (info h);
          s = (if s0 < mx
               then let t = wrap32 (s0 + config_recover_spirit (cfg_global cfg)) in if mx \<le> t then mx else t
               else s0);
          h1 = (set_spirit s h)\<lparr>last_recover_spirit_time := wrap_u32 now\<rparr>
      in (h1, sendPBMessage h1 (MsgS2CRecoverSpiritNotify s)))"

section \<open>Lotions and lottery\<close>

definition ReqBuyLotion :: "GameConfig \<Rightarrow> int \<Rightarrow> DreamHero \<Rightarrow> handled" where
  "ReqBuyLotion cfg lotion h =
     (let d = info h;
          ack = (\<lambda>h' e. sendPBMessage h' (MsgS2CBuyLotionACK lotion (gold (info h')) (jewel (info h')) e));
          fail = (\<lambda>e. (h, ack h e));
          ok = (\<lambda>d'. let h1 = h\<lparr>info := d'\<lparr>lotions := lotions d' @ [lotion]\<rparr>\<rparr> in (h1, ack h1 Error_NO))
      in if 0 \<le> lotion \<and> lotion \<le> 3
         then case getLotionShop cfg lotion of
                None \<Rightarrow> fail Error_FailedToBuyNotFoundThisLotion
              | Some c \<Rightarrow>
                  if lotion \<in> set (lotions d) then fail Error_FailedToBuyLotionAlreadyHaveLotion
                  else if use_type c = LotionUseType_jewel
                  then if jewel d < use_count c then fail Error_FailedToBuyLotionNotEnoughJewel
                       else ok (d\<lparr>jewel := wrap32 (jewel d - use_count c)\<rparr>)
                  else if use_type c = LotionUseType_gold
                  then if gold d < use_count c then fail Error_FailedToBuyLotionNotEnoughGold
                       else ok (d\<lparr>gold := wrap32 (gold d - use_count c)\<rparr>)
                  else ok d
         else fail Error_FailedToBuyNotFoundThisLotion)"

text \<open>The boxes a hero can draw from, the map from cumulated ratings to boxes, and the scan of it.\<close>

definition lottery_boxes :: "GameConfig \<Rightarrow> MsgHeroData \<Rightarrow> LotteryDrawBoxConfig list" where
  "lottery_boxes cfg d =
     filter (\<lambda>c. if lottery_type c = Lottery_Lotion then sub_index c \<notin> set (lotions d) else True) (cfg_lottery cfg)"

fun lottery_map :: "LotteryDrawBoxConfig list \<Rightarrow> int \<Rightarrow> (int, LotteryDrawBoxConfig) smap \<Rightarrow> (int, LotteryDrawBoxConfig) smap \<times> int" where
  "lottery_map [] a m = (m, a)"
| "lottery_map (c # cs) a m = lottery_map cs (wrap32 (a + rating c)) (map_assign a c m)"

fun lottery_scan :: "int \<Rightarrow> (int, LotteryDrawBoxConfig) smap \<Rightarrow> LotteryDrawBoxConfig \<Rightarrow> LotteryDrawBoxConfig" where
  "lottery_scan r [] e = e"
| "lottery_scan r ((k, c) # m) e = (if r < k then e else lottery_scan r m c)"

definition ReqDayLottery :: "GameConfig \<Rightarrow> int \<Rightarrow> nat \<Rightarrow> nat \<Rightarrow> DreamHero \<Rightarrow> handled" where
  "ReqDayLottery cfg now r1 r2 h =
     (let d = info h;
          fail = (\<lambda>e. (h, sendPBMessage h (MsgS2CDayLotteryACK e Lottery_Jewel 0 0 (gold d) (jewel d) (lotions d) (last_day_lottery_time h))))
      in if isInToday cfg now (last_day_lottery_time h) then fail Error_FailedToLotteryTodayHaveBeenLotteried
         else case lottery_boxes cfg d of
           [] \<Rightarrow> fail Error_FailedToLotteryNothingCanBeLotteried
         | b0 # bs \<Rightarrow>
             let (m, total) = lottery_map (b0 # bs) 0 []
             in if total \<le> 0 then fail Error_FailedToLotteryErrorRating
                else
                  let e = lottery_scan (int r1 mod total) m b0;
                      h1 = h\<lparr>last_day_lottery_time := wrap_u32 now\<rparr>;
                      nm = hero_name d
                  in if lottery_type e = Lottery_Lotion
                     then if 0 \<le> sub_index e \<and> sub_index e \<le> 3
                          then let ls = lotions d @ [sub_index e]; h2 = set_lotions ls h1
                               in (h2, recs (dailyLotteryRecord now (account h) nm 0 (jewel d) 0 (gold d) (sub_index e)) @
                                       sendPBMessage h2 (MsgS2CDayLotteryACK Error_NO (lottery_type e) (sub_index e) 0 (gold d) (jewel d) ls (wrap_u32 now)))
                          else (h1, recs (dailyLotteryRecord now (account h) nm 0 (jewel d) 0 (gold d) (-1)) @
                                    sendPBMessage h1 (MsgS2CDayLotteryACK Error_FailedToLotteryErrorLotionConfig (lottery_type e) 0 0 (gold d) (jewel d) (lotions d) (wrap_u32 now)))
                     else
                       let rc = (if 0 < random_count e then int r2 mod random_count e else 0);
                           n = wrap32 (base_count e + rc);
                           add_gold = (if lottery_type e = Lottery_Gold then n else 0);
                           add_jewel = (if lottery_type e = Lottery_Jewel then n else 0);
                           g = (if lottery_type e = Lottery_Gold \<and> n \<noteq> 0 then wrap32 (gold d + n) else gold d);
                           j = (if lottery_type e = Lottery_Jewel \<and> n \<noteq> 0 then wrap32 (jewel d + n) else jewel d);
                           h2 = h1\<lparr>info := d\<lparr>gold := g, jewel := j\<rparr>\<rparr>
                       in (h2, recs (dailyLotteryRecord now (account h) nm add_jewel j add_gold g (-1)) @
                               sendPBMessage h2 (MsgS2CDayLotteryACK Error_NO (lottery_type e) 0 n g j (lotions d) (wrap_u32 now))))"

definition ResetDailyLottery :: "DreamHero \<Rightarrow> DreamHero" where
  "ResetDailyLottery h = h\<lparr>last_day_lottery_time := 0\<rparr>"

section \<open>Gold\<close>

definition ReqReliveReq :: "GameConfig \<Rightarrow> int \<Rightarrow> DreamHero \<Rightarrow> handled" where
  "ReqReliveReq cfg now h =
     (let p = relive_gold (cfg_global cfg)
      in if p \<le> gold (info h)
         then let g = wrap32 (gold (info h) - p); h1 = set_gold g h
              in (h1, recs (reliveRecord now (account h) (hero_name (info h)) p g @
                            goldModifyRecord now (account h) (hero_name (info h)) (wrap32 (- p)) g GoldModify_ReliveRecord) @
                      sendPBMessage h1 (MsgS2CReliveACK g Error_NO))
         else (h, sendPBMessage h (MsgS2CReliveACK (gold (info h)) Error_ReliveFailedNotEnoughGod)))"

definition ReqConcernWeiXin :: "GameConfig \<Rightarrow> int \<Rightarrow> string \<Rightarrow> DreamHero \<Rightarrow> handled" where
  "ReqConcernWeiXin cfg now cd_key h =
     (let d = info h;
          fail = (\<lambda>e. (h, sendPBMessage h (MsgS2CConcernWeiXinACK 0 (gold d) e)))
      in if \<not> cfg_can_concern_weixin cfg then fail Error_FailedToConcernWeiXinErrorCanNotConcernWeiXin
         else if concern_weixin d then fail Error_FailedToConcernWeiXinHaveBeenConcernedWeiXin
         else if config_weixin_cd_key (cfg_global cfg) = cd_key
         then let a = config_weixin_gold (cfg_global cfg); g = wrap32 (gold d + a);
                  h1 = h\<lparr>info := d\<lparr>concern_weixin := True, gold := g\<rparr>\<rparr>
              in (h1, recs (goldModifyRecord now (account h) (hero_name d) a g GoldModify_DailyConcernWeiXin) @
                      sendPBMessage h1 (MsgS2CConcernWeiXinACK a g Error_NO))
         else fail Error_FailedToConcernWeiXinErrorCdkey)"

definition ResetWeiXin :: "DreamHero \<Rightarrow> DreamHero" where
  "ResetWeiXin h = h\<lparr>info := (info h)\<lparr>concern_weixin := False\<rparr>\<rparr>"

definition ReqModifyGold :: "int \<Rightarrow> DreamHero \<Rightarrow> handled" where
  "ReqModifyGold g h =
     (let c = wrap32 (gold (info h) + g); c1 = (if c < 0 then 0 else c); h1 = set_gold c1 h
      in (h1, sendPBMessage h1 (MsgS2CCmdModifyGoldACK c1)))"

definition ReqGoldShopConfigs :: "GameConfig \<Rightarrow> Ledger \<Rightarrow> DreamHero \<Rightarrow> effect list" where
  "ReqGoldShopConfigs cfg lg h =
     (case getGoldShopConfigInfos cfg (channel h) of
        None \<Rightarrow> []
      | Some m \<Rightarrow> sendPBMessage h (MsgS2CGoldShopConfigsACK (map (gold_shop_info \<circ> snd) m)
                    (getGoldRechargeRatting lg) (getJewelRechargeRatting lg)))"

section \<open>Small state changes\<close>

definition ReqResetMap :: "int \<Rightarrow> int \<Rightarrow> DreamHero \<Rightarrow> handled" where
  "ReqResetMap ch sec h =
     (h\<lparr>special_kills := map_erase (ch, sec) (special_kills h)\<rparr>, sendPBMessage h (MsgS2CCmdResetMapACK ch sec Error_NO))"

definition ReqModifyTutorialFlag :: "int \<Rightarrow> DreamHero \<Rightarrow> handled" where
  "ReqModifyTutorialFlag flag h =
     (h\<lparr>info := (info h)\<lparr>new_tutorial := flag\<rparr>\<rparr>, sendPBMessage h (MsgS2CModifyNewTutorialACK flag))"

definition ReqRemoveAllSpecialCreatureList :: "DreamHero \<Rightarrow> handled" where
  "ReqRemoveAllSpecialCreatureList h =
     (h\<lparr>special_creatures := []\<rparr>, sendPBMessage h (MsgS2CCmdNotifySpecialCreatureHisModify []))"

definition ReqSetSpecialCreatureList :: "int \<Rightarrow> int \<Rightarrow> DreamHero \<Rightarrow> handled" where
  "ReqSetSpecialCreatureList i st h =
     (let m = map_assign i st (special_creatures h)
      in (h\<lparr>special_creatures := m\<rparr>, sendPBMessage h (MsgS2CCmdNotifySpecialCreatureHisModify m)))"

definition ReqModifyNotifyGridState :: "MsgIntBoolPair list \<Rightarrow> DreamHero \<Rightarrow> handled" where
  "ReqModifyNotifyGridState gs h =
     (h\<lparr>info := (info h)\<lparr>grid_notify_state := gs\<rparr>\<rparr>, sendPBMessage h (MsgS2CModifyNotifyGridStateACK gs))"

section \<open>The handlers keep the hero well-formed\<close>

lemma grow_heroes_length: "0 \<le> grid \<Longrightarrow> grid < int (length (grow_heroes grid hs))"
  by (simp add: grow_heroes_def)

lemma grow_heroes_nth: "i < length hs \<Longrightarrow> grow_heroes grid hs ! i = hs ! i"
  by (simp add: grow_heroes_def nth_append)

lemma grow_heroes_le: "length hs \<le> length (grow_heroes grid hs)"
  by (simp add: grow_heroes_def)

lemma ReqModifyCurrentHero_wf [hero_wf_intros]:
  "hero_wf h \<Longrightarrow> ReqModifyCurrentHero grid h = Some (h', es) \<Longrightarrow> hero_wf h'"
  by (auto simp: ReqModifyCurrentHero_def Let_def hero_ok_defs split: if_splits)

lemma current_hero_ok_buy:
  assumes "current_hero_ok d"
  shows "current_hero_ok (d\<lparr>gold := g, heroes := (grow_heroes grid (heroes d))[nat grid := True]\<rparr>)"
proof -
  have lt: "nat (current_hero d) < length (heroes d)" using assms by (auto simp: current_hero_ok_def)
  then have "nat (current_hero d) < length (grow_heroes grid (heroes d))"
    using grow_heroes_le [of "heroes d" grid] by linarith
  moreover have "(grow_heroes grid (heroes d))[nat grid := True] ! nat (current_hero d)"
    using assms lt calculation by (cases "nat grid = nat (current_hero d)") (auto simp: current_hero_ok_def grow_heroes_nth)
  ultimately show ?thesis using assms by (auto simp: current_hero_ok_def)
qed

lemma ReqBuyHero_Some:
  assumes "ReqBuyHero cfg lg now grid offer h = Some (h', es)"
  shows "h' = h \<or> (\<exists>c. getShopConfig cfg grid = Some c \<and> 0 \<le> grid \<and> hero_price lg c grid = offer \<and> 0 \<le> wrap32 (gold (info h) - offer) \<and>
     h' = h\<lparr>info := (info h)\<lparr>gold := wrap32 (gold (info h) - offer), heroes := (grow_heroes grid (heroes (info h)))[nat grid := True]\<rparr>\<rparr>)"
  using assms by (auto simp: ReqBuyHero_def Let_def split: option.splits if_splits)

lemma ReqBuyHero_wf [hero_wf_intros]:
  "hero_wf h \<Longrightarrow> ReqBuyHero cfg lg now grid offer h = Some (h', es) \<Longrightarrow> hero_wf h'"
  by (drule ReqBuyHero_Some) (auto simp: hero_wf_def purse_ok_def current_hero_ok_buy)

lemma ReqBuySpirit_wf [hero_wf_intros]: "hero_wf h \<Longrightarrow> hero_wf (fst (ReqBuySpirit cfg now i h))"
  by (auto simp: ReqBuySpirit_def Let_def hero_ok_defs split: option.splits)

lemma recoverSpirit_wf [hero_wf_intros]:
  "hero_wf h \<Longrightarrow> in32 (config_max_spirit (cfg_global cfg)) \<Longrightarrow> hero_wf (fst (recoverSpirit cfg now h))"
  by (auto simp: recoverSpirit_def Let_def hero_ok_defs)

lemma lotions_ok_add: "lotions_ok ls \<Longrightarrow> 0 \<le> l \<Longrightarrow> l \<le> 3 \<Longrightarrow> l \<notin> set ls \<Longrightarrow> lotions_ok (ls @ [l])"
  by (auto simp: lotions_ok_def)

lemma ReqBuyLotion_wf [hero_wf_intros]: "hero_wf h \<Longrightarrow> hero_wf (fst (ReqBuyLotion cfg l h))"
  by (auto simp: ReqBuyLotion_def Let_def hero_ok_defs lotions_ok_add split: option.splits)

lemma lottery_scan_in: "lottery_scan r m e = e \<or> lottery_scan r m e \<in> snd ` set m"
  by (induction r m e rule: lottery_scan.induct) auto

lemma lottery_map_in: "snd ` set (fst (lottery_map cs a m)) \<subseteq> set cs \<union> snd ` set m"
proof (induction cs a m rule: lottery_map.induct)
  case (2 c cs a m)
  have "snd ` set (map_assign a c m) \<subseteq> insert c (snd ` set m)"
    using image_mono [OF set_map_assign [of a c m], of snd] by simp
  then show ?case using 2 by (simp only: lottery_map.simps list.simps) blast
qed simp

lemma lottery_drawn: "lottery_scan r (fst (lottery_map (b # bs) a [])) b \<in> set (b # bs)"
  using lottery_scan_in [of r "fst (lottery_map (b # bs) a [])" b] lottery_map_in [of "b # bs" a "[]"] by auto

lemma ReqDayLottery_wf [hero_wf_intros]: "hero_wf h \<Longrightarrow> hero_wf (fst (ReqDayLottery cfg now r1 r2 h))"
proof -
  assume wf: "hero_wf h"
  have ls: "lotions_ok (lotions (info h))" by (rule hero_wf_parts(2) [OF wf])
  show ?thesis
  proof (cases "lottery_boxes cfg (info h)")
    case Nil
    then show ?thesis using wf by (simp add: ReqDayLottery_def Let_def)
  next
    case (Cons b bs)
    obtain m total where mt: "lottery_map (b # bs) 0 [] = (m, total)" by fastforce
    define e where "e = lottery_scan (int r1 mod total) m b"
    have "e \<in> set (lottery_boxes cfg (info h))"
      using lottery_drawn [of "int r1 mod total" b bs 0] by (simp only: Cons mt fst_conv e_def)
    then have new: "lottery_type e = Lottery_Lotion \<Longrightarrow> sub_index e \<notin> set (lotions (info h))"
      by (auto simp: lottery_boxes_def)
    show ?thesis
      using wf ls new lotions_ok_add [OF ls, of "sub_index e"]
      by (simp add: ReqDayLottery_def Let_def Cons mt e_def [symmetric] hero_ok_defs del: lottery_map.simps)
  qed
qed

lemma ReqReliveReq_wf [hero_wf_intros]: "hero_wf h \<Longrightarrow> hero_wf (fst (ReqReliveReq cfg now h))"
  by (simp add: ReqReliveReq_def Let_def)

lemma ReqConcernWeiXin_wf [hero_wf_intros]: "hero_wf h \<Longrightarrow> hero_wf (fst (ReqConcernWeiXin cfg now k h))"
  by (simp add: ReqConcernWeiXin_def Let_def hero_ok_defs)

lemma small_changes_wf [hero_wf_intros]:
  "hero_wf h \<Longrightarrow> hero_wf (ResetDailyLottery h)"
  "hero_wf h \<Longrightarrow> hero_wf (ResetWeiXin h)"
  "hero_wf h \<Longrightarrow> hero_wf (fst (ReqModifyGold g h))"
  "hero_wf h \<Longrightarrow> hero_wf (fst (ReqResetMap ch sec h))"
  "hero_wf h \<Longrightarrow> hero_wf (fst (ReqModifyTutorialFlag fl h))"
  "hero_wf h \<Longrightarrow> hero_wf (fst (ReqRemoveAllSpecialCreatureList h))"
  "hero_wf h \<Longrightarrow> hero_wf (fst (ReqSetSpecialCreatureList i st h))"
  "hero_wf h \<Longrightarrow> hero_wf (fst (ReqModifyNotifyGridState gs h))"
  by (simp_all add: ResetDailyLottery_def ResetWeiXin_def ReqModifyGold_def ReqResetMap_def ReqModifyTutorialFlag_def
      ReqRemoveAllSpecialCreatureList_def ReqSetSpecialCreatureList_def ReqModifyNotifyGridState_def Let_def hero_ok_defs
      map_wf_erase map_wf_assign)

section \<open>The draw\<close>

text \<open>The reference: walk through the boxes and use up the drawn number.\<close>

fun pick_box :: "int \<Rightarrow> LotteryDrawBoxConfig list \<Rightarrow> LotteryDrawBoxConfig option" where
  "pick_box r [] = None"
| "pick_box r (c # cs) = (if r < rating c then Some c else pick_box (r - rating c) cs)"

lemma lottery_scan_assign:
  "map_wf m \<Longrightarrow> \<forall>k \<in> fst ` set m. k \<le> a \<Longrightarrow>
   lottery_scan r (map_assign a c m) e = (if a \<le> r then c else lottery_scan r m e)"
proof (induction m arbitrary: e)
  case (Cons p m)
  obtain k v where p: "p = (k, v)" by (cases p)
  have wf: "map_wf m" "\<forall>x \<in> fst ` set m. k < x" "k \<le> a" using Cons.prems by (auto simp: p map_wf_Cons)
  show ?case
  proof (cases "k = a")
    case True
    then have "m = []" using wf Cons.prems(2) by (cases m) (auto simp: p)
    then show ?thesis using True by (simp add: p)
  next
    case False
    then show ?thesis using Cons.IH [of v] Cons.prems wf by (auto simp: p)
  qed
qed simp

lemma lottery_map_scan:
  "\<forall>c \<in> set cs. 0 \<le> rating c \<Longrightarrow> 0 \<le> a \<Longrightarrow> a + sum_list (map rating cs) < 2147483648 \<Longrightarrow>
   map_wf m \<Longrightarrow> \<forall>k \<in> fst ` set m. k \<le> a \<Longrightarrow>
   snd (lottery_map cs a m) = a + sum_list (map rating cs) \<and>
   (r < a \<longrightarrow> lottery_scan r (fst (lottery_map cs a m)) e = lottery_scan r m e) \<and>
   (a \<le> r \<longrightarrow> r < a + sum_list (map rating cs) \<longrightarrow> Some (lottery_scan r (fst (lottery_map cs a m)) e) = pick_box (r - a) cs)"
proof (induction cs arbitrary: a m)
  case (Cons c cs)
  have nn: "0 \<le> sum_list (map rating cs)" using Cons.prems(1) by (intro sum_list_nonneg) auto
  have w: "wrap32 (a + rating c) = a + rating c"
    using Cons.prems nn by (intro wrap32_id) (auto simp: in32_def)
  have keys: "\<forall>k \<in> fst ` set (map_assign a c m). k \<le> a + rating c"
  proof -
    have "0 \<le> rating c" using Cons.prems(1) by simp
    then show ?thesis unfolding fst_set_map_assign using Cons.prems(5) by fastforce
  qed
  have IH: "snd (lottery_map cs (a + rating c) (map_assign a c m)) = a + rating c + sum_list (map rating cs) \<and>
     (r < a + rating c \<longrightarrow> lottery_scan r (fst (lottery_map cs (a + rating c) (map_assign a c m))) e = lottery_scan r (map_assign a c m) e) \<and>
     (a + rating c \<le> r \<longrightarrow> r < a + rating c + sum_list (map rating cs) \<longrightarrow>
        Some (lottery_scan r (fst (lottery_map cs (a + rating c) (map_assign a c m))) e) = pick_box (r - (a + rating c)) cs)"
    using Cons.prems keys by (intro Cons.IH) (auto simp: map_wf_assign)
  have rc: "0 \<le> rating c" using Cons.prems(1) by simp
  show ?case
    using IH lottery_scan_assign [OF Cons.prems(4,5), of r c e] rc by (auto simp: w algebra_simps)
qed simp

lemma pick_box_Some_in: "pick_box r cs = Some c \<Longrightarrow> c \<in> set cs"
  by (induction r cs rule: pick_box.induct) (auto split: if_splits)

lemma pick_box_count:
  "distinct cs \<Longrightarrow> \<forall>c \<in> set cs. 0 \<le> rating c \<Longrightarrow> c \<in> set cs \<Longrightarrow>
   card {r \<in> {0..<sum_list (map rating cs)}. pick_box r cs = Some c} = nat (rating c)"
proof (induction cs)
  case (Cons d cs)
  let ?S = "sum_list (map rating cs)"
  have nn: "0 \<le> ?S" using Cons.prems(2) by (intro sum_list_nonneg) auto
  have nd: "0 \<le> rating d" using Cons.prems(2) by simp
  show ?case
  proof (cases "c = d")
    case True
    then have notin: "c \<notin> set cs" using Cons.prems by auto
    have "{r \<in> {0..<rating d + ?S}. pick_box r (d # cs) = Some c} = {0..<rating d}"
      using True notin nn nd pick_box_Some_in by (auto split: if_splits)
    then show ?thesis using True by simp
  next
    case False
    then have cin: "c \<in> set cs" using Cons.prems(3) by simp
    have "{r \<in> {0..<rating d + ?S}. pick_box r (d # cs) = Some c} =
        (\<lambda>r. r + rating d) ` {r \<in> {0..<?S}. pick_box r cs = Some c}"
    proof (intro set_eqI iffI)
      fix x assume x: "x \<in> {r \<in> {0..<rating d + ?S}. pick_box r (d # cs) = Some c}"
      then have "x - rating d \<in> {r \<in> {0..<?S}. pick_box r cs = Some c}" using False by (auto split: if_splits)
      then show "x \<in> (\<lambda>r. r + rating d) ` {r \<in> {0..<?S}. pick_box r cs = Some c}" by (rule rev_image_eqI) simp
    qed (use nd False in auto)
    then have "card {r \<in> {0..<rating d + ?S}. pick_box r (d # cs) = Some c} = card {r \<in> {0..<?S}. pick_box r cs = Some c}"
      by (simp add: card_image inj_on_def)
    then show ?thesis using Cons.IH [OF _ _ cin] Cons.prems by simp
  qed
qed simp

section \<open>Properties\<close>

text \<open>
  C22. The draw of \<open>DreamHero::ReqDayLottery\<close> is fair: with non-negative ratings whose sum is an \<open>int\<close>,
  the map of cumulated ratings and its scan select each of the distinct boxes for exactly
  \<open>rating\<close> of the possible values of \<open>rand() % sum\<close>.
\<close>

theorem lottery_fair:
  assumes "distinct cs" "\<forall>c \<in> set cs. 0 \<le> rating c" "sum_list (map rating cs) < 2147483648" "c \<in> set cs"
  shows "card {r \<in> {0..<sum_list (map rating cs)}. lottery_scan r (fst (lottery_map cs 0 [])) (hd cs) = c} = nat (rating c)"
proof -
  have eq: "lottery_scan r (fst (lottery_map cs 0 [])) (hd cs) = c \<longleftrightarrow> pick_box r cs = Some c"
    if "r \<in> {0..<sum_list (map rating cs)}" for r
    using lottery_map_scan [of cs 0 "[]" r "hd cs"] assms(2,3) that by (metis add_0 atLeastLessThan_iff diff_zero
        empty_iff image_empty list.set(1) map_wf_Nil option.inject order_refl)
  have "{r \<in> {0..<sum_list (map rating cs)}. lottery_scan r (fst (lottery_map cs 0 [])) (hd cs) = c} =
      {r \<in> {0..<sum_list (map rating cs)}. pick_box r cs = Some c}"
    by (rule Collect_cong) (use eq in blast)
  then show ?thesis using pick_box_count [OF assms(1,2,4)] by simp
qed

definition gold_box :: LotteryDrawBoxConfig where
  "gold_box = \<lparr>lottery_type = Lottery_Gold, sub_index = 0, base_count = 25, random_count = 0, rating = 30\<rparr>"

definition jewel_box :: LotteryDrawBoxConfig where
  "jewel_box = \<lparr>lottery_type = Lottery_Jewel, sub_index = 0, base_count = 1, random_count = 0, rating = 10\<rparr>"

theorem lottery_fair_witness:
  "card {r \<in> {0..<40}. lottery_scan r (fst (lottery_map [gold_box, jewel_box] 0 [])) gold_box = jewel_box} = 10"
  using lottery_fair [of "[gold_box, jewel_box]" jewel_box] by (simp add: gold_box_def jewel_box_def)

text \<open>
  The lottery of the day: after a draw at or after the refresh hour, every further request on the
  same calendar day is refused and leaves the hero as he is.
\<close>

theorem lottery_once_a_day:
  assumes "0 \<le> day_Refresh_time (cfg_global cfg)" "day_Refresh_time (cfg_global cfg) \<le> local_hour (cfg_tz cfg) t"
    "last_day_lottery_time h = t" "t \<le> now" "local_day (cfg_tz cfg) now = local_day (cfg_tz cfg) t"
  shows "fst (ReqDayLottery cfg now r1 r2 h) = h"
proof -
  have "t + cfg_tz cfg - local_day (cfg_tz cfg) t * 86400 \<le> now + cfg_tz cfg - local_day (cfg_tz cfg) now * 86400"
    using assms(4,5) by simp
  then have "day_Refresh_time (cfg_global cfg) \<le> local_hour (cfg_tz cfg) now"
    using assms(2) local_hour_le_iff [of "day_Refresh_time (cfg_global cfg)"] by (meson order_trans)
  then have "isInToday cfg now t" using isInToday_after_refresh [of cfg now t] assms by simp
  then show ?thesis by (simp add: ReqDayLottery_def Let_def assms(3))
qed

definition sample_lottery :: GameConfig where
  "sample_lottery = sample_config\<lparr>cfg_lottery := [gold_box]\<rparr>"

theorem lottery_once_a_day_witness:
  "fst (ReqDayLottery sample_lottery (30 * 3600) 0 0 (sample_hero\<lparr>last_day_lottery_time := 25 * 3600\<rparr>)) =
     sample_hero\<lparr>last_day_lottery_time := 25 * 3600\<rparr>"
  using lottery_once_a_day [of sample_lottery "25 * 3600" "sample_hero\<lparr>last_day_lottery_time := 25 * 3600\<rparr>" "30 * 3600" 0 0]
  by (simp add: sample_lottery_def sample_config_def sample_global_def local_hour_def local_day_def)

text \<open>
  Before the refresh hour the daily limit of the lottery does not hold: whenever the last draw was,
  be it a second ago, the request is granted again; with a single gold box of fixed content each
  request pays its gold.
\<close>

theorem lottery_unlimited_before_refresh:
  assumes "local_hour (cfg_tz cfg) now < day_Refresh_time (cfg_global cfg)" "last_day_lottery_time h \<le> now"
    "cfg_lottery cfg = [b]" "lottery_type b = Lottery_Gold" "0 < rating b" "in32 (rating b)" "random_count b = 0" "base_count b \<noteq> 0"
    "in32 (base_count b)" "in_u32 now"
  shows "gold (info (fst (ReqDayLottery cfg now r1 r2 h))) = wrap32 (gold (info h) + base_count b) \<and>
    last_day_lottery_time (fst (ReqDayLottery cfg now r1 r2 h)) = now"
proof -
  have "\<not> isInToday cfg now (last_day_lottery_time h)" using isInToday_before_refresh assms(1,2) by blast
  moreover have "lottery_boxes cfg (info h) = [b]" by (simp add: lottery_boxes_def assms)
  moreover have "0 \<le> int r1 mod rating b" using assms(5) by simp
  ultimately show ?thesis using assms by (simp add: ReqDayLottery_def Let_def wrap32_id wrap_u32_id)
qed

theorem lottery_unlimited_before_refresh_witness:
  "gold (info (fst (ReqDayLottery sample_lottery (20 * 3600) 0 0 (sample_hero\<lparr>last_day_lottery_time := 20 * 3600\<rparr>)))) = 125"
  using lottery_unlimited_before_refresh [of sample_lottery "20 * 3600" "sample_hero\<lparr>last_day_lottery_time := 20 * 3600\<rparr>" gold_box 0 0]
  by (simp add: sample_lottery_def sample_config_def sample_global_def local_hour_def gold_box_def in32_def in_u32_def
      sample_hero_def sample_info_def wrap32_def)

definition buy_allowed :: "MsgShopConfigInfo \<Rightarrow> int \<Rightarrow> int \<Rightarrow> DreamHero \<Rightarrow> bool" where
  "buy_allowed c p offer h \<longleftrightarrow>
     (shop_require_chapter_id c = 0 \<or> shop_require_section_id c = 0 \<or>
      (\<exists>r \<in> set (records (info h)). fst r = shop_require_chapter_id c \<and> shop_require_section_id c \<le> snd r)) \<and>
     p = offer \<and> p \<le> gold (info h)"


definition sample_shop :: GameConfig where
  "sample_shop = sample_config\<lparr>cfg_shop_heroes := [(4, \<lparr>grid_id = 4, hero_id = 1, shop_require_gold = 80, cheape_gold = 0,
     shop_require_chapter_id = 1, shop_require_section_id = 1, shop_describe = [], shop_open = True\<rparr>)]\<rparr>"


text \<open>
  \<open>DreamHero::ReqBuySpirit\<close> respects the daily number of purchases and never overdraws: the count
  never exceeds the configured limit, and jewels are taken only when there are enough of them.
\<close>

theorem buy_spirit_limits:
  assumes "hero_wf h" "day_buy_spirit (info h) \<le> config_day_buy_spirit (cfg_global cfg)" "in32 (config_day_buy_spirit (cfg_global cfg))"
    "in32 (day_buy_spirit (info h))" "0 \<le> jewel (info h)"
    "\<forall>i c. getSpiritShop cfg i = Some c \<longrightarrow> 0 \<le> need_jewel c"
  shows "day_buy_spirit (info (fst (ReqBuySpirit cfg now i h))) \<le> config_day_buy_spirit (cfg_global cfg) \<and>
    0 \<le> jewel (info (fst (ReqBuySpirit cfg now i h))) \<and> jewel (info (fst (ReqBuySpirit cfg now i h))) \<le> jewel (info h)"
proof (cases "getSpiritShop cfg i")
  case None
  then show ?thesis using assms by (simp add: ReqBuySpirit_def Let_def)
next
  case (Some c)
  have nj: "0 \<le> need_jewel c" using assms(6) Some by blast
  have "wrap32 (jewel (info h) - need_jewel c) = jewel (info h) - need_jewel c" if "need_jewel c \<le> jewel (info h)"
    using that assms(5) nj hero_wf_parts(6) [OF assms(1)] by (intro wrap32_id) (auto simp: purse_ok_def in32_def)
  moreover have "wrap32 (day_buy_spirit (info h) + 1) = day_buy_spirit (info h) + 1"
    if "day_buy_spirit (info h) < config_day_buy_spirit (cfg_global cfg)"
    using that assms(3,4) by (intro wrap32_id) (auto simp: in32_def)
  ultimately show ?thesis using assms(2,5) nj Some by (auto simp: ReqBuySpirit_def Let_def)
qed

theorem buy_spirit_limits_witness:
  "day_buy_spirit (info (fst (ReqBuySpirit (sample_config\<lparr>cfg_spirit_shop :=
      [(1, \<lparr>spirit_index = 1, spirit_amount = 5, need_jewel = 8, spirit_resource_id = 0, spirit_describe = []\<rparr>)]\<rparr>) 100 1 sample_hero))) \<le> 3"
proof -
  let ?cfg = "sample_config\<lparr>cfg_spirit_shop :=
      [(1, \<lparr>spirit_index = 1, spirit_amount = 5, need_jewel = 8, spirit_resource_id = 0, spirit_describe = []\<rparr>)]\<rparr>"
  have "config_day_buy_spirit (cfg_global ?cfg) = 3" by (simp add: sample_config_def sample_global_def)
  moreover have "\<forall>i c. getSpiritShop ?cfg i = Some c \<longrightarrow> 0 \<le> need_jewel c" by (auto simp: getSpiritShop_def split: if_splits)
  moreover have "day_buy_spirit (info sample_hero) = 0" "jewel (info sample_hero) = 20" by (simp_all add: sample_hero_def sample_info_def)
  ultimately show ?thesis using buy_spirit_limits [OF sample_hero_wf, of ?cfg 100 1] by (simp add: in32_def)
qed

end
