(* ===== verification/DreamHeroManager.thy ===== *)
theory DreamHeroManager
  imports Hero_Login Hero_Shop "HOL-Library.Char_ord" "HOL-Library.List_Lexorder" "HOL-Library.Multiset"
begin

text \<open>
  \<open>gameserver/DreamHeroManager.cpp\<close>, with \<open>RankManager::DailyGameUpdate\<close>, which walks over its heroes:
  the players in memory, how they are created and destroyed, the names and order numbers it hands
  out, and the timed events of the server (every minute, the day change, the spirit recovery).
\<close>

section \<open>State\<close>

record DreamHeroManager =
  mg_heroes :: "(int, DreamHero) smap"
  mg_day_number :: "int list list"
  mg_save_all_heroes_ok :: bool
  mg_day_create_heroes_count :: int
  mg_hero_day_title :: string
  mg_names :: "string list"
  mg_last_save_time :: int
  mg_heroes_orders :: "(string, int) smap"
  mg_deal_order_id :: int

text \<open>The managers of a game server together.\<close>

record game =
  g_cfg :: GameConfig
  g_sales :: ShopSalesPromotionManager
  g_ranks :: RankManager
  g_mgr :: DreamHeroManager

section \<open>Names and orders\<close>

definition AddHeroOrder :: "int \<Rightarrow> string \<Rightarrow> DreamHeroManager \<Rightarrow> DreamHeroManager \<times> bool" where
  "AddHeroOrder acc order m =
     (case map_find order (mg_heroes_orders m) of
        None \<Rightarrow> (m\<lparr>mg_heroes_orders := map_assign order acc (mg_heroes_orders m)\<rparr>, True)
      | Some _ \<Rightarrow> (m, False))"

definition getOrderAcc :: "DreamHeroManager \<Rightarrow> string \<Rightarrow> int" where
  "getOrderAcc m order = (case map_find order (mg_heroes_orders m) of None \<Rightarrow> 0 | Some a \<Rightarrow> a)"

text \<open>\<open>generateStr\<close>: the server character, the title of the day (both as a C string, which ends at the
  first NUL) and six digits, each sent through its own row of \<open>_day_number\<close>. The keys are counters that
  start at zero, so the digits are not negative.\<close>

definition key_digit :: "int \<Rightarrow> nat \<Rightarrow> int" where
  "key_digit key i = (key sdiv (10 ^ i)) smod 10"

definition generateStr :: "GameConfig \<Rightarrow> DreamHeroManager \<Rightarrow> int \<Rightarrow> string \<Rightarrow> string" where
  "generateStr cfg m key argu =
     takeWhile (\<lambda>c. c \<noteq> CHR 0x00) (char_of (nat (cfg_server_char cfg mod 256)) # mg_hero_day_title m) @
     concat (map (\<lambda>i. show_int (mg_day_number m ! i ! nat (key_digit key i))) [0..<6]) @ argu"

text \<open>\<open>generateName\<close> calls itself for every stored name that equals the candidate, to a depth of 101
  (\<open>count > 100\<close>); the first argument is the depth that is left. The loop over the stored names goes
  on with the new candidate.\<close>

abbreviation (input) bump_names :: "DreamHeroManager \<Rightarrow> DreamHeroManager" where
  "bump_names m \<equiv> m\<lparr>mg_day_create_heroes_count := wrap32 (mg_day_create_heroes_count m + 1)\<rparr>"

function generate_name :: "GameConfig \<Rightarrow> int \<Rightarrow> nat \<Rightarrow> DreamHeroManager \<Rightarrow> string \<times> DreamHeroManager \<times> pushes"
  and names_loop :: "GameConfig \<Rightarrow> int \<Rightarrow> nat \<Rightarrow> string list \<Rightarrow> string \<times> DreamHeroManager \<times> pushes \<Rightarrow> string \<times> DreamHeroManager \<times> pushes" where
  "generate_name cfg now 0 m =
     (let m1 = bump_names m in (generateStr cfg m1 (mg_day_create_heroes_count m1) ''q'', m1, []))"
| "generate_name cfg now (Suc n) m =
     (let m1 = bump_names m; nm = generateStr cfg m1 (mg_day_create_heroes_count m1) []
      in names_loop cfg now n (mg_names m1)
           (nm, m1, generateNameRecord now nm (mg_day_create_heroes_count m1) (mg_hero_day_title m1)))"
| "names_loop cfg now n [] st = st"
| "names_loop cfg now n (x # xs) (nm, m, ps) =
     (if nm = x
      then let (nm', m', ps') = generate_name cfg now n m in names_loop cfg now n xs (nm', m', ps @ ps')
      else names_loop cfg now n xs (nm, m, ps))"
  by pat_completeness auto
termination
  by (relation "measures [\<lambda>x. case x of Inl (cfg, now, n, m) \<Rightarrow> 2 * n | Inr (cfg, now, n, xs, st) \<Rightarrow> 2 * n + 1,
      \<lambda>x. case x of Inl _ \<Rightarrow> 0 | Inr (cfg, now, n, xs, st) \<Rightarrow> length xs]") auto

definition generateName :: "GameConfig \<Rightarrow> int \<Rightarrow> DreamHeroManager \<Rightarrow> string \<times> DreamHeroManager \<times> pushes" where
  "generateName cfg now m = generate_name cfg now 101 m"

definition generateDealOrderID :: "GameConfig \<Rightarrow> int \<Rightarrow> DreamHeroManager \<Rightarrow> DreamHeroManager \<times> string" where
  "generateDealOrderID cfg acc m =
     (let m1 = m\<lparr>mg_deal_order_id := wrap32 (mg_deal_order_id m + 1)\<rparr>;
          order = generateStr cfg m1 (mg_deal_order_id m1) ''order''
      in (fst (AddHeroOrder acc order m1), order))"

text \<open>\<open>DreamHero::ReqApplyHeroDeal\<close>, whose order number is registered but sent to nobody. No message is
  registered for it.\<close>

definition ReqApplyHeroDeal :: "GameConfig \<Rightarrow> int \<Rightarrow> int \<Rightarrow> DreamHero \<Rightarrow> DreamHeroManager \<Rightarrow> DreamHeroManager \<times> effect list" where
  "ReqApplyHeroDeal cfg http_channel shop h m =
     (case Option.bind (getGoldShopConfigInfos cfg (channel h)) (map_find shop) of
        None \<Rightarrow> (m, sendPBMessage h (MsgS2CApplyDealACK shop [] [] Error_FailedToApplyDealOrderNotFooundConfig))
      | Some c \<Rightarrow>
          (fst (generateDealOrderID cfg (account h) m),
           Http (CreateDealHttpTask (account h) (hero_name (info h)) (appstore_product_id c) http_channel) #
           sendPBMessage h (MsgS2CApplyDealACK shop [] [] Error_NO)))"

definition char_configs :: "int \<Rightarrow> char" where
  "char_configs i = char_of (nat (97 + i))"

definition refreshHeroTitle :: "GameConfig \<Rightarrow> int \<Rightarrow> DreamHeroManager \<Rightarrow> DreamHeroManager" where
  "refreshHeroTitle cfg now m =
     (let open_time = cfg_server_open_time cfg
      in if open_time < now
         then let day_spawn = (open_time + cfg_tz cfg) mod 86400;
                  number = (now - (open_time - day_spawn)) sdiv 86400
              in m\<lparr>mg_hero_day_title := [char_configs (number smod 26), char_configs ((number sdiv 26) smod 26),
                     char_configs ((number sdiv 676) smod 26), CHR 0x00]\<rparr>
         else m\<lparr>mg_hero_day_title := ''aaa''\<rparr>)"

definition day_number_text :: "int list list \<Rightarrow> string" where
  "day_number_text rows = join CHR '';'' (map (\<lambda>row. join CHR '','' (map show_int row)) rows)"

definition manager_save :: "GameConfig \<Rightarrow> RankManager \<Rightarrow> int \<Rightarrow> DreamHeroManager \<Rightarrow> DreamHeroManager \<times> effect list" where
  "manager_save cfg rm now m =
     (m\<lparr>mg_last_save_time := now\<rparr>,
      [Db (ReplaceStatus \<lparr>hs_server_id = [char_of (nat (cfg_server_char cfg mod 256))],
         hs_day_create_heroes_count = mg_day_create_heroes_count m, hs_day_number = day_number_text (mg_day_number m),
         hs_heroes_online_count = int (length (mg_heroes m)), hs_save_time = now,
         hs_deal_order_id = mg_deal_order_id m, hs_daily_game_begin_time = daily_game_begin_time rm\<rparr>)])"

text \<open>\<open>refreshDayNumber\<close>: \<open>std::random_shuffle\<close> is the parameter \<open>sh\<close>; each round shuffles the result of
  the one before.\<close>

fun shuffled_rows :: "(nat \<Rightarrow> int list \<Rightarrow> int list) \<Rightarrow> nat \<Rightarrow> nat \<Rightarrow> int list \<Rightarrow> int list list" where
  "shuffled_rows sh i 0 vc = []"
| "shuffled_rows sh i (Suc n) vc = (let vc' = sh i vc in vc' # shuffled_rows sh (Suc i) n vc')"

definition refreshDayNumber ::
  "GameConfig \<Rightarrow> RankManager \<Rightarrow> int \<Rightarrow> (nat \<Rightarrow> int list \<Rightarrow> int list) \<Rightarrow> DreamHeroManager \<Rightarrow> DreamHeroManager \<times> effect list" where
  "refreshDayNumber cfg rm now sh m =
     manager_save cfg rm now (refreshHeroTitle cfg now
       (m\<lparr>mg_day_number := shuffled_rows sh 0 6 [0..9], mg_day_create_heroes_count := 0\<rparr>))"

section \<open>Loading\<close>

definition read_day_number :: "string \<Rightarrow> int list list" where
  "read_day_number s = map (\<lambda>row. map (\<lambda>x. atoi x mod 256) (SplitStringA row '','')) (SplitStringA s '';'')"

text \<open>The loop writes into the array \<open>u8 _day_number[6][10]\<close>; text that has more entries writes outside
  of it.\<close>

definition overwrite :: "'a list \<Rightarrow> 'a list \<Rightarrow> 'a list" where
  "overwrite new old = new @ drop (length new) old"

definition load_day_number :: "string \<Rightarrow> int list list \<Rightarrow> int list list option" where
  "load_day_number s old =
     (let rows = read_day_number s
      in if length rows \<le> 6 \<and> (\<forall>row \<in> set rows. length row \<le> 10)
         then Some (map (\<lambda>(new, row). overwrite new row) (zip rows old) @ drop (length rows) old) else None)"

definition DreamHeroManager_Load ::
  "heroes_status_row list \<Rightarrow> string list \<Rightarrow> RankManager \<Rightarrow> DreamHeroManager \<Rightarrow> (DreamHeroManager \<times> RankManager) option" where
  "DreamHeroManager_Load rows names rm m =
     (case rows of
        [] \<Rightarrow> Some (m, rm)
      | row # _ \<Rightarrow>
          map_option (\<lambda>dn. (m\<lparr>mg_day_create_heroes_count := hs_day_create_heroes_count row, mg_day_number := dn,
                 mg_last_save_time := hs_save_time row, mg_deal_order_id := hs_deal_order_id row,
                 mg_names := mg_names m @ names\<rparr>,
               rm\<lparr>daily_game_begin_time := wrap_u32 (hs_daily_game_begin_time row)\<rparr>))
            (load_day_number (hs_day_number row) (mg_day_number m)))"

section \<open>Heroes in memory\<close>

definition GetHero :: "DreamHeroManager \<Rightarrow> int \<Rightarrow> DreamHero option" where
  "GetHero m acc = map_find acc (mg_heroes m)"

definition put_hero :: "int \<Rightarrow> DreamHero \<Rightarrow> DreamHeroManager \<Rightarrow> DreamHeroManager" where
  "put_hero acc h m = m\<lparr>mg_heroes := map_assign acc h (mg_heroes m)\<rparr>"

text \<open>\<open>set_account\<close>, \<open>set_session\<close> and \<open>StopDestroyClock\<close>, which end both versions of \<open>CreateHero\<close>.\<close>

definition attach_session :: "int \<Rightarrow> int \<Rightarrow> DreamHero \<Rightarrow> DreamHero" where
  "attach_session t acc h = h\<lparr>account := acc, session := Some t, destroy_clock := False\<rparr>"

definition CreateHero_data :: "int \<Rightarrow> MsgHeroDataDB2GS \<Rightarrow> int \<Rightarrow> int \<Rightarrow> int \<Rightarrow> game \<Rightarrow> (game \<times> effect list) option" where
  "CreateHero_data now msg acc t ch g =
     (case GetHero (g_mgr g) acc of
        Some h \<Rightarrow> Some (g\<lparr>g_mgr := put_hero acc (attach_session t acc h) (g_mgr g)\<rparr>, [])
      | None \<Rightarrow>
          map_option (\<lambda>(h, fx). (g\<lparr>g_mgr := (g_mgr g)\<lparr>mg_heroes :=
                map_insert (db_account msg) (attach_session t acc h) (mg_heroes (g_mgr g))\<rparr>\<rparr>, fx))
            (set_info (g_cfg g) (ledger (g_sales g)) (g_ranks g) now msg ch DreamHero_new))"

definition CreateHero_new :: "int \<Rightarrow> int \<Rightarrow> int \<Rightarrow> int \<Rightarrow> game \<Rightarrow> game \<times> effect list" where
  "CreateHero_new now acc t ch g =
     (case GetHero (g_mgr g) acc of
        Some h \<Rightarrow> (g\<lparr>g_mgr := put_hero acc (attach_session t acc h) (g_mgr g)\<rparr>, [])
      | None \<Rightarrow>
          let (name, m, ps) = generateName (g_cfg g) now (g_mgr g)
          in (g\<lparr>g_mgr := put_hero acc (attach_session t acc (LoadFromConfig (g_cfg g) name ch DreamHero_new)) m\<rparr>, recs ps))"

definition DestroyHero :: "int \<Rightarrow> DreamHeroManager \<Rightarrow> DreamHeroManager" where
  "DestroyHero acc m = m\<lparr>mg_heroes := map_erase acc (mg_heroes m)\<rparr>"

text \<open>\<open>DreamHero::Destroy\<close>, the event that ends the life of a hero without a session.\<close>

definition Destroy :: "int \<Rightarrow> int \<Rightarrow> game \<Rightarrow> game \<times> effect list" where
  "Destroy now acc g =
     (case GetHero (g_mgr g) acc of
        None \<Rightarrow> (g, [])
      | Some h \<Rightarrow> (g\<lparr>g_mgr := DestroyHero acc (g_mgr g)\<rparr>, recs (loginOutRecord now (account h) (hero_name (info h)))))"

definition GetHeroByName :: "DreamHeroManager \<Rightarrow> string \<Rightarrow> (int \<times> DreamHero) option" where
  "GetHeroByName m name = find (\<lambda>(k, h). hero_name (info h) = name) (mg_heroes m)"

definition SaveDreamHeroes :: "int \<Rightarrow> game \<Rightarrow> game \<times> effect list" where
  "SaveDreamHeroes now g =
     (let (m, fx) = manager_save (g_cfg g) (g_ranks g) now (g_mgr g)
      in (g\<lparr>g_mgr := m\<rparr>, map (Db \<circ> RankSql) (rank_save (g_ranks g)) @ fx @
            concat (map (\<lambda>(k, h). SaveHero now h) (mg_heroes m)) @ [SaveAllHeroes]))"

definition CollectInfo :: "int \<Rightarrow> DreamHeroManager \<Rightarrow> pushes" where
  "CollectInfo now m = gameOnlineRecord now (int (length (filter (\<lambda>(k, h). online h) (mg_heroes m))))
     (int (length (filter (\<lambda>(k, h). \<not> online h) (mg_heroes m))))"

definition OfflineHeroDealWaitToPay :: "int \<Rightarrow> int \<Rightarrow> int \<Rightarrow> string \<Rightarrow> int \<Rightarrow> effect list" where
  "OfflineHeroDealWaitToPay now order acc product status =
     [Db (ReplaceDeal order acc product status 0 now
        (if status \<noteq> 0 then DealStatusType_Failed else DealStatusType_WaitPrepareToPay))]"

section \<open>Timed events\<close>

text \<open>Every hero in turn; the second argument counts them, for the random numbers.\<close>

fun each_hero :: "(nat \<Rightarrow> DreamHero \<Rightarrow> handled) \<Rightarrow> nat \<Rightarrow> (int, DreamHero) smap \<Rightarrow> (int, DreamHero) smap \<times> effect list" where
  "each_hero f i [] = ([], [])"
| "each_hero f i ((k, h) # hs) =
     (let (h1, fx) = f i h; (hs1, fx1) = each_hero f (Suc i) hs in ((k, h1) # hs1, fx @ fx1))"

definition for_heroes :: "(nat \<Rightarrow> DreamHero \<Rightarrow> handled) \<Rightarrow> game \<Rightarrow> game \<times> effect list" where
  "for_heroes f g = (let (hs, fx) = each_hero f 0 (mg_heroes (g_mgr g)) in (g\<lparr>g_mgr := (g_mgr g)\<lparr>mg_heroes := hs\<rparr>\<rparr>, fx))"

definition manager_recoverSpirit :: "int \<Rightarrow> game \<Rightarrow> game \<times> effect list" where
  "manager_recoverSpirit now g = for_heroes (\<lambda>i. recoverSpirit (g_cfg g) now) g"

text \<open>
  \<open>RankManager::DailyGameUpdate\<close>: over the rank list, the rows are stored in batches as in \<open>save\<close>, a hero
  in memory is awarded his prize, and for another one an update statement is collected, twenty at
  a time; then every hero in memory asks for his prize, and the list is cleared.
\<close>

record daily_acc =
  da_number :: nat
  da_sql_rank :: "DailyGameRankTg sqlpiece list"
  da_i :: nat
  da_sql :: "(int \<times> int \<times> int) list"
  da_heroes :: "(int, DreamHero) smap"
  da_fx :: "effect list"

definition daily_entry :: "GameConfig \<Rightarrow> int \<Rightarrow> DailyGameRankTg \<Rightarrow> daily_acc \<Rightarrow> daily_acc" where
  "daily_entry cfg begin_time e a =
     (let sql_rank = (if da_number a = 0 then [Head] else da_sql_rank a @ [Comma]) @ [Row e];
          prize = GetDailyGamePrize cfg (rk_rank e);
          flush = (20 \<le> da_number a);
          a1 = a\<lparr>da_number := Suc (if flush then 0 else da_number a), da_sql_rank := (if flush then [] else sql_rank),
                 da_fx := da_fx a @ (if flush then [Db (RankSql (ReplaceRanks sql_rank))] else [])\<rparr>
      in case map_find (rk_acc e) (da_heroes a) of
           Some h \<Rightarrow>
             let (h1, fx) = DailyGamePrize prize h
             in a1\<lparr>da_heroes := map_assign (rk_acc e) h1 (da_heroes a1), da_fx := da_fx a1 @ fx\<rparr>
         | None \<Rightarrow>
             let sql = da_sql a @ [(prize, begin_time, rk_acc e)]
             in if 20 \<le> Suc (da_i a) then a1\<lparr>da_i := 0, da_sql := [], da_fx := da_fx a1 @ [Db (UpdatePrize sql)]\<rparr>
                else a1\<lparr>da_i := Suc (da_i a), da_sql := sql\<rparr>)"

definition DailyGameUpdate :: "int \<Rightarrow> game \<Rightarrow> game \<times> effect list" where
  "DailyGameUpdate now g =
     (let rm = g_ranks g;
          a = fold (daily_entry (g_cfg g) (daily_game_begin_time rm)) (heroes_daily_rank rm)
                \<lparr>da_number = 0, da_sql_rank = [], da_i = 0, da_sql = [], da_heroes = mg_heroes (g_mgr g),
                 da_fx = [Db (RankSql DeleteRanks)]\<rparr>;
          g1 = g\<lparr>g_mgr := (g_mgr g)\<lparr>mg_heroes := da_heroes a\<rparr>\<rparr>;
          (g2, fx) = for_heroes (\<lambda>i. TryToGetGamePrize (g_cfg g) rm True) g1
      in (g2\<lparr>g_ranks := (ClearRankList rm)\<lparr>daily_game_begin_time := wrap_u32 now\<rparr>\<rparr>,
          da_fx a @ (if da_sql_rank a = [] then [] else [Db (RankSql (ReplaceRanks (da_sql_rank a)))]) @
          (if da_sql a = [] then [] else [Db (UpdatePrize (da_sql a))]) @ fx))"

definition manager_dayRefresh :: "int \<Rightarrow> (nat \<Rightarrow> nat) \<Rightarrow> game \<Rightarrow> game \<times> effect list" where
  "manager_dayRefresh now rs g =
     (let (g1, fx1) = DailyGameUpdate now g;
          (g2, fx2) = for_heroes (\<lambda>i. dayRefresh (g_cfg g) now (rs i) True) g1
      in (g2, fx1 @ fx2))"

definition local_min :: "int \<Rightarrow> int \<Rightarrow> int" where
  "local_min tz t = ((t + tz) mod 3600) div 60"

definition eventPerMin :: "int \<Rightarrow> (nat \<Rightarrow> nat) \<Rightarrow> (nat \<Rightarrow> int list \<Rightarrow> int list) \<Rightarrow> game \<Rightarrow> (game \<times> effect list) option" where
  "eventPerMin now rs sh g =
     (let tz = cfg_tz (g_cfg g)
      in if local_min tz now = 0
         then let (g1, fx1) = (if local_hour tz now = day_Refresh_time (cfg_global (g_cfg g)) then manager_dayRefresh now rs g else (g, []))
              in if local_hour tz now = 0
                 then map_option (\<lambda>(sales, cfg).
                        let (m, fx2) = refreshDayNumber cfg (g_ranks g1) now sh (g_mgr g1)
                        in (g1\<lparr>g_sales := sales, g_cfg := cfg, g_mgr := m\<rparr>, fx1 @ fx2))
                        (ShopSales_DayPass now (g_sales g1, g_cfg g1))
                 else Some (g1, fx1)
         else Some (g, []))"

definition RankManager_Init :: "int \<Rightarrow> game \<Rightarrow> game \<times> effect list" where
  "RankManager_Init now g = (if daily_game_begin_time (g_ranks g) = 0 then DailyGameUpdate now g else (g, []))"

definition DreamHeroManager_init :: "int \<Rightarrow> (nat \<Rightarrow> int list \<Rightarrow> int list) \<Rightarrow> game \<Rightarrow> game \<times> effect list" where
  "DreamHeroManager_init now sh g =
     (let cfg = g_cfg g; m1 = refreshHeroTitle cfg now ((g_mgr g)\<lparr>mg_save_all_heroes_ok := False\<rparr>);
          (m2, fx) = (if same_day (cfg_tz cfg) (wrap_u32 (mg_last_save_time m1)) (wrap_u32 now) then (m1, [])
                      else refreshDayNumber cfg (g_ranks g) now sh m1);
          (g1, fx1) = RankManager_Init now (g\<lparr>g_mgr := m2\<rparr>)
      in (g1, fx @ fx1))"

section \<open>Names of a day are different\<close>

text \<open>Six rows, each a permutation of the ten digits.\<close>

definition day_number_ok :: "int list list \<Rightarrow> bool" where
  "day_number_ok rows \<longleftrightarrow> length rows = 6 \<and> (\<forall>row \<in> set rows. length row = 10 \<and> distinct row \<and> set row \<subseteq> {0..9})"

lemma key_digit_nonneg: "0 \<le> k \<Longrightarrow> key_digit k i = (k div 10 ^ i) mod 10"
proof -
  assume k: "0 \<le> k"
  then have d: "k sdiv 10 ^ i = k div 10 ^ i" by (simp add: sdiv_nonneg)
  have "0 \<le> k div 10 ^ i" using k by (simp add: pos_imp_zdiv_nonneg_iff)
  then show ?thesis unfolding key_digit_def d
    using sdiv_mult_smod_eq [of "k div 10 ^ i" 10] by (simp add: sdiv_nonneg minus_div_mult_eq_mod [symmetric])
qed

lemma key_digit_range: "0 \<le> k \<Longrightarrow> 0 \<le> key_digit k i \<and> key_digit k i < 10"
  by (simp add: key_digit_nonneg)

lemma six_digits:
  "0 \<le> n \<Longrightarrow> n < 1000000 \<Longrightarrow> n = n mod 10 + 10 * ((n div 10) mod 10) + 100 * ((n div 100) mod 10) +
     1000 * ((n div 1000) mod 10) + 10000 * ((n div 10000) mod 10) + 100000 * ((n div 100000) mod 10)" for n :: int
proof -
  assume n: "0 \<le> n" "n < 1000000"
  have d: "n div 10 div 10 = n div 100" "n div 100 div 10 = n div 1000" "n div 1000 div 10 = n div 10000"
    "n div 10000 div 10 = n div 100000" by (simp_all add: zdiv_zmult2_eq [symmetric])
  note div_mult_mod_eq [of "n div 10" 10, unfolded d] div_mult_mod_eq [of "n div 100" 10, unfolded d]
    div_mult_mod_eq [of "n div 1000" 10, unfolded d] div_mult_mod_eq [of "n div 10000" 10, unfolded d]
  moreover have "(n div 100000) mod 10 = n div 100000"
    using n by (intro mod_pos_pos_trivial) (simp_all add: pos_imp_zdiv_nonneg_iff div_less_iff_less_mult)
  ultimately show ?thesis using div_mult_mod_eq [of n 10] by linarith
qed

lemma digits_determine:
  assumes "0 \<le> j" "j < 1000000" "0 \<le> k" "k < 1000000" "\<forall>i < 6. key_digit j i = key_digit k i"
  shows "j = k"
proof -
  have "(j div 10 ^ i) mod 10 = (k div 10 ^ i) mod 10" if "i < 6" for i
    using assms that by (simp add: key_digit_nonneg)
  from this [of 0] this [of 1] this [of 2] this [of 3] this [of 4] this [of 5] show ?thesis
    using six_digits [OF assms(1,2)] six_digits [OF assms(3,4)] by simp
qed

lemma show_int_digit: "0 \<le> d \<Longrightarrow> d < 10 \<Longrightarrow> show_int d = [digit_char (nat d)]"
  by (simp add: show_int_def show_nat.simps)

lemma digit_char_inj: "a < 10 \<Longrightarrow> b < 10 \<Longrightarrow> digit_char a = digit_char b \<Longrightarrow> a = b"
  by (metis digit_val_digit_char of_nat_eq_iff)

lemma day_digit:
  assumes "day_number_ok rows" "i < 6" "0 \<le> k"
  shows "0 \<le> rows ! i ! nat (key_digit k i)" "rows ! i ! nat (key_digit k i) < 10"
proof -
  have row: "rows ! i \<in> set rows" using assms by (auto simp: day_number_ok_def)
  then have "length (rows ! i) = 10" "set (rows ! i) \<subseteq> {0..9}" using assms(1) by (auto simp: day_number_ok_def)
  moreover have "nat (key_digit k i) < 10" using key_digit_range [OF assms(3), of i] by (simp add: nat_less_iff)
  ultimately have "rows ! i ! nat (key_digit k i) \<in> {0..9}" by (metis nth_mem subsetD)
  then show "0 \<le> rows ! i ! nat (key_digit k i)" "rows ! i ! nat (key_digit k i) < 10" by auto
qed

lemma day_digit_inj:
  assumes "day_number_ok rows" "i < 6" "0 \<le> j" "0 \<le> k"
    "rows ! i ! nat (key_digit j i) = rows ! i ! nat (key_digit k i)"
  shows "key_digit j i = key_digit k i"
proof -
  have "rows ! i \<in> set rows" using assms by (auto simp: day_number_ok_def)
  then have "distinct (rows ! i)" "length (rows ! i) = 10" using assms(1) by (auto simp: day_number_ok_def)
  then show ?thesis
    using assms(5) key_digit_range [OF assms(3), of i] key_digit_range [OF assms(4), of i]
      nth_eq_iff_index_eq [of "rows ! i" "nat (key_digit j i)" "nat (key_digit k i)"] by (auto simp: nat_less_iff eq_nat_nat_iff)
qed

lemma generateStr_digits:
  assumes "day_number_ok (mg_day_number m)" "0 \<le> k"
  shows "generateStr cfg m k argu =
    takeWhile (\<lambda>c. c \<noteq> CHR 0x00) (char_of (nat (cfg_server_char cfg mod 256)) # mg_hero_day_title m) @
    map (\<lambda>i. digit_char (nat (mg_day_number m ! i ! nat (key_digit k i)))) [0..<6] @ argu"
proof -
  have "concat (map (\<lambda>i. show_int (mg_day_number m ! i ! nat (key_digit k i))) [0..<6]) =
      concat (map (\<lambda>i. [digit_char (nat (mg_day_number m ! i ! nat (key_digit k i)))]) [0..<6])"
    using day_digit [OF assms(1) _ assms(2)] by (intro arg_cong [of _ _ concat] map_cong) (auto intro!: show_int_digit)
  then show ?thesis by (simp only: generateStr_def concat_map_singleton)
qed

lemma generateStr_inj:
  assumes "day_number_ok (mg_day_number m)" "0 \<le> j" "j < 1000000" "0 \<le> k" "k < 1000000"
    "generateStr cfg m j argu = generateStr cfg m k argu"
  shows "j = k"
proof (rule digits_determine [OF assms(2-5)], intro allI impI)
  fix i :: nat
  assume i: "i < 6"
  have eq: "\<forall>i \<in> set [0..<6]. digit_char (nat (mg_day_number m ! i ! nat (key_digit j i))) =
      digit_char (nat (mg_day_number m ! i ! nat (key_digit k i)))"
    using assms(6) unfolding generateStr_digits [OF assms(1,2)] generateStr_digits [OF assms(1,4)]
    by (simp only: append_same_eq same_append_eq map_eq_conv)
  then have "nat (mg_day_number m ! i ! nat (key_digit j i)) = nat (mg_day_number m ! i ! nat (key_digit k i))"
    using i day_digit [OF assms(1) i] assms(2,4) by (intro digit_char_inj) (auto simp: nat_less_iff)
  then show "key_digit j i = key_digit k i"
    using day_digit [OF assms(1) i] assms i by (intro day_digit_inj [of "mg_day_number m"]) (auto simp: nat_eq_iff)
qed

lemma shuffled_rows_ok:
  assumes "\<And>i xs. mset (sh i xs) = mset xs" "mset vc = base"
  shows "length (shuffled_rows sh i n vc) = n \<and> (\<forall>row \<in> set (shuffled_rows sh i n vc). mset row = base)"
  using assms(2)
proof (induction n arbitrary: i vc)
  case (Suc n)
  have "mset (sh i vc) = base" using Suc.prems assms(1) [of i vc] by (rule trans [rotated])
  from Suc.IH [OF this, of "Suc i"] this show ?case by (simp add: Let_def)
qed simp

lemma refreshDayNumber_ok:
  assumes "\<And>i xs. mset (sh i xs) = mset xs"
  shows "day_number_ok (mg_day_number (fst (refreshDayNumber cfg rm now sh m)))"
proof -
  have dn: "mg_day_number (fst (refreshDayNumber cfg rm now sh m)) = shuffled_rows sh 0 6 [0..9]"
    by (simp add: refreshDayNumber_def manager_save_def refreshHeroTitle_def Let_def)
  have ten: "row \<noteq> [] \<and> length row = 10 \<and> distinct row \<and> set row \<subseteq> {0..9}" if "mset row = mset [0..9::int]" for row
  proof -
    have "length row = length [0..9::int]" "set row = {0..9}" "distinct row"
      using mset_eq_length [OF that] mset_eq_setD [OF that] mset_eq_imp_distinct_iff [OF that] by (simp_all del: upto_rec_numeral)
    then show ?thesis by (auto simp del: upto_rec_numeral)
  qed
  show ?thesis
    using shuffled_rows_ok [of sh "[0..9]" "mset [0..9]" 0 6, OF assms refl] ten unfolding dn day_number_ok_def by blast
qed

end
