(* ===== verification/Session.thy ===== *)
theory Session
  imports DreamHeroManager
begin

text \<open>
  \<open>gameserver/session.cpp\<close>: the session of one client on the game server and the handlers of its
  messages. A handler takes the session and the managers and returns the managers afterwards with
  the effects in order; \<open>None\<close> is a run without defined behaviour, such as the use of a null or
  dangling hero pointer.
\<close>

section \<open>State\<close>

text \<open>The pointer \<open>_dream_hero\<close> is the key of the hero in the map of the hero manager.\<close>

record Session =
  s_tranid :: int
  s_account :: int
  s_gate :: int
  s_online :: bool
  s_hero :: "int option"
  s_channel :: int

type_synonym reaction = "(game \<times> effect list) option"

section \<open>The hero of a session\<close>

text \<open>Every handler reads the hero through the pointer: \<open>deref\<close> without a test for null, \<open>if_hero\<close> with it.
  The result of a method of the hero is stored back, \<open>call\<close>; \<open>call_opt\<close> is for a method that may have no
  defined behaviour itself.\<close>

definition set_hero :: "int \<Rightarrow> DreamHero \<Rightarrow> game \<Rightarrow> game" where
  "set_hero k h g = g\<lparr>g_mgr := put_hero k h (g_mgr g)\<rparr>"

definition deref :: "Session \<Rightarrow> (int \<Rightarrow> DreamHero \<Rightarrow> game \<Rightarrow> reaction) \<Rightarrow> game \<Rightarrow> reaction" where
  "deref s f g =
     (case s_hero s of
        None \<Rightarrow> None
      | Some k \<Rightarrow> (case GetHero (g_mgr g) k of None \<Rightarrow> None | Some h \<Rightarrow> f k h g))"

definition if_hero :: "Session \<Rightarrow> (int \<Rightarrow> DreamHero \<Rightarrow> game \<Rightarrow> reaction) \<Rightarrow> game \<Rightarrow> reaction" where
  "if_hero s f g = (if s_hero s = None then Some (g, []) else deref s f g)"

definition call_opt :: "(DreamHero \<Rightarrow> handled option) \<Rightarrow> int \<Rightarrow> DreamHero \<Rightarrow> game \<Rightarrow> reaction" where
  "call_opt f k h g = map_option (\<lambda>(h', fx). (set_hero k h' g, fx)) (f h)"

definition call :: "(DreamHero \<Rightarrow> handled) \<Rightarrow> int \<Rightarrow> DreamHero \<Rightarrow> game \<Rightarrow> reaction" where
  "call f = call_opt (Some \<circ> f)"

definition session_send :: "Session \<Rightarrow> s2c \<Rightarrow> effect list" where
  "session_send s m = [Send (s_tranid s) m]"

text \<open>The test of the administration level, in its two forms: the refused command is answered by
  \<open>MsgS2CNotifyError\<close>, or the answer of the command carries the error.\<close>

definition gm_or_notify :: "Session \<Rightarrow> (int \<Rightarrow> DreamHero \<Rightarrow> game \<Rightarrow> reaction) \<Rightarrow> game \<Rightarrow> reaction" where
  "gm_or_notify s f = if_hero s (\<lambda>k h g. if 0 < gm_level h then f k h g
     else Some (g, session_send s (MsgS2CNotifyError Error_CmdFailedRequiredGMLevel)))"

definition gm_then_ack :: "Session \<Rightarrow> (DreamHero \<Rightarrow> DreamHero) \<Rightarrow> (DreamHero \<Rightarrow> GameError \<Rightarrow> s2c) \<Rightarrow> int \<Rightarrow> DreamHero \<Rightarrow> game \<Rightarrow> reaction" where
  "gm_then_ack s f ack = call (\<lambda>h. if 0 < gm_level h then (f h, session_send s (ack (f h) Error_NO))
     else (h, session_send s (ack h Error_CmdFailedRequiredGMLevel)))"

section \<open>Requests of players\<close>

definition parseReqActivityAnnouncement :: "Session \<Rightarrow> game \<Rightarrow> reaction" where
  "parseReqActivityAnnouncement s g = Some (g, session_send s (ReqActivityAnnouncement (g_sales g)))"

definition parseReqResetDailyGameProgress :: "int \<Rightarrow> Session \<Rightarrow> game \<Rightarrow> reaction" where
  "parseReqResetDailyGameProgress now s g = if_hero s (call (ReqResetDailyGameProgress (g_cfg g) now)) g"

text \<open>The body of \<open>ReqReqEnterDailyGame\<close> is commented out.\<close>

definition parseReqEnterDailyGame :: "Session \<Rightarrow> game \<Rightarrow> reaction" where
  "parseReqEnterDailyGame s g = if_hero s (\<lambda>k h g. Some (g, [])) g"

definition parseReqReceiveDailyGamePrize :: "int \<Rightarrow> Session \<Rightarrow> game \<Rightarrow> reaction" where
  "parseReqReceiveDailyGamePrize now s g = if_hero s (call (ReqReceiveDailyGamePrize now)) g"

definition parseReqUpdateDailyGameProgress :: "int \<Rightarrow> int \<Rightarrow> int \<Rightarrow> int \<Rightarrow> int \<Rightarrow> Session \<Rightarrow> game \<Rightarrow> reaction" where
  "parseReqUpdateDailyGameProgress now progress score hp anger s g = if_hero s (\<lambda>k h g.
     let (h', rm, fx) = ReqUpdateDailyGameProgress now (g_ranks g) progress score hp anger h
     in Some ((set_hero k h' g)\<lparr>g_ranks := rm\<rparr>, fx)) g"

definition parseReqDayLottery :: "int \<Rightarrow> (nat \<Rightarrow> nat) \<Rightarrow> Session \<Rightarrow> game \<Rightarrow> reaction" where
  "parseReqDayLottery now rs s g = if_hero s (call (ReqDayLottery (g_cfg g) now (rs 0) (rs 1))) g"

definition parseReqShopConfig :: "Session \<Rightarrow> game \<Rightarrow> reaction" where
  "parseReqShopConfig s g = Some (g, session_send s (MsgS2CShopConfigACK
     (map (\<lambda>(k, c). c\<lparr>cheape_gold := getCheapGold (ledger (g_sales g)) (grid_id c)\<rparr>) (cfg_shop_heroes (g_cfg g)))))"

definition parseReqModifyNotifyGridState :: "MsgIntBoolPair list \<Rightarrow> Session \<Rightarrow> game \<Rightarrow> reaction" where
  "parseReqModifyNotifyGridState gs s g = if_hero s (call (ReqModifyNotifyGridState gs)) g"

definition parseReqEnterGame :: "int \<Rightarrow> int \<Rightarrow> int \<Rightarrow> Session \<Rightarrow> game \<Rightarrow> reaction" where
  "parseReqEnterGame now ch sec s g = if_hero s (call (ReqEnterGame (g_cfg g) now ch sec)) g"

definition parseReqExitGame :: "int \<Rightarrow> MsgC2SReqExitGame \<Rightarrow> Session \<Rightarrow> game \<Rightarrow> reaction" where
  "parseReqExitGame now msg s g = if_hero s (call (ReqExitGame (g_cfg g) now msg)) g"

definition parseReqUnlockChapter :: "int \<Rightarrow> int \<Rightarrow> Session \<Rightarrow> game \<Rightarrow> reaction" where
  "parseReqUnlockChapter now ch s g = if_hero s (call (ReqUnlockChapter (g_cfg g) now ch)) g"

definition parseReqRelive :: "int \<Rightarrow> Session \<Rightarrow> game \<Rightarrow> reaction" where
  "parseReqRelive now s g = if_hero s (call (ReqReliveReq (g_cfg g) now)) g"

definition parseReqModifyTutorial :: "int \<Rightarrow> Session \<Rightarrow> game \<Rightarrow> reaction" where
  "parseReqModifyTutorial flag s g = if_hero s (call (ReqModifyTutorialFlag flag)) g"

definition parseReqAdvertisementApplyTask :: "int \<Rightarrow> (nat \<Rightarrow> nat) \<Rightarrow> bool \<Rightarrow> Session \<Rightarrow> game \<Rightarrow> reaction" where
  "parseReqAdvertisementApplyTask now rs use_gold s g =
     if_hero s (call (ReqAdvertisementApplyTask (g_cfg g) now (rs 0) use_gold)) g"

definition parseReqAdvertisementRefreshTask :: "int \<Rightarrow> (nat \<Rightarrow> nat) \<Rightarrow> int \<Rightarrow> bool \<Rightarrow> Session \<Rightarrow> game \<Rightarrow> reaction" where
  "parseReqAdvertisementRefreshTask now rs give_up use_gold s g =
     if_hero s (call (ReqAdvertisementRefreshTask (g_cfg g) now (rs 0) give_up use_gold)) g"

definition parseReqBuyHero :: "int \<Rightarrow> int \<Rightarrow> int \<Rightarrow> Session \<Rightarrow> game \<Rightarrow> reaction" where
  "parseReqBuyHero now grid offer s g = if_hero s (call_opt (ReqBuyHero (g_cfg g) (ledger (g_sales g)) now grid offer)) g"

definition parseReqGoldShopConfigs :: "Session \<Rightarrow> game \<Rightarrow> reaction" where
  "parseReqGoldShopConfigs s g =
     if_hero s (\<lambda>k h g. Some (g, ReqGoldShopConfigs (g_cfg g) (ledger (g_sales g)) h)) g"

definition parseReqModifyCurrentHero :: "int \<Rightarrow> Session \<Rightarrow> game \<Rightarrow> reaction" where
  "parseReqModifyCurrentHero grid s g = if_hero s (call_opt (ReqModifyCurrentHero grid)) g"

definition parseReqGameGlobalConfig :: "Session \<Rightarrow> game \<Rightarrow> reaction" where
  "parseReqGameGlobalConfig s g = Some (g, session_send s (MsgS2CSGameGlobalConfigACK (map snd (cfg_chapters (g_cfg g)))))"

definition parseReqDailyGameRankList :: "Session \<Rightarrow> game \<Rightarrow> reaction" where
  "parseReqDailyGameRankList s g = Some (g, session_send s (MsgS2CDailyGameRankListACK
     (map (\<lambda>e. (rk_name e, rk_score e, rk_rank e)) (heroes_daily_rank (g_ranks g)))))"

definition parseReqCrearteDeal :: "int \<Rightarrow> string \<Rightarrow> int \<Rightarrow> Session \<Rightarrow> game \<Rightarrow> reaction" where
  "parseReqCrearteDeal now key ch s g = if_hero s (call (ReqCrearteDeal now key ch)) g"

definition parseReqVerifyDeal :: "int \<Rightarrow> string \<Rightarrow> int \<Rightarrow> Session \<Rightarrow> game \<Rightarrow> reaction" where
  "parseReqVerifyDeal now rcpt order s g = if_hero s (\<lambda>k h g. Some (g, ReqVerifyDeal now rcpt order h)) g"

definition parseReqBuySpirit :: "int \<Rightarrow> int \<Rightarrow> Session \<Rightarrow> game \<Rightarrow> reaction" where
  "parseReqBuySpirit now i s g = if_hero s (call (ReqBuySpirit (g_cfg g) now i)) g"

definition parseReqConcernWeiXin :: "int \<Rightarrow> string \<Rightarrow> Session \<Rightarrow> game \<Rightarrow> reaction" where
  "parseReqConcernWeiXin now key s g = if_hero s (call (ReqConcernWeiXin (g_cfg g) now key)) g"

definition parseReqBuyLotion :: "int \<Rightarrow> Session \<Rightarrow> game \<Rightarrow> reaction" where
  "parseReqBuyLotion l s g = if_hero s (call (ReqBuyLotion (g_cfg g) l)) g"

section \<open>Administration commands\<close>

definition parseCmdReqModifyJewel :: "int \<Rightarrow> Session \<Rightarrow> game \<Rightarrow> reaction" where
  "parseCmdReqModifyJewel amount s = if_hero s (gm_then_ack s
     (\<lambda>h. set_jewel (wrap32 (jewel (info h) + amount)) h) (\<lambda>h. MsgS2CCmdModifyJewelACK (jewel (info h))))"

definition parseCmdReqResetDailyLottery :: "Session \<Rightarrow> game \<Rightarrow> reaction" where
  "parseCmdReqResetDailyLottery s = if_hero s (gm_then_ack s ResetDailyLottery (\<lambda>h. MsgS2CCmdResetDailyLotteryACK))"

definition parseCmdReqClearDailyRankList :: "Session \<Rightarrow> game \<Rightarrow> reaction" where
  "parseCmdReqClearDailyRankList s = deref s (\<lambda>k h g. if 0 < gm_level h
     then Some (g\<lparr>g_ranks := ClearRankList (g_ranks g)\<rparr>, session_send s (MsgS2CCmdClearDailyRankListACK Error_NO))
     else Some (g, session_send s (MsgS2CCmdClearDailyRankListACK Error_CmdFailedRequiredGMLevel)))"

definition parseCmdReqResetResetDailyGame :: "Session \<Rightarrow> game \<Rightarrow> reaction" where
  "parseCmdReqResetResetDailyGame s = deref s (\<lambda>k h g. if 0 < gm_level h
     then map_option (\<lambda>(h', rm). ((set_hero k h' g)\<lparr>g_ranks := rm\<rparr>, session_send s (MsgS2CCmdResetDailyGameACK Error_NO)))
            (ResetDailyGame (g_ranks g) h)
     else Some (g, session_send s (MsgS2CCmdResetDailyGameACK Error_CmdFailedRequiredGMLevel)))"

definition parseCmdReqModifySpirit :: "int \<Rightarrow> Session \<Rightarrow> game \<Rightarrow> reaction" where
  "parseCmdReqModifySpirit amount s = deref s (gm_then_ack s
     (\<lambda>h. set_spirit (wrap32 (spirit (info h) + amount)) h) (\<lambda>h. MsgS2CCmdModifySpiritACK (spirit (info h))))"

text \<open>The level of another player is changed in memory, or in the database when he is not there.\<close>

definition parseCmdReqMdodifyGMLevel :: "string \<Rightarrow> int \<Rightarrow> Session \<Rightarrow> game \<Rightarrow> reaction" where
  "parseCmdReqMdodifyGMLevel name level s = if_hero s (\<lambda>k h g.
     let ack = (\<lambda>e. session_send s (MsgS2CCmdModifyGMLevelACK name level e))
     in if gm_level h < 3 then Some (g, ack Error_CmdFailedRequiredGMLevel)
        else case GetHeroByName (g_mgr g) name of
               Some (k', h') \<Rightarrow> Some (set_hero k' (h'\<lparr>gm_level := level\<rparr>) g, ack Error_NO)
             | None \<Rightarrow> Some (g, Db (UpdateGMLevel level name) # ack Error_NO))"

definition parseCmdReqEnterGame :: "int \<Rightarrow> int \<Rightarrow> int \<Rightarrow> Session \<Rightarrow> game \<Rightarrow> reaction" where
  "parseCmdReqEnterGame now ch sec s g = gm_or_notify s (call (EnterGame (g_cfg g) now ch sec True)) g"

definition parseCmdReqResetMap :: "int \<Rightarrow> int \<Rightarrow> Session \<Rightarrow> game \<Rightarrow> reaction" where
  "parseCmdReqResetMap ch sec s = gm_or_notify s (call (ReqResetMap ch sec))"

definition parseCmdReqResetConcernWeiXin :: "Session \<Rightarrow> game \<Rightarrow> reaction" where
  "parseCmdReqResetConcernWeiXin s = if_hero s (gm_then_ack s ResetWeiXin (\<lambda>h. MsgS2CCmdResetConcernWeiXinACK))"

definition parseCmdReqResetGame :: "int \<Rightarrow> Session \<Rightarrow> game \<Rightarrow> reaction" where
  "parseCmdReqResetGame now s = gm_or_notify s (\<lambda>k h g.
     let (name, m, ps) = generateName (g_cfg g) now (g_mgr g)
     in map_option (\<lambda>(g', fx). (g', recs ps @ fx)) (call (ResetGame (g_cfg g) name) k h (g\<lparr>g_mgr := m\<rparr>)))"

definition parseCmdReqModifyGold :: "int \<Rightarrow> Session \<Rightarrow> game \<Rightarrow> reaction" where
  "parseCmdReqModifyGold amount s = gm_or_notify s (call (ReqModifyGold amount))"

definition parseCmdReqReplaceTask :: "(nat \<Rightarrow> nat) \<Rightarrow> int \<Rightarrow> Session \<Rightarrow> game \<Rightarrow> reaction" where
  "parseCmdReqReplaceTask rs n s g = gm_or_notify s (call (ReqReplaceTask (g_cfg g) rs n)) g"

definition parseCmdReqModifyTaskCompleteCount :: "int \<Rightarrow> Session \<Rightarrow> game \<Rightarrow> reaction" where
  "parseCmdReqModifyTaskCompleteCount n s = gm_or_notify s (call (ReqModifyTaskCompleteCount n))"

definition parseCmdReqRemoveSpecialCreatureListHis :: "Session \<Rightarrow> game \<Rightarrow> reaction" where
  "parseCmdReqRemoveSpecialCreatureListHis s = gm_or_notify s (call ReqRemoveAllSpecialCreatureList)"

definition parseCmdReqSetSpecialCreatureHis :: "int \<Rightarrow> int \<Rightarrow> Session \<Rightarrow> game \<Rightarrow> reaction" where
  "parseCmdReqSetSpecialCreatureHis creature status s = gm_or_notify s (call (ReqSetSpecialCreatureList creature status))"

section \<open>Dispatch\<close>

text \<open>\<open>registerPBCall\<close> and \<open>parsePBMessage\<close>; a message without a handler is only logged.\<close>

fun parsePBMessage :: "int \<Rightarrow> (nat \<Rightarrow> nat) \<Rightarrow> c2s \<Rightarrow> Session \<Rightarrow> game \<Rightarrow> reaction" where
  "parsePBMessage now rs MsgC2SReqGameGlobalConfig = parseReqGameGlobalConfig"
| "parsePBMessage now rs MsgC2SReqShopConfig = parseReqShopConfig"
| "parsePBMessage now rs (MsgC2SReqEnterGame ch sec) = parseReqEnterGame now ch sec"
| "parsePBMessage now rs (MsgC2SReqExitGame_msg m) = parseReqExitGame now m"
| "parsePBMessage now rs (MsgC2SReqUnlockChapter ch) = parseReqUnlockChapter now ch"
| "parsePBMessage now rs (MsgC2SReqAdvertisementApplyTask b) = parseReqAdvertisementApplyTask now rs b"
| "parsePBMessage now rs (MsgC2SReqAdvertisementRefreshTask t b) = parseReqAdvertisementRefreshTask now rs t b"
| "parsePBMessage now rs MsgC2SReqGoldShopConfigs = parseReqGoldShopConfigs"
| "parsePBMessage now rs (MsgC2SReqBuyHero grid offer) = parseReqBuyHero now grid offer"
| "parsePBMessage now rs (MsgC2SReqModifyCurrentHero grid) = parseReqModifyCurrentHero grid"
| "parsePBMessage now rs (MsgC2SReqCrearteDeal key ch) = parseReqCrearteDeal now key ch"
| "parsePBMessage now rs (MsgC2SReqVerifyDeal rcpt order) = parseReqVerifyDeal now rcpt order"
| "parsePBMessage now rs (MsgC2SReqModifyNewTutorial fl) = parseReqModifyTutorial fl"
| "parsePBMessage now rs MsgC2SReliveReq = parseReqRelive now"
| "parsePBMessage now rs (MsgC2SReqBuySpirit i) = parseReqBuySpirit now i"
| "parsePBMessage now rs (MsgC2SReqConcernWeiXin key) = parseReqConcernWeiXin now key"
| "parsePBMessage now rs MsgC2SCmdReqResetConcernWeiXin = parseCmdReqResetConcernWeiXin"
| "parsePBMessage now rs (MsgC2SCmdReqModifyGMLevel name lv) = parseCmdReqMdodifyGMLevel name lv"
| "parsePBMessage now rs (MsgC2SCmdReqEnterGame ch sec) = parseCmdReqEnterGame now ch sec"
| "parsePBMessage now rs (MsgC2SCmdReqResetMap ch sec) = parseCmdReqResetMap ch sec"
| "parsePBMessage now rs MsgC2SCmdReqResetGame = parseCmdReqResetGame now"
| "parsePBMessage now rs (MsgC2SCmdReqModifyGold a) = parseCmdReqModifyGold a"
| "parsePBMessage now rs (MsgS2CCmdReqReplaceTask n) = parseCmdReqReplaceTask rs n"
| "parsePBMessage now rs (MsgC2SCmdReqModifyTaskCompleteCount n) = parseCmdReqModifyTaskCompleteCount n"
| "parsePBMessage now rs (MsgC2SCmdReqSetSpecialCreatureHis c st) = parseCmdReqSetSpecialCreatureHis c st"
| "parsePBMessage now rs MsgC2SCmdReqRemoveSpecialCreatureListHis = parseCmdReqRemoveSpecialCreatureListHis"
| "parsePBMessage now rs (MsgC2SCmdReqModifyJewel a) = parseCmdReqModifyJewel a"
| "parsePBMessage now rs (MsgC2SCmdReqModifySpirit a) = parseCmdReqModifySpirit a"
| "parsePBMessage now rs (MsgC2SReqBuyLotion l) = parseReqBuyLotion l"
| "parsePBMessage now rs MsgC2SReqDayLottery = parseReqDayLottery now rs"
| "parsePBMessage now rs MsgC2SReqEnterDailyGame = parseReqEnterDailyGame"
| "parsePBMessage now rs MsgC2SReqReceiveDailyGamePrize = parseReqReceiveDailyGamePrize now"
| "parsePBMessage now rs (MsgC2SReqUpdateDailyGameProgress p sc hp an) = parseReqUpdateDailyGameProgress now p sc hp an"
| "parsePBMessage now rs MsgC2SCmdReqResetDailyLottery = parseCmdReqResetDailyLottery"
| "parsePBMessage now rs MsgC2SCmdReqResetDailyGame = parseCmdReqResetResetDailyGame"
| "parsePBMessage now rs MsgC2SReqResetDailyGameProgress = parseReqResetDailyGameProgress now"
| "parsePBMessage now rs MsgC2SReqDailyGameRankList = parseReqDailyGameRankList"
| "parsePBMessage now rs MsgC2SCmdClearDailyRankList = parseCmdReqClearDailyRankList"
| "parsePBMessage now rs MsgC2SReqActivityAnnouncement = parseReqActivityAnnouncement"
| "parsePBMessage now rs (MsgC2SReqModifyNotifyGridState gs) = parseReqModifyNotifyGridState gs"
| "parsePBMessage now rs (MsgUnregistered name) = (\<lambda>s g. Some (g, []))"

section \<open>What a message can change\<close>

text \<open>A method of the hero leaves the account, the session and the administration level alone.\<close>

definition keeps :: "DreamHero \<Rightarrow> DreamHero \<Rightarrow> bool" where
  "keeps h h' \<longleftrightarrow> account h' = account h \<and> session h' = session h \<and> gm_level h' = gm_level h"

lemma keeps_refl [simp]: "keeps h h"
  by (simp add: keeps_def)

lemma keeps_trans: "keeps a b \<Longrightarrow> keeps b c \<Longrightarrow> keeps a c"
  by (simp add: keeps_def)

lemma RefreshTask_keeps: "keeps h (fst (RefreshTask cfg now r give_up use_gold h))"
  by (auto simp: keeps_def RefreshTask_def refresh_prepare_def Let_def split: prod.splits if_splits)

lemma replace_loop_keeps: "keeps h (fst (replace_loop cfg rs i n h))"
proof (induction cfg rs i n h rule: replace_loop.induct)
  case (2 cfg rs i n h)
  then show ?case by (auto simp: Let_def keeps_def split: prod.splits)
qed simp

lemma ReqReplaceTask_keeps: "keeps h (fst (ReqReplaceTask cfg rs n h))"
  using replace_loop_keeps [of "set_tasks [] h"] by (simp add: ReqReplaceTask_def Let_def keeps_def case_prod_beta)

lemma play_keeps:
  "keeps h (fst (ReqEnterGame cfg now ch sec h))" "keeps h (fst (EnterGame cfg now ch sec b h))"
  "keeps h (fst (ReqExitGame cfg now msg h))" "keeps h (fst (ReqUnlockChapter cfg now ch h))"
  "keeps h (fst (ReqAdvertisementApplyTask cfg now r b h))" "keeps h (fst (ReqAdvertisementRefreshTask cfg now r t b h))"
  "keeps h (fst (ReqModifyTaskCompleteCount n h))"
  subgoal by (auto simp: keeps_def ReqEnterGame_def EnterGame_def Let_def split: option.splits)
  subgoal by (auto simp: keeps_def EnterGame_def Let_def split: option.splits)
  subgoal by (auto simp: keeps_def ReqExitGame_def exit_refused_def exit_accepted_def Let_def)
  subgoal by (auto simp: keeps_def ReqUnlockChapter_def Let_def split: option.splits)
  subgoal by (simp add: ReqAdvertisementApplyTask_def RefreshTask_keeps)
  subgoal by (simp add: ReqAdvertisementRefreshTask_def RefreshTask_keeps)
  subgoal by (simp add: keeps_def ReqModifyTaskCompleteCount_def Let_def)
  done

lemma shop_keeps:
  "keeps h (fst (ReqBuySpirit cfg now i h))" "keeps h (fst (ReqBuyLotion cfg l h))"
  "keeps h (fst (ReqDayLottery cfg now r1 r2 h))" "keeps h (fst (ReqReliveReq cfg now h))"
  "keeps h (fst (ReqConcernWeiXin cfg now key h))" "keeps h (fst (ReqModifyGold a h))"
  "keeps h (fst (ReqResetMap ch sec h))" "keeps h (fst (ReqModifyTutorialFlag fl h))"
  "keeps h (fst (ReqRemoveAllSpecialCreatureList h))" "keeps h (fst (ReqSetSpecialCreatureList c st h))"
  "keeps h (fst (ReqModifyNotifyGridState gs h))" "keeps h (ResetDailyLottery h)" "keeps h (ResetWeiXin h)"
  subgoal by (auto simp: keeps_def ReqBuySpirit_def Let_def split: option.splits)
  subgoal by (auto simp: keeps_def ReqBuyLotion_def Let_def split: option.splits)
  subgoal by (auto simp: keeps_def ReqDayLottery_def Let_def split: list.splits prod.splits)
  subgoal by (auto simp: keeps_def ReqReliveReq_def Let_def)
  subgoal by (auto simp: keeps_def ReqConcernWeiXin_def Let_def)
  subgoal by (auto simp: keeps_def ReqModifyGold_def Let_def)
  subgoal by (auto simp: keeps_def ReqResetMap_def Let_def)
  subgoal by (auto simp: keeps_def ReqModifyTutorialFlag_def Let_def)
  subgoal by (auto simp: keeps_def ReqRemoveAllSpecialCreatureList_def Let_def)
  subgoal by (auto simp: keeps_def ReqSetSpecialCreatureList_def Let_def)
  subgoal by (auto simp: keeps_def ReqModifyNotifyGridState_def Let_def)
  subgoal by (auto simp: keeps_def ResetDailyLottery_def Let_def)
  subgoal by (auto simp: keeps_def ResetWeiXin_def Let_def)
  done

lemma ReqModifyCurrentHero_keeps: "ReqModifyCurrentHero grid h = Some (h', fx) \<Longrightarrow> keeps h h'"
  by (auto simp: keeps_def ReqModifyCurrentHero_def Let_def split: if_splits)

lemma ReqBuyHero_keeps: "ReqBuyHero cfg lg now grid offer h = Some (h', fx) \<Longrightarrow> keeps h h'"
  by (auto simp: keeps_def ReqBuyHero_def Let_def split: if_splits option.splits)

lemma daily_keeps:
  "keeps h (fst (ReqResetDailyGameProgress cfg now h))" "keeps h (fst (ReqReceiveDailyGamePrize now h))"
  "keeps h (fst (ReqUpdateDailyGameProgress now rm p sc hp an h))"
  "ResetDailyGame rm h = Some (h', rm') \<Longrightarrow> keeps h h'" "keeps h (fst (ReqCrearteDeal now key ch h))"
  subgoal by (auto simp: keeps_def ReqResetDailyGameProgress_def Let_def)
  subgoal by (auto simp: keeps_def ReqReceiveDailyGamePrize_def Let_def)
  subgoal by (auto simp: keeps_def ReqUpdateDailyGameProgress_def begin_daily_game_def Let_def split: prod.splits)
  subgoal by (auto simp: keeps_def ResetDailyGame_def)
  subgoal by (auto simp: keeps_def ReqCrearteDeal_def Let_def)
  done


lemmas message_keeps = play_keeps shop_keeps daily_keeps ReqReplaceTask_keeps ReqModifyCurrentHero_keeps ReqBuyHero_keeps

text \<open>
  How the hero of the sender may differ after a message: it is still well-formed and has the same
  account and session; its level is the same, or it is an administrator who began a new game.
\<close>

definition own_change :: "DreamHero \<Rightarrow> DreamHero \<Rightarrow> bool" where
  "own_change h h' \<longleftrightarrow> (hero_wf h \<longrightarrow> hero_wf h') \<and> account h' = account h \<and> session h' = session h \<and>
     (gm_level h' = gm_level h \<or> 0 < gm_level h \<and> gm_level h' = 1)"

lemma own_change_keeps: "keeps h h' \<Longrightarrow> (hero_wf h \<Longrightarrow> hero_wf h') \<Longrightarrow> own_change h h'"
  by (simp add: own_change_def keeps_def)

lemma own_change_refl [simp]: "own_change h h"
  by (simp add: own_change_def)

definition heroes_map :: "game \<Rightarrow> (int, DreamHero) smap" where
  "heroes_map g = mg_heroes (g_mgr g)"

text \<open>The heroes after a message of a session: only its own differs, and it by \<open>own_change\<close>.\<close>

definition only_own :: "Session \<Rightarrow> game \<Rightarrow> game \<Rightarrow> bool" where
  "only_own s g g' \<longleftrightarrow> g_cfg g' = g_cfg g \<and> g_sales g' = g_sales g \<and> map_wf (heroes_map g') \<and>
     (\<forall>k. rel_option (\<lambda>h h'. if s_hero s = Some k then own_change h h' else h' = h)
            (map_find k (heroes_map g)) (map_find k (heroes_map g')))"

lemma only_own_same:
  "map_wf (heroes_map g) \<Longrightarrow> g_cfg g' = g_cfg g \<Longrightarrow> g_sales g' = g_sales g \<Longrightarrow> heroes_map g' = heroes_map g \<Longrightarrow> only_own s g g'"
  by (auto simp: only_own_def option.rel_refl_strong)

lemma only_own_set:
  assumes "map_wf (heroes_map g)" "s_hero s = Some k" "map_find k (heroes_map g) = Some h" "own_change h h'"
    "g_cfg g' = g_cfg g" "g_sales g' = g_sales g" "heroes_map g' = map_assign k h' (heroes_map g)"
  shows "only_own s g g'"
  using assms by (auto simp: only_own_def map_wf_assign map_find_assign option.rel_refl_strong)

lemma set_hero_simps [simp]:
  "g_cfg (set_hero k h g) = g_cfg g" "g_sales (set_hero k h g) = g_sales g" "g_ranks (set_hero k h g) = g_ranks g"
  "heroes_map (set_hero k h g) = map_assign k h (heroes_map g)"
  by (simp_all add: set_hero_def heroes_map_def put_hero_def)

lemma heroes_map_ranks [simp]: "heroes_map (g\<lparr>g_ranks := r\<rparr>) = heroes_map g"
  by (simp add: heroes_map_def)

lemma deref_own:
  assumes "deref s f g = Some (g', fx)"
    and "\<And>k h. s_hero s = Some k \<Longrightarrow> map_find k (heroes_map g) = Some h \<Longrightarrow> f k h g = Some (g', fx) \<Longrightarrow> only_own s g g'"
  shows "only_own s g g'"
  using assms by (auto simp: deref_def GetHero_def heroes_map_def split: option.splits)

lemma if_hero_own:
  assumes "if_hero s f g = Some (g', fx)" "map_wf (heroes_map g)"
    and "\<And>k h. s_hero s = Some k \<Longrightarrow> map_find k (heroes_map g) = Some h \<Longrightarrow> f k h g = Some (g', fx) \<Longrightarrow> only_own s g g'"
  shows "only_own s g g'"
  using assms deref_own [of s f g g' fx] by (auto simp: if_hero_def only_own_same split: if_splits)

lemma call_opt_own:
  assumes "call_opt f k h g = Some (g', fx)" "map_wf (heroes_map g)" "s_hero s = Some k" "map_find k (heroes_map g) = Some h"
    and "\<And>h' fx. f h = Some (h', fx) \<Longrightarrow> own_change h h'"
  shows "only_own s g g'"
  using assms by (auto simp: call_opt_def intro!: only_own_set [of g s k h])

lemma if_hero_call_opt:
  assumes "if_hero s (call_opt f) g = Some (g', fx)" "map_wf (heroes_map g)" "\<And>h h' fx. f h = Some (h', fx) \<Longrightarrow> own_change h h'"
  shows "only_own s g g'"
  using assms by (auto elim!: if_hero_own intro!: call_opt_own)

lemma if_hero_call:
  assumes "if_hero s (call f) g = Some (g', fx)" "map_wf (heroes_map g)" "\<And>h. own_change h (fst (f h))"
  shows "only_own s g g'"
  using assms(1) unfolding call_def
  by (rule if_hero_call_opt) (use assms(2,3) in \<open>auto simp: fst_def split: prod.splits, metis fst_conv\<close>)


lemma gm_then_ack_own:
  assumes "gm_then_ack s' f ack k h g = Some (g', fx)" "map_wf (heroes_map g)" "s_hero s = Some k" "map_find k (heroes_map g) = Some h"
    and "own_change h (f h)"
  shows "only_own s g g'"
  using assms by (auto simp: gm_then_ack_def call_def elim!: call_opt_own split: if_splits)

lemma if_hero_gm:
  assumes "if_hero s (gm_then_ack s' f ack) g = Some (g', fx)" "map_wf (heroes_map g)" "\<And>h. own_change h (f h)"
  shows "only_own s g g'"
  using assms by (auto elim!: if_hero_own intro!: gm_then_ack_own)

lemma deref_gm:
  assumes "deref s (gm_then_ack s' f ack) g = Some (g', fx)" "map_wf (heroes_map g)" "\<And>h. own_change h (f h)"
  shows "only_own s g g'"
  using assms by (auto elim!: deref_own intro!: gm_then_ack_own)

lemma gm_or_notify_call:
  assumes "gm_or_notify s (call f) g = Some (g', fx)" "map_wf (heroes_map g)" "\<And>h. own_change h (fst (f h))"
  shows "only_own s g g'"
proof (rule if_hero_own [OF assms(1) [unfolded gm_or_notify_def] assms(2)])
  fix k h
  assume *: "s_hero s = Some k" "map_find k (heroes_map g) = Some h"
    "(if 0 < gm_level h then call f k h g else Some (g, session_send s (MsgS2CNotifyError Error_CmdFailedRequiredGMLevel))) = Some (g', fx)"
  show "only_own s g g'"
  proof (cases "0 < gm_level h")
    case True
    with * have "call_opt (Some \<circ> f) k h g = Some (g', fx)" by (simp add: call_def)
    then show ?thesis by (rule call_opt_own [OF _ assms(2) *(1,2)]) (use assms(3) [of h] in auto)
  qed (use * assms(2) in \<open>simp add: only_own_same\<close>)
qed

lemma own_change_jewel: "own_change h (set_jewel (wrap32 v) h)" and own_change_spirit: "own_change h (set_spirit (wrap32 v) h)"
  by (simp_all add: own_change_def)

lemma if_hero_read:
  assumes "if_hero s (\<lambda>k h g. Some (g, fx k h g)) g = Some (g', fx')" "map_wf (heroes_map g)"
  shows "only_own s g g'"
  using assms by (auto elim!: if_hero_own intro!: only_own_same)

lemma parseReqUpdateDailyGameProgress_own:
  assumes "parseReqUpdateDailyGameProgress now p sc hp an s g = Some (g', fx)" "map_wf (heroes_map g)"
  shows "only_own s g g'"
proof (rule if_hero_own [OF assms(1) [unfolded parseReqUpdateDailyGameProgress_def] assms(2)])
  fix k h
  assume *: "s_hero s = Some k" "map_find k (heroes_map g) = Some h"
    "(let (h', rm, fx) = ReqUpdateDailyGameProgress now (g_ranks g) p sc hp an h
      in Some ((set_hero k h' g)\<lparr>g_ranks := rm\<rparr>, fx)) = Some (g', fx)"
  have "own_change h (fst (ReqUpdateDailyGameProgress now (g_ranks g) p sc hp an h))"
    by (rule own_change_keeps) (simp_all add: message_keeps ReqUpdateDailyGameProgress_wf)
  then show "only_own s g g'" using * assms(2) by (auto split: prod.splits intro!: only_own_set)
qed

lemma parseCmdReqResetResetDailyGame_own:
  assumes "parseCmdReqResetResetDailyGame s g = Some (g', fx)" "map_wf (heroes_map g)"
  shows "only_own s g g'"
proof (rule deref_own [OF assms(1) [unfolded parseCmdReqResetResetDailyGame_def]])
  fix k h
  assume *: "s_hero s = Some k" "map_find k (heroes_map g) = Some h"
    "(if 0 < gm_level h
      then map_option (\<lambda>(h', rm). ((set_hero k h' g)\<lparr>g_ranks := rm\<rparr>, session_send s (MsgS2CCmdResetDailyGameACK Error_NO)))
             (ResetDailyGame (g_ranks g) h)
      else Some (g, session_send s (MsgS2CCmdResetDailyGameACK Error_CmdFailedRequiredGMLevel))) = Some (g', fx)"
  have "own_change h h'" if "ResetDailyGame (g_ranks g) h = Some (h', rm)" for h' rm
    using that by (intro own_change_keeps) (auto intro: message_keeps ResetDailyGame_wf)
  then show "only_own s g g'" using * assms(2) by (cases "0 < gm_level h") (auto intro: only_own_set only_own_same)
qed

lemma parseCmdReqClearDailyRankList_own:
  assumes "parseCmdReqClearDailyRankList s g = Some (g', fx)" "map_wf (heroes_map g)"
  shows "only_own s g g'"
  using assms(1) unfolding parseCmdReqClearDailyRankList_def
  by (rule deref_own) (use assms(2) in \<open>auto split: if_splits intro!: only_own_same\<close>)

lemma generate_name_heroes:
  "mg_heroes (fst (snd (generate_name cfg now n m))) = mg_heroes m"
  "mg_heroes (fst (snd (names_loop cfg now n xs st))) = mg_heroes (fst (snd st))"
proof (induction cfg now n m and cfg now n xs st rule: generate_name_names_loop.induct)
  case (4 cfg now n x xs nm m ps)
  then show ?case by (auto simp: Let_def split: prod.splits)
qed (simp_all add: Let_def)

lemma generateName_heroes: "generateName cfg now m = (name, m', ps) \<Longrightarrow> mg_heroes m' = mg_heroes m"
  using generate_name_heroes(1) [of cfg now 101 m] by (simp add: generateName_def)

lemma parseCmdReqResetGame_own:
  assumes "parseCmdReqResetGame now s g = Some (g', fx)" "map_wf (heroes_map g)" "config_start_ok (g_cfg g)"
  shows "only_own s g g'"
proof (rule if_hero_own [OF assms(1) [unfolded parseCmdReqResetGame_def gm_or_notify_def] assms(2)])
  fix k h
  assume *: "s_hero s = Some k" "map_find k (heroes_map g) = Some h"
    "(if 0 < gm_level h
      then let (name, m, ps) = generateName (g_cfg g) now (g_mgr g)
           in map_option (\<lambda>(g', fx). (g', recs ps @ fx)) (call (ResetGame (g_cfg g) name) k h (g\<lparr>g_mgr := m\<rparr>))
      else Some (g, session_send s (MsgS2CNotifyError Error_CmdFailedRequiredGMLevel))) = Some (g', fx)"
  obtain name m ps where n: "generateName (g_cfg g) now (g_mgr g) = (name, m, ps)" using prod_cases3 by blast
  have m: "heroes_map (g\<lparr>g_mgr := m\<rparr>) = heroes_map g" using generateName_heroes [OF n] by (simp add: heroes_map_def)
  have "own_change h (fst (ResetGame (g_cfg g) name h))" if "0 < gm_level h"
    using that ResetGame_wf [OF _ assms(3)] by (simp add: own_change_def ResetGame_def LoadFromConfig_def Let_def)
  then show "only_own s g g'" using * assms(2) m n
    by (cases "0 < gm_level h") (auto simp: call_def call_opt_def split: prod.splits intro: only_own_set only_own_same)
qed

lemmas parse_hero_defs = parseReqResetDailyGameProgress_def parseReqReceiveDailyGamePrize_def parseReqDayLottery_def
  parseReqModifyNotifyGridState_def parseReqEnterGame_def parseReqExitGame_def parseReqUnlockChapter_def parseReqRelive_def
  parseReqModifyTutorial_def parseReqAdvertisementApplyTask_def parseReqAdvertisementRefreshTask_def parseReqCrearteDeal_def
  parseReqBuySpirit_def parseReqConcernWeiXin_def parseReqBuyLotion_def parseCmdReqEnterGame_def parseCmdReqResetMap_def
  parseCmdReqModifyGold_def parseCmdReqReplaceTask_def parseCmdReqModifyTaskCompleteCount_def
  parseCmdReqRemoveSpecialCreatureListHis_def parseCmdReqSetSpecialCreatureHis_def parseReqBuyHero_def parseReqModifyCurrentHero_def
  parseCmdReqModifyJewel_def parseCmdReqResetDailyLottery_def parseCmdReqModifySpirit_def parseCmdReqResetConcernWeiXin_def

lemmas parse_read_defs = parseReqActivityAnnouncement_def parseReqShopConfig_def parseReqGameGlobalConfig_def
  parseReqDailyGameRankList_def

lemmas handler_wf = EnterGame_wf ReqExitGame_wf ReqUnlockChapter_wf ReqModifyTaskCompleteCount_wf ReqBuySpirit_wf ReqBuyLotion_wf
  ReqDayLottery_wf ReqReliveReq_wf ReqConcernWeiXin_wf small_changes_wf ReqResetDailyGameProgress_wf ReqReceiveDailyGamePrize_wf
  ReqCrearteDeal_wf RefreshTask_wf ReqReplaceTask_wf

lemma handler_changes:
  "own_change h (fst (ReqEnterGame cfg now ch sec h))" "own_change h (fst (EnterGame cfg now ch sec b h))"
  "own_change h (fst (ReqExitGame cfg now msg h))" "own_change h (fst (ReqUnlockChapter cfg now ch h))"
  "own_change h (fst (ReqModifyTaskCompleteCount n h))" "own_change h (fst (ReqBuySpirit cfg now i h))"
  "own_change h (fst (ReqBuyLotion cfg l h))" "own_change h (fst (ReqDayLottery cfg now r1 r2 h))"
  "own_change h (fst (ReqReliveReq cfg now h))" "own_change h (fst (ReqConcernWeiXin cfg now key h))"
  "own_change h (fst (ReqModifyGold a h))" "own_change h (fst (ReqResetMap ch sec h))"
  "own_change h (fst (ReqModifyTutorialFlag fl h))" "own_change h (fst (ReqRemoveAllSpecialCreatureList h))"
  "own_change h (fst (ReqSetSpecialCreatureList c st h))" "own_change h (fst (ReqModifyNotifyGridState gs h))"
  "own_change h (ResetDailyLottery h)" "own_change h (ResetWeiXin h)"
  "own_change h (fst (ReqResetDailyGameProgress cfg now h))" "own_change h (fst (ReqReceiveDailyGamePrize now h))"
  "own_change h (fst (ReqCrearteDeal now key ch h))"
  by (rule own_change_keeps; simp add: message_keeps handler_wf ReqEnterGame_def)+

lemma task_changes:
  assumes "config_tasks_ok cfg"
  shows "own_change h (fst (ReqAdvertisementApplyTask cfg now r b h))" "own_change h (fst (ReqAdvertisementRefreshTask cfg now r t b h))"
    "own_change h (fst (ReqReplaceTask cfg rs n h))"
  using assms by (auto intro!: own_change_keeps simp: message_keeps handler_wf ReqAdvertisementApplyTask_def
      ReqAdvertisementRefreshTask_def RefreshTask_keeps)

lemma option_changes:
  "ReqModifyCurrentHero grid h = Some (h', fx) \<Longrightarrow> own_change h h'" "ReqBuyHero cfg lg now grid offer h = Some (h', fx) \<Longrightarrow> own_change h h'"
  by (auto intro!: own_change_keeps intro: ReqModifyCurrentHero_keeps ReqBuyHero_keeps ReqModifyCurrentHero_wf ReqBuyHero_wf)

lemmas own_changes = handler_changes own_change_jewel own_change_spirit

lemma parse_own:
  assumes p: "parsePBMessage now rs m s g = Some (g', fx)" and wf: "map_wf (heroes_map g)"
    and t: "config_tasks_ok (g_cfg g)" and c: "config_start_ok (g_cfg g)"
    and "\<forall>name level. m \<noteq> MsgC2SCmdReqModifyGMLevel name level"
  shows "only_own s g g'"
proof -
  note elims = if_hero_call [OF _ wf] if_hero_gm [OF _ wf] deref_gm [OF _ wf] gm_or_notify_call [OF _ wf]
  show ?thesis
    using p assms(5) wf
    by (cases m)
      (auto simp: parse_hero_defs parse_read_defs parseReqEnterDailyGame_def parseReqGoldShopConfigs_def parseReqVerifyDeal_def
        own_changes task_changes [OF t] wf
        elim!: elims if_hero_call_opt [OF _ wf] if_hero_read [OF _ wf] parseReqUpdateDailyGameProgress_own [OF _ wf]
          parseCmdReqResetResetDailyGame_own [OF _ wf] parseCmdReqClearDailyRankList_own [OF _ wf] parseCmdReqResetGame_own [OF _ wf c]
        intro: option_changes only_own_same)
qed


lemma map_assign_same: "map_wf m \<Longrightarrow> map_find k m = Some v \<Longrightarrow> map_assign k v m = m"
  by (induction k v m rule: map_assign.induct) (auto simp: map_wf_Cons dest!: map_find_Some_in split: if_splits)

lemma set_hero_same: "map_wf (mg_heroes (g_mgr g)) \<Longrightarrow> GetHero (g_mgr g) k = Some h \<Longrightarrow> set_hero k h g = g"
  by (simp add: set_hero_def put_hero_def GetHero_def map_assign_same)

lemma GetHeroByName_find:
  assumes "map_wf (mg_heroes m)" "GetHeroByName m name = Some (k, h)"
  shows "map_find k (mg_heroes m) = Some h \<and> hero_name (info h) = name"
  using assms by (auto simp: GetHeroByName_def find_Some_iff map_find_in dest: nth_mem)

lemma parse_gm_level:
  assumes "parseCmdReqMdodifyGMLevel name level s g = Some (g', fx)" "map_wf (heroes_map g)"
  obtains "g' = g" | k h where "map_find k (heroes_map g) = Some h" "hero_name (info h) = name" "g' = set_hero k (h\<lparr>gm_level := level\<rparr>) g"
    "\<exists>i h0. s_hero s = Some i \<and> GetHero (g_mgr g) i = Some h0 \<and> 3 \<le> gm_level h0"
  using assms GetHeroByName_find [of "g_mgr g" name]
  by (fastforce simp: parseCmdReqMdodifyGMLevel_def if_hero_def deref_def heroes_map_def split: if_splits option.splits)

text \<open>A server with two players; the second is an administrator.\<close>

definition sample_game :: game where
  "sample_game = \<lparr>g_cfg = sample_config, g_sales = \<lparr>ledger = sample_ledger, shopSalesPromotions = []\<rparr>, g_ranks = sample_ranks,
     g_mgr = \<lparr>mg_heroes = [(42, sample_hero), (43, sample_hero\<lparr>account := 43, session := Some 2, gm_level := 3\<rparr>)],
       mg_day_number = replicate 6 [0..9], mg_save_all_heroes_ok = False, mg_day_create_heroes_count = 0,
       mg_hero_day_title = ''aaa'', mg_names = [], mg_last_save_time = 0, mg_heroes_orders = [], mg_deal_order_id = 0\<rparr>\<rparr>"

definition sample_session :: "int \<Rightarrow> int \<Rightarrow> int option \<Rightarrow> Session" where
  "sample_session t acc h = \<lparr>s_tranid = t, s_account = acc, s_gate = 1, s_online = True, s_hero = h, s_channel = 1\<rparr>"

lemma sample_game_ok [simp]:
  "map_wf (mg_heroes (g_mgr sample_game))" "config_tasks_ok (g_cfg sample_game)" "config_start_ok (g_cfg sample_game)"
  "GetHero (g_mgr sample_game) 42 = Some sample_hero"
  "GetHero (g_mgr sample_game) 43 = Some (sample_hero\<lparr>account := 43, session := Some 2, gm_level := 3\<rparr>)"
  by (simp_all add: sample_game_def map_wf_Cons config_tasks_ok_def config_start_ok_def sample_config_def sample_global_def
      in32_def GetHero_def)

section \<open>Properties\<close>

text \<open>
  C4. A message of one client never changes the hero of another: whatever \<open>Session::parsePBMessage\<close> does
  for a session, a hero that is not the session's own is afterwards exactly as before. The only
  exception is the command that sets an administration level; it changes the level of a hero with
  the given name and nothing else, and only when the sender's own level is at least 3.
\<close>

theorem message_scope:
  assumes "parsePBMessage now rs m s g = Some (g', fx)" "map_wf (mg_heroes (g_mgr g))"
    "config_tasks_ok (g_cfg g)" "config_start_ok (g_cfg g)"
    and "s_hero s \<noteq> Some k" "GetHero (g_mgr g) k = Some h"
  shows "GetHero (g_mgr g') k = Some h \<or>
    (\<exists>level i own. m = MsgC2SCmdReqModifyGMLevel (hero_name (info h)) level \<and> s_hero s = Some i \<and>
       GetHero (g_mgr g) i = Some own \<and> 3 \<le> gm_level own \<and> GetHero (g_mgr g') k = Some (h\<lparr>gm_level := level\<rparr>))"
proof (cases "\<exists>name level. m = MsgC2SCmdReqModifyGMLevel name level")
  case False
  then have "only_own s g g'" using assms(1-4) by (intro parse_own) (auto simp: heroes_map_def)
  then show ?thesis using assms(5,6) by (auto simp: only_own_def GetHero_def heroes_map_def option_rel_Some1 dest!: spec [of _ k])
next
  case True
  then obtain name level where m: "m = MsgC2SCmdReqModifyGMLevel name level" by blast
  then have "parseCmdReqMdodifyGMLevel name level s g = Some (g', fx)" "map_wf (heroes_map g)"
    using assms(1,2) by (simp_all add: heroes_map_def)
  then show ?thesis
    by (cases rule: parse_gm_level)
      (use assms(2,6) m in \<open>auto simp: GetHero_def set_hero_def put_hero_def heroes_map_def map_find_assign\<close>)
qed

theorem message_scope_witness:
  "\<exists>g' fx. parsePBMessage 0 (\<lambda>_. 0) (MsgC2SReqModifyNewTutorial 5) (sample_session 1 42 (Some 42)) sample_game = Some (g', fx) \<and>
     GetHero (g_mgr g') 43 = GetHero (g_mgr sample_game) 43"
proof -
  let ?s = "sample_session 1 42 (Some 42)"
  obtain g' fx where p: "parsePBMessage 0 (\<lambda>_. 0) (MsgC2SReqModifyNewTutorial 5) ?s sample_game = Some (g', fx)"
    by (simp add: parseReqModifyTutorial_def if_hero_def deref_def call_def call_opt_def sample_session_def ReqModifyTutorialFlag_def Let_def)
  have "GetHero (g_mgr g') 43 = GetHero (g_mgr sample_game) 43"
    using message_scope [OF p, of 43] by (simp add: sample_session_def)
  with p show ?thesis by blast
qed

text \<open>The commands of administrators, and the error an answer carries.\<close>

fun is_command :: "c2s \<Rightarrow> bool" where
  "is_command MsgC2SCmdReqResetConcernWeiXin = True"
| "is_command (MsgC2SCmdReqModifyGMLevel _ _) = True"
| "is_command (MsgC2SCmdReqEnterGame _ _) = True"
| "is_command (MsgC2SCmdReqResetMap _ _) = True"
| "is_command MsgC2SCmdReqResetGame = True"
| "is_command (MsgC2SCmdReqModifyGold _) = True"
| "is_command (MsgS2CCmdReqReplaceTask _) = True"
| "is_command (MsgC2SCmdReqModifyTaskCompleteCount _) = True"
| "is_command (MsgC2SCmdReqSetSpecialCreatureHis _ _) = True"
| "is_command MsgC2SCmdReqRemoveSpecialCreatureListHis = True"
| "is_command (MsgC2SCmdReqModifyJewel _) = True"
| "is_command (MsgC2SCmdReqModifySpirit _) = True"
| "is_command MsgC2SCmdReqResetDailyLottery = True"
| "is_command MsgC2SCmdReqResetDailyGame = True"
| "is_command MsgC2SCmdClearDailyRankList = True"
| "is_command _ = False"

fun command_error :: "s2c \<Rightarrow> GameError" where
  "command_error (MsgS2CNotifyError e) = e"
| "command_error (MsgS2CCmdClearDailyRankListACK e) = e"
| "command_error (MsgS2CCmdModifyGMLevelACK _ _ e) = e"
| "command_error (MsgS2CCmdModifyJewelACK _ e) = e"
| "command_error (MsgS2CCmdModifySpiritACK _ e) = e"
| "command_error (MsgS2CCmdResetDailyLotteryACK e) = e"
| "command_error (MsgS2CCmdResetDailyGameACK e) = e"
| "command_error (MsgS2CCmdResetConcernWeiXinACK e) = e"
| "command_error _ = Error_NO"

lemmas parse_command_defs = parseCmdReqModifyJewel_def parseCmdReqResetDailyLottery_def parseCmdReqClearDailyRankList_def
  parseCmdReqResetResetDailyGame_def parseCmdReqModifySpirit_def parseCmdReqMdodifyGMLevel_def parseCmdReqEnterGame_def
  parseCmdReqResetMap_def parseCmdReqResetConcernWeiXin_def parseCmdReqResetGame_def parseCmdReqModifyGold_def
  parseCmdReqReplaceTask_def parseCmdReqModifyTaskCompleteCount_def parseCmdReqRemoveSpecialCreatureListHis_def
  parseCmdReqSetSpecialCreatureHis_def gm_or_notify_def gm_then_ack_def

text \<open>
  C6. Every administration command of a player without an administration level is refused: the state of
  the server is unchanged, and the single answer goes to the sender and carries
  \<open>Error_CmdFailedRequiredGMLevel\<close>.
\<close>

theorem command_refused:
  assumes "is_command m" "map_wf (mg_heroes (g_mgr g))" "s_hero s = Some k" "GetHero (g_mgr g) k = Some h" "gm_level h \<le> 0"
  shows "\<exists>ack. parsePBMessage now rs m s g = Some (g, [Send (s_tranid s) ack]) \<and> command_error ack = Error_CmdFailedRequiredGMLevel"
  using assms
  by (cases m) (simp_all add: parse_command_defs if_hero_def deref_def call_def call_opt_def session_send_def set_hero_same)

theorem command_refused_witness:
  "\<exists>ack. parsePBMessage 0 (\<lambda>_. 0) (MsgC2SCmdReqModifyGold 1000000) (sample_session 1 42 (Some 42)) sample_game =
     Some (sample_game, [Send 1 ack]) \<and> command_error ack = Error_CmdFailedRequiredGMLevel"
  using command_refused [of "MsgC2SCmdReqModifyGold 1000000" sample_game "sample_session 1 42 (Some 42)" 42 sample_hero 0 "\<lambda>_. 0"]
  by (simp add: sample_session_def) (simp add: sample_hero_def)

text \<open>
  C36. Messages before the hero is loaded: while a session has no hero, exactly three messages have no
  defined behaviour (the commands that clear the rank list, reset the daily game or change the
  spirit, which use the null pointer without a test); every other message leaves the server as it is.
\<close>

theorem message_without_hero:
  assumes "s_hero s = None"
  shows "if m = MsgC2SCmdClearDailyRankList \<or> m = MsgC2SCmdReqResetDailyGame \<or> (\<exists>a. m = MsgC2SCmdReqModifySpirit a)
    then parsePBMessage now rs m s g = None
    else \<exists>fx. parsePBMessage now rs m s g = Some (g, fx)"
  using assms
  by (cases m) (simp_all add: parse_hero_defs parse_read_defs parse_command_defs parseReqEnterDailyGame_def
      parseReqGoldShopConfigs_def parseReqVerifyDeal_def parseReqUpdateDailyGameProgress_def if_hero_def deref_def)

theorem message_without_hero_witness:
  "parsePBMessage 0 (\<lambda>_. 0) MsgC2SCmdClearDailyRankList (sample_session 1 42 None) sample_game = None \<and>
   (\<exists>fx. parsePBMessage 0 (\<lambda>_. 0) MsgC2SReliveReq (sample_session 1 42 None) sample_game = Some (sample_game, fx))"
  using message_without_hero [of "sample_session 1 42 None" MsgC2SCmdClearDailyRankList 0 "\<lambda>_. 0" sample_game]
    message_without_hero [of "sample_session 1 42 None" MsgC2SReliveReq 0 "\<lambda>_. 0" sample_game]
  by (simp add: sample_session_def)

end
