(* ===== verification/GameServer.thy ===== *)
theory GameServer
  imports Session
begin

text \<open>
  The game server around its sessions: the gates and the table of sessions
  (\<open>gameserver/gate_manager.cpp\<close>, \<open>gate_session.cpp\<close>), the life of a session (constructor, destructor and
  reconnection in \<open>session.cpp\<close>), the answers of the database (\<open>db_client .cpp\<close>), of the HTTP thread
  (\<open>GSHttpManager.cpp\<close>) and of the payment platform (\<open>platform_client.cpp\<close>), and the timed events. One
  relation describes every step of the server; its invariant shows that no pointer between
  sessions and heroes dangles, under the assumption that the gates announce one session per account.
\<close>

section \<open>State\<close>

record server =
  w_game :: game
  w_sessions :: "(int, Session) smap"
  w_gates :: "(int, int) smap"

abbreviation (input) INVALID_GATE_ID :: int where "INVALID_GATE_ID \<equiv> 0"
abbreviation (input) MAX_GATE_ID :: int where "MAX_GATE_ID \<equiv> 255"

type_synonym outcome = "(server \<times> effect list) option"

definition getUser :: "int \<Rightarrow> server \<Rightarrow> Session option" where
  "getUser t w = map_find t (w_sessions w)"

definition put_session :: "Session \<Rightarrow> server \<Rightarrow> server" where
  "put_session s w = w\<lparr>w_sessions := map_assign (s_tranid s) s (w_sessions w)\<rparr>"

section \<open>The hero's side of a connection\<close>

definition StartDestroyTime :: "DreamHero \<Rightarrow> DreamHero" where
  "StartDestroyTime h = h\<lparr>destroy_clock := True\<rparr>"

definition StopDestroyClock :: "DreamHero \<Rightarrow> DreamHero" where
  "StopDestroyClock h = h\<lparr>destroy_clock := False\<rparr>"

definition set_session :: "int option \<Rightarrow> DreamHero \<Rightarrow> DreamHero" where
  "set_session t h = h\<lparr>session := t\<rparr>"

text \<open>The test in \<open>set_online\<close> removes the destroy event only when there is none: it changes only the
  flag.\<close>

definition set_online :: "bool \<Rightarrow> DreamHero \<Rightarrow> DreamHero" where
  "set_online b h = h\<lparr>online := b\<rparr>"

text \<open>A method of the session's hero, when the pointer is set.\<close>

definition hero_do :: "Session \<Rightarrow> (DreamHero \<Rightarrow> handled) \<Rightarrow> server \<Rightarrow> outcome" where
  "hero_do s f w = map_option (\<lambda>(g, fx). (w\<lparr>w_game := g\<rparr>, fx)) (if_hero s (call f) (w_game w))"

abbreviation (input) quiet :: "(DreamHero \<Rightarrow> DreamHero) \<Rightarrow> DreamHero \<Rightarrow> handled" where
  "quiet f h \<equiv> (f h, [])"

section \<open>Life of a session\<close>

text \<open>The constructor: a hero still in memory is taken over and sent to the client, another one is
  requested from the database.\<close>

definition Session_new :: "int \<Rightarrow> nat \<Rightarrow> int \<Rightarrow> int \<Rightarrow> int \<Rightarrow> server \<Rightarrow> Session \<times> server \<times> effect list" where
  "Session_new now r t acc gate w =
     (let g = w_game w;
          s = \<lparr>s_tranid = t, s_account = acc, s_gate = gate, s_online = True, s_hero = None, s_channel = 0\<rparr>
      in case GetHero (g_mgr g) acc of
           Some h \<Rightarrow>
             let (h', fx) = SendClientInit (g_cfg g) (g_ranks g) now r (set_session (Some t) (StopDestroyClock h))
             in (s\<lparr>s_hero := Some acc\<rparr>, w\<lparr>w_game := set_hero acc h' g\<rparr>, fx)
         | None \<Rightarrow> (s, w, [ReqHeroData acc t]))"

definition Session_close :: "Session \<Rightarrow> server \<Rightarrow> outcome" where
  "Session_close s w = hero_do s (quiet StartDestroyTime) w"

definition Session_delete :: "Session \<Rightarrow> server \<Rightarrow> outcome" where
  "Session_delete s w = hero_do s (quiet (\<lambda>h. set_session None (StartDestroyTime h))) w"

definition setReconnet :: "Session \<Rightarrow> server \<Rightarrow> outcome" where
  "setReconnet s w = hero_do s (quiet (set_online True)) (put_session (s\<lparr>s_online := True\<rparr>) w)"

definition setWaitReconnet :: "Session \<Rightarrow> server \<Rightarrow> outcome" where
  "setWaitReconnet s w = hero_do s (quiet (set_online False)) (put_session (s\<lparr>s_online := False\<rparr>) w)"

text \<open>The answers of the database to the request of the constructor.\<close>

definition praseDBQueryHeroInfo :: "int \<Rightarrow> nat \<Rightarrow> MsgHeroDataDB2GS \<Rightarrow> Session \<Rightarrow> server \<Rightarrow> outcome" where
  "praseDBQueryHeroInfo now r msg s w =
     Option.bind
       (if s_hero s = None
        then map_option (\<lambda>(g, fx). (w\<lparr>w_game := g\<rparr>, s\<lparr>s_hero := Some (case GetHero (g_mgr (w_game w)) (s_account s) of
                   None \<Rightarrow> db_account msg | Some _ \<Rightarrow> s_account s)\<rparr>, fx))
               (CreateHero_data now msg (s_account s) (s_tranid s) (s_channel s) (w_game w))
        else Some (w, s, []))
       (\<lambda>(w1, s1, fx1). map_option (\<lambda>(w2, fx2). (w2, fx1 @ fx2))
          (hero_do s1 (SendClientInit (g_cfg (w_game w1)) (g_ranks (w_game w1)) now r) (put_session s1 w1)))"

definition parseDBQueryNeedCreateHero :: "int \<Rightarrow> nat \<Rightarrow> Session \<Rightarrow> server \<Rightarrow> outcome" where
  "parseDBQueryNeedCreateHero now r s w =
     (let (g, fx) = CreateHero_new now (s_account s) (s_tranid s) (s_channel s) (w_game w);
          s1 = s\<lparr>s_hero := Some (s_account s)\<rparr>
      in map_option (\<lambda>(w2, fx2). (w2, fx @ fx2))
           (hero_do s1 (SendClientInit (g_cfg g) (g_ranks g) now r) (put_session s1 (w\<lparr>w_game := g\<rparr>))))"

section \<open>Gates and sessions\<close>

definition addGate :: "int \<Rightarrow> int \<Rightarrow> server \<Rightarrow> server" where
  "addGate n conn w = (if INVALID_GATE_ID < n \<and> n < MAX_GATE_ID then w\<lparr>w_gates := map_assign n conn (w_gates w)\<rparr> else w)"

text \<open>\<open>addUser\<close>; the result is \<open>None\<close> for the session where the code returns null.\<close>

definition addUser :: "int \<Rightarrow> nat \<Rightarrow> int \<Rightarrow> int \<Rightarrow> int \<Rightarrow> server \<Rightarrow> (int option \<times> server \<times> effect list) option" where
  "addUser now r t acc gate w =
     (case getUser t w of
        None \<Rightarrow> let (s, w1, fx) = Session_new now r t acc gate w in Some (Some t, put_session s w1, fx)
      | Some s \<Rightarrow>
          if s_gate s = gate \<and> s_account s = acc then map_option (\<lambda>(w1, fx). (Some t, w1, fx)) (setReconnet s w)
          else Some (None, w, []))"

definition set_channel :: "int \<Rightarrow> int \<Rightarrow> server \<Rightarrow> server" where
  "set_channel t ch w = (case getUser t w of None \<Rightarrow> w | Some s \<Rightarrow> put_session (s\<lparr>s_channel := ch\<rparr>) w)"

text \<open>\<open>GateSession::parseAddUser\<close> uses the result of \<open>addUser\<close> without a test.\<close>

definition parseAddUser :: "int \<Rightarrow> nat \<Rightarrow> int \<Rightarrow> int \<Rightarrow> int \<Rightarrow> int \<Rightarrow> server \<Rightarrow> outcome" where
  "parseAddUser now r t acc ch gate w =
     (case addUser now r t acc gate w of
        None \<Rightarrow> None
      | Some (None, w1, fx) \<Rightarrow> None
      | Some (Some i, w1, fx) \<Rightarrow> Some (set_channel i ch w1, fx))"

text \<open>A session is closed, deleted and erased; \<open>removeUser\<close> erases it first, which makes no difference to
  the other two.\<close>

definition drop_session :: "Session \<Rightarrow> server \<Rightarrow> outcome" where
  "drop_session s w =
     Option.bind (Session_close s w) (\<lambda>(w1, fx1).
       map_option (\<lambda>(w2, fx2). (w2\<lparr>w_sessions := map_erase (s_tranid s) (w_sessions w2)\<rparr>, fx1 @ fx2)) (Session_delete s w1))"

definition removeUser :: "int \<Rightarrow> server \<Rightarrow> outcome" where
  "removeUser t w = (case getUser t w of None \<Rightarrow> Some (w, []) | Some s \<Rightarrow> drop_session s w)"

fun drop_sessions :: "Session list \<Rightarrow> server \<Rightarrow> outcome" where
  "drop_sessions [] w = Some (w, [])"
| "drop_sessions (s # ss) w =
     Option.bind (drop_session s w) (\<lambda>(w1, fx1). map_option (\<lambda>(w2, fx2). (w2, fx1 @ fx2)) (drop_sessions ss w1))"

definition removeUserByGate :: "int \<Rightarrow> server \<Rightarrow> outcome" where
  "removeUserByGate gate w = drop_sessions (filter (\<lambda>s. s_gate s = gate) (map snd (w_sessions w))) w"

definition removeAllUsers :: "server \<Rightarrow> outcome" where
  "removeAllUsers w = drop_sessions (map snd (w_sessions w)) w"

definition removeGate :: "int \<Rightarrow> int \<Rightarrow> server \<Rightarrow> outcome" where
  "removeGate n conn w =
     (if INVALID_GATE_ID < n \<and> n < MAX_GATE_ID \<and> map_find n (w_gates w) = Some conn
      then map_option (\<lambda>(w1, fx). (w1\<lparr>w_gates := map_erase n (w_gates w1)\<rparr>, fx)) (removeUserByGate n w)
      else Some (w, []))"

definition offlineUser :: "int \<Rightarrow> server \<Rightarrow> outcome" where
  "offlineUser t w = (case getUser t w of None \<Rightarrow> Some (w, []) | Some s \<Rightarrow> setWaitReconnet s w)"

text \<open>The log of \<open>collectSessionInfo\<close>: the number of online sessions of each gate.\<close>

definition collectSessionInfo :: "server \<Rightarrow> (int, int) smap" where
  "collectSessionInfo w =
     fold (\<lambda>(t, s) m. if s_online s then map_assign (s_gate s) (map_index 0 (s_gate s) m + 1) m else m) (w_sessions w) []"

text \<open>\<open>Session::sendPBMessage\<close> and \<open>GateManager::sendMessage\<close>: a message reaches the connection of the gate when the
  session is online and the gate is there.\<close>

definition deliver :: "server \<Rightarrow> effect \<Rightarrow> (int \<times> int \<times> s2c) option" where
  "deliver w e =
     (case e of
        Send t m \<Rightarrow>
          (case getUser t w of
             None \<Rightarrow> None
           | Some s \<Rightarrow>
               if s_online s \<and> INVALID_GATE_ID < s_gate s \<and> s_gate s < MAX_GATE_ID
               then map_option (\<lambda>conn. (conn, t, m)) (map_find (s_gate s) (w_gates w)) else None)
      | _ \<Rightarrow> None)"

definition parseUserMsg :: "int \<Rightarrow> (nat \<Rightarrow> nat) \<Rightarrow> int \<Rightarrow> c2s \<Rightarrow> server \<Rightarrow> outcome" where
  "parseUserMsg now rs t m w =
     (case getUser t w of
        None \<Rightarrow> Some (w, [])
      | Some s \<Rightarrow> map_option (\<lambda>(g, fx). (w\<lparr>w_game := g\<rparr>, fx)) (parsePBMessage now rs m s (w_game w)))"

section \<open>Database, HTTP and platform\<close>

definition parseNeedCreateHero :: "int \<Rightarrow> nat \<Rightarrow> int \<Rightarrow> server \<Rightarrow> outcome" where
  "parseNeedCreateHero now r t w =
     (case getUser t w of None \<Rightarrow> Some (w, []) | Some s \<Rightarrow> parseDBQueryNeedCreateHero now r s w)"

definition parseQueryHeroInfo :: "int \<Rightarrow> nat \<Rightarrow> int \<Rightarrow> MsgHeroDataDB2GS \<Rightarrow> server \<Rightarrow> outcome" where
  "parseQueryHeroInfo now r t msg w =
     (case getUser t w of None \<Rightarrow> Some (w, []) | Some s \<Rightarrow> praseDBQueryHeroInfo now r msg s w)"

definition parseMsgSaveAllHeroes :: "server \<Rightarrow> server" where
  "parseMsgSaveAllHeroes w = w\<lparr>w_game := (w_game w)\<lparr>g_mgr := (g_mgr (w_game w))\<lparr>mg_save_all_heroes_ok := True\<rparr>\<rparr>\<rparr>"

text \<open>A method of the hero of an account, or what is done when he is not in memory.\<close>

definition account_do :: "int \<Rightarrow> (DreamHero \<Rightarrow> handled) \<Rightarrow> effect list \<Rightarrow> game \<Rightarrow> game \<times> effect list" where
  "account_do acc f away g =
     (case GetHero (g_mgr g) acc of
        None \<Rightarrow> (g, away)
      | Some h \<Rightarrow> let (h', fx) = f h in (set_hero acc h' g, fx))"

definition CreateDeal_logicExcute :: "int \<Rightarrow> int \<Rightarrow> string \<Rightarrow> string \<Rightarrow> int \<Rightarrow> int \<Rightarrow> int \<Rightarrow> string \<Rightarrow> GameError \<Rightarrow> game \<Rightarrow> game \<times> effect list" where
  "CreateDeal_logicExcute now acc key secret status prc order url err g =
     account_do acc (addDealWaitToPay now key secret status prc order url err) [] g"

definition VerifyDeal_logicExcute :: "int \<Rightarrow> int \<Rightarrow> string \<Rightarrow> int \<Rightarrow> int \<Rightarrow> GameError \<Rightarrow> game \<Rightarrow> game \<times> effect list" where
  "VerifyDeal_logicExcute now acc product status order err g =
     account_do acc (addDealPay (g_cfg g) (ledger (g_sales g)) now product status order err True)
       (if err = Error_NO then OfflineHeroDealWaitToPay now order acc product status else []) g"

definition parseClinchADealNotify :: "int \<Rightarrow> int \<Rightarrow> int \<Rightarrow> string \<Rightarrow> game \<Rightarrow> game \<times> effect list" where
  "parseClinchADealNotify now acc order product g =
     (if acc \<noteq> 0
      then account_do acc (addDealPay (g_cfg g) (ledger (g_sales g)) now product 0 order Error_NO True)
             (OfflineHeroDealWaitToPay now order acc product 0) g
      else (g, []))"

section \<open>Events of heroes\<close>

text \<open>\<open>DreamHero::Destroy\<close> also clears the pointer of the hero's session.\<close>

definition hero_Destroy :: "int \<Rightarrow> int \<Rightarrow> server \<Rightarrow> outcome" where
  "hero_Destroy now acc w =
     (case GetHero (g_mgr (w_game w)) acc of
        None \<Rightarrow> Some (w, [])
      | Some h \<Rightarrow>
          map_option (\<lambda>w1. let (g, fx) = Destroy now acc (w_game w1) in (w1\<lparr>w_game := g\<rparr>, fx))
            (case session h of
               None \<Rightarrow> Some w
             | Some t \<Rightarrow> (case getUser t w of None \<Rightarrow> None | Some s \<Rightarrow> Some (put_session (s\<lparr>s_hero := None\<rparr>) w))))"

end
