(* ===== verification/Server_Steady.thy ===== *)
theory Server_Steady
  imports GameServer
begin

text \<open>
  Steady changes: the handlers, the deals and the timed events keep every hero well-formed and in
  his place (same account, same session), and the promotions keep the tables that this needs.
\<close>

section \<open>Steady changes of heroes\<close>

text \<open>A change that keeps a hero well-formed and in his place: same account, same session.\<close>

definition steady :: "DreamHero \<Rightarrow> DreamHero \<Rightarrow> bool" where
  "steady h h' \<longleftrightarrow> (hero_wf h \<longrightarrow> hero_wf h') \<and> account h' = account h \<and> session h' = session h"

definition steady_heroes :: "(int, DreamHero) smap \<Rightarrow> (int, DreamHero) smap \<Rightarrow> bool" where
  "steady_heroes m m' \<longleftrightarrow> (map_wf m \<longrightarrow> map_wf m' \<and> (\<forall>k. rel_option steady (map_find k m) (map_find k m')))"

lemma steady_refl [simp]: "steady h h"
  by (simp add: steady_def)

lemma steady_trans: "steady a b \<Longrightarrow> steady b c \<Longrightarrow> steady a c"
  by (auto simp: steady_def)

lemma steady_heroes_refl [simp]: "steady_heroes m m"
  by (simp add: steady_heroes_def option.rel_refl_strong)

lemma rel_steady_trans: "rel_option steady x y \<Longrightarrow> rel_option steady y z \<Longrightarrow> rel_option steady x z"
  by (cases x; cases y; cases z) (auto intro: steady_trans)

lemma steady_heroes_trans: "steady_heroes a b \<Longrightarrow> steady_heroes b c \<Longrightarrow> steady_heroes a c"
  unfolding steady_heroes_def using rel_steady_trans by blast

lemma steady_heroes_assign: "map_find k m = Some h \<Longrightarrow> steady h h' \<Longrightarrow> steady_heroes m (map_assign k h' m)"
  by (auto simp: steady_heroes_def map_wf_assign map_find_assign option.rel_refl_strong)

lemma own_change_steady: "own_change h h' \<Longrightarrow> steady h h'"
  by (simp add: own_change_def steady_def)

lemma keeps_steady: "keeps h h' \<Longrightarrow> (hero_wf h \<Longrightarrow> hero_wf h') \<Longrightarrow> steady h h'"
  by (simp add: keeps_def steady_def)

lemma only_own_steady: "only_own s g g' \<Longrightarrow> steady_heroes (mg_heroes (g_mgr g)) (mg_heroes (g_mgr g'))"
proof -
  assume own: "only_own s g g'"
  have "rel_option steady (map_find k (heroes_map g)) (map_find k (heroes_map g'))" for k
    by (rule option.rel_mono_strong [of "\<lambda>h h'. if s_hero s = Some k then own_change h h' else h' = h"])
      (use own in \<open>auto simp: only_own_def own_change_steady split: if_splits\<close>)
  then show ?thesis using own by (simp add: only_own_def steady_heroes_def heroes_map_def)
qed

text \<open>Every hero in turn.\<close>

lemma each_hero_find: "map_find k (fst (each_hero f i m)) = None \<longleftrightarrow> map_find k m = None"
  by (induction f i m rule: each_hero.induct) (auto split: prod.splits)

lemma each_hero_fst: "map fst (fst (each_hero f i m)) = map fst m"
  by (induction f i m rule: each_hero.induct) (auto split: prod.splits)

lemma each_hero_rel:
  assumes "\<And>i h. steady h (fst (f i h))"
  shows "rel_option steady (map_find k m) (map_find k (fst (each_hero f i m)))"
  using assms by (induction f i m rule: each_hero.induct) (auto split: prod.splits, metis fst_conv)

lemma map_wf_fst: "map fst m = map fst m' \<Longrightarrow> map_wf m = map_wf m'"
  by (simp add: map_wf_def)

lemma for_heroes_steady:
  assumes "\<And>i h. steady h (fst (f i h))" "for_heroes f g = (g', fx)"
  shows "steady_heroes (mg_heroes (g_mgr g)) (mg_heroes (g_mgr g'))"
proof -
  have "mg_heroes (g_mgr g') = fst (each_hero f 0 (mg_heroes (g_mgr g)))"
    using assms(2) by (auto simp: for_heroes_def split: prod.splits)
  then show ?thesis using each_hero_rel [of f] assms(1) map_wf_fst [OF each_hero_fst]
    by (simp add: steady_heroes_def)
qed

lemma timed_keeps:
  "keeps h (fst (dayRefresh cfg now r b h))" "keeps h (fst (recoverSpirit cfg now h))"
  "keeps h (fst (TryToGetGamePrize cfg rm b h))" "keeps h (fst (DailyGamePrize g h))"
  "keeps h (fst (addDealPay cfg lg now key st order err b h))" "keeps h (fst (addDealWaitToPay now key s st p order url err h))"
  subgoal by (auto simp: dayRefresh_def Let_def keeps_def)
  subgoal by (auto simp: keeps_def recoverSpirit_def Let_def)
  subgoal by (auto simp: keeps_def TryToGetGamePrize_def Let_def)
  subgoal by (auto simp: keeps_def DailyGamePrize_def Let_def)
  subgoal by (auto simp: keeps_def addDealPay_def Let_def split: option.splits)
  subgoal by (auto simp: keeps_def addDealWaitToPay_def Let_def)
  done

lemma timed_steady:
  "config_tasks_ok cfg \<Longrightarrow> steady h (fst (dayRefresh cfg now r b h))"
  "in32 (config_max_spirit (cfg_global cfg)) \<Longrightarrow> steady h (fst (recoverSpirit cfg now h))"
  "steady h (fst (TryToGetGamePrize cfg rm b h))" "steady h (fst (DailyGamePrize g h))"
  "steady h (fst (addDealPay cfg lg now key st order err b h))" "steady h (fst (addDealWaitToPay now key s st p order url err h))"
  by (simp_all add: keeps_steady timed_keeps dayRefresh_wf recoverSpirit_wf TryToGetGamePrize_wf DailyGamePrize_wf
      addDealPay_wf addDealWaitToPay_wf)

lemma steady_result: "p = (h', fx) \<Longrightarrow> steady h (fst p) \<Longrightarrow> steady h h'"
  by simp

lemma account_do_steady:
  assumes "\<And>h. steady h (fst (f h))" "account_do acc f away g = (g', fx)"
  shows "steady_heroes (mg_heroes (g_mgr g)) (mg_heroes (g_mgr g')) \<and> g_cfg g' = g_cfg g"
proof (cases "GetHero (g_mgr g) acc")
  case (Some h)
  obtain h' fx' where f: "f h = (h', fx')" by fastforce
  have "steady_heroes (mg_heroes (g_mgr g)) (map_assign acc h' (mg_heroes (g_mgr g)))"
    by (rule steady_heroes_assign [of _ _ h]) (use Some steady_result [OF f] assms(1) in \<open>auto simp: GetHero_def\<close>)
  then show ?thesis using assms(2) Some f by (auto simp: account_do_def set_hero_def put_hero_def)
qed (use assms in \<open>simp add: account_do_def\<close>)

section \<open>The daily update\<close>

lemma daily_entry_steady: "steady_heroes (da_heroes a) (da_heroes (daily_entry cfg t e a))"
  by (auto simp: daily_entry_def Let_def steady_result [OF _ timed_steady(4)] split: option.splits prod.splits
      intro!: steady_heroes_assign)

lemma daily_fold_steady: "steady_heroes (da_heroes a) (da_heroes (fold (daily_entry cfg t) es a))"
  by (induction es arbitrary: a) (auto intro: steady_heroes_trans daily_entry_steady)

lemma DailyGameUpdate_steady:
  assumes "DailyGameUpdate now g = (g', fx)"
  shows "steady_heroes (mg_heroes (g_mgr g)) (mg_heroes (g_mgr g')) \<and> g_cfg g' = g_cfg g"
proof -
  define a where "a = fold (daily_entry (g_cfg g) (daily_game_begin_time (g_ranks g))) (heroes_daily_rank (g_ranks g))
      \<lparr>da_number = 0, da_sql_rank = [], da_i = 0, da_sql = [], da_heroes = mg_heroes (g_mgr g), da_fx = [Db (RankSql DeleteRanks)]\<rparr>"
  define g1 where "g1 = g\<lparr>g_mgr := (g_mgr g)\<lparr>mg_heroes := da_heroes a\<rparr>\<rparr>"
  obtain g2 fx2 where g2: "for_heroes (\<lambda>i. TryToGetGamePrize (g_cfg g) (g_ranks g) True) g1 = (g2, fx2)" by fastforce
  have "steady_heroes (mg_heroes (g_mgr g)) (da_heroes a)"
    using daily_fold_steady [of "\<lparr>da_number = 0, da_sql_rank = [], da_i = 0, da_sql = [], da_heroes = mg_heroes (g_mgr g), da_fx = [Db (RankSql DeleteRanks)]\<rparr>"]
    by (simp add: a_def)
  moreover have "steady_heroes (da_heroes a) (mg_heroes (g_mgr g2))"
    using for_heroes_steady [OF _ g2] timed_steady(3) by (simp add: g1_def)
  moreover have "g_cfg g2 = g_cfg g" using g2 by (auto simp: for_heroes_def g1_def split: prod.splits)
  moreover have "mg_heroes (g_mgr g') = mg_heroes (g_mgr g2)" "g_cfg g' = g_cfg g2"
    using assms g2 by (auto simp: DailyGameUpdate_def a_def [symmetric] g1_def [symmetric] Let_def)
  ultimately show ?thesis using steady_heroes_trans by metis
qed

section \<open>The configuration of tasks and of the start survives the promotions\<close>

definition same_tables :: "GameConfig \<Rightarrow> GameConfig \<Rightarrow> bool" where
  "same_tables cfg cfg' \<longleftrightarrow> cfg_tasks cfg' = cfg_tasks cfg \<and> cfg_global cfg' = cfg_global cfg"

lemma same_tables_refl [simp]: "same_tables cfg cfg"
  by (simp add: same_tables_def)

lemma same_tables_trans: "same_tables a b \<Longrightarrow> same_tables b c \<Longrightarrow> same_tables a c"
  by (simp add: same_tables_def)

lemma same_tables_ok: "same_tables cfg cfg' \<Longrightarrow> config_tasks_ok cfg' = config_tasks_ok cfg \<and> config_start_ok cfg' = config_start_ok cfg"
  by (simp add: same_tables_def config_tasks_ok_def config_start_ok_def)

lemma open_heroes_tables: "same_tables cfg (fold (\<lambda>g. setHeroShopConfig g b) gs cfg)"
proof (induction gs arbitrary: cfg)
  case (Cons g gs)
  have "same_tables cfg (setHeroShopConfig g b cfg)" by (simp add: same_tables_def setHeroShopConfig_def split: option.splits)
  then show ?case using Cons.IH [of "setHeroShopConfig g b cfg"] by (auto intro: same_tables_trans)
qed simp

lemma excute_flag_tables: "excute_flag b (p, lg, cfg) = Some (p', lg', cfg') \<Longrightarrow> same_tables cfg cfg'"
proof -
  have "same_tables cfg (snd (promotion_effect b promo (lg, cfg)))" for promo
    by (cases promo) (simp_all add: Let_def open_heroes_tables)
  then show "excute_flag b (p, lg, cfg) = Some (p', lg', cfg') \<Longrightarrow> same_tables cfg cfg'"
    by (auto simp: excute_flag_def split: option.splits prod.splits) (metis snd_conv)
qed

lemma promo_exit_tables: "promo_exit (p, lg, cfg) = Some (p', lg', cfg') \<Longrightarrow> same_tables cfg cfg'"
  by (auto simp: promo_exit_def split: option.splits dest: excute_flag_tables)

lemma promo_calls_tables:
  "DayPass n now st = Some (p', lg', cfg') \<Longrightarrow> same_tables (snd (snd st)) cfg'"
  "promo_apply n now st = Some (p', lg', cfg') \<Longrightarrow> same_tables (snd (snd st)) cfg'"
  "promo_excute n now st = Some (p', lg', cfg') \<Longrightarrow> same_tables (snd (snd st)) cfg'"
proof (induction n arbitrary: st p' lg' cfg')
  case (Suc n)
  {
    case 1
    obtain p lg cfg where st: "st = (p, lg, cfg)" by (cases st)
    show ?case
    proof (cases "promo_time cfg (promo_id p)")
      case (Some tb)
      have x: "same_tables c c'" if "(if b then promo_exit (q, l, c) else Some (q, l, c)) = Some (q', l', c')" for b q l c q' l' c'
        using that by (auto split: if_splits dest: promo_exit_tables)
      have y: "same_tables c c'" if "(if b then promo_excute n now (q, l, c) else Some (q, l, c)) = Some (q', l', c')" for b q l c q' l' c'
        using that Suc(3) [of "(q, l, c)"] by (auto split: if_splits)
      have z: "same_tables c c'" if "(if b then promo_apply n now (q, l, c) else Some (q, l, c)) = Some (q', l', c')" for b q l c q' l' c'
        using that Suc(2) [of "(q, l, c)"] by (auto split: if_splits)
      show ?thesis
      proof (cases "promo_type p = ShopSalesPromotionType_Wait \<and> wait_return tb")
        case False
        show ?thesis using 1 Some False
          by (simp only: st DayPass.simps option.simps if_False bind_eq_Some_conv split_paired_Ex prod.case prod.sel)
            (elim exE conjE, drule x, drule y, drule z, blast intro: same_tables_trans)
      qed (use 1 Some in \<open>auto simp: st\<close>)
    qed (use 1 in \<open>simp add: st\<close>)
  next
    case 2
    obtain p lg cfg where st: "st = (p, lg, cfg)" by (cases st)
    show ?case using 2 by (auto simp: st Let_def split: option.splits EventTimeBase.splits if_splits dest!: Suc(1) Suc(3))
  next
    case 3
    obtain p lg cfg where st: "st = (p, lg, cfg)" by (cases st)
    show ?case using 3 by (auto simp: st split: option.splits EventTimeBase.splits if_splits dest!: Suc(1) excute_flag_tables promo_exit_tables)
      (simp_all add: same_tables_def)
  }
qed simp_all


lemma daypass_all_tables: "daypass_all now ps (lg, cfg) = Some (ps', lg', cfg') \<Longrightarrow> same_tables cfg cfg'"
proof (induction ps arbitrary: lg cfg ps')
  case (Cons p ps)
  then obtain p1 lg1 cfg1 ps1 where "DayPass promo_depth now (p, lg, cfg) = Some (p1, lg1, cfg1)"
    and d: "daypass_all now ps (lg1, cfg1) = Some (ps1, lg', cfg')"
    by (auto simp del: DayPass.simps split: option.splits)
  from promo_calls_tables(1) [OF this(1)] Cons.IH [OF d] show ?case by (auto simp: same_tables_def)
qed simp

lemma ShopSales_DayPass_tables: "ShopSales_DayPass now (pm, cfg) = Some (pm', cfg') \<Longrightarrow> same_tables cfg cfg'"
  by (auto simp: ShopSales_DayPass_def dest: daypass_all_tables)

lemma promo_fire_tables: "promo_fire now ev (p, lg, cfg) = Some (p', lg', cfg') \<Longrightarrow> same_tables cfg cfg'"
  by (auto simp: promo_fire_def Let_def split: promo_call.splits dest!: promo_calls_tables promo_exit_tables)

lemma sales_step_tables: "sales_step (pm, cfg) (pm', cfg') \<Longrightarrow> same_tables cfg cfg'"
  by (erule sales_step.cases) (auto dest: ShopSales_DayPass_tables promo_fire_tables)

lemma eventPerMin_steady:
  assumes "eventPerMin now rs sh g = Some (g', fx)" "config_tasks_ok (g_cfg g)"
  shows "steady_heroes (mg_heroes (g_mgr g)) (mg_heroes (g_mgr g')) \<and> same_tables (g_cfg g) (g_cfg g')"
proof (cases "local_min (cfg_tz (g_cfg g)) now = 0")
  case True
  define refresh where "refresh = (local_hour (cfg_tz (g_cfg g)) now = day_Refresh_time (cfg_global (g_cfg g)))"
  obtain g1 fx1 where g1: "(if refresh then manager_dayRefresh now rs g else (g, [])) = (g1, fx1)" by fastforce
  have s1: "steady_heroes (mg_heroes (g_mgr g)) (mg_heroes (g_mgr g1)) \<and> g_cfg g1 = g_cfg g"
  proof (cases refresh)
    case True
    obtain g0 fx0 where g0: "DailyGameUpdate now g = (g0, fx0)" by fastforce
    obtain g2 fx2 where g2: "for_heroes (\<lambda>i. dayRefresh (g_cfg g) now (rs i) True) g0 = (g2, fx2)" by fastforce
    have "steady_heroes (mg_heroes (g_mgr g0)) (mg_heroes (g_mgr g2))"
      by (rule for_heroes_steady [OF _ g2]) (rule timed_steady(1) [OF assms(2)])
    moreover have "g_cfg g2 = g_cfg g0" using g2 by (auto simp: for_heroes_def split: prod.splits)
    ultimately show ?thesis
      using g1 True g0 g2 DailyGameUpdate_steady [OF g0] by (auto simp: manager_dayRefresh_def intro: steady_heroes_trans)
  qed (use g1 in simp)
  show ?thesis
  proof (cases "local_hour (cfg_tz (g_cfg g)) now = 0")
    case midnight: True
    then obtain sales cfg where d: "ShopSales_DayPass now (g_sales g1, g_cfg g1) = Some (sales, cfg)"
      and g': "g' = g1\<lparr>g_sales := sales, g_cfg := cfg, g_mgr := fst (refreshDayNumber cfg (g_ranks g1) now sh (g_mgr g1))\<rparr>"
      using assms(1) True g1 by (auto simp: eventPerMin_def Let_def refresh_def case_prod_beta)
    have "mg_heroes (g_mgr g') = mg_heroes (g_mgr g1)"
      by (simp add: g' refreshDayNumber_def manager_save_def refreshHeroTitle_def Let_def)
    then show ?thesis using s1 ShopSales_DayPass_tables [OF d] g' by simp
  qed (use assms(1) True g1 s1 in \<open>auto simp: eventPerMin_def Let_def refresh_def\<close>)
qed (use assms(1) in \<open>simp add: eventPerMin_def Let_def\<close>)

end
