(* ===== verification/Server_Links.thy ===== *)
theory Server_Links
  imports Server_Steady
begin

text \<open>
  The pointers between sessions and heroes, and how each operation of the game server keeps them
  consistent.
\<close>

section \<open>Sessions and heroes point at each other\<close>

text \<open>
  Every hero pointer of a session leads to the hero of the session's account, who points back;
  every session pointer of a hero leads to a session that points back; no two sessions have the
  same account.
\<close>

definition linked :: "(int \<Rightarrow> Session option) \<Rightarrow> (int \<Rightarrow> DreamHero option) \<Rightarrow> bool" where
  "linked S H \<longleftrightarrow>
     (\<forall>t s. S t = Some s \<longrightarrow> s_tranid s = t \<and>
        (\<forall>k. s_hero s = Some k \<longrightarrow> k = s_account s \<and> (\<exists>h. H k = Some h \<and> session h = Some t))) \<and>
     (\<forall>k h. H k = Some h \<longrightarrow> account h = k \<and> hero_wf h \<and>
        (\<forall>t. session h = Some t \<longrightarrow> (\<exists>s. S t = Some s \<and> s_hero s = Some k))) \<and>
     (\<forall>t t' s s'. S t = Some s \<longrightarrow> S t' = Some s' \<longrightarrow> s_account s = s_account s' \<longrightarrow> t = t')"

lemma linkedD:
  assumes "linked S H"
  shows "S t = Some s \<Longrightarrow> s_tranid s = t"
    and "S t = Some s \<Longrightarrow> s_hero s = Some k \<Longrightarrow> k = s_account s"
    and "S t = Some s \<Longrightarrow> s_hero s = Some k \<Longrightarrow> \<exists>h. H k = Some h \<and> session h = Some t"
    and "H k = Some h \<Longrightarrow> account h = k \<and> hero_wf h"
    and "H k = Some h \<Longrightarrow> session h = Some t \<Longrightarrow> \<exists>s. S t = Some s \<and> s_hero s = Some k"
    and "S t = Some s \<Longrightarrow> S t' = Some s' \<Longrightarrow> s_account s = s_account s' \<Longrightarrow> t = t'"
  using assms unfolding linked_def by blast+

lemma linkedI:
  assumes "\<And>t s. S t = Some s \<Longrightarrow> s_tranid s = t"
    and "\<And>t s k. S t = Some s \<Longrightarrow> s_hero s = Some k \<Longrightarrow> k = s_account s"
    and "\<And>t s k. S t = Some s \<Longrightarrow> s_hero s = Some k \<Longrightarrow> \<exists>h. H k = Some h \<and> session h = Some t"
    and "\<And>k h. H k = Some h \<Longrightarrow> account h = k \<and> hero_wf h"
    and "\<And>k h t. H k = Some h \<Longrightarrow> session h = Some t \<Longrightarrow> \<exists>s. S t = Some s \<and> s_hero s = Some k"
    and "\<And>t t' s s'. S t = Some s \<Longrightarrow> S t' = Some s' \<Longrightarrow> s_account s = s_account s' \<Longrightarrow> t = t'"
  shows "linked S H"
  using assms unfolding linked_def by blast

definition same_link :: "Session \<Rightarrow> Session \<Rightarrow> bool" where
  "same_link s s' \<longleftrightarrow> s_tranid s' = s_tranid s \<and> s_account s' = s_account s \<and> s_hero s' = s_hero s"

lemma linked_steady:
  assumes l: "linked S H" and ss: "\<And>t. rel_option same_link (S t) (S' t)" and hh: "\<And>k. rel_option steady (H k) (H' k)"
  shows "linked S' H'"
proof -
  have s: "\<exists>s. S t = Some s \<and> same_link s s'" if "S' t = Some s'" for t s' using ss [of t] that by (cases "S t") auto
  have s': "\<exists>s'. S' t = Some s' \<and> same_link s s'" if "S t = Some s" for t s using ss [of t] that by (cases "S' t") auto
  have h: "\<exists>h. H k = Some h \<and> steady h h'" if "H' k = Some h'" for k h' using hh [of k] that by (cases "H k") auto
  have h': "\<exists>h'. H' k = Some h' \<and> steady h h'" if "H k = Some h" for k h using hh [of k] that by (cases "H' k") auto
  show ?thesis
  proof (rule linkedI)
    show "\<exists>h. H' k = Some h \<and> session h = Some t" if t: "S' t = Some s1" and k: "s_hero s1 = Some k" for t s1 k
    proof -
      obtain s0 where s0: "S t = Some s0" "s_hero s0 = Some k" using s [OF t] k by (auto simp: same_link_def)
      then obtain h0 where "H k = Some h0" "session h0 = Some t" using linkedD(3) [OF l] by blast
      then show ?thesis using h' [of k h0] by (auto simp: steady_def)
    qed
    show "\<exists>s. S' t = Some s \<and> s_hero s = Some k" if k: "H' k = Some h1" and t: "session h1 = Some t" for k h1 t
    proof -
      obtain h0 where "H k = Some h0" "session h0 = Some t" using h [OF k] t by (auto simp: steady_def)
      then obtain s0 where "S t = Some s0" "s_hero s0 = Some k" using linkedD(5) [OF l] by blast
      then show ?thesis using s' [of t s0] by (auto simp: same_link_def)
    qed
    show "account h1 = k \<and> hero_wf h1" if "H' k = Some h1" for k h1
      using h [OF that] linkedD(4) [OF l] by (auto simp: steady_def)
    show "t = t'" if t: "S' t = Some s1" and t': "S' t' = Some s2" and eq: "s_account s1 = s_account s2" for t t' s1 s2
    proof -
      obtain a b where ab: "S t = Some a" "same_link a s1" "S t' = Some b" "same_link b s2"
        using s [OF t] s [OF t'] by blast
      then have "s_account a = s_account b" using eq by (simp add: same_link_def)
      then show ?thesis by (rule linkedD(6) [OF l ab(1,3)])
    qed
  qed (use s linkedD(1,2) [OF l] in \<open>fastforce simp: same_link_def\<close>)+
qed

text \<open>A session is connected with the hero of its account.\<close>

lemma linked_attach:
  assumes l: "linked S H" and u: "\<And>t' s. S t' = Some s \<Longrightarrow> s_account s = a \<Longrightarrow> t' = t"
    and old: "\<And>s. S t = Some s \<Longrightarrow> s_account s = a"
    and new: "s_tranid s' = t" "s_account s' = a" "s_hero s' = Some a"
    and hero: "account h' = a" "hero_wf h'" "session h' = Some t"
  shows "linked (S(t \<mapsto> s')) (H(a \<mapsto> h'))"
proof (rule linkedI)
  show "\<exists>h. (H(a \<mapsto> h')) k = Some h \<and> session h = Some t1" if "(S(t \<mapsto> s')) t1 = Some s1" "s_hero s1 = Some k" for t1 s1 k
  proof (cases "t1 = t")
    case False
    then have s1: "S t1 = Some s1" using that by simp
    then have "k \<noteq> a" using linkedD(2) [OF l s1 that(2)] u [OF s1] False by blast
    then show ?thesis using linkedD(3) [OF l s1 that(2)] by simp
  qed (use that new hero in simp)
  show "\<exists>s. (S(t \<mapsto> s')) t1 = Some s \<and> s_hero s = Some k" if k: "(H(a \<mapsto> h')) k = Some h1" and t1: "session h1 = Some t1" for k h1 t1
  proof (cases "k = a")
    case False
    then obtain s1 where s1: "S t1 = Some s1" "s_hero s1 = Some k" using linkedD(5) [OF l, of k h1 t1] k t1 by auto
    then have "t1 \<noteq> t" using linkedD(2) [OF l s1] old False by blast
    then show ?thesis using s1 by simp
  qed (use k t1 new hero in simp)
qed (use new hero u linkedD(1,2,4) [OF l] linkedD(6) [OF l] in \<open>force split: if_splits\<close>)+

lemma linked_new:
  assumes l: "linked S H" and "S t = None" "\<And>t' s. S t' = Some s \<Longrightarrow> s_account s \<noteq> s_account s'" "s_tranid s' = t" "s_hero s' = None"
  shows "linked (S(t \<mapsto> s')) H"
proof (rule linkedI)
  show "\<exists>s. (S(t \<mapsto> s')) t1 = Some s \<and> s_hero s = Some k" if "H k = Some h1" "session h1 = Some t1" for k h1 t1
    using linkedD(5) [OF l that] assms(2) by auto
qed (use assms(4,5) in \<open>auto split: if_splits dest: linkedD(1,2,3,4,6) [OF l] assms(3)\<close>)

text \<open>A session ends, its hero (if it has one) forgets it.\<close>

lemma linked_detach:
  assumes l: "linked S H" and s: "S t = Some s" "s_hero s = Some k" and hero: "account h' = k" "hero_wf h'" "session h' = None"
  shows "linked (S(t := None)) (H(k \<mapsto> h'))"
proof (rule linkedI)
  show "\<exists>h. (H(k \<mapsto> h')) i = Some h \<and> session h = Some t1" if "(S(t := None)) t1 = Some s1" "s_hero s1 = Some i" for t1 s1 i
  proof -
    have s1: "S t1 = Some s1" "t1 \<noteq> t" using that by (auto split: if_splits)
    then have "i \<noteq> k" using linkedD(2) [OF l] linkedD(6) [OF l s1(1) s(1)] s that(2) by metis
    then show ?thesis using linkedD(3) [OF l s1(1) that(2)] by simp
  qed
  show "\<exists>s. (S(t := None)) t1 = Some s \<and> s_hero s = Some i" if "(H(k \<mapsto> h')) i = Some h1" "session h1 = Some t1" for i h1 t1
    using linkedD(5) [OF l, of i h1 t1] s hero that by (auto split: if_splits)
qed (use hero linkedD(1,2,4) [OF l] linkedD(6) [OF l] in \<open>force split: if_splits\<close>)+

lemma linked_detach_none:
  assumes l: "linked S H" and s: "S t = Some s" "s_hero s = None"
  shows "linked (S(t := None)) H"
proof (rule linkedI)
  show "\<exists>s. (S(t := None)) t1 = Some s \<and> s_hero s = Some i" if "H i = Some h1" "session h1 = Some t1" for i h1 t1
    using linkedD(5) [OF l that] s by auto
qed (use linkedD(1,2,3,4) [OF l] linkedD(6) [OF l] in \<open>force split: if_splits\<close>)+

text \<open>A hero is destroyed, his session (if he has one) forgets him.\<close>

lemma linked_destroy:
  assumes l: "linked S H" and h: "H k = Some h" "session h = None"
  shows "linked S (H(k := None))"
proof (rule linkedI)
  show "\<exists>h. (H(k := None)) i = Some h \<and> session h = Some t1" if "S t1 = Some s1" "s_hero s1 = Some i" for t1 s1 i
    using linkedD(3) [OF l that] h by auto
qed (use linkedD(1,2,4,5) [OF l] linkedD(6) [OF l] in \<open>force split: if_splits\<close>)+

lemma linked_destroy_attached:
  assumes l: "linked S H" and h: "H k = Some h" "session h = Some t" and s: "S t = Some s"
  shows "linked (S(t \<mapsto> s\<lparr>s_hero := None\<rparr>)) (H(k := None))"
proof (rule linkedI)
  show "\<exists>h. (H(k := None)) i = Some h \<and> session h = Some t1"
    if "(S(t \<mapsto> s\<lparr>s_hero := None\<rparr>)) t1 = Some s1" "s_hero s1 = Some i" for t1 s1 i
    using linkedD(3) [OF l, of t1 s1 i] h that by (auto split: if_splits)
  show "\<exists>s'. (S(t \<mapsto> s\<lparr>s_hero := None\<rparr>)) t1 = Some s' \<and> s_hero s' = Some i"
    if "(H(k := None)) i = Some h1" "session h1 = Some t1" for i h1 t1
    using linkedD(5) [OF l, of i h1 t1] linkedD(5) [OF l h] s that by (auto split: if_splits)
qed (use s linkedD(1,2,4) [OF l] linkedD(6) [OF l] in \<open>force split: if_splits\<close>)+


section \<open>Steps of the server\<close>

definition users :: "server \<Rightarrow> int \<Rightarrow> Session option" where
  "users w t = map_find t (w_sessions w)"

definition heroes_of :: "server \<Rightarrow> int \<Rightarrow> DreamHero option" where
  "heroes_of w k = map_find k (mg_heroes (g_mgr (w_game w)))"

definition server_ok :: "server \<Rightarrow> bool" where
  "server_ok w \<longleftrightarrow> map_wf (w_sessions w) \<and> map_wf (mg_heroes (g_mgr (w_game w))) \<and> linked (users w) (heroes_of w) \<and>
     config_tasks_ok (g_cfg (w_game w)) \<and> config_start_ok (g_cfg (w_game w))"

lemma server_okD:
  assumes "server_ok w"
  shows "map_wf (w_sessions w)" "map_wf (mg_heroes (g_mgr (w_game w)))" "linked (users w) (heroes_of w)"
    "config_tasks_ok (g_cfg (w_game w))" "config_start_ok (g_cfg (w_game w))"
  using assms by (simp_all add: server_ok_def)

lemma getUser_users: "getUser t w = users w t"
  by (simp add: getUser_def users_def)

lemma GetHero_heroes: "GetHero (g_mgr (w_game w)) k = heroes_of w k"
  by (simp add: GetHero_def heroes_of_def)

lemma users_put [simp]: "map_wf (w_sessions w) \<Longrightarrow> users (put_session s w) = (users w)(s_tranid s \<mapsto> s)"
  by (auto simp: users_def put_session_def map_find_assign)

lemma put_session_simps [simp]:
  "w_game (put_session s w) = w_game w" "heroes_of (put_session s w) = heroes_of w" "w_gates (put_session s w) = w_gates w"
  "map_wf (w_sessions w) \<Longrightarrow> map_wf (w_sessions (put_session s w))"
  by (simp_all add: put_session_def heroes_of_def fun_eq_iff map_wf_assign)

lemma game_update_simps [simp]:
  "users (w\<lparr>w_game := g\<rparr>) = users w" "heroes_of (w\<lparr>w_game := g\<rparr>) k = GetHero (g_mgr g) k"
  by (simp_all add: users_def heroes_of_def fun_eq_iff GetHero_def)

lemma GetHero_set_hero [simp]:
  "map_wf (mg_heroes (g_mgr g)) \<Longrightarrow> GetHero (g_mgr (set_hero k h g)) i = (if i = k then Some h else GetHero (g_mgr g) i)"
  "map_wf (mg_heroes (g_mgr g)) \<Longrightarrow> map_wf (mg_heroes (g_mgr (set_hero k h g)))"
  by (auto simp: set_hero_def put_hero_def GetHero_def map_find_assign map_wf_assign)

text \<open>Changes that move no pointer.\<close>

lemma server_ok_steady:
  assumes ok: "server_ok w" and s: "map_wf (w_sessions w')" "\<And>t. rel_option same_link (users w t) (users w' t)"
    and h: "steady_heroes (mg_heroes (g_mgr (w_game w))) (mg_heroes (g_mgr (w_game w')))"
    and c: "same_tables (g_cfg (w_game w)) (g_cfg (w_game w'))"
  shows "server_ok w'"
  using assms(2) server_okD [OF ok] linked_steady [OF server_okD(3) [OF ok] s(2), of "heroes_of w'"] h same_tables_ok [OF c]
  by (simp add: server_ok_def steady_heroes_def heroes_of_def)

lemma same_link_refl [simp]: "same_link s s"
  by (simp add: same_link_def)

lemma server_ok_game:
  assumes "server_ok w" "steady_heroes (mg_heroes (g_mgr (w_game w))) (mg_heroes (g_mgr g))" "same_tables (g_cfg (w_game w)) (g_cfg g)"
  shows "server_ok (w\<lparr>w_game := g\<rparr>)"
  using assms by (intro server_ok_steady [OF assms(1)]) (auto simp: server_okD option.rel_refl_strong)

lemma hero_do_cases:
  assumes "hero_do s f w = Some (w', fx)"
  obtains "s_hero s = None" "w' = w" "fx = []" |
    k h where "s_hero s = Some k" "heroes_of w k = Some h" "w' = w\<lparr>w_game := set_hero k (fst (f h)) (w_game w)\<rparr>" "fx = snd (f h)"
  using assms by (auto simp: hero_do_def if_hero_def deref_def call_def call_opt_def GetHero_heroes split: if_splits option.splits prod.splits)

lemma hero_do_defined:
  "linked S (heroes_of w) \<Longrightarrow> S t = Some s \<Longrightarrow> \<exists>w' fx. hero_do s f w = Some (w', fx)"
  by (cases "s_hero s") (auto simp: hero_do_def if_hero_def deref_def call_def call_opt_def GetHero_heroes case_prod_beta dest!: linkedD(3))

lemma hero_do_ok:
  assumes ok: "server_ok w" and d: "hero_do s f w = Some (w', fx)" and f: "\<And>h. steady h (fst (f h))"
  shows "server_ok w'"
  using d
proof (cases rule: hero_do_cases)
  case (2 k h)
  have "steady_heroes (mg_heroes (g_mgr (w_game w))) (mg_heroes (g_mgr (set_hero k (fst (f h)) (w_game w))))"
    using 2(2) f [of h] by (auto simp: set_hero_def put_hero_def heroes_of_def intro: steady_heroes_assign)
  then show ?thesis unfolding 2(3) by (rule server_ok_game [OF ok]) simp
qed (use ok in simp)

lemma set_online_steady: "steady h (set_online b h)"
  by (simp add: steady_def set_online_def)

lemma put_session_ok: "server_ok w \<Longrightarrow> users w (s_tranid s) = Some s0 \<Longrightarrow> same_link s0 s \<Longrightarrow> server_ok (put_session s w)"
  by (rule server_ok_steady [of w]) (auto simp: server_okD option.rel_refl_strong)

lemma set_channel_ok: "server_ok w \<Longrightarrow> server_ok (set_channel t ch w)"
  using linkedD(1) [OF server_okD(3), of w t]
  by (auto simp: set_channel_def getUser_users same_link_def split: option.splits intro!: put_session_ok)

lemma reconnect_ok:
  assumes ok: "server_ok w" and s: "users w t = Some s"
  shows "setReconnet s w = Some (w', fx) \<Longrightarrow> server_ok w'" "setWaitReconnet s w = Some (w', fx) \<Longrightarrow> server_ok w'"
proof -
  have t: "s_tranid s = t" using linkedD(1) [OF server_okD(3) [OF ok] s] .
  have "server_ok (put_session (s\<lparr>s_online := b\<rparr>) w)" for b
    using ok s t by (intro put_session_ok [of _ _ s]) (auto simp: same_link_def)
  from hero_do_ok [OF this] show "setReconnet s w = Some (w', fx) \<Longrightarrow> server_ok w'" "setWaitReconnet s w = Some (w', fx) \<Longrightarrow> server_ok w'"
    by (simp_all add: setReconnet_def setWaitReconnet_def set_online_steady)
qed

lemma game_ok_parts: "server_ok w \<Longrightarrow> linked (users w) (heroes_of w) \<and> map_wf (mg_heroes (g_mgr (w_game w)))"
  by (simp add: server_ok_def)

text \<open>A session ends.\<close>

lemma drop_session_cases:
  assumes ok: "server_ok w" and s: "users w t = Some s"
  shows "\<exists>w' fx. drop_session s w = Some (w', fx) \<and> server_ok w' \<and> users w' = (users w)(t := None)"
proof -
  have l: "linked (users w) (heroes_of w)" and wf: "map_wf (mg_heroes (g_mgr (w_game w)))" "map_wf (w_sessions w)"
    using ok by (simp_all add: server_ok_def)
  have t: "s_tranid s = t" using linkedD(1) [OF l s] .
  have erase: "users (v\<lparr>w_sessions := map_erase t (w_sessions w)\<rparr>) = (users w)(t := None)" for v :: server
    using wf(2) by (auto simp: users_def map_find_erase)
  show ?thesis
  proof (cases "s_hero s")
    case None
    have d: "drop_session s w = Some (w\<lparr>w_sessions := map_erase t (w_sessions w)\<rparr>, [])"
      using None t by (simp add: drop_session_def Session_close_def Session_delete_def hero_do_def if_hero_def)
    have "linked ((users w)(t := None)) (heroes_of w)" by (rule linked_detach_none [OF l s None])
    then show ?thesis using d ok erase wf by (auto simp: server_ok_def heroes_of_def [abs_def] amap.invar_erase)
  next
    case (Some k)
    obtain h where h: "heroes_of w k = Some h" "session h = Some t" using linkedD(3) [OF l s Some] by blast
    define h1 where "h1 = set_session None (StartDestroyTime (StartDestroyTime h))"
    define g where "g = set_hero k h1 (set_hero k (StartDestroyTime h) (w_game w))"
    have d: "drop_session s w = Some (w\<lparr>w_game := g, w_sessions := map_erase t (w_sessions w)\<rparr>, [])"
      using Some t h wf
      by (simp add: drop_session_def Session_close_def Session_delete_def hero_do_def if_hero_def deref_def call_def call_opt_def
          GetHero_heroes g_def h1_def)
    have "account h1 = k" "hero_wf h1" "session h1 = None"
      using linkedD(4) [OF l h(1)] by (simp_all add: h1_def set_session_def StartDestroyTime_def)
    then have "linked ((users w)(t := None)) ((heroes_of w)(k \<mapsto> h1))" by (rule linked_detach [OF l s Some])
    moreover have "GetHero (g_mgr g) = (heroes_of w)(k \<mapsto> h1)" "map_wf (mg_heroes (g_mgr g))" "g_cfg g = g_cfg (w_game w)"
      using wf by (auto simp: g_def GetHero_heroes)
    ultimately show ?thesis using d ok erase wf
      by (auto simp: server_ok_def heroes_of_def [abs_def] GetHero_def [abs_def] amap.invar_erase)
  qed
qed

lemma removeUser_ok: "server_ok w \<Longrightarrow> removeUser t w = Some (w', fx) \<Longrightarrow> server_ok w'"
  using drop_session_cases [of w t] by (auto simp: removeUser_def getUser_users split: option.splits)

lemma drop_sessions_ok:
  "server_ok w \<Longrightarrow> (\<forall>s \<in> set ss. users w (s_tranid s) = Some s) \<Longrightarrow> distinct (map s_tranid ss) \<Longrightarrow>
   \<exists>w' fx. drop_sessions ss w = Some (w', fx) \<and> server_ok w'"
proof (induction ss arbitrary: w)
  case (Cons s ss)
  obtain w1 fx1 where d: "drop_session s w = Some (w1, fx1)" "server_ok w1" "users w1 = (users w)(s_tranid s := None)"
    using drop_session_cases [OF Cons.prems(1), of "s_tranid s" s] Cons.prems(2) unfolding list.set by blast
  have "\<forall>s' \<in> set ss. users w1 (s_tranid s') = Some s'"
  proof
    fix s' assume s': "s' \<in> set ss"
    have "s_tranid s \<notin> s_tranid ` set ss" using Cons.prems(3) by simp
    then have ne: "s_tranid s' \<noteq> s_tranid s" using s' by (metis imageI)
    have u: "users w (s_tranid s') = Some s'" using Cons.prems(2) s' by (meson list.set_intros(2))
    show "users w1 (s_tranid s') = Some s'" unfolding d(3) fun_upd_other [OF ne] by (rule u)
  qed
  then obtain w2 fx2 where "drop_sessions ss w1 = Some (w2, fx2)" "server_ok w2" using Cons.IH [OF d(2)] Cons.prems(3) unfolding distinct.simps list.map by blast
  then show ?case using d(1) by simp
qed simp

lemma session_list:
  assumes "server_ok w"
  shows "\<forall>s \<in> set (map snd (w_sessions w)). users w (s_tranid s) = Some s" "distinct (map s_tranid (map snd (w_sessions w)))"
proof -
  have u: "users w t = Some s \<and> s_tranid s = t" if "(t, s) \<in> set (w_sessions w)" for t s
    using that map_find_in [OF server_okD(1) [OF assms] that] linkedD(1) [OF server_okD(3) [OF assms]] by (simp add: users_def)
  then show "\<forall>s \<in> set (map snd (w_sessions w)). users w (s_tranid s) = Some s" by auto
  have "map s_tranid (map snd (w_sessions w)) = map fst (w_sessions w)" using u by auto
  moreover have "distinct (map fst (w_sessions w))" using server_okD(1) [OF assms] by (simp add: map_wf_def strict_sorted_iff)
  ultimately show "distinct (map s_tranid (map snd (w_sessions w)))" by (rule ssubst)
qed

lemma distinct_filter_map: "distinct (map f xs) \<Longrightarrow> distinct (map f (filter P xs))"
  by (induction xs) auto

lemma remove_sessions_ok:
  assumes "server_ok w"
  shows "\<exists>w' fx. removeUserByGate gate w = Some (w', fx) \<and> server_ok w'" "\<exists>w' fx. removeAllUsers w = Some (w', fx) \<and> server_ok w'"
  unfolding removeUserByGate_def removeAllUsers_def
  by (rule drop_sessions_ok [OF assms]; use session_list [OF assms] in \<open>auto intro!: distinct_filter_map simp del: map_map\<close>)+

lemma server_ok_gates [simp]: "server_ok (w\<lparr>w_gates := m\<rparr>) = server_ok w"
  by (simp add: server_ok_def users_def [abs_def] heroes_of_def [abs_def])

lemma removeGate_ok: "server_ok w \<Longrightarrow> \<exists>w' fx. removeGate n conn w = Some (w', fx) \<and> server_ok w'"
  using remove_sessions_ok(1) [of w n] by (auto simp: removeGate_def)

text \<open>A session begins.\<close>

definition sole_user :: "int \<Rightarrow> int \<Rightarrow> server \<Rightarrow> bool" where
  "sole_user t acc w \<longleftrightarrow> (\<forall>(t', s) \<in> set (w_sessions w). s_account s = acc \<longrightarrow> t' = t)"

lemma sole_userD: "server_ok w \<Longrightarrow> sole_user t acc w \<Longrightarrow> users w t' = Some s \<Longrightarrow> s_account s = acc \<Longrightarrow> t' = t"
  by (auto simp: sole_user_def users_def dest!: map_find_Some_in)

lemma sole_user_own: "server_ok w \<Longrightarrow> users w t = Some s \<Longrightarrow> sole_user t (s_account s) w"
  using linkedD(6) [OF server_okD(3), of w] map_find_in [OF server_okD(1), of w] by (fastforce simp: sole_user_def users_def)

lemma attach_ok:
  assumes ok: "server_ok w" and u: "sole_user t a w" and old: "\<And>s. users w t = Some s \<Longrightarrow> s_account s = a"
    and new: "s_tranid s' = t" "s_account s' = a" "s_hero s' = Some a"
    and g: "map_wf (mg_heroes (g_mgr g))" "same_tables (g_cfg (w_game w)) (g_cfg g)" "GetHero (g_mgr g) = (heroes_of w)(a \<mapsto> h')"
    and hero: "account h' = a" "hero_wf h'" "session h' = Some t"
  shows "server_ok (put_session s' (w\<lparr>w_game := g\<rparr>))"
proof -
  have "linked ((users w)(t \<mapsto> s')) ((heroes_of w)(a \<mapsto> h'))"
    by (rule linked_attach [OF server_okD(3) [OF ok] _ _ new hero]) (use sole_userD [OF ok u] old in blast)+
  moreover have "heroes_of (w\<lparr>w_game := g\<rparr>) = GetHero (g_mgr g)" by (rule ext) simp
  ultimately show ?thesis
    using server_okD [OF ok] g same_tables_ok [OF g(2)] new(1) by (simp add: server_ok_def)
qed

lemma SendClientInit_steady: "config_tasks_ok cfg \<Longrightarrow> steady h (fst (SendClientInit cfg rm now r h))"
proof (rule keeps_steady)
  have "keeps (h\<lparr>destroy_clock := False\<rparr>) (fst (dayRefresh cfg now r False (h\<lparr>destroy_clock := False\<rparr>)))" by (rule timed_keeps(1))
  then show "keeps h (fst (SendClientInit cfg rm now r h))"
    by (auto simp: SendClientInit_def Let_def keeps_def split: prod.splits)
qed (rule SendClientInit_wf)

lemma Session_new_ok:
  assumes ok: "server_ok w" and none: "users w t = None" and u: "sole_user t acc w"
    and n: "Session_new now r t acc gate w = (s, w1, fx)"
  shows "server_ok (put_session s w1)"
proof (cases "heroes_of w acc")
  case None
  then have "w1 = w" "s_tranid s = t" "s_account s = acc" "s_hero s = None"
    using n by (auto simp: Session_new_def Let_def GetHero_heroes)
  moreover have "linked ((users w)(t \<mapsto> s)) (heroes_of w)"
    by (rule linked_new [OF server_okD(3) [OF ok] none]) (use calculation sole_userD [OF ok u] none in auto)
  ultimately show ?thesis using server_okD [OF ok] by (simp add: server_ok_def)
next
  case (Some h)
  define h0 where "h0 = set_session (Some t) (StopDestroyClock h)"
  define h1 where "h1 = fst (SendClientInit (g_cfg (w_game w)) (g_ranks (w_game w)) now r h0)"
  have s: "w1 = w\<lparr>w_game := set_hero acc h1 (w_game w)\<rparr>" "s_tranid s = t" "s_account s = acc" "s_hero s = Some acc"
    using n Some by (auto simp: Session_new_def Let_def GetHero_heroes h1_def h0_def split: prod.splits)
  have "steady h0 h1" unfolding h1_def by (rule SendClientInit_steady) (rule server_okD(4) [OF ok])
  moreover have "account h0 = acc" "hero_wf h0" "session h0 = Some t"
    using linkedD(4) [OF server_okD(3) [OF ok] Some] by (simp_all add: h0_def set_session_def StopDestroyClock_def)
  ultimately have "account h1 = acc" "hero_wf h1" "session h1 = Some t" by (auto simp: steady_def)
  then show ?thesis
    unfolding s(1) using server_okD(2) [OF ok] none s
    by (intro attach_ok [OF ok u, where h' = h1]) (auto simp: GetHero_heroes)
qed

lemma parseAddUser_ok:
  assumes ok: "server_ok w" and u: "sole_user t acc w" and p: "parseAddUser now r t acc ch gate w = Some (w', fx)"
  shows "server_ok w'"
proof (cases "users w t")
  case None
  obtain s w1 fx1 where n: "Session_new now r t acc gate w = (s, w1, fx1)" using prod_cases3 by blast
  have "w' = set_channel t ch (put_session s w1)"
    using p None n by (simp add: parseAddUser_def addUser_def getUser_users)
  then show ?thesis using Session_new_ok [OF ok None u n] by (simp add: set_channel_ok)
next
  case (Some s)
  then obtain w1 fx1 where "setReconnet s w = Some (w1, fx1)" "w' = set_channel t ch w1"
    using p by (auto simp: parseAddUser_def addUser_def getUser_users split: if_splits option.splits)
  then show ?thesis using reconnect_ok(1) [OF ok Some] by (simp add: set_channel_ok)
qed

text \<open>The hero arrives.\<close>

lemma init_after_attach:
  assumes "server_ok (put_session s1 v)"
    and "hero_do s1 (SendClientInit (g_cfg (w_game v)) (g_ranks (w_game v)) now r) (put_session s1 v) = Some (w', fx)"
  shows "server_ok w'"
  using assms(1) by (rule hero_do_ok [OF _ assms(2)]) (use server_okD(4) [OF assms(1)] in \<open>simp add: SendClientInit_steady\<close>)

lemma attach_session_props:
  "hero_wf h \<Longrightarrow> account (attach_session t acc h) = acc \<and> hero_wf (attach_session t acc h) \<and> session (attach_session t acc h) = Some t"
  by (simp add: attach_session_def)

lemma CreateHero_data_find:
  assumes "CreateHero_data now msg acc t ch g = Some (g', fx)" "map_wf (mg_heroes (g_mgr g))" "db_account msg = acc"
    "\<And>h. GetHero (g_mgr g) acc = Some h \<Longrightarrow> hero_wf h" "hero_wf (take_message msg ch DreamHero_new)" "in32 (config_max_spirit (cfg_global (g_cfg g)))"
  shows "\<exists>h'. account h' = acc \<and> hero_wf h' \<and> session h' = Some t \<and> GetHero (g_mgr g') = (GetHero (g_mgr g))(acc \<mapsto> h') \<and>
    map_wf (mg_heroes (g_mgr g')) \<and> g_cfg g' = g_cfg g"
proof (cases "GetHero (g_mgr g) acc")
  case None
  then obtain h where s: "set_info (g_cfg g) (ledger (g_sales g)) (g_ranks g) now msg ch DreamHero_new = Some (h, fx)"
    and g': "g' = g\<lparr>g_mgr := (g_mgr g)\<lparr>mg_heroes := map_insert acc (attach_session t acc h) (mg_heroes (g_mgr g))\<rparr>\<rparr>"
    using assms(1,3) by (auto simp: CreateHero_data_def)
  have "hero_wf h" using set_info_wf [OF assms(5,6) s] .
  then show ?thesis using None assms(2) attach_session_props [of h t acc]
    by (intro exI [of _ "attach_session t acc h"])
      (auto simp: g' GetHero_def [abs_def] map_find_insert map_wf_insert fun_eq_iff)
next
  case (Some h)
  then show ?thesis using assms(1,2) attach_session_props [OF assms(4) [OF Some], of t acc]
    by (intro exI [of _ "attach_session t acc h"])
      (auto simp: CreateHero_data_def put_hero_def GetHero_def [abs_def] map_find_assign map_wf_assign fun_eq_iff)
qed

lemma CreateHero_new_find:
  assumes "CreateHero_new now acc t ch g = (g', fx)" "map_wf (mg_heroes (g_mgr g))"
    "\<And>h. GetHero (g_mgr g) acc = Some h \<Longrightarrow> hero_wf h" "config_start_ok (g_cfg g)"
  shows "\<exists>h'. account h' = acc \<and> hero_wf h' \<and> session h' = Some t \<and> GetHero (g_mgr g') = (GetHero (g_mgr g))(acc \<mapsto> h') \<and>
    map_wf (mg_heroes (g_mgr g')) \<and> g_cfg g' = g_cfg g"
proof (cases "GetHero (g_mgr g) acc")
  case None
  obtain name m ps where n: "generateName (g_cfg g) now (g_mgr g) = (name, m, ps)" using prod_cases3 by blast
  define h where "h = attach_session t acc (LoadFromConfig (g_cfg g) name ch DreamHero_new)"
  have g': "g' = g\<lparr>g_mgr := put_hero acc h m\<rparr>" using assms(1) None n by (simp add: CreateHero_new_def h_def)
  have "account h = acc \<and> hero_wf h \<and> session h = Some t"
    unfolding h_def by (rule attach_session_props) (simp add: LoadFromConfig_wf assms(4))
  then show ?thesis using assms(2) generateName_heroes [OF n]
    by (intro exI [of _ h]) (auto simp: g' put_hero_def GetHero_def [abs_def] map_find_assign map_wf_assign fun_eq_iff)
next
  case (Some h)
  then show ?thesis using assms(1,2) attach_session_props [OF assms(3) [OF Some], of t acc]
    by (intro exI [of _ "attach_session t acc h"])
      (auto simp: CreateHero_new_def put_hero_def GetHero_def [abs_def] map_find_assign map_wf_assign fun_eq_iff)
qed

lemma parseNeedCreateHero_ok:
  assumes ok: "server_ok w" and p: "parseNeedCreateHero now r t w = Some (w', fx)"
  shows "server_ok w'"
proof (cases "users w t")
  case (Some s)
  have t: "s_tranid s = t" by (rule linkedD(1) [OF server_okD(3) [OF ok] Some])
  define a where "a = s_account s"
  obtain g fx1 where g: "CreateHero_new now a t (s_channel s) (w_game w) = (g, fx1)" by fastforce
  obtain h' where h': "account h' = a" "hero_wf h'" "session h' = Some t" "GetHero (g_mgr g) = (heroes_of w)(a \<mapsto> h')"
    "map_wf (mg_heroes (g_mgr g))" "g_cfg g = g_cfg (w_game w)"
    using CreateHero_new_find [OF g server_okD(2) [OF ok] _ server_okD(5) [OF ok]] linkedD(4) [OF server_okD(3) [OF ok]]
    by (auto simp: GetHero_heroes fun_eq_iff)
  have v: "server_ok (put_session (s\<lparr>s_hero := Some a\<rparr>) (w\<lparr>w_game := g\<rparr>))"
    by (rule attach_ok [OF ok sole_user_own [OF ok Some], where h' = h']) (use Some t h' in \<open>auto simp: a_def\<close>)
  show ?thesis using p Some g t
    by (auto simp: parseNeedCreateHero_def parseDBQueryNeedCreateHero_def getUser_users a_def [symmetric] Let_def
        dest!: init_after_attach [OF v, simplified])
qed (use ok p in \<open>simp add: parseNeedCreateHero_def getUser_users\<close>)

lemma parseQueryHeroInfo_ok:
  assumes ok: "server_ok w" and p: "parseQueryHeroInfo now r t msg w = Some (w', fx)"
    and m: "\<And>s. users w t = Some s \<Longrightarrow> db_account msg = s_account s \<and> hero_wf (take_message msg (s_channel s) DreamHero_new)"
  shows "server_ok w'"
proof (cases "users w t")
  case (Some s)
  have t: "s_tranid s = t" by (rule linkedD(1) [OF server_okD(3) [OF ok] Some])
  note l = server_okD(3) [OF ok]
  show ?thesis
  proof (cases "s_hero s")
    case None
    define a where "a = s_account s"
    obtain g fx1 where g: "CreateHero_data now msg a t (s_channel s) (w_game w) = Some (g, fx1)"
      using p Some None t by (auto simp: parseQueryHeroInfo_def praseDBQueryHeroInfo_def getUser_users a_def bind_eq_Some_conv)
    obtain h' where h': "account h' = a" "hero_wf h'" "session h' = Some t" "GetHero (g_mgr g) = (heroes_of w)(a \<mapsto> h')"
      "map_wf (mg_heroes (g_mgr g))" "g_cfg g = g_cfg (w_game w)"
      using CreateHero_data_find [OF g server_okD(2) [OF ok]] m [OF Some] linkedD(4) [OF l] server_okD(5) [OF ok]
      by (auto simp: GetHero_heroes fun_eq_iff a_def config_start_ok_def)
    have v: "server_ok (put_session (s\<lparr>s_hero := Some a\<rparr>) (w\<lparr>w_game := g\<rparr>))"
      by (rule attach_ok [OF ok sole_user_own [OF ok Some], where h' = h']) (use Some t h' in \<open>auto simp: a_def\<close>)
    have key: "(case x of None \<Rightarrow> db_account msg | Some _ \<Rightarrow> s_account s) = s_account s" for x :: "DreamHero option"
      using m [OF Some] by (simp split: option.splits)
    show ?thesis using p Some None g t
      by (auto simp: parseQueryHeroInfo_def praseDBQueryHeroInfo_def getUser_users key a_def
          dest!: init_after_attach [OF v [unfolded a_def], simplified])
  next
    case hero: (Some k)
    have v: "server_ok (put_session s w)" by (rule put_session_ok [OF ok, of _ s]) (use Some t in auto)
    show ?thesis using p Some hero
      by (auto simp: parseQueryHeroInfo_def praseDBQueryHeroInfo_def getUser_users dest!: init_after_attach [OF v, simplified])
  qed
qed (use ok p in \<open>simp add: parseQueryHeroInfo_def getUser_users\<close>)

text \<open>A hero is destroyed.\<close>

lemma hero_Destroy_ok:
  assumes ok: "server_ok w"
  shows "\<exists>w' fx. hero_Destroy now acc w = Some (w', fx) \<and> server_ok w'"
proof (cases "heroes_of w acc")
  case (Some h)
  note l = server_okD(3) [OF ok] and wf = server_okD(1,2) [OF ok]
  define g where "g = (w_game w)\<lparr>g_mgr := DestroyHero acc (g_mgr (w_game w))\<rparr>"
  have g: "GetHero (g_mgr g) = (heroes_of w)(acc := None)" "map_wf (mg_heroes (g_mgr g))" "g_cfg g = g_cfg (w_game w)"
    using wf by (auto simp: g_def DestroyHero_def GetHero_def heroes_of_def map_find_erase amap.invar_erase)
  have ho: "heroes_of (v\<lparr>w_game := g\<rparr>) = (heroes_of w)(acc := None)" for v :: server by (rule ext) (simp add: g(1))
  show ?thesis
  proof (cases "session h")
    case None
    then have "hero_Destroy now acc w = Some (w\<lparr>w_game := g\<rparr>, recs (loginOutRecord now (account h) (hero_name (info h))))"
      using Some by (simp add: hero_Destroy_def Destroy_def GetHero_heroes g_def)
    then show ?thesis using linked_destroy [OF l Some None] g ok by (auto simp: server_ok_def ho)
  next
    case t: (Some t)
    obtain s where s: "users w t = Some s" using linkedD(5) [OF l Some t] by blast
    have st: "s_tranid s = t" by (rule linkedD(1) [OF l s])
    have "hero_Destroy now acc w = Some ((put_session (s\<lparr>s_hero := None\<rparr>) w)\<lparr>w_game := g\<rparr>,
        recs (loginOutRecord now (account h) (hero_name (info h))))"
      using Some t s by (simp add: hero_Destroy_def Destroy_def GetHero_heroes getUser_users g_def)
    then show ?thesis using linked_destroy_attached [OF l Some t s] g ok st wf by (auto simp: server_ok_def ho)
  qed
qed (use ok in \<open>simp add: hero_Destroy_def GetHero_heroes\<close>)

text \<open>A message.\<close>

lemma parseUserMsg_ok:
  assumes ok: "server_ok w" and p: "parseUserMsg now rs t m w = Some (w', fx)"
  shows "server_ok w'"
proof (cases "users w t")
  case (Some s)
  then obtain g where g: "parsePBMessage now rs m s (w_game w) = Some (g, fx)" and w': "w' = w\<lparr>w_game := g\<rparr>"
    using p by (auto simp: parseUserMsg_def getUser_users)
  have wf: "map_wf (heroes_map (w_game w))" using server_okD(2) [OF ok] by (simp add: heroes_map_def)
  have "steady_heroes (mg_heroes (g_mgr (w_game w))) (mg_heroes (g_mgr g)) \<and> g_cfg g = g_cfg (w_game w)"
  proof (cases "\<exists>name level. m = MsgC2SCmdReqModifyGMLevel name level")
    case False
    then have "only_own s (w_game w) g" by (intro parse_own [OF g wf server_okD(4,5) [OF ok]]) blast
    then show ?thesis using only_own_steady by (auto simp: only_own_def)
  next
    case True
    then obtain name level where "parseCmdReqMdodifyGMLevel name level s (w_game w) = Some (g, fx)" using g by auto
    then show ?thesis
    proof (rule parse_gm_level [OF _ wf])
      fix k h
      assume 2: "map_find k (heroes_map (w_game w)) = Some h" "hero_name (info h) = name"
        "g = set_hero k (h\<lparr>gm_level := level\<rparr>) (w_game w)"
      then have "steady_heroes (mg_heroes (g_mgr (w_game w))) (map_assign k (h\<lparr>gm_level := level\<rparr>) (mg_heroes (g_mgr (w_game w))))"
        by (intro steady_heroes_assign [of _ _ h]) (auto simp: heroes_map_def steady_def)
      then show ?thesis unfolding 2(3) by (simp add: set_hero_def put_hero_def)
    qed simp_all
  qed
  then show ?thesis unfolding w' by (intro server_ok_game [OF ok]) auto
qed (use ok p in \<open>simp add: parseUserMsg_def getUser_users\<close>)

end
