(* ===== verification/Server_Runs.thy ===== *)
theory Server_Runs
  imports Server_Links
begin

text \<open>
  Runs of the game server and what holds in every state they reach.
\<close>

section \<open>The server as a transition system\<close>

text \<open>
  One step: a message of a gate, an answer of the database, of the HTTP thread or of the platform,
  or a timed event. Two assumptions on the outside appear as conditions: a gate announces a session
  only when no other session has its account, and the database answers with a well-formed hero of
  the account that was asked for. A hero is destroyed only while his destroy clock runs.
\<close>

inductive server_step :: "server \<Rightarrow> server \<Rightarrow> bool" where
  add_user: "parseAddUser now r t acc ch gate w = Some (w', fx) \<Longrightarrow> sole_user t acc w \<Longrightarrow> server_step w w'"
| remove_user: "removeUser t w = Some (w', fx) \<Longrightarrow> server_step w w'"
| offline_user: "offlineUser t w = Some (w', fx) \<Longrightarrow> server_step w w'"
| user_message: "parseUserMsg now rs t m w = Some (w', fx) \<Longrightarrow> server_step w w'"
| add_gate: "server_step w (addGate n conn w)"
| remove_gate: "removeGate n conn w = Some (w', fx) \<Longrightarrow> server_step w w'"
| remove_all: "removeAllUsers w = Some (w', fx) \<Longrightarrow> server_step w w'"
| hero_new: "parseNeedCreateHero now r t w = Some (w', fx) \<Longrightarrow> server_step w w'"
| hero_data: "parseQueryHeroInfo now r t msg w = Some (w', fx) \<Longrightarrow>
    (\<forall>s. getUser t w = Some s \<longrightarrow> db_account msg = s_account s \<and> hero_wf (take_message msg (s_channel s) DreamHero_new)) \<Longrightarrow>
    server_step w w'"
| saved_all: "server_step w (parseMsgSaveAllHeroes w)"
| deal_created: "CreateDeal_logicExcute now acc key secret status prc order url err (w_game w) = (g, fx) \<Longrightarrow> server_step w (w\<lparr>w_game := g\<rparr>)"
| deal_verified: "VerifyDeal_logicExcute now acc product status order err (w_game w) = (g, fx) \<Longrightarrow> server_step w (w\<lparr>w_game := g\<rparr>)"
| deal_notified: "parseClinchADealNotify now acc order product (w_game w) = (g, fx) \<Longrightarrow> server_step w (w\<lparr>w_game := g\<rparr>)"
| destroy: "GetHero (g_mgr (w_game w)) acc = Some h \<Longrightarrow> destroy_clock h \<Longrightarrow> hero_Destroy now acc w = Some (w', fx) \<Longrightarrow> server_step w w'"
| recover: "manager_recoverSpirit now (w_game w) = (g, fx) \<Longrightarrow> server_step w (w\<lparr>w_game := g\<rparr>)"
| minute: "eventPerMin now rs sh (w_game w) = Some (g, fx) \<Longrightarrow> server_step w (w\<lparr>w_game := g\<rparr>)"
| promotions: "sales_step (g_sales (w_game w), g_cfg (w_game w)) (sales, cfg) \<Longrightarrow>
    server_step w (w\<lparr>w_game := (w_game w)\<lparr>g_sales := sales, g_cfg := cfg\<rparr>\<rparr>)"

inductive_cases server_stepE: "server_step w w'"

lemma game_steady_ok:
  "server_ok w \<Longrightarrow> steady_heroes (mg_heroes (g_mgr (w_game w))) (mg_heroes (g_mgr g)) \<and> g_cfg g = g_cfg (w_game w) \<Longrightarrow> server_ok (w\<lparr>w_game := g\<rparr>)"
  by (rule server_ok_game) auto

lemma deals_ok_step:
  assumes "server_ok w"
  shows "CreateDeal_logicExcute now acc key secret status prc order url err (w_game w) = (g, fx) \<Longrightarrow> server_ok (w\<lparr>w_game := g\<rparr>)"
    "VerifyDeal_logicExcute now acc product status order err (w_game w) = (g, fx) \<Longrightarrow> server_ok (w\<lparr>w_game := g\<rparr>)"
    "parseClinchADealNotify now acc order product (w_game w) = (g, fx) \<Longrightarrow> server_ok (w\<lparr>w_game := g\<rparr>)"
  using assms
  by (auto simp: CreateDeal_logicExcute_def VerifyDeal_logicExcute_def parseClinchADealNotify_def split: if_splits
      intro!: game_steady_ok dest!: account_do_steady [rotated] simp: timed_steady)

lemma recover_step:
  assumes ok: "server_ok w" and r: "manager_recoverSpirit now (w_game w) = (g, fx)"
  shows "server_ok (w\<lparr>w_game := g\<rparr>)"
proof (rule game_steady_ok [OF ok])
  have "in32 (config_max_spirit (cfg_global (g_cfg (w_game w))))" using server_okD(5) [OF ok] by (simp add: config_start_ok_def)
  then have "steady_heroes (mg_heroes (g_mgr (w_game w))) (mg_heroes (g_mgr g))"
    by (intro for_heroes_steady [OF _ r [unfolded manager_recoverSpirit_def]]) (rule timed_steady(2))
  moreover have "g_cfg g = g_cfg (w_game w)" using r by (auto simp: manager_recoverSpirit_def for_heroes_def split: prod.splits)
  ultimately show "steady_heroes (mg_heroes (g_mgr (w_game w))) (mg_heroes (g_mgr g)) \<and> g_cfg g = g_cfg (w_game w)" ..
qed

interpretation game_server: invariant_system server_step server_ok
proof unfold_locales
  fix w w'
  assume ok: "server_ok w" and "server_step w w'"
  from this(2) show "server_ok w'"
  proof cases
    case (promotions sales cfg)
    then show ?thesis using server_ok_game [OF ok, of "(w_game w)\<lparr>g_sales := sales, g_cfg := cfg\<rparr>"] sales_step_tables by simp
  next
    case (minute now rs sh g fx)
    then show ?thesis using server_ok_game [OF ok] eventPerMin_steady [OF _ server_okD(4) [OF ok]] by blast
  next
    case (remove_all fx)
    then show ?thesis using remove_sessions_ok(2) [OF ok] by auto
  next
    case (remove_gate n conn fx)
    then show ?thesis using removeGate_ok [OF ok, of n conn] by auto
  next
    case (destroy acc h now fx)
    then show ?thesis using hero_Destroy_ok [OF ok, of now acc] by auto
  next
    case (offline_user t fx)
    then show ?thesis using reconnect_ok(2) [OF ok] ok by (auto simp: offlineUser_def getUser_users split: option.splits)
  next
    case saved_all
    have "server_ok (parseMsgSaveAllHeroes w)" unfolding parseMsgSaveAllHeroes_def by (rule game_steady_ok [OF ok]) simp
    then show ?thesis using saved_all by simp
  next
    case (hero_data now r t msg fx)
    then show ?thesis using parseQueryHeroInfo_ok [OF ok] by (simp add: getUser_users)
  qed (use ok in \<open>auto simp: addGate_def intro: parseAddUser_ok removeUser_ok parseUserMsg_ok parseNeedCreateHero_ok recover_step deals_ok_step\<close>)
qed

section \<open>Properties\<close>

text \<open>The server before its first client, and one with two players.\<close>

definition sample_server :: server where
  "sample_server = \<lparr>w_game = sample_game,
     w_sessions = [(1, sample_session 1 42 (Some 42)), (2, sample_session 2 43 (Some 43))], w_gates = [(1, 900)]\<rparr>"

lemma sample_server_ok: "server_ok sample_server"
proof -
  have u: "users sample_server t = Some s \<longleftrightarrow> t = 1 \<and> s = sample_session 1 42 (Some 42) \<or> t = 2 \<and> s = sample_session 2 43 (Some 43)" for t s
    by (auto simp: users_def sample_server_def)
  have h: "heroes_of sample_server k = Some h \<longleftrightarrow> k = 42 \<and> h = sample_hero \<or>
      k = 43 \<and> h = sample_hero\<lparr>account := 43, session := Some 2, gm_level := 3\<rparr>" for k h
    by (auto simp: heroes_of_def sample_server_def sample_game_def)
  have "linked (users sample_server) (heroes_of sample_server)"
    by (rule linkedI; simp only: u h; elim disjE conjE; simp add: sample_session_def sample_hero_def [THEN arg_cong [of _ _ session]]
        sample_hero_def [THEN arg_cong [of _ _ account]])
  moreover have "map_wf (w_sessions sample_server)" by (simp add: sample_server_def map_wf_Cons)
  moreover have "w_game sample_server = sample_game" by (simp add: sample_server_def)
  ultimately show ?thesis by (simp add: server_ok_def)
qed






text \<open>
  The server relies on the gates for this: when a second session of an account is announced before the
  first is removed, the removal of the first starts the destroy clock of the hero that the second
  one plays and takes his session pointer away, the hero is destroyed, and the next message of the
  second session uses a dangling pointer.
\<close>

theorem second_session_dangles:
  assumes "server_ok w" "getUser t1 w = Some s1" "s_hero s1 = Some acc" "getUser t2 w = None"
  shows "\<exists>w1 fx1 w2 fx2 h w3 fx3. parseAddUser now r t2 acc ch gate w = Some (w1, fx1) \<and> removeUser t1 w1 = Some (w2, fx2) \<and>
    GetHero (g_mgr (w_game w2)) acc = Some h \<and> destroy_clock h \<and> hero_Destroy now acc w2 = Some (w3, fx3) \<and>
    parseUserMsg now rs t2 MsgC2SReliveReq w3 = None"
proof -
  note l = server_okD(3) [OF assms(1)] and wf = server_okD(1,2) [OF assms(1)]
  have s1: "users w t1 = Some s1" "s_tranid s1 = t1" "users w t2 = None" "t2 \<noteq> t1"
    using assms(2,4) linkedD(1) [OF l, of t1 s1] by (auto simp: getUser_users)
  obtain h where h: "heroes_of w acc = Some h" using linkedD(3) [OF l s1(1) assms(3)] by blast
  define h1 where "h1 = fst (SendClientInit (g_cfg (w_game w)) (g_ranks (w_game w)) now r (set_session (Some t2) (StopDestroyClock h)))"
  define s2 where "s2 = \<lparr>s_tranid = t2, s_account = acc, s_gate = gate, s_online = True, s_hero = Some acc, s_channel = ch\<rparr>"
  define w1 where "w1 = put_session s2 (put_session (s2\<lparr>s_channel := 0\<rparr>) (w\<lparr>w_game := set_hero acc h1 (w_game w)\<rparr>))"
  obtain fx1 where init: "SendClientInit (g_cfg (w_game w)) (g_ranks (w_game w)) now r (set_session (Some t2) (StopDestroyClock h)) = (h1, fx1)"
    by (metis h1_def prod.collapse)
  have a: "parseAddUser now r t2 acc ch gate w = Some (w1, fx1)"
    using h s1 wf init by (simp add: parseAddUser_def addUser_def Session_new_def getUser_users GetHero_heroes Let_def s2_def w1_def set_channel_def)
  have wf1: "map_wf (w_sessions w1)" "map_wf (mg_heroes (g_mgr (w_game w1)))" "users w1 t1 = Some s1" "users w1 t2 = Some s2"
    "heroes_of w1 acc = Some h1"
    using wf s1 by (auto simp: w1_def s2_def)
  define h2 where "h2 = set_session None (StartDestroyTime (StartDestroyTime h1))"
  define w2 where "w2 = w1\<lparr>w_game := set_hero acc h2 (set_hero acc (StartDestroyTime h1) (w_game w1)), w_sessions := map_erase t1 (w_sessions w1)\<rparr>"
  have r: "removeUser t1 w1 = Some (w2, [])"
    using wf1 s1 assms(3)
    by (simp add: removeUser_def getUser_users drop_session_def Session_close_def Session_delete_def hero_do_def if_hero_def deref_def
        call_def call_opt_def GetHero_heroes w2_def h2_def)
  have wf2: "map_wf (mg_heroes (g_mgr (w_game w2)))" "heroes_of w2 acc = Some h2" "users w2 t2 = Some s2"
    using wf1 s1 by (auto simp: w2_def heroes_of_def [of "_\<lparr>w_sessions := _\<rparr>"] GetHero_def [symmetric] users_def map_find_erase)
  have h2: "session h2 = None" "destroy_clock h2" by (simp_all add: h2_def set_session_def StartDestroyTime_def)
  define w3 where "w3 = w2\<lparr>w_game := (w_game w2)\<lparr>g_mgr := DestroyHero acc (g_mgr (w_game w2))\<rparr>\<rparr>"
  obtain fx3 where d: "hero_Destroy now acc w2 = Some (w3, fx3)"
    using wf2 h2 by (simp add: hero_Destroy_def Destroy_def GetHero_heroes w3_def)
  have "GetHero (g_mgr (w_game w3)) acc = None" "getUser t2 w3 = Some s2" "s_hero s2 = Some acc"
    using wf2(3) by (simp_all add: w3_def DestroyHero_def GetHero_def map_find_erase getUser_users s2_def)
  then have "parseUserMsg now rs t2 MsgC2SReliveReq w3 = None"
    by (simp add: parseUserMsg_def parseReqRelive_def if_hero_def deref_def)
  with a r d h2 wf2 show ?thesis by (metis GetHero_heroes)
qed

theorem second_session_dangles_witness:
  "\<exists>w1 fx1 w2 fx2 h w3 fx3. parseAddUser 0 0 7 42 1 1 sample_server = Some (w1, fx1) \<and> removeUser 1 w1 = Some (w2, fx2) \<and>
    GetHero (g_mgr (w_game w2)) 42 = Some h \<and> destroy_clock h \<and> hero_Destroy 0 42 w2 = Some (w3, fx3) \<and>
    parseUserMsg 0 (\<lambda>_. 0) 7 MsgC2SReliveReq w3 = None"
  by (rule second_session_dangles [OF sample_server_ok, of 1 "sample_session 1 42 (Some 42)"])
    (simp_all add: sample_server_def getUser_def sample_session_def)

end
