(* ===== verification/Crypt.thy ===== *)
theory Crypt
  imports Prelude "HOL-Library.Word" "HOL-Library.Countable"
begin

text \<open>
  The checksum and the substitution cipher of \<^verbatim>\<open>src/common/crypt.cpp\<close>.  Bytes are 8 bit words,
  \<^verbatim>\<open>unsigned long\<close> has 64 bits.  The checksum, a table driven loop unrolled by eight, is shown equal
  to the bitwise definition of CRC-32; decryption is shown to invert encryption.
\<close>

unbundle bit_operations_syntax

section \<open>Tables\<close>

definition crc_table :: "64 word list" where
  "crc_table =
    [0x00000000, 0x77073096, 0xee0e612c, 0x990951ba, 0x076dc419, 0x706af48f, 0xe963a535, 0x9e6495a3,
     0x0edb8832, 0x79dcb8a4, 0xe0d5e91e, 0x97d2d988, 0x09b64c2b, 0x7eb17cbd, 0xe7b82d07, 0x90bf1d91,
     0x1db71064, 0x6ab020f2, 0xf3b97148, 0x84be41de, 0x1adad47d, 0x6ddde4eb, 0xf4d4b551, 0x83d385c7,
     0x136c9856, 0x646ba8c0, 0xfd62f97a, 0x8a65c9ec, 0x14015c4f, 0x63066cd9, 0xfa0f3d63, 0x8d080df5,
     0x3b6e20c8, 0x4c69105e, 0xd56041e4, 0xa2677172, 0x3c03e4d1, 0x4b04d447, 0xd20d85fd, 0xa50ab56b,
     0x35b5a8fa, 0x42b2986c, 0xdbbbc9d6, 0xacbcf940, 0x32d86ce3, 0x45df5c75, 0xdcd60dcf, 0xabd13d59,
     0x26d930ac, 0x51de003a, 0xc8d75180, 0xbfd06116, 0x21b4f4b5, 0x56b3c423, 0xcfba9599, 0xb8bda50f,
     0x2802b89e, 0x5f058808, 0xc60cd9b2, 0xb10be924, 0x2f6f7c87, 0x58684c11, 0xc1611dab, 0xb6662d3d,
     0x76dc4190, 0x01db7106, 0x98d220bc, 0xefd5102a, 0x71b18589, 0x06b6b51f, 0x9fbfe4a5, 0xe8b8d433,
     0x7807c9a2, 0x0f00f934, 0x9609a88e, 0xe10e9818, 0x7f6a0dbb, 0x086d3d2d, 0x91646c97, 0xe6635c01,
     0x6b6b51f4, 0x1c6c6162, 0x856530d8, 0xf262004e, 0x6c0695ed, 0x1b01a57b, 0x8208f4c1, 0xf50fc457,
     0x65b0d9c6, 0x12b7e950, 0x8bbeb8ea, 0xfcb9887c, 0x62dd1ddf, 0x15da2d49, 0x8cd37cf3, 0xfbd44c65,
     0x4db26158, 0x3ab551ce, 0xa3bc0074, 0xd4bb30e2, 0x4adfa541, 0x3dd895d7, 0xa4d1c46d, 0xd3d6f4fb,
     0x4369e96a, 0x346ed9fc, 0xad678846, 0xda60b8d0, 0x44042d73, 0x33031de5, 0xaa0a4c5f, 0xdd0d7cc9,
     0x5005713c, 0x270241aa, 0xbe0b1010, 0xc90c2086, 0x5768b525, 0x206f85b3, 0xb966d409, 0xce61e49f,
     0x5edef90e, 0x29d9c998, 0xb0d09822, 0xc7d7a8b4, 0x59b33d17, 0x2eb40d81, 0xb7bd5c3b, 0xc0ba6cad,
     0xedb88320, 0x9abfb3b6, 0x03b6e20c, 0x74b1d29a, 0xead54739, 0x9dd277af, 0x04db2615, 0x73dc1683,
     0xe3630b12, 0x94643b84, 0x0d6d6a3e, 0x7a6a5aa8, 0xe40ecf0b, 0x9309ff9d, 0x0a00ae27, 0x7d079eb1,
     0xf00f9344, 0x8708a3d2, 0x1e01f268, 0x6906c2fe, 0xf762575d, 0x806567cb, 0x196c3671, 0x6e6b06e7,
     0xfed41b76, 0x89d32be0, 0x10da7a5a, 0x67dd4acc, 0xf9b9df6f, 0x8ebeeff9, 0x17b7be43, 0x60b08ed5,
     0xd6d6a3e8, 0xa1d1937e, 0x38d8c2c4, 0x4fdff252, 0xd1bb67f1, 0xa6bc5767, 0x3fb506dd, 0x48b2364b,
     0xd80d2bda, 0xaf0a1b4c, 0x36034af6, 0x41047a60, 0xdf60efc3, 0xa867df55, 0x316e8eef, 0x4669be79,
     0xcb61b38c, 0xbc66831a, 0x256fd2a0, 0x5268e236, 0xcc0c7795, 0xbb0b4703, 0x220216b9, 0x5505262f,
     0xc5ba3bbe, 0xb2bd0b28, 0x2bb45a92, 0x5cb36a04, 0xc2d7ffa7, 0xb5d0cf31, 0x2cd99e8b, 0x5bdeae1d,
     0x9b64c2b0, 0xec63f226, 0x756aa39c, 0x026d930a, 0x9c0906a9, 0xeb0e363f, 0x72076785, 0x05005713,
     0x95bf4a82, 0xe2b87a14, 0x7bb12bae, 0x0cb61b38, 0x92d28e9b, 0xe5d5be0d, 0x7cdcefb7, 0x0bdbdf21,
     0x86d3d2d4, 0xf1d4e242, 0x68ddb3f8, 0x1fda836e, 0x81be16cd, 0xf6b9265b, 0x6fb077e1, 0x18b74777,
     0x88085ae6, 0xff0f6a70, 0x66063bca, 0x11010b5c, 0x8f659eff, 0xf862ae69, 0x616bffd3, 0x166ccf45,
     0xa00ae278, 0xd70dd2ee, 0x4e048354, 0x3903b3c2, 0xa7672661, 0xd06016f7, 0x4969474d, 0x3e6e77db,
     0xaed16a4a, 0xd9d65adc, 0x40df0b66, 0x37d83bf0, 0xa9bcae53, 0xdebb9ec5, 0x47b2cf7f, 0x30b5ffe9,
     0xbdbdf21c, 0xcabac28a, 0x53b39330, 0x24b4a3a6, 0xbad03605, 0xcdd70693, 0x54de5729, 0x23d967bf,
     0xb3667a2e, 0xc4614ab8, 0x5d681b02, 0x2a6f2b94, 0xb40bbe37, 0xc30c8ea1, 0x5a05df1b, 0x2d02ef8d]"


definition dictionary :: "8 word list list" where
  "dictionary =
   [[0x26, 0xef, 0xf7, 0x44, 0xd6, 0x32, 0xdf, 0x27, 0xa0, 0x3c, 0x74, 0xd0, 0x12, 0xe3, 0xe4, 0x3d, 0x2d, 0x09, 0x4d, 0x21,
     0x33, 0xce, 0xea, 0xfd, 0xcc, 0xe5, 0x6e, 0x4f, 0x31, 0x02, 0xc6, 0x28, 0xae, 0x5b, 0xca, 0x81, 0xd2, 0x0e, 0x3f, 0x94,
     0x38, 0x7d, 0x01, 0x1c, 0xc8, 0xf1, 0xec, 0xdd, 0x69, 0x0f, 0xc1, 0x1a, 0xb6, 0x7e, 0xb8, 0x78, 0x66, 0xb2, 0x85, 0x47,
     0x10, 0x4a, 0x2e, 0xd8, 0x30, 0x19, 0x65, 0x84, 0xe8, 0x24, 0x92, 0x46, 0xb0, 0x22, 0x54, 0x76, 0x97, 0x9e, 0xeb, 0x9c,
     0x95, 0xa6, 0xf3, 0x91, 0x82, 0x7a, 0x34, 0x52, 0x16, 0xe6, 0x90, 0x7c, 0xbb, 0xfb, 0x04, 0xa2, 0xe0, 0x18, 0x61, 0xa8,
     0x23, 0x55, 0x48, 0xb7, 0x58, 0x79, 0x50, 0xad, 0x56, 0xc9, 0x8b, 0x1d, 0x11, 0x29, 0xd7, 0x68, 0x6d, 0x45, 0xa3, 0xf2,
     0x39, 0xa9, 0xda, 0x8e, 0x41, 0x9d, 0x9a, 0x70, 0xe7, 0x93, 0xf4, 0xbd, 0x72, 0xfa, 0x0c, 0xa4, 0x07, 0x73, 0xff, 0xb4,
     0xde, 0xf6, 0xf9, 0x15, 0xc3, 0x42, 0x75, 0xc0, 0xee, 0xc2, 0xf0, 0x5a, 0x3b, 0x20, 0x3a, 0x8c, 0x43, 0x2c, 0xcf, 0x8a,
     0xb9, 0xb5, 0xd3, 0xcb, 0xaf, 0x80, 0xf5, 0x5e, 0x2a, 0x0b, 0x35, 0x8f, 0x13, 0xc5, 0x4e, 0x53, 0x1f, 0x98, 0x51, 0xe2,
     0x60, 0x99, 0xd1, 0x77, 0x57, 0xaa, 0x7f, 0x25, 0x63, 0xbe, 0x9f, 0x40, 0xd9, 0xf8, 0x6c, 0x5d, 0xba, 0x05, 0xd5, 0x5f,
     0xfc, 0x59, 0xb1, 0x4c, 0x88, 0x83, 0x62, 0xac, 0x0a, 0x6f, 0x9b, 0xdb, 0xfe, 0x06, 0x37, 0x8d, 0x08, 0x6b, 0x96, 0xed,
     0x89, 0x17, 0xbc, 0xe9, 0x14, 0x67, 0x4b, 0x36, 0xc7, 0x49, 0x5c, 0xa7, 0xcd, 0x7b, 0x2f, 0xdc, 0xc4, 0xd4, 0xa1, 0xab,
     0xa5, 0x0d, 0x1e, 0xbf, 0x86, 0xe1, 0x3e, 0xb3, 0x03, 0x87, 0x64, 0x71, 0x2b, 0x6a, 0x00, 0x1b],
    [0x20, 0xb3, 0x0d, 0xf5, 0xc2, 0x9b, 0x18, 0x9f, 0x58, 0x6d, 0xa2, 0x47, 0xd5, 0x3d, 0x23, 0x93, 0x8d, 0xf6, 0xc7, 0x4d,
     0xe4, 0x10, 0xc9, 0x71, 0x75, 0x3a, 0x52, 0xd3, 0xfb, 0x66, 0xa9, 0x2c, 0xf7, 0xf1, 0x6a, 0x25, 0xed, 0x06, 0xb6, 0xd8,
     0x44, 0x4c, 0xa3, 0x67, 0x39, 0x3f, 0x90, 0xd0, 0xd6, 0x32, 0xe9, 0x68, 0xb5, 0x7c, 0x96, 0xcd, 0x5c, 0xe7, 0x51, 0xce,
     0xfa, 0xb9, 0x5a, 0x9c, 0x9e, 0xa0, 0x4a, 0x24, 0xaf, 0x95, 0x98, 0x42, 0x53, 0xec, 0xd2, 0x6c, 0x35, 0xf2, 0x99, 0x61,
     0xca, 0x9d, 0x41, 0x37, 0x29, 0xc0, 0x33, 0xb8, 0xba, 0xa6, 0xdf, 0xc6, 0x0b, 0xe8, 0x60, 0x4f, 0x91, 0x8f, 0x70, 0x22,
     0x2e, 0x7e, 0x5e, 0x4e, 0xbf, 0x07, 0x7d, 0x97, 0xe3, 0x0a, 0x2d, 0x54, 0x6f, 0x7b, 0x50, 0x03, 0xa4, 0x62, 0xf3, 0xda,
     0x2a, 0xb1, 0xf8, 0x15, 0xe2, 0x12, 0x34, 0x85, 0xe1, 0x76, 0xf9, 0xd9, 0x46, 0x8a, 0x0c, 0xc1, 0xcc, 0xbb, 0x1b, 0x49,
     0xab, 0x11, 0xb7, 0x87, 0x30, 0x4b, 0x77, 0xf4, 0xd7, 0xaa, 0xc3, 0x55, 0xef, 0x02, 0xea, 0xe5, 0xfd, 0x16, 0x09, 0xd4,
     0xa5, 0x28, 0x36, 0x79, 0x1c, 0xad, 0x2b, 0xb4, 0x73, 0xe0, 0xbd, 0xbe, 0x1d, 0x64, 0x40, 0x5f, 0x08, 0x1a, 0x17, 0x92,
     0x5d, 0x6b, 0xfc, 0xde, 0x83, 0x31, 0x57, 0x0f, 0x8c, 0x45, 0xb2, 0xc4, 0xeb, 0x82, 0xdd, 0x88, 0xa7, 0x13, 0x01, 0x21,
     0x74, 0x2f, 0x0e, 0xff, 0x27, 0x94, 0x3e, 0xf0, 0xdc, 0x78, 0x63, 0x1e, 0xc8, 0xcb, 0x1f, 0x43, 0x14, 0x8b, 0xae, 0xac,
     0x26, 0x59, 0x38, 0x00, 0xee, 0x8e, 0xd1, 0x48, 0xa1, 0xdb, 0x5b, 0x72, 0xb0, 0x05, 0xfe, 0x6e, 0x80, 0x89, 0x65, 0x81,
     0x56, 0xc5, 0x3c, 0x9a, 0x7a, 0x04, 0x84, 0x69, 0x7f, 0xbc, 0xcf, 0x86, 0x19, 0xe6, 0xa8, 0x3b],
    [0x41, 0xb9, 0x73, 0xfa, 0xf8, 0x6c, 0x4d, 0xb8, 0x5f, 0x43, 0xe0, 0x4f, 0xa3, 0xbf, 0x16, 0x47, 0x77, 0xf5, 0x8a, 0xc8,
     0x3b, 0x99, 0x8e, 0x97, 0xdf, 0xaa, 0x71, 0x5b, 0xd9, 0xc4, 0x2c, 0x5d, 0x44, 0x11, 0x17, 0xea, 0xba, 0x28, 0xf0, 0xa2,
     0x02, 0x00, 0xe3, 0x0f, 0xfb, 0xce, 0x5c, 0xe5, 0x4b, 0x0c, 0x40, 0x18, 0x82, 0x8d, 0x15, 0x87, 0x24, 0x81, 0x4c, 0x89,
     0xc5, 0x56, 0xd5, 0x1d, 0x2e, 0x1b, 0x32, 0x6b, 0x66, 0xfd, 0xfc, 0x3d, 0x3c, 0x2b, 0xbb, 0x78, 0xaf, 0x98, 0xb3, 0x7d,
     0xb5, 0x01, 0xae, 0xb1, 0x53, 0x95, 0x35, 0xdb, 0x26, 0x04, 0x39, 0x03, 0x4a, 0x90, 0xad, 0xb2, 0x9e, 0x8b, 0x14, 0xee,
     0x57, 0xc2, 0x38, 0x0d, 0x3a, 0x83, 0xfe, 0x7e, 0x84, 0x54, 0x1e, 0x0e, 0xcf, 0x70, 0x51, 0x7f, 0xd6, 0xb0, 0xa7, 0x29,
     0xbd, 0x49, 0xf6, 0x80, 0x93, 0x6f, 0xc9, 0x9b, 0x92, 0xec, 0x96, 0xf2, 0x68, 0x37, 0xda, 0xc6, 0x10, 0x59, 0x07, 0x0b,
     0x63, 0x76, 0x91, 0x08, 0xa4, 0xc0, 0xdd, 0x5e, 0x33, 0x8c, 0x45, 0xb7, 0xcb, 0x60, 0x1c, 0x9d, 0xe6, 0xca, 0x42, 0xed,
     0x74, 0x9c, 0x9f, 0xdc, 0x2d, 0xf7, 0x85, 0x22, 0xd8, 0x30, 0x75, 0xde, 0x06, 0xd7, 0x9a, 0xf1, 0xff, 0x67, 0xd3, 0x61,
     0xa0, 0x7a, 0xe1, 0xd2, 0xbc, 0xe9, 0x13, 0x09, 0xc3, 0xcd, 0xef, 0x27, 0x94, 0xab, 0x62, 0x50, 0xeb, 0xbe, 0x12, 0xe2,
     0xd4, 0xe7, 0x5a, 0x86, 0x23, 0xe8, 0xa8, 0x2f, 0x31, 0xd1, 0xe4, 0x19, 0xc1, 0x88, 0xa1, 0x25, 0x48, 0xf9, 0xb4, 0x20,
     0xf3, 0x3e, 0x34, 0xa6, 0xa9, 0x8f, 0x7c, 0x79, 0xb6, 0x6e, 0x1f, 0x4e, 0xcc, 0x6d, 0x1a, 0x21, 0x65, 0x36, 0x55, 0x64,
     0xf4, 0x7b, 0x0a, 0x72, 0xac, 0x46, 0x2a, 0x6a, 0xa5, 0x3f, 0x52, 0xc7, 0x69, 0xd0, 0x05, 0x58],
    [0x9d, 0xa3, 0x24, 0x9c, 0x86, 0xed, 0x89, 0x31, 0x2b, 0x07, 0xe9, 0x6f, 0x3f, 0xb4, 0xa0, 0x21, 0x28, 0xfe, 0xe7, 0x63,
     0x20, 0x5b, 0x65, 0x42, 0xdf, 0xff, 0x2d, 0xd7, 0x49, 0xef, 0x92, 0xaa, 0x80, 0xd3, 0x44, 0xc1, 0x6e, 0xce, 0x4b, 0xb7,
     0xc6, 0x66, 0xfa, 0xe8, 0xa4, 0x91, 0x97, 0x96, 0xb9, 0xd6, 0x5c, 0x61, 0x9a, 0x62, 0x85, 0xbe, 0xac, 0x45, 0x17, 0x1c,
     0x27, 0x0f, 0x67, 0xcf, 0x38, 0x3a, 0xf1, 0x11, 0x47, 0xee, 0xa9, 0x83, 0x9f, 0xca, 0x06, 0x6d, 0x0e, 0x2f, 0x7a, 0x41,
     0x2e, 0x78, 0x7d, 0xd9, 0x25, 0x34, 0xb3, 0xa8, 0xfc, 0xb0, 0x04, 0x90, 0x50, 0x79, 0x48, 0xbd, 0xc4, 0xc5, 0x22, 0x98,
     0x81, 0x73, 0x29, 0x8a, 0x40, 0xf4, 0x54, 0x1e, 0xfb, 0xf9, 0xbb, 0xf0, 0xcb, 0x2c, 0x57, 0x51, 0xc3, 0xd4, 0xab, 0x1d,
     0x0d, 0xc9, 0x19, 0xea, 0x72, 0x36, 0xa5, 0x8b, 0x08, 0x15, 0x12, 0xeb, 0xaf, 0xb8, 0x03, 0xd2, 0xa1, 0xe4, 0x59, 0x0c,
     0x70, 0xa7, 0x39, 0x23, 0xd1, 0x94, 0x18, 0xad, 0xb1, 0xd8, 0xfd, 0x46, 0xf2, 0xba, 0x53, 0xd5, 0x10, 0x7c, 0xc0, 0x95,
     0x3d, 0x43, 0x5a, 0x4c, 0x71, 0x55, 0x74, 0xcc, 0x35, 0x6c, 0x4f, 0x05, 0x58, 0x82, 0x5d, 0x75, 0x09, 0xe6, 0x1a, 0xa2,
     0x9b, 0xdb, 0x8e, 0x5f, 0xe1, 0x69, 0x5e, 0xb2, 0x77, 0x76, 0x4d, 0x60, 0x0b, 0x6a, 0x64, 0x33, 0x4a, 0x3b, 0x8d, 0x2a,
     0x84, 0x7e, 0x00, 0x01, 0x87, 0x56, 0x4e, 0xc2, 0xf3, 0x52, 0xc8, 0x26, 0x02, 0xdd, 0x68, 0xb6, 0xde, 0x37, 0xec, 0x7b,
     0x88, 0x99, 0x3e, 0x3c, 0x32, 0x1b, 0xf7, 0x6b, 0x0a, 0x8f, 0x9e, 0x14, 0x13, 0xda, 0x93, 0xf6, 0x16, 0xd0, 0xa6, 0xe2,
     0x30, 0xe0, 0xc7, 0xf5, 0xe5, 0x7f, 0xcd, 0xdc, 0xbf, 0x8c, 0xe3, 0xf8, 0xb5, 0xae, 0x1f, 0xbc],
    [0x7f, 0x1b, 0x0e, 0xda, 0x21, 0x7d, 0x52, 0xb2, 0x4a, 0xd5, 0x8a, 0x4d, 0x37, 0x26, 0x99, 0xf6, 0x1a, 0xdd, 0x6e, 0xf2,
     0x8e, 0x3d, 0x91, 0xab, 0x71, 0xcf, 0x3e, 0x0d, 0x62, 0x8f, 0x5d, 0x08, 0xf9, 0xf1, 0xef, 0x88, 0xec, 0xfe, 0x32, 0xd0,
     0x87, 0x49, 0x53, 0x30, 0xe7, 0x15, 0x3a, 0xed, 0x85, 0xba, 0x66, 0x75, 0x9d, 0xc1, 0xc8, 0xc9, 0xf8, 0x13, 0x1d, 0x57,
     0xa6, 0xde, 0x33, 0xa7, 0xd2, 0x46, 0x6b, 0xf5, 0xff, 0x19, 0x68, 0x9e, 0xbf, 0x42, 0xea, 0x1f, 0x9f, 0x2f, 0x40, 0xfc,
     0xa4, 0x3c, 0x05, 0x0c, 0xf4, 0xc2, 0x5b, 0x20, 0x84, 0x4f, 0x02, 0x97, 0xf7, 0xa2, 0x82, 0xbd, 0xb0, 0x18, 0xc3, 0x14,
     0x6c, 0xa3, 0xe5, 0x25, 0x7a, 0xf3, 0x9a, 0x35, 0xe6, 0x28, 0xe1, 0x6a, 0xd1, 0xfd, 0x06, 0xb5, 0x0a, 0x92, 0x5f, 0x01,
     0x27, 0x38, 0xbb, 0xc6, 0x80, 0xeb, 0x24, 0xb8, 0x86, 0xd8, 0xd3, 0x44, 0xee, 0x67, 0x61, 0x90, 0xaf, 0xdc, 0x4e, 0xcd,
     0x83, 0xb1, 0x1e, 0x45, 0x22, 0xbe, 0x2c, 0x69, 0x2a, 0x23, 0x74, 0x79, 0xb3, 0xa9, 0x16, 0x73, 0x48, 0xe8, 0xc7, 0xe9,
     0x1c, 0xd4, 0x76, 0xe0, 0xaa, 0xb4, 0x47, 0xb9, 0xb7, 0x7b, 0x5e, 0x98, 0x93, 0x12, 0xc5, 0xca, 0x2d, 0x29, 0x96, 0x6f,
     0x17, 0x50, 0x34, 0x78, 0x6d, 0x07, 0xa8, 0x2e, 0xd7, 0xe3, 0xcb, 0xd9, 0x31, 0x58, 0x72, 0xe4, 0xf0, 0x9b, 0x8c, 0x09,
     0xae, 0x55, 0x11, 0x5a, 0x2b, 0x59, 0x8d, 0x43, 0xa1, 0x3f, 0x63, 0xc4, 0x81, 0x10, 0x54, 0xbc, 0x03, 0xce, 0x65, 0x4c,
     0xa5, 0x0f, 0xac, 0x51, 0x7e, 0x7c, 0x0b, 0x41, 0xdb, 0x60, 0x94, 0x64, 0x5c, 0x4b, 0x04, 0x77, 0x8b, 0xd6, 0xc0, 0x95,
     0x39, 0x56, 0x3b, 0x9c, 0xfb, 0xdf, 0x89, 0x00, 0x70, 0xe2, 0xfa, 0xad, 0xb6, 0xa0, 0x36, 0xcc],
    [0xa4, 0x0c, 0xe9, 0x67, 0x7c, 0x3f, 0x2a, 0x00, 0xef, 0x8c, 0x39, 0x1e, 0x61, 0x55, 0x8f, 0xc6, 0x23, 0x4d, 0x94, 0x3b,
     0x0e, 0x29, 0x71, 0x97, 0x73, 0x14, 0x5c, 0xc7, 0xd0, 0x34, 0xb1, 0x18, 0x17, 0xfb, 0xcf, 0xea, 0xdf, 0x2e, 0xf7, 0xba,
     0x0d, 0xbf, 0xbc, 0x30, 0x45, 0xc3, 0x9f, 0x08, 0xb4, 0xd6, 0x9a, 0x48, 0x11, 0x8e, 0x13, 0x99, 0x49, 0xac, 0x5f, 0x8d,
     0x3c, 0xbe, 0x36, 0x5a, 0x32, 0x87, 0x5d, 0x6c, 0x0a, 0xd4, 0xf4, 0x05, 0x0f, 0xa5, 0x91, 0x77, 0x9e, 0x15, 0x47, 0x64,
     0x24, 0x4c, 0xe4, 0x76, 0xde, 0xff, 0xe6, 0xd5, 0xf0, 0xaf, 0xbb, 0x53, 0x83, 0x72, 0xee, 0x12, 0x04, 0xdc, 0x78, 0xa2,
     0x16, 0x81, 0x02, 0x6a, 0x68, 0xf1, 0x9b, 0x37, 0x8a, 0x58, 0xf9, 0x3e, 0xfd, 0x35, 0x03, 0x1f, 0x7b, 0x7a, 0x90, 0xf3,
     0xda, 0x82, 0x60, 0x80, 0xd1, 0x50, 0xb8, 0xe7, 0x56, 0xb7, 0xae, 0x4e, 0xcc, 0x2f, 0x59, 0xce, 0xf5, 0xe1, 0x9d, 0x84,
     0xd2, 0xdb, 0x2b, 0x93, 0x06, 0x3a, 0x92, 0xa7, 0x9c, 0x07, 0x44, 0x6b, 0xbd, 0xd8, 0xb6, 0x46, 0x8b, 0xf2, 0xa3, 0x74,
     0xad, 0x88, 0x75, 0x69, 0x79, 0xd7, 0xb0, 0xe2, 0x2c, 0x6f, 0x26, 0xca, 0x43, 0xcb, 0xfa, 0x96, 0x19, 0xc0, 0x7e, 0x22,
     0x86, 0x31, 0xcd, 0xa6, 0x62, 0x25, 0x42, 0x3d, 0x5b, 0x01, 0xc1, 0x57, 0xec, 0x1b, 0x1c, 0x95, 0xfe, 0xab, 0x21, 0x20,
     0xe8, 0xc8, 0xeb, 0xed, 0x1d, 0xaa, 0xc5, 0x66, 0x5e, 0xdd, 0x98, 0x0b, 0x85, 0xfc, 0x41, 0x4f, 0xc2, 0x6d, 0x4b, 0xb3,
     0x27, 0xa1, 0xf6, 0x28, 0x54, 0x40, 0x10, 0x4a, 0xa8, 0xc4, 0xe5, 0xb5, 0xc9, 0xf8, 0x33, 0x70, 0xa9, 0x51, 0x65, 0xd3,
     0x6e, 0xb9, 0x89, 0x7d, 0x09, 0x2d, 0x52, 0x38, 0xb2, 0x63, 0x7f, 0xd9, 0xa0, 0xe3, 0xe0, 0x1a],
    [0x12, 0x22, 0x8e, 0xe6, 0x88, 0xc2, 0x99, 0xdd, 0x5d, 0x49, 0x60, 0x6c, 0x2d, 0xf4, 0x85, 0x8b, 0x67, 0xc6, 0x5b, 0x1c,
     0xb2, 0xdb, 0x38, 0xf8, 0xbb, 0xd4, 0xc4, 0xae, 0x2a, 0xb5, 0x76, 0x80, 0xc9, 0x43, 0xe4, 0xcc, 0xc3, 0x03, 0x20, 0x05,
     0x6f, 0x84, 0x94, 0xce, 0xd9, 0xbe, 0xb8, 0xb6, 0x7d, 0x54, 0xf5, 0x13, 0x02, 0xdf, 0xfd, 0x86, 0x0a, 0x93, 0xee, 0x73,
     0x9b, 0x68, 0x7a, 0xbd, 0xff, 0x31, 0x45, 0x92, 0xa0, 0xad, 0x09, 0x0f, 0x3d, 0x1d, 0xea, 0x07, 0x97, 0xda, 0x8d, 0x62,
     0x56, 0x53, 0xde, 0x91, 0x0e, 0xba, 0xd8, 0x51, 0xd2, 0x4b, 0xe1, 0x5a, 0xa9, 0x4e, 0x70, 0x15, 0x35, 0xb3, 0x75, 0x36,
     0xac, 0xe3, 0x7f, 0xb1, 0x1b, 0xf7, 0xf9, 0x98, 0xd7, 0xec, 0x7b, 0x64, 0xd0, 0xd3, 0x01, 0x11, 0xc1, 0x1a, 0x3f, 0xcd,
     0x48, 0x21, 0x00, 0xf0, 0x74, 0x2f, 0xa2, 0x55, 0xed, 0x78, 0xfa, 0x81, 0x42, 0x17, 0x37, 0xf3, 0xf6, 0xe8, 0x29, 0x0b,
     0x50, 0x90, 0x3c, 0xfb, 0x16, 0x27, 0x3b, 0x59, 0xa1, 0x14, 0x96, 0x82, 0x71, 0x41, 0x9a, 0xbf, 0x2b, 0x9d, 0x79, 0xe9,
     0xa7, 0xcb, 0x89, 0x30, 0xca, 0xab, 0x8c, 0x0c, 0xef, 0x9e, 0x5f, 0x57, 0xd1, 0x69, 0x58, 0x18, 0x6d, 0x3a, 0x7c, 0x06,
     0xc0, 0xc8, 0xf1, 0x63, 0xa6, 0xa4, 0x9f, 0x4d, 0x8a, 0x24, 0xbc, 0xe0, 0xe7, 0x32, 0xaf, 0xd5, 0x1f, 0x19, 0x08, 0x26,
     0xb4, 0x34, 0x66, 0xb0, 0x95, 0x2e, 0x7e, 0x5c, 0x0d, 0x28, 0xa3, 0x61, 0x4c, 0xfc, 0xd6, 0x6a, 0x72, 0x33, 0xaa, 0xb7,
     0x10, 0xe5, 0xc5, 0x46, 0x25, 0x04, 0x4a, 0x44, 0x23, 0x47, 0xf2, 0xb9, 0xfe, 0x39, 0x40, 0x52, 0x1e, 0x4f, 0x77, 0xc7,
     0x5e, 0xeb, 0xa8, 0x87, 0xdc, 0x3e, 0x8f, 0x9c, 0x83, 0x2c, 0x65, 0xe2, 0x6e, 0x6b, 0xcf, 0xa5],
    [0x72, 0xdd, 0x80, 0xb8, 0x33, 0x3d, 0xdf, 0x2b, 0xac, 0xd0, 0x06, 0x01, 0x9a, 0x4e, 0x4c, 0xde, 0xf1, 0xe1, 0x20, 0x94,
     0xf9, 0xe6, 0x8e, 0xfd, 0x14, 0xf6, 0xaa, 0x82, 0x15, 0xce, 0x27, 0x49, 0x6a, 0x96, 0x8c, 0x1f, 0xb1, 0xd3, 0xe0, 0xa9,
     0xc3, 0x51, 0xa8, 0xeb, 0x23, 0x00, 0x04, 0x85, 0xae, 0x95, 0xd7, 0x58, 0x83, 0x7d, 0x25, 0xe3, 0x76, 0xb2, 0xc6, 0xe7,
     0x0a, 0xbc, 0x2f, 0x67, 0x73, 0xad, 0x90, 0xdb, 0x5b, 0x8a, 0xf8, 0x62, 0x21, 0xf0, 0x6d, 0xcb, 0x84, 0xb4, 0x11, 0x98,
     0xaf, 0xb9, 0xab, 0x56, 0xa3, 0xb0, 0xbb, 0x50, 0xf3, 0x8b, 0x5d, 0x05, 0x7e, 0x30, 0xf4, 0x91, 0xb7, 0x9e, 0x02, 0xea,
     0x9f, 0x07, 0x5a, 0x77, 0xc5, 0xc2, 0x99, 0xfe, 0x55, 0xa2, 0x26, 0xd8, 0x79, 0x8f, 0xd2, 0xe4, 0xed, 0xff, 0x6e, 0x53,
     0x64, 0x0d, 0x45, 0xc7, 0x0b, 0x3f, 0x6c, 0xa1, 0xc4, 0x32, 0x0e, 0x7c, 0xf5, 0x48, 0x09, 0x34, 0x66, 0x59, 0xb6, 0x1c,
     0x13, 0x42, 0xda, 0xd9, 0xbe, 0x38, 0x37, 0xec, 0x9d, 0xef, 0xba, 0xe9, 0x31, 0x3e, 0x43, 0x47, 0x28, 0x70, 0xc9, 0x52,
     0xb3, 0x7a, 0x71, 0xa7, 0x1e, 0x2c, 0x69, 0x19, 0xfb, 0x41, 0xa6, 0x4a, 0x7b, 0x75, 0x6f, 0xe8, 0x22, 0xf2, 0xd1, 0xa4,
     0x2e, 0x3b, 0xfc, 0xcd, 0xc0, 0x0c, 0x8d, 0xa5, 0x92, 0x5e, 0x57, 0x0f, 0x39, 0x60, 0x36, 0xcf, 0xdc, 0x88, 0x63, 0xee,
     0x16, 0x78, 0xca, 0x4f, 0x9c, 0x1d, 0xc1, 0x2d, 0xbf, 0x18, 0x93, 0x40, 0x4d, 0x97, 0x08, 0xa0, 0x4b, 0x6b, 0xcc, 0x87,
     0xfa, 0x24, 0xbd, 0x17, 0x86, 0x3c, 0xe5, 0x12, 0x35, 0x65, 0xf7, 0x5f, 0x68, 0x29, 0x3a, 0xe2, 0x9b, 0x5c, 0x10, 0x44,
     0x1b, 0xc8, 0xb5, 0x46, 0xd5, 0x61, 0x03, 0xd6, 0x2a, 0x81, 0x74, 0x1a, 0x54, 0x89, 0x7f, 0xd4],
    [0x6e, 0xc3, 0x57, 0x46, 0x84, 0xed, 0x29, 0x83, 0xcb, 0xa3, 0x6a, 0x9d, 0xc8, 0x7e, 0xac, 0x33, 0x04, 0xf6, 0x4b, 0x3f,
     0xda, 0x6c, 0xa1, 0xd7, 0x2a, 0xba, 0x9f, 0x73, 0x02, 0x23, 0x3d, 0xe5, 0xb4, 0xb7, 0x37, 0x0f, 0x7c, 0x8a, 0xe8, 0x49,
     0x64, 0xa0, 0xaf, 0xf5, 0x42, 0x85, 0xf2, 0x32, 0x72, 0x17, 0xad, 0xde, 0x7f, 0xcf, 0x98, 0xf3, 0x95, 0xf0, 0xf7, 0x22,
     0x65, 0x1e, 0xc2, 0x10, 0x28, 0x58, 0xf9, 0x0e, 0x1c, 0xaa, 0x7a, 0xb0, 0x13, 0x78, 0x69, 0xf4, 0x21, 0x3b, 0x51, 0xb5,
     0x4a, 0x81, 0x76, 0x94, 0xdb, 0xd3, 0x2b, 0x80, 0x7b, 0x11, 0xc6, 0x6f, 0xd9, 0x41, 0x19, 0xd5, 0x40, 0x7d, 0x06, 0xc4,
     0x31, 0xb8, 0xe1, 0xa5, 0xca, 0x59, 0xe3, 0xe0, 0x63, 0x9c, 0x14, 0x5c, 0xff, 0x03, 0x2f, 0xbd, 0xc7, 0x27, 0x5f, 0xe7,
     0xb2, 0x56, 0x4d, 0x35, 0x08, 0x2c, 0x47, 0x8f, 0x5e, 0xbc, 0x25, 0xe9, 0x0c, 0xfd, 0xef, 0xb1, 0xfb, 0xdf, 0x05, 0xf8,
     0x53, 0x89, 0x97, 0x54, 0xd1, 0xe2, 0x01, 0xc0, 0x07, 0x8b, 0x52, 0x5a, 0xa2, 0xdc, 0x9e, 0xcc, 0x00, 0x44, 0xab, 0xd8,
     0x77, 0x36, 0xbb, 0xd0, 0xa6, 0xbe, 0xe4, 0x3c, 0xea, 0xcd, 0x91, 0x0a, 0xe6, 0x30, 0x4e, 0x74, 0xd2, 0x62, 0x6d, 0x3e,
     0x90, 0x8e, 0xf1, 0xd6, 0x3a, 0x48, 0x79, 0x0d, 0x88, 0x70, 0x0b, 0x39, 0x1b, 0xec, 0x68, 0x5d, 0xc1, 0x9a, 0xb3, 0x1d,
     0xeb, 0x75, 0xc5, 0x99, 0x18, 0x6b, 0x15, 0x20, 0x60, 0x38, 0x12, 0x9b, 0x09, 0x67, 0x55, 0x8c, 0xb9, 0xa9, 0x82, 0x43,
     0xa8, 0xee, 0x93, 0x2d, 0xfe, 0x92, 0x5b, 0xae, 0xd4, 0x1a, 0x66, 0xa4, 0xb6, 0x61, 0x50, 0x2e, 0xfa, 0xdd, 0x4c, 0x24,
     0x4f, 0xce, 0x96, 0x45, 0x26, 0xa7, 0xfc, 0xc9, 0x34, 0xbf, 0x86, 0x1f, 0x16, 0x8d, 0x87, 0x71],
    [0x66, 0x00, 0x81, 0x79, 0x2e, 0xc5, 0x6f, 0xe1, 0x1e, 0xb4, 0x7d, 0xff, 0x19, 0xd0, 0xcd, 0x8d, 0x2c, 0xa2, 0x93, 0x24,
     0xfd, 0x4b, 0xd8, 0x34, 0xd1, 0x0f, 0xca, 0x68, 0xb1, 0xe0, 0xba, 0x44, 0x43, 0xf9, 0x95, 0x91, 0xc3, 0x31, 0x6c, 0x11,
     0x17, 0x32, 0x9c, 0xb8, 0x16, 0xbe, 0xef, 0xfa, 0x04, 0x08, 0x28, 0xea, 0x39, 0xe9, 0x54, 0xac, 0x71, 0x62, 0xf2, 0xd9,
     0x36, 0x1b, 0x56, 0x9e, 0xf5, 0x99, 0xc2, 0xd3, 0xc1, 0x46, 0x26, 0x83, 0xee, 0x1a, 0x9a, 0x27, 0x4d, 0xf7, 0x77, 0xd2,
     0x74, 0xaf, 0xf1, 0x90, 0x38, 0x63, 0xd6, 0xc4, 0x09, 0x01, 0xfe, 0x58, 0xe8, 0x84, 0xbb, 0x73, 0x3a, 0x4f, 0x5d, 0xc0,
     0x3f, 0x5c, 0x75, 0x02, 0x21, 0x61, 0x47, 0x86, 0x88, 0xdb, 0x13, 0xcf, 0x6a, 0x40, 0x49, 0x6b, 0x8f, 0x57, 0x3b, 0x18,
     0xfc, 0x9f, 0xa0, 0x92, 0x8e, 0x69, 0x0d, 0x59, 0xe4, 0xf6, 0x97, 0x37, 0x22, 0xde, 0x20, 0xd7, 0x76, 0xe5, 0xc8, 0xc7,
     0x65, 0x07, 0x5e, 0x3c, 0x35, 0xdc, 0x6e, 0x5a, 0xce, 0xf4, 0x98, 0x45, 0x41, 0xb5, 0x51, 0x4c, 0x7e, 0x06, 0x23, 0x42,
     0x52, 0x0e, 0xb9, 0xbc, 0x3d, 0xcc, 0x2a, 0xdd, 0x6d, 0x85, 0x29, 0x55, 0xa4, 0x8a, 0xb2, 0x30, 0x12, 0x8c, 0x0b, 0x94,
     0x8b, 0x0c, 0xa8, 0x7f, 0xe7, 0x78, 0x03, 0xa5, 0x89, 0x4a, 0x3e, 0xe3, 0xbf, 0x10, 0xf3, 0x2f, 0xb3, 0x72, 0x7a, 0x15,
     0xfb, 0x05, 0xb7, 0x5f, 0xe2, 0x50, 0x53, 0x70, 0xc9, 0xed, 0x5b, 0xa9, 0x0a, 0xb0, 0x7c, 0x67, 0xf8, 0x14, 0x2b, 0x1d,
     0x80, 0x1c, 0xab, 0xa7, 0xb6, 0xd5, 0xec, 0x64, 0xda, 0x96, 0x48, 0xdf, 0xa1, 0xae, 0xa3, 0xbd, 0xaa, 0xd4, 0x2d, 0x25,
     0x9d, 0xa6, 0xcb, 0xeb, 0x1f, 0xe6, 0x82, 0xf0, 0x33, 0x7b, 0x9b, 0x60, 0xad, 0xc6, 0x4e, 0x87]]"

section \<open>Checksum\<close>

text \<open>
  \<^verbatim>\<open>DO1\<close> and the statement of the closing loop differ in the width of the exclusive or: the first
  works on \<^verbatim>\<open>unsigned long\<close>, the second on \<^verbatim>\<open>int\<close>; in both the data byte is a signed character.
\<close>

definition DO1 :: "8 word \<Rightarrow> 64 word \<Rightarrow> 64 word" where
  "DO1 b crc = crc_table ! unat ((crc XOR scast b) AND 0xFF) XOR drop_bit 8 crc"

definition crc_last :: "8 word \<Rightarrow> 64 word \<Rightarrow> 64 word" where
  "crc_last b crc =
     crc_table ! unat (((ucast crc :: 32 word) XOR scast b) AND 0xFF) XOR drop_bit 8 crc"

function crc_eights :: "8 word list \<Rightarrow> 64 word \<Rightarrow> 8 word list \<times> 64 word" where
  "crc_eights data crc = (if 8 \<le> length data then crc_eights (drop 8 data) (fold DO1 (take 8 data) crc) else (data, crc))"
  by pat_completeness auto
termination by (relation "measure (\<lambda>(data, _). length data)") auto

definition crc32 :: "64 word \<Rightarrow> 8 word list option \<Rightarrow> 32 word" where
  "crc32 crc data =
     (case data of
        None \<Rightarrow> 0
      | Some d \<Rightarrow> let (rest, c) = crc_eights d (crc XOR 0xffffffff) in ucast (fold crc_last rest c XOR 0xffffffff))"

definition sslCrc32 :: "8 word list option \<Rightarrow> 32 word" where
  "sslCrc32 data = crc32 0 data"

definition sslChecksum :: "8 word list option \<Rightarrow> 32 word \<Rightarrow> bool" where
  "sslChecksum data key = (key = sslCrc32 data)"

section \<open>Cipher\<close>

text \<open>
  \<^verbatim>\<open>sslInitDictionary\<close> fills the table of inverse substitutions; the inner loop ends with the length of
  the row when the value does not occur, which is then stored modulo 256.
\<close>

fun code_of :: "8 word list \<Rightarrow> 8 word \<Rightarrow> nat \<Rightarrow> nat" where
  "code_of [] j k = k"
| "code_of (x # xs) j k = (if x = j then k else code_of xs j (k + 1))"

definition sslInitDictionary :: "8 word list list" where
  "sslInitDictionary = map (\<lambda>row. map (\<lambda>j. word_of_nat (code_of row (word_of_nat j) 0)) [0..<256]) dictionary"

definition row_index :: "nat \<Rightarrow> nat \<Rightarrow> nat" where
  "row_index key2 i = (key2 + i) mod 4294967296 mod 10"

text \<open>
  Both functions write to a buffer of the caller, whose former content is the last argument, and return
  the number of bytes that count.  Encryption draws its second key with \<^verbatim>\<open>rand()\<close>, here \<open>r\<close>; decryption of
  nothing reads in front of the buffer (\<open>None\<close>) unless the key is zero.
\<close>

definition sslEncrypt :: "8 word \<Rightarrow> nat \<Rightarrow> 8 word list \<Rightarrow> 8 word list \<Rightarrow> 8 word list \<times> nat" where
  "sslEncrypt key r in_data out_data =
     (if key = 0 then (out_data, length in_data)
      else let key2 = r mod 256;
               c = map (\<lambda>i. dictionary ! row_index key2 i ! unat (in_data ! i) XOR key) [0..<length in_data]
           in (c @ [word_of_nat key2] @ drop (length in_data + 1) out_data, length in_data + 1))"

definition sslDecrypt :: "8 word list list \<Rightarrow> 8 word \<Rightarrow> 8 word list \<Rightarrow> 8 word list \<Rightarrow> (8 word list \<times> nat) option" where
  "sslDecrypt reversed_dictionary key in_data out_data =
     (if key = 0 then Some (out_data, length in_data)
      else if in_data = [] then None
      else let key2 = unat (last in_data);
               p = map (\<lambda>i. reversed_dictionary ! row_index key2 i ! unat (in_data ! i XOR key)) [0..<length in_data]
           in Some (p @ drop (length in_data) out_data, length in_data - 1))"

section \<open>The checksum is CRC-32\<close>

text \<open>
  The reference: one bit at a time, the register is shifted right and the reflected polynomial is added
  for every one that leaves it.
\<close>

definition crc_bit :: "32 word \<Rightarrow> 32 word" where
  "crc_bit c = (if bit c 0 then drop_bit 1 c XOR 0xEDB88320 else drop_bit 1 c)"

definition crc_byte :: "8 word \<Rightarrow> 32 word \<Rightarrow> 32 word" where
  "crc_byte b c = (crc_bit ^^ 8) (c XOR ucast b)"

definition crc32_spec :: "8 word list \<Rightarrow> 32 word" where
  "crc32_spec data = NOT (fold crc_byte data (NOT 0))"

lemma crc_bit_xor: "crc_bit (x XOR y) = crc_bit x XOR crc_bit y"
  by (auto simp: crc_bit_def bit_xor_iff drop_bit_xor intro: bit_word_eqI)

lemma crc_bits_xor: "(crc_bit ^^ n) (x XOR y) = (crc_bit ^^ n) x XOR (crc_bit ^^ n) y"
  by (induction n) (simp_all add: crc_bit_xor)

lemma crc_bits_shift: "(\<And>i. i < n \<Longrightarrow> \<not> bit x i) \<Longrightarrow> (crc_bit ^^ n) x = drop_bit n x"
  by (induction n) (simp_all add: crc_bit_def bit_simps)

lemma byte_mask: "(0xFF :: 'a::len word) = mask 8"
  by (simp add: mask_eq_exp_minus_1)

lemma crc_bits_split: "(crc_bit ^^ 8) x = (crc_bit ^^ 8) (x AND 0xFF) XOR drop_bit 8 x"
proof -
  have "(x AND 0xFF) XOR (push_bit 8 (drop_bit 8 x)) = x"
    by (rule bit_word_eqI) (auto simp: bit_simps byte_mask)
  then have "(crc_bit ^^ 8) x = (crc_bit ^^ 8) (x AND 0xFF) XOR (crc_bit ^^ 8) (push_bit 8 (drop_bit 8 x))"
    using crc_bits_xor [of 8 "x AND 0xFF" "push_bit 8 (drop_bit 8 x)"] by simp
  moreover have "(crc_bit ^^ 8) (push_bit 8 (drop_bit 8 x)) = drop_bit 8 (push_bit 8 (drop_bit 8 x))"
    by (rule crc_bits_shift) (simp add: bit_simps)
  moreover have "drop_bit 8 (push_bit 8 (drop_bit 8 x)) = drop_bit 8 x"
    by (rule bit_word_eqI) (auto simp: bit_simps dest: bit_imp_le_length)
  ultimately show ?thesis by simp
qed

text \<open>The table is linear in the index, so that each half of it is the other shifted by one entry.\<close>

definition crc_row :: "nat \<Rightarrow> 32 word" where
  "crc_row i = (crc_bit ^^ 8) (word_of_nat i)"

lemma word_of_nat_split:
  assumes "j < 2 ^ k" "k < 32"
  shows "(word_of_nat (2 ^ k + j) :: 32 word) = word_of_nat (2 ^ k) XOR word_of_nat j"
proof -
  have j: "j = take_bit k j" using assms(1) by (simp add: take_bit_nat_eq_self)
  have "2 ^ k AND j = 0" by (subst j, rule bit_eqI) (auto simp: bit_simps)
  then have "2 ^ k + j = 2 ^ k XOR j" by (rule disjunctive_add_eq_xor)
  then show ?thesis by (simp add: of_nat_xor_eq)
qed

lemma crc_row_split:
  assumes "j < 2 ^ k" "k < 32"
  shows "crc_row (2 ^ k + j) = crc_row j XOR crc_row (2 ^ k)"
  unfolding crc_row_def word_of_nat_split [OF assms] crc_bits_xor by (simp add: xor.commute)

lemma crc_rows_double:
  assumes "k < 32"
  shows "map crc_row [0..<2 ^ k + 2 ^ k] = (let t = map crc_row [0..<2 ^ k] in t @ map (\<lambda>x. x XOR crc_row (2 ^ k)) t)"
proof -
  have "map crc_row [2 ^ k..<2 ^ k + 2 ^ k] = map (\<lambda>x. x XOR crc_row (2 ^ k)) (map crc_row [0..<2 ^ k])"
    using assms by (intro nth_equalityI) (simp_all add: crc_row_split)
  moreover have "[0..<2 ^ k + 2 ^ k] = [0..<2 ^ k] @ [2 ^ k..<2 ^ k + 2 ^ k]" using upt_add_eq_append le0 by blast
  ultimately show ?thesis by (simp add: Let_def)
qed

lemma crc_row_unfold:
  "crc_row i = crc_bit (crc_bit (crc_bit (crc_bit (crc_bit (crc_bit (crc_bit (crc_bit (word_of_nat i))))))))"
  by (simp add: crc_row_def numeral_eq_Suc)

lemma crc_row_powers:
  "crc_row 1 = 0x77073096" "crc_row 2 = 0xee0e612c" "crc_row 4 = 0x076dc419" "crc_row 8 = 0x0edb8832"
  "crc_row 16 = 0x1db71064" "crc_row 32 = 0x3b6e20c8" "crc_row 64 = 0x76dc4190" "crc_row 128 = 0xedb88320"
  by (simp_all add: crc_row_unfold crc_bit_def)

lemma crc_rows: "map crc_row [0..<256] = map ucast crc_table"
proof -
  note step = crc_row_powers crc_row_powers(1) [unfolded One_nat_def] Let_def crc_table_def
  have "crc_row 0 = 0" by (simp add: crc_row_def crc_bits_shift)
  then have 1: "map crc_row [0..<2] = map ucast (take 2 crc_table)" by (simp add: step upt_conv_Cons)
  have 2: "map crc_row [0..<4] = map ucast (take 4 crc_table)" using crc_rows_double [of 1] 1 by (simp add: step)
  have 3: "map crc_row [0..<8] = map ucast (take 8 crc_table)" using crc_rows_double [of 2] 2 by (simp add: step)
  have 4: "map crc_row [0..<16] = map ucast (take 16 crc_table)" using crc_rows_double [of 3] 3 by (simp add: step)
  have 5: "map crc_row [0..<32] = map ucast (take 32 crc_table)" using crc_rows_double [of 4] 4 by (simp add: step)
  have 6: "map crc_row [0..<64] = map ucast (take 64 crc_table)" using crc_rows_double [of 5] 5 by (simp add: step)
  have 7: "map crc_row [0..<128] = map ucast (take 128 crc_table)" using crc_rows_double [of 6] 6 by (simp add: step)
  show ?thesis using crc_rows_double [of 7] 7 by (simp add: step)
qed

lemma crc_table_narrow: "c \<in> set crc_table \<Longrightarrow> (ucast (ucast c :: 32 word) :: 64 word) = c"
proof -
  have "list_all (\<lambda>c. (ucast (ucast c :: 32 word) :: 64 word) = c) crc_table" by (simp add: crc_table_def)
  then show "c \<in> set crc_table \<Longrightarrow> ?thesis" by (simp add: list_all_iff)
qed

lemma crc_table_length: "length crc_table = 256" by (simp add: crc_table_def)

lemma crc_table_nth:
  assumes "i < 256"
  shows "crc_table ! i = ucast (crc_row i)"
proof -
  have "ucast (crc_table ! i) = crc_row i"
    using arg_cong [OF crc_rows, of "\<lambda>t. t ! i"] assms by (simp add: crc_table_length)
  moreover have "crc_table ! i \<in> set crc_table" using assms by (simp add: crc_table_length)
  ultimately show ?thesis using crc_table_narrow by metis
qed

text \<open>The register holds a 32 bit value, and one byte through the table is eight bits through the reference.\<close>

lemma low_byte: "unat ((x :: 32 word) AND 0xFF) < 256"
proof -
  have "x AND 0xFF = take_bit 8 x" by (simp add: byte_mask take_bit_eq_mask)
  then show ?thesis using take_bit_nat_less_exp [of 8 "unat x"] by (simp add: unsigned_take_bit_eq)
qed

lemma crc_index:
  "unat ((ucast c XOR scast b :: 64 word) AND 0xFF) = unat ((c XOR ucast b :: 32 word) AND 0xFF)"
  "unat (((ucast (ucast c :: 64 word) :: 32 word) XOR scast b) AND 0xFF) = unat ((c XOR ucast b :: 32 word) AND 0xFF)"
  for c :: "32 word" and b :: "8 word"
proof -
  have top: "n = 7" if "7 \<le> n" "n < 8" for n :: nat using that by simp
  have "(ucast c XOR scast b :: 64 word) AND 0xFF = ucast ((c XOR ucast b) AND 0xFF)"
    by (rule bit_word_eqI) (auto simp: bit_simps byte_mask min_def dest!: top)
  then show "unat ((ucast c XOR scast b :: 64 word) AND 0xFF) = unat ((c XOR ucast b) AND 0xFF)"
    using low_byte [of "c XOR ucast b"] by (simp add: unsigned_ucast_eq take_bit_nat_eq_self)
  have "((ucast (ucast c :: 64 word) :: 32 word) XOR scast b) AND 0xFF = (c XOR ucast b) AND 0xFF"
    by (rule bit_word_eqI) (auto simp: bit_simps byte_mask min_def dest!: top)
  then show "unat (((ucast (ucast c :: 64 word) :: 32 word) XOR scast b) AND 0xFF) = unat ((c XOR ucast b) AND 0xFF)"
    by simp
qed

lemma crc_row_low: "crc_row (unat (x AND 0xFF)) = (crc_bit ^^ 8) (x AND 0xFF)"
  by (simp add: crc_row_def)

lemma crc_table_step:
  "crc_table ! unat ((c XOR ucast b :: 32 word) AND 0xFF) XOR drop_bit 8 (ucast c) = ucast (crc_byte b c)"
  for b :: "8 word"
proof -
  have "drop_bit 8 (ucast b :: 32 word) = 0" by (rule bit_word_eqI) (auto simp: bit_simps dest: bit_imp_le_length)
  then have "drop_bit 8 (c XOR ucast b) = drop_bit 8 c" by (simp add: drop_bit_xor)
  then have "crc_byte b c = crc_row (unat ((c XOR ucast b) AND 0xFF)) XOR drop_bit 8 c"
    unfolding crc_byte_def crc_bits_split [of "c XOR ucast b"] by (simp add: crc_row_low)
  moreover have "drop_bit 8 (ucast c :: 64 word) = ucast (drop_bit 8 c)"
    by (rule bit_word_eqI) (auto simp: bit_simps dest: bit_imp_le_length)
  ultimately show ?thesis by (simp add: crc_table_nth low_byte unsigned_xor_eq)
qed

lemma DO1_byte: "DO1 b (ucast c) = ucast (crc_byte b c)" for c :: "32 word"
  unfolding DO1_def crc_index by (rule crc_table_step)

lemma crc_last_byte: "crc_last b (ucast c) = ucast (crc_byte b c)" for c :: "32 word"
  unfolding crc_last_def crc_index by (rule crc_table_step)

lemma fold_bytes:
  "fold DO1 d (ucast c) = ucast (fold crc_byte d c)" "fold crc_last d (ucast c) = ucast (fold crc_byte d c)" for c :: "32 word"
  by (induction d arbitrary: c) (simp_all add: DO1_byte crc_last_byte)

declare crc_eights.simps [simp del]

lemma crc_eights_bytes:
  "(case crc_eights d (ucast c) of (rest, x) \<Rightarrow> fold crc_last rest x) = ucast (fold crc_byte d c)" for c :: "32 word"
proof (induction "length d" arbitrary: d c rule: less_induct)
  case less
  show ?case
  proof (cases "8 \<le> length d")
    case True
    then have "(case crc_eights d (ucast c) of (rest, x) \<Rightarrow> fold crc_last rest x) = ucast (fold crc_byte (drop 8 d) (fold crc_byte (take 8 d) c))"
      using less [of "drop 8 d"] by (simp add: crc_eights.simps [of d] fold_bytes)
    also have "fold crc_byte (drop 8 d) (fold crc_byte (take 8 d) c) = fold crc_byte d c"
      by (metis append_take_drop_id comp_apply fold_append)
    finally show ?thesis .
  next
    case False
    then show ?thesis by (simp add: crc_eights.simps [of d] fold_bytes)
  qed
qed

text \<open>
  C15.  The checksum of every byte sequence, computed with the table eight bytes at a time and the remainder
  one by one, is the CRC-32 of the sequence as defined bit by bit.
\<close>

theorem crc32_equivalence: "sslCrc32 (Some data) = crc32_spec data"
proof -
  have ones: "(NOT 0 :: 32 word) = 0xffffffff" 
    using mask_eq_exp_minus_1 [of 32, where ?'a = "32 word"] by (simp flip: mask_full)
  have "(0 XOR 0xffffffff :: 64 word) = ucast (NOT 0 :: 32 word)" unfolding ones by simp
  then have "sslCrc32 (Some data) = ucast (ucast (fold crc_byte data (NOT 0)) XOR 0xffffffff :: 64 word)"
    using crc_eights_bytes [of data "NOT 0"] by (simp add: sslCrc32_def crc32_def case_prod_beta)
  also have "\<dots> = fold crc_byte data (NOT 0) XOR 0xffffffff" 
    by (rule bit_word_eqI) (auto simp: bit_simps)
  also have "\<dots> = NOT (fold crc_byte data (NOT 0))" by (simp flip: ones)
  finally show ?thesis by (simp add: crc32_spec_def)
qed

section \<open>Decryption inverts encryption\<close>

text \<open>
  Every row of the dictionary contains each byte once: 256 powers of two with the bytes as exponents have
  the sum \<^term>\<open>2 ^ 256 - 1 :: nat\<close> only when the exponents are distinct.
\<close>

lemma sum_powers_minimal:
  "sum_list (map ((^) 2) xs) = (2 ^ n - 1 :: nat) \<Longrightarrow> n \<le> length xs"
proof (induction "length xs" arbitrary: xs rule: less_induct)
  case less
  show ?case
  proof (cases "distinct xs")
    case True
    then have "set_encode (set xs) = set_encode {..<n}"
      using less.prems by (simp add: set_encode_def sum_list_distinct_conv_sum_set mask_eq_sum_exp_nat lessThan_def)
    then have "set xs = {..<n}" by (simp add: set_encode_eq)
    then show ?thesis using card_length [of xs] by simp
  next
    case False
    then obtain as x bs cs where "xs = as @ [x] @ bs @ [x] @ cs" using not_distinct_decomp by blast
    then show ?thesis using less.hyps [of "as @ [x + 1] @ bs @ cs"] less.prems by simp
  qed
qed

lemma sum_powers_distinct:
  assumes "sum_list (map ((^) 2) xs) = (2 ^ n - 1 :: nat)" "length xs = n"
  shows "distinct xs"
proof (rule ccontr)
  assume "\<not> distinct xs"
  then obtain as x bs cs where "xs = as @ [x] @ bs @ [x] @ cs" using not_distinct_decomp by blast
  then show False using sum_powers_minimal [of "as @ [x + 1] @ bs @ cs" n] assms by simp
qed

definition full_row :: "8 word list \<Rightarrow> bool" where
  "full_row row = (length row = 256 \<and> sum_list (map (\<lambda>x. 2 ^ unat x) row) = (2 ^ 256 - 1 :: nat))"

lemma full_row_distinct: "full_row row \<Longrightarrow> distinct row \<and> length row = 256"
  using sum_powers_distinct [of "map unat row" 256] by (simp add: full_row_def comp_def distinct_map)

lemma dictionary_rows_1: "list_all full_row (take 3 dictionary)" by (simp add: dictionary_def full_row_def)
lemma dictionary_rows_2: "list_all full_row (take 3 (drop 3 dictionary))" by (simp add: dictionary_def full_row_def)
lemma dictionary_rows_3: "list_all full_row (drop 6 dictionary)" by (simp add: dictionary_def full_row_def)

lemma dictionary_rows: "list_all full_row dictionary"
proof -
  have "dictionary = take 3 dictionary @ take 3 (drop 3 dictionary) @ drop 6 dictionary"
    by (metis append_take_drop_id drop_drop numeral_Bit0 numeral_Bit1 num.size)
  then show ?thesis using dictionary_rows_1 dictionary_rows_2 dictionary_rows_3 by (metis list_all_append)
qed

lemma dictionary_distinct: "row \<in> set dictionary \<Longrightarrow> distinct row \<and> length row = 256"
  using dictionary_rows full_row_distinct by (auto simp: list_all_iff)

lemma code_of_nth: "distinct row \<Longrightarrow> i < length row \<Longrightarrow> code_of row (row ! i) k = k + i"
proof (induction row arbitrary: i k)
  case (Cons x xs)
  then show ?case by (cases i) auto
qed simp

lemma dictionary_length: "length dictionary = 10"
  by (simp add: dictionary_def)

lemma row_index_bound: "row_index key2 i < 10"
  by (simp add: row_index_def)

text \<open>The two tables are inverse to each other in every row.\<close>

lemma sslInitDictionary_inverse:
  assumes "n < 10"
  shows "sslInitDictionary ! n ! unat (dictionary ! n ! unat x) = x"
proof -
  let ?row = "dictionary ! n"
  have row: "distinct ?row" "length ?row = 256" using dictionary_distinct assms by (simp_all add: dictionary_length)
  have x: "unat x < 256" "unat (?row ! unat x) < 256" using unsigned_less [of x] unsigned_less [of "?row ! unat x"] by simp_all
  then have "sslInitDictionary ! n ! unat (?row ! unat x) = word_of_nat (code_of ?row (?row ! unat x) 0)"
    using assms by (simp add: sslInitDictionary_def dictionary_length)
  then show ?thesis using row x by (simp add: code_of_nth)
qed

text \<open>
  C33.  For a key other than zero, decrypting the result of an encryption with the same key returns the
  number of bytes of the plain text and the plain text, whatever the second key drawn was and whatever the
  buffers contained.
\<close>

theorem ssl_roundtrip:
  assumes "key \<noteq> 0"
  shows "case sslEncrypt key r plain buf of (cipher, n) \<Rightarrow>
           n = length plain + 1 \<and>
           (\<exists>out. sslDecrypt sslInitDictionary key (take n cipher) buf' = Some (out, length plain) \<and>
                  take (length plain) out = plain)"
proof -
  define c where "c = map (\<lambda>i. dictionary ! row_index (r mod 256) i ! unat (plain ! i) XOR key) [0..<length plain]"
  let ?in = "c @ [word_of_nat (r mod 256)]"
  let ?p = "map (\<lambda>i. sslInitDictionary ! row_index (r mod 256) i ! unat (?in ! i XOR key)) [0..<length ?in]"
  have enc: "sslEncrypt key r plain buf = (?in @ drop (length plain + 1) buf, length plain + 1)"
    using assms by (simp add: sslEncrypt_def c_def Let_def)
  have len: "length c = length plain" by (simp add: c_def)
  have "unat (word_of_nat (r mod 256) :: 8 word) = r mod 256" by (simp add: unat_of_nat)
  then have dec: "sslDecrypt sslInitDictionary key ?in buf' = Some (?p @ drop (length ?in) buf', length plain)"
    using assms len by (simp add: sslDecrypt_def Let_def del: upt_Suc)
  have "take (length plain) ?p = plain"
    by (rule nth_equalityI) (simp_all add: len nth_append c_def xor.assoc sslInitDictionary_inverse row_index_bound)
  then show ?thesis using enc dec len by (simp del: upt_Suc)
qed

theorem ssl_roundtrip_witness:
  "case sslEncrypt 7 300 [1, 2, 255] [] of (cipher, n) \<Rightarrow>
     n = Suc (Suc (Suc (Suc 0))) \<and>
     (\<exists>out. sslDecrypt sslInitDictionary 7 (take n cipher) [9] = Some (out, Suc (Suc (Suc 0))) \<and>
            take (Suc (Suc (Suc 0))) out = [1, 2, 255])"
  using ssl_roundtrip [where key = 7 and r = 300 and plain = "[1, 2, 255]" and buf = "[]" and buf' = "[9]"] by simp

end
