(* ===== verification/Wire.thy ===== *)
theory Wire
  imports Crypt
begin

text \<open>
  The framed byte stream between the processes: \<^verbatim>\<open>message_interface\<close> (building and opening a frame)
  and \<^verbatim>\<open>tcp_session\<close> (the receive buffer, the send queue and the life of a connection), from
  \<^verbatim>\<open>src/common/message_interface.cpp\<close> and \<^verbatim>\<open>src/common/tcpsession.cpp\<close>.  Sockets are external: what the
  session asks of them is an effect, and the completions of reads and writes are calls of its handlers
  with any bytes and any error.
\<close>

unbundle bit_operations_syntax

section \<open>Frames\<close>

type_synonym byte = "8 word"

definition MESSAGE_HEAD_MASK_BEGIN :: nat where "MESSAGE_HEAD_MASK_BEGIN = 4"
definition MESSAGE_HEAD_BASIC_BEGIN :: nat where "MESSAGE_HEAD_BASIC_BEGIN = MESSAGE_HEAD_MASK_BEGIN + 2"
definition MESSAGE_HEAD_LEN :: nat where "MESSAGE_HEAD_LEN = 4 + 2 + 4"
definition MESSAGE_COMPRESS_LEN :: nat where "MESSAGE_COMPRESS_LEN = 512"
definition MAX_MESSAGE_LEN :: nat where "MAX_MESSAGE_LEN = 65000"
definition QUEUE_MESSAGE_LIMIT_SIZE :: nat where "QUEUE_MESSAGE_LIMIT_SIZE = MAX_MESSAGE_LEN * 30"

definition BASE64_MASK_TYPE :: "16 word" where "BASE64_MASK_TYPE = push_bit 2 1"
definition COMPRESS_MASK_TYPE :: "16 word" where "COMPRESS_MASK_TYPE = push_bit 15 1"

lemmas wire_consts = MESSAGE_HEAD_MASK_BEGIN_def MESSAGE_HEAD_BASIC_BEGIN_def MESSAGE_HEAD_LEN_def
  MESSAGE_COMPRESS_LEN_def MAX_MESSAGE_LEN_def QUEUE_MESSAGE_LIMIT_SIZE_def

text \<open>Integers are stored in memory with the low byte first.\<close>

definition store32 :: "32 word \<Rightarrow> byte list" where
  "store32 w = [ucast w, ucast (drop_bit 8 w), ucast (drop_bit 16 w), ucast (drop_bit 24 w)]"

definition load32 :: "byte list \<Rightarrow> 32 word" where
  "load32 bs = ucast (bs ! 0) OR push_bit 8 (ucast (bs ! 1)) OR push_bit 16 (ucast (bs ! 2)) OR push_bit 24 (ucast (bs ! 3))"

definition store16 :: "16 word \<Rightarrow> byte list" where
  "store16 w = [ucast w, ucast (drop_bit 8 w)]"

definition load16 :: "byte list \<Rightarrow> 16 word" where
  "load16 bs = ucast (bs ! 0) OR push_bit 8 (ucast (bs ! 1))"

record message_t =
  m_data :: "byte list"
  m_base64 :: bool

text \<open>
  The compression of \<^verbatim>\<open>compress_strategy\<close> is external (every server passes \<^verbatim>\<open>NULL\<close>, here \<open>None\<close>): its two
  functions take the capacity of the destination and the source, and may fail.
\<close>

type_synonym compress_strategy =
  "((nat \<Rightarrow> byte list \<Rightarrow> byte list option) \<times> (nat \<Rightarrow> byte list \<Rightarrow> byte list option)) option"

text \<open>The head is filled in for more than one byte of data only; otherwise it stays zero.\<close>

definition makeMessage :: "byte list \<Rightarrow> bool \<Rightarrow> bool \<Rightarrow> message_t" where
  "makeMessage data compressed base64 =
     \<lparr>m_data =
        (if 1 < length data
         then store32 (word_of_nat (length data + MESSAGE_HEAD_LEN)) @
              store16 ((if compressed then COMPRESS_MASK_TYPE else 0) OR (if base64 then BASE64_MASK_TYPE else 0)) @
              store32 (sslCrc32 (Some data))
         else replicate MESSAGE_HEAD_LEN 0) @ data,
      m_base64 = base64\<rparr>"

definition compress :: "compress_strategy \<Rightarrow> byte list \<Rightarrow> bool \<Rightarrow> message_t" where
  "compress cs data base64 =
     (case cs of
        Some (pack, unpack) \<Rightarrow>
          if MESSAGE_COMPRESS_LEN < length data
          then (case pack MAX_MESSAGE_LEN data of
                  Some c \<Rightarrow> if length c < length data then makeMessage c True base64 else makeMessage data False base64
                | None \<Rightarrow> makeMessage data False base64)
          else makeMessage data False base64
      | None \<Rightarrow> makeMessage data False base64)"

text \<open>
  Opening a frame: \<open>data\<close> is the buffer from the frame on.  The caller has tested that the length in the
  head is at least that of the head and that the frame is complete.
\<close>

definition uncompress :: "compress_strategy \<Rightarrow> byte list \<Rightarrow> message_t option" where
  "uncompress cs data =
     (let datalen = unat (load32 data);
          mask = load16 (drop MESSAGE_HEAD_MASK_BEGIN data);
          checksum = load32 (drop MESSAGE_HEAD_BASIC_BEGIN data);
          body = take (datalen - MESSAGE_HEAD_LEN) (drop MESSAGE_HEAD_LEN data);
          base64 = (mask AND BASE64_MASK_TYPE \<noteq> 0)
      in if datalen \<le> MESSAGE_HEAD_MASK_BEGIN then None
         else if \<not> sslChecksum (Some body) checksum then None
         else case cs of
           Some (pack, unpack) \<Rightarrow>
             if mask AND COMPRESS_MASK_TYPE \<noteq> 0
             then (case unpack MAX_MESSAGE_LEN body of Some d \<Rightarrow> Some \<lparr>m_data = d, m_base64 = base64\<rparr> | None \<Rightarrow> None)
             else Some \<lparr>m_data = body, m_base64 = base64\<rparr>
         | None \<Rightarrow> Some \<lparr>m_data = body, m_base64 = base64\<rparr>)"

section \<open>The session\<close>

datatype ban_reason_t = BAN_REASON_WRONG_CHECK_SUM | BAN_REASON_TOO_MANY_AUTH_FAIL | BAN_REASON_UNCOMPRESS_FAIL
  | BAN_REASON_HACK_PACKET | BAN_REASON_TOO_MANY_PACKET | BAN_REASON_TOO_MANY_IDLE_CONNECTION | BAN_REASON_SHIFTING_GEAR

text \<open>
  The state of a session.  \<open>recv\<close> is the used part of \<^verbatim>\<open>m_recv_buffer\<close>, of \<^verbatim>\<open>m_recive_buffer_pos\<close> bytes;
  \<open>father\<close> tells whether there is a server (a client connection has none) and \<open>limit_mode\<close> its mode.
\<close>

record tcp_session =
  isvalid :: bool
  isconnected :: bool
  father :: bool
  limit_mode :: bool
  iscompress :: bool
  recv :: "byte list"
  queue_send :: "message_t list"
  is_sending :: bool
  not_sent_size :: int

datatype net_effect =
    Push message_t
  | Read_some
  | Async_write "byte list"
  | Post_write
  | Post_close
  | Push_task "byte list" bool
  | Add_ban nat ban_reason_t
  | Cb_on_accept
  | Cb_on_close

type_synonym net_handled = "tcp_session \<times> net_effect list"

definition tcp_reset :: "tcp_session \<Rightarrow> tcp_session" where
  "tcp_reset s = s\<lparr>recv := [], isconnected := False, father := False, isvalid := False, is_sending := False,
                   not_sent_size := 0, queue_send := []\<rparr>"

definition handle_accept :: "bool \<Rightarrow> tcp_session \<Rightarrow> net_handled" where
  "handle_accept limit s =
     (s\<lparr>isvalid := True, recv := [], isconnected := True, father := True, limit_mode := limit\<rparr>, [Read_some, Cb_on_accept])"

definition handle_close :: "tcp_session \<Rightarrow> tcp_session" where
  "handle_close s = s\<lparr>isconnected := False\<rparr>"

definition on_close_session :: "tcp_session \<Rightarrow> net_handled" where
  "on_close_session s = (s\<lparr>queue_send := [], isconnected := False\<rparr>, [Cb_on_close])"

definition ban_if_server :: "nat \<Rightarrow> ban_reason_t \<Rightarrow> tcp_session \<Rightarrow> net_effect list" where
  "ban_if_server sec r s = (if father s then [Add_ban sec r] else [])"

definition close_and_ban :: "tcp_session \<Rightarrow> net_effect list" where
  "close_and_ban s = ban_if_server 5 BAN_REASON_HACK_PACKET s @ [Post_close]"

subsection \<open>Receiving\<close>

datatype rx_end = Rx_wait | Rx_hack | Rx_wrong

text \<open>
  The loop over the complete frames of the buffer: the messages it delivers, the bytes it leaves and why it
  ends.
\<close>

function frames :: "compress_strategy \<Rightarrow> byte list \<Rightarrow> message_t list \<times> byte list \<times> rx_end" where
  "frames cs buf =
     (if length buf < MESSAGE_HEAD_LEN then ([], buf, Rx_wait)
      else let len = unat (load32 buf)
           in if len < MESSAGE_HEAD_LEN \<or> MAX_MESSAGE_LEN < len then ([], buf, Rx_hack)
              else if length buf < len then ([], buf, Rx_wait)
              else case uncompress cs buf of
                     None \<Rightarrow> ([], buf, Rx_wrong)
                   | Some m \<Rightarrow> (let (ms, rest, e) = frames cs (drop len buf) in (m # ms, rest, e)))"
  by pat_completeness auto
termination by (relation "measure (\<lambda>(_, buf). length buf)") (auto simp: MESSAGE_HEAD_LEN_def)

declare frames.simps [simp del]

text \<open>
  A read has completed with \<open>chunk\<close>, or failed.  \<open>None\<close> is the overrun of the receive buffer, which has room
  for two messages of maximal length.
\<close>

definition handle_read_some :: "compress_strategy \<Rightarrow> bool \<Rightarrow> byte list \<Rightarrow> tcp_session \<Rightarrow> net_handled option" where
  "handle_read_some cs error chunk s =
     (if \<not> isvalid s then Some (s, [])
      else if error then Some (on_close_session s)
      else if 2 * MAX_MESSAGE_LEN < length (recv s) + length chunk then None
      else let buf = recv s @ chunk; (ms, rest, e) = frames cs buf; delivered = map Push ms
           in Some (case e of
                      Rx_wait \<Rightarrow> (s\<lparr>recv := rest\<rparr>, delivered @ [Read_some])
                    | Rx_hack \<Rightarrow> (s\<lparr>recv := buf\<rparr>, delivered @ close_and_ban s)
                    | Rx_wrong \<Rightarrow>
                        let (s', fx) = on_close_session (s\<lparr>recv := buf\<rparr>)
                        in (s', delivered @ ban_if_server 120 BAN_REASON_WRONG_CHECK_SUM s @ [Post_close] @ fx)))"

subsection \<open>Sending\<close>

definition send_framed :: "message_t \<Rightarrow> tcp_session \<Rightarrow> net_handled" where
  "send_framed msg s =
     (if \<not> isconnected s then (s, [])
      else let s1 = s\<lparr>queue_send := queue_send s @ [msg], not_sent_size := not_sent_size s + int (length (m_data msg))\<rparr>
           in (s1, if father s \<and> limit_mode s \<and> int QUEUE_MESSAGE_LIMIT_SIZE \<le> not_sent_size s1 then [Post_close]
                   else [Post_write]))"

definition send_message :: "compress_strategy \<Rightarrow> byte list \<Rightarrow> bool \<Rightarrow> tcp_session \<Rightarrow> net_handled" where
  "send_message cs data base64 s =
     (if \<not> isvalid s \<or> \<not> isconnected s \<or> data = [] \<or> MAX_MESSAGE_LEN - 1 < length data then (s, [])
      else if father s
           then if iscompress s then (s, [Push_task data base64])
                else send_framed (makeMessage data False base64) s
           else send_framed (compress cs data base64) s)"

fun gather :: "nat \<Rightarrow> message_t list \<Rightarrow> byte list \<times> message_t list" where
  "gather len [] = ([], [])"
| "gather len (m # ms) =
     (if len + length (m_data m) \<le> MAX_MESSAGE_LEN
      then let (bs, rest) = gather (len + length (m_data m)) ms in (m_data m @ bs, rest)
      else ([], m # ms))"

definition write_message :: "int \<Rightarrow> tcp_session \<Rightarrow> net_handled" where
  "write_message sent_size s =
     (let s1 = s\<lparr>not_sent_size := not_sent_size s - sent_size\<rparr>
      in if \<not> isconnected s then (s1, [])
         else if is_sending s then (s1, [])
         else if queue_send s = [] then (s1, [])
         else let (bs, rest) = gather 0 (queue_send s)
              in (s1\<lparr>queue_send := rest, is_sending := True\<rparr>, [Async_write bs]))"

definition handle_write :: "bool \<Rightarrow> int \<Rightarrow> tcp_session \<Rightarrow> net_handled" where
  "handle_write error sz s =
     (if \<not> isvalid s then (s, [])
      else if error then on_close_session s
      else write_message sz (s\<lparr>is_sending := False\<rparr>))"

section \<open>Frames are recovered\<close>

lemma load32_append: "4 \<le> length bs \<Longrightarrow> load32 (bs @ cs) = load32 bs"
  by (auto simp: load32_def nth_append)

lemma load16_append: "2 \<le> length bs \<Longrightarrow> load16 (bs @ cs) = load16 bs"
  by (auto simp: load16_def nth_append)

lemma store_length [simp]: "length (store32 w) = 4" "length (store16 v) = 2"
  by (simp_all add: store32_def store16_def)

lemma bit_stored32:
  "bit (push_bit k (ucast (ucast (drop_bit k w) :: 8 word)) :: 32 word) n \<longleftrightarrow> k \<le> n \<and> n < k + 8 \<and> bit w n" for w :: "32 word"
  by (auto simp: bit_simps dest: bit_imp_le_length)

lemma bit_stored16:
  "bit (push_bit k (ucast (ucast (drop_bit k w) :: 8 word)) :: 16 word) n \<longleftrightarrow> k \<le> n \<and> n < k + 8 \<and> bit w n" for w :: "16 word"
  by (auto simp: bit_simps dest: bit_imp_le_length)

lemma load32_store32 [simp]: "load32 (store32 w @ bs) = w"
proof (rule bit_word_eqI)
  fix n assume "n < LENGTH(32)"
  then show "bit (load32 (store32 w @ bs)) n = bit w n"
    using bit_stored32 [of 0 w n] by (auto simp: load32_def store32_def bit_or_iff bit_stored32)
qed

lemma load16_store16 [simp]: "load16 (store16 w @ bs) = w"
proof (rule bit_word_eqI)
  fix n assume "n < LENGTH(16)"
  then show "bit (load16 (store16 w @ bs)) n = bit w n"
    using bit_stored16 [of 0 w n] by (auto simp: load16_def store16_def bit_or_iff bit_stored16)
qed

lemma mask_bits:
  "((if c then COMPRESS_MASK_TYPE else 0) OR (if b then BASE64_MASK_TYPE else 0)) AND BASE64_MASK_TYPE \<noteq> 0 \<longleftrightarrow> b"
  "((if c then COMPRESS_MASK_TYPE else 0) OR (if b then BASE64_MASK_TYPE else 0)) AND COMPRESS_MASK_TYPE \<noteq> 0 \<longleftrightarrow> c"
  by (simp_all add: COMPRESS_MASK_TYPE_def BASE64_MASK_TYPE_def)

text \<open>The frame of a message of admissible length, and what is behind it in the buffer.\<close>

definition fits :: "byte list \<Rightarrow> bool" where
  "fits p \<longleftrightarrow> 1 < length p \<and> length p + MESSAGE_HEAD_LEN \<le> MAX_MESSAGE_LEN"

definition message_of :: "byte list \<Rightarrow> bool \<Rightarrow> message_t" where
  "message_of p b = \<lparr>m_data = p, m_base64 = b\<rparr>"

lemma frame_length: "length (m_data (makeMessage p c b)) = length p + MESSAGE_HEAD_LEN"
  by (simp add: makeMessage_def MESSAGE_HEAD_LEN_def)

lemma frame_head: "fits p \<Longrightarrow> unat (load32 (m_data (makeMessage p c b) @ rest)) = length p + MESSAGE_HEAD_LEN"
  by (simp add: makeMessage_def fits_def wire_consts unat_of_nat del: of_nat_add of_nat_Suc)

lemma uncompress_frame:
  assumes "fits p"
  shows "uncompress cs (m_data (makeMessage p c b) @ rest) =
    (case cs of
       Some (pack, unpack) \<Rightarrow> if c then map_option (\<lambda>d. message_of d b) (unpack MAX_MESSAGE_LEN p) else Some (message_of p b)
     | None \<Rightarrow> Some (message_of p b))"
proof -
  let ?f = "m_data (makeMessage p c b) @ rest"
  let ?mask = "(if c then COMPRESS_MASK_TYPE else 0) OR (if b then BASE64_MASK_TYPE else 0)"
  have f: "?f = store32 (word_of_nat (length p + MESSAGE_HEAD_LEN)) @ store16 ?mask @ store32 (sslCrc32 (Some p)) @ p @ rest"
    using assms by (simp add: makeMessage_def fits_def)
  have d: "drop MESSAGE_HEAD_MASK_BEGIN ?f = store16 ?mask @ store32 (sslCrc32 (Some p)) @ p @ rest"
    "drop MESSAGE_HEAD_BASIC_BEGIN ?f = store32 (sslCrc32 (Some p)) @ p @ rest" "drop MESSAGE_HEAD_LEN ?f = p @ rest"
    unfolding f by (simp_all add: wire_consts)
  show ?thesis
    unfolding uncompress_def Let_def d frame_head [OF assms] load32_store32 load16_store16 mask_bits
    by (auto simp: sslChecksum_def message_of_def wire_consts split: option.splits)
qed


section \<open>The stream is independent of its pieces\<close>

lemma uncompress_append:
  assumes "MESSAGE_HEAD_LEN \<le> unat (load32 bs)" "unat (load32 bs) \<le> length bs"
  shows "uncompress cs (bs @ c) = uncompress cs bs"
proof -
  have "MESSAGE_HEAD_LEN \<le> length bs" using assms by simp
  then have "load32 (bs @ c) = load32 bs"
    "load16 (drop MESSAGE_HEAD_MASK_BEGIN (bs @ c)) = load16 (drop MESSAGE_HEAD_MASK_BEGIN bs)"
    "load32 (drop MESSAGE_HEAD_BASIC_BEGIN (bs @ c)) = load32 (drop MESSAGE_HEAD_BASIC_BEGIN bs)"
    using load32_append load16_append by (simp_all add: wire_consts)
  moreover have "take (unat (load32 bs) - MESSAGE_HEAD_LEN) (drop MESSAGE_HEAD_LEN (bs @ c)) =
      take (unat (load32 bs) - MESSAGE_HEAD_LEN) (drop MESSAGE_HEAD_LEN bs)"
    using assms by (simp add: wire_consts)
  ultimately show ?thesis unfolding uncompress_def Let_def by (simp only:)
qed

definition extend :: "message_t list \<times> byte list \<times> rx_end \<Rightarrow> compress_strategy \<Rightarrow> byte list \<Rightarrow> message_t list \<times> byte list \<times> rx_end" where
  "extend r cs c =
     (case r of (ms, rest, e) \<Rightarrow>
        if e = Rx_wait then let (ms', rest', e') = frames cs (rest @ c) in (ms @ ms', rest', e') else (ms, rest @ c, e))"

lemma frames_append: "frames cs (bs @ c) = extend (frames cs bs) cs c"
proof (induction cs bs rule: frames.induct)
  case (1 cs bs)
  let ?len = "unat (load32 bs)"
  show ?case
  proof (cases "length bs < MESSAGE_HEAD_LEN \<or> (MESSAGE_HEAD_LEN \<le> ?len \<and> ?len \<le> MAX_MESSAGE_LEN \<and> length bs < ?len)")
    case True
    then have "frames cs bs = ([], bs, Rx_wait)" by (auto simp: frames.simps [of cs bs] Let_def)
    then show ?thesis by (simp add: extend_def case_prod_beta)
  next
    case False
    then have long: "MESSAGE_HEAD_LEN \<le> length bs" by simp
    then have same: "load32 (bs @ c) = load32 bs" using load32_append by (simp add: wire_consts)
    show ?thesis
    proof (cases "?len < MESSAGE_HEAD_LEN \<or> MAX_MESSAGE_LEN < ?len")
      case True
      then show ?thesis using long same by (auto simp: frames.simps [of cs bs] frames.simps [of cs "bs @ c"] Let_def extend_def)
    next
      case ok: False
      then have len: "?len \<le> length bs" "MESSAGE_HEAD_LEN \<le> ?len" using False long by auto
      show ?thesis
      proof (cases "uncompress cs bs")
        case None
        then show ?thesis using ok len long same uncompress_append [OF len(2,1)]
          by (simp add: frames.simps [of cs bs] frames.simps [of cs "bs @ c"] Let_def extend_def)
      next
        case (Some m)
        have "frames cs (drop ?len bs @ c) = extend (frames cs (drop ?len bs)) cs c"
          using 1 Some ok len long by auto
        then show ?thesis using Some ok len long same uncompress_append [OF len(2,1)]
          by (simp add: frames.simps [of cs bs] frames.simps [of cs "bs @ c"] Let_def extend_def case_prod_beta)
      qed
    qed
  qed
qed

lemma frames_wait_bound: "frames cs bs = (ms, rest, Rx_wait) \<Longrightarrow> length rest < MAX_MESSAGE_LEN"
proof (induction cs bs arbitrary: ms rule: frames.induct)
  case (1 cs bs)
  then show ?case
    by (subst (asm) (2) frames.simps) (auto simp: Let_def wire_consts split: if_splits option.splits prod.splits)
qed


text \<open>
  The pieces of the stream as the socket returns them, each of at most the size of the read buffer; the
  session reads again only when its handler asked for it.
\<close>

fun receive :: "compress_strategy \<Rightarrow> byte list list \<Rightarrow> tcp_session \<Rightarrow> net_handled option" where
  "receive cs [] s = Some (s, [])"
| "receive cs (c # chunks) s =
     (case handle_read_some cs False c s of
        None \<Rightarrow> None
      | Some (s', fx) \<Rightarrow>
          if Read_some \<in> set fx then map_option (\<lambda>(s'', fx'). (s'', fx @ fx')) (receive cs chunks s') else Some (s', fx))"

definition pushed :: "net_effect list \<Rightarrow> message_t list" where
  "pushed fx = concat (map (\<lambda>e. case e of Push m \<Rightarrow> [m] | _ \<Rightarrow> []) fx)"

lemma pushed_simps [simp]:
  "pushed [] = []" "pushed (e # fx) = (case e of Push m \<Rightarrow> [m] | _ \<Rightarrow> []) @ pushed fx"
  "pushed (fx @ gx) = pushed fx @ pushed gx" "pushed (map Push ms) = ms"
  by (induction ms) (auto simp: pushed_def)

text \<open>What the session has delivered, and the state it is left in, once the stream \<open>bs\<close> has been read.\<close>

definition rx_spec :: "message_t list \<times> byte list \<times> rx_end \<Rightarrow> tcp_session \<Rightarrow> net_effect list \<Rightarrow> bool" where
  "rx_spec r s fx \<longleftrightarrow>
     (case r of (ms, rest, e) \<Rightarrow> pushed fx = ms \<and> (if e = Rx_wait then isvalid s \<and> recv s = rest else Post_close \<in> set fx))"

lemma read_spec:
  assumes "isvalid s" "length (recv s) < MAX_MESSAGE_LEN" "length c \<le> MAX_MESSAGE_LEN"
  shows "\<exists>s' fx. handle_read_some cs False c s = Some (s', fx) \<and> rx_spec (frames cs (recv s @ c)) s' fx \<and>
    (Read_some \<in> set fx \<longleftrightarrow> snd (snd (frames cs (recv s @ c))) = Rx_wait)"
  using assms
  by (cases "frames cs (recv s @ c)"; cases "snd (snd (frames cs (recv s @ c)))")
     (auto simp: handle_read_some_def rx_spec_def Let_def on_close_session_def close_and_ban_def ban_if_server_def)

lemma frames_rest: "frames cs bs = (ms, rest, Rx_wait) \<Longrightarrow> frames cs rest = ([], rest, Rx_wait)"
proof (induction cs bs arbitrary: ms rule: frames.induct)
  case (1 cs bs)
  show ?case
  proof (cases "frames cs bs = ([], bs, Rx_wait)")
    case False
    then show ?thesis using 1
      by (subst (asm) (3) frames.simps, subst (asm) (2) frames.simps) (auto simp: Let_def split: if_splits option.splits prod.splits)
  qed (use 1 in auto)
qed

lemma receive_spec:
  assumes "isvalid s" "frames cs (recv s) = ([], recv s, Rx_wait)" "\<forall>c \<in> set chunks. length c \<le> MAX_MESSAGE_LEN"
  shows "\<exists>s' fx. receive cs chunks s = Some (s', fx) \<and> rx_spec (frames cs (recv s @ concat chunks)) s' fx"
  using assms
proof (induction chunks arbitrary: s)
  case Nil
  then show ?case by (simp add: rx_spec_def)
next
  case (Cons c chunks)
  obtain ms rest e where f: "frames cs (recv s @ c) = (ms, rest, e)" by (metis prod_cases3)
  have "length (recv s) < MAX_MESSAGE_LEN" using frames_wait_bound Cons.prems(2) by blast
  then obtain s1 fx where r: "handle_read_some cs False c s = Some (s1, fx)" "rx_spec (ms, rest, e) s1 fx"
    "Read_some \<in> set fx \<longleftrightarrow> e = Rx_wait"
    using read_spec [of s c cs] Cons.prems f by auto
  have whole: "frames cs (recv s @ concat (c # chunks)) = extend (ms, rest, e) cs (concat chunks)"
    using frames_append [of cs "recv s @ c" "concat chunks"] f by simp
  show ?case
  proof (cases "e = Rx_wait")
    case True
    then have s1: "isvalid s1" "recv s1 = rest" "pushed fx = ms" using r(2) by (simp_all add: rx_spec_def)
    then obtain s2 gx where "receive cs chunks s1 = Some (s2, gx)" "rx_spec (frames cs (rest @ concat chunks)) s2 gx"
      using Cons.IH [of s1] frames_rest f True Cons.prems(3) by auto
    then show ?thesis using r whole True s1(3) by (auto simp: rx_spec_def extend_def Let_def split: prod.splits if_splits)
  next
    case False
    then show ?thesis using r whole by (auto simp: rx_spec_def extend_def)
  qed
qed

text \<open>
  C12.  However the byte stream is cut into pieces, a session that starts with an empty receive buffer never
  writes behind its buffer and delivers exactly the messages that the complete frames of the whole stream
  contain, in their order, up to the first frame with an impossible length or a wrong checksum, at which the
  connection is closed; without such a frame the bytes left are those of the incomplete frame at the end.
\<close>

theorem stream_refinement:
  assumes "isvalid s" "recv s = []" "\<forall>c \<in> set chunks. length c \<le> MAX_MESSAGE_LEN"
  shows "\<exists>s' fx. receive cs chunks s = Some (s', fx) \<and> rx_spec (frames cs (concat chunks)) s' fx"
proof -
  have "frames cs [] = ([], [], Rx_wait)" by (simp add: frames.simps MESSAGE_HEAD_LEN_def)
  then show ?thesis using receive_spec [of s cs chunks] assms by simp
qed

definition sample_tcp :: tcp_session where
  "sample_tcp = \<lparr>isvalid = True, isconnected = True, father = True, limit_mode = False, iscompress = False,
                 recv = [], queue_send = [], is_sending = False, not_sent_size = 0\<rparr>"

theorem stream_refinement_witness:
  "\<exists>s' fx. receive None [[12, 0, 0], [0, 0]] sample_tcp = Some (s', fx) \<and>
     rx_spec (frames None (concat [[12, 0, 0], [0, 0]])) s' fx"
  by (rule stream_refinement) (simp_all add: sample_tcp_def MAX_MESSAGE_LEN_def)

text \<open>A stream of frames.\<close>

definition strategy_ok :: "compress_strategy \<Rightarrow> bool" where
  "strategy_ok cs \<longleftrightarrow>
     (case cs of
        None \<Rightarrow> True
      | Some (pack, unpack) \<Rightarrow>
          \<forall>d c. pack MAX_MESSAGE_LEN d = Some c \<longrightarrow> 1 < length c \<and> unpack MAX_MESSAGE_LEN c = Some d)"

text \<open>A frame that the receiver opens as the message \<open>p\<close>.\<close>

definition opens :: "compress_strategy \<Rightarrow> bool \<Rightarrow> message_t \<Rightarrow> byte list \<Rightarrow> bool" where
  "opens cs b f p \<longleftrightarrow>
     (\<exists>q c. f = makeMessage q c b \<and> fits q \<and> (\<forall>rest. uncompress cs (m_data f @ rest) = Some (message_of p b)))"

lemma opens_plain: "fits p \<Longrightarrow> opens cs b (makeMessage p False b) p"
  using uncompress_frame [of p cs False b] by (auto simp: opens_def split: option.splits)

lemma opens_compressed:
  assumes "strategy_ok cs" "fits p"
  shows "opens cs b (compress cs p b) p"
proof (cases "compress cs p b = makeMessage p False b")
  case True
  then show ?thesis using opens_plain [OF assms(2)] by simp
next
  case False
  then obtain pack unpack q where q: "cs = Some (pack, unpack)" "pack MAX_MESSAGE_LEN p = Some q" "length q < length p"
    "compress cs p b = makeMessage q True b"
    by (auto simp: compress_def split: option.splits prod.splits if_splits)
  then have "fits q" "unpack MAX_MESSAGE_LEN q = Some p" using assms by (auto simp: strategy_ok_def fits_def)
  then show ?thesis using q uncompress_frame [of q cs True b] by (auto simp: opens_def)
qed

lemma frames_step:
  assumes "unat (load32 buf) = n" "MESSAGE_HEAD_LEN \<le> n" "n \<le> MAX_MESSAGE_LEN" "n \<le> length buf" "uncompress cs buf = Some m"
  shows "frames cs buf = (let (ms, rest, e) = frames cs (drop n buf) in (m # ms, rest, e))"
  using assms by (subst frames.simps) auto

lemma frames_of_frames:
  "list_all2 (opens cs b) fs ps \<Longrightarrow>
   frames cs (concat (map m_data fs)) = (map (\<lambda>p. message_of p b) ps, [], Rx_wait)"
proof (induction rule: list_all2_induct)
  case Nil
  then show ?case by (simp add: frames.simps MESSAGE_HEAD_LEN_def)
next
  case (Cons f fs p ps)
  let ?rest = "concat (map m_data fs)"
  obtain q c where q: "f = makeMessage q c b" "fits q" "uncompress cs (m_data f @ ?rest) = Some (message_of p b)"
    using Cons.hyps(1) by (auto simp: opens_def)
  moreover have "unat (load32 (m_data f @ ?rest)) = length q + MESSAGE_HEAD_LEN" "length (m_data f) = length q + MESSAGE_HEAD_LEN"
    using frame_head [OF q(2)] frame_length q(1) by simp_all
  ultimately have "frames cs (m_data f @ ?rest) = (let (ms, rest, e) = frames cs ?rest in (message_of p b # ms, rest, e))"
    using frames_step [OF _ _ _ _ q(3)] by (simp add: fits_def)
  then show ?case using Cons.IH by simp
qed

lemma receive_frames:
  assumes "list_all2 (opens cs b) fs ps" "isvalid s" "recv s = []"
    "concat chunks = concat (map m_data fs)" "\<forall>c \<in> set chunks. length c \<le> MAX_MESSAGE_LEN"
  shows "\<exists>s' fx. receive cs chunks s = Some (s', fx) \<and> pushed fx = map (\<lambda>p. message_of p b) ps \<and>
    isvalid s' \<and> recv s' = []"
proof -
  have "frames cs [] = ([], [], Rx_wait)" by (simp add: frames.simps MESSAGE_HEAD_LEN_def)
  then show ?thesis
    using receive_spec [of s cs chunks] frames_of_frames [OF assms(1)] assms(2-5) by (auto simp: rx_spec_def)
qed

text \<open>A strategy that compresses runs of one byte value.\<close>

definition pack_run :: "nat \<Rightarrow> byte list \<Rightarrow> byte list option" where
  "pack_run n d =
     (if d \<noteq> [] \<and> length d < 4294967296 \<and> d = replicate (length d) (hd d) then Some (hd d # store32 (word_of_nat (length d))) else None)"

definition unpack_run :: "nat \<Rightarrow> byte list \<Rightarrow> byte list option" where
  "unpack_run n c = (case c of x # bs \<Rightarrow> Some (replicate (unat (load32 bs)) x) | [] \<Rightarrow> None)"

lemma load32_store32_end [simp]: "load32 (store32 w) = w"
  using load32_store32 [of w "[]"] by simp

lemma run_strategy_ok: "strategy_ok (Some (pack_run, unpack_run))"
  by (auto simp: strategy_ok_def pack_run_def unpack_run_def unat_of_nat split: if_splits)

section \<open>The send queue\<close>

definition queue_bytes :: "tcp_session \<Rightarrow> byte list" where
  "queue_bytes s = concat (map m_data (queue_send s))"

definition sent_bytes :: "net_effect list \<Rightarrow> byte list" where
  "sent_bytes fx = concat (map (\<lambda>e. case e of Async_write bs \<Rightarrow> bs | _ \<Rightarrow> []) fx)"

lemma sent_bytes_simps [simp]:
  "sent_bytes [] = []" "sent_bytes (e # fx) = (case e of Async_write bs \<Rightarrow> bs | _ \<Rightarrow> []) @ sent_bytes fx"
  "sent_bytes (fx @ gx) = sent_bytes fx @ sent_bytes gx"
  by (auto simp: sent_bytes_def)

lemma gather_bytes: "gather len q = (bs, rest) \<Longrightarrow> concat (map m_data q) = bs @ concat (map m_data rest)"
  by (induction len q arbitrary: bs rest rule: gather.induct) (auto simp: Let_def split: if_splits prod.splits)

lemma gather_progress:
  assumes "gather 0 q = (bs, rest)" "q \<noteq> []" "\<forall>m \<in> set q. length (m_data m) \<le> MAX_MESSAGE_LEN"
  shows "length rest < length q \<and> set rest \<subseteq> set q"
proof -
  have all: "gather len q = (bs, rest) \<Longrightarrow> length rest \<le> length q \<and> set rest \<subseteq> set q" for len q bs rest
    by (induction len q arbitrary: bs rest rule: gather.induct) (auto simp: Let_def split: if_splits prod.splits)
  obtain m ms where q: "q = m # ms" using assms(2) by (cases q) auto
  then obtain cs where "gather (length (m_data m)) ms = (cs, rest)" using assms(1,3) by (auto simp: Let_def split: prod.splits)
  then show ?thesis using all [of _ ms cs rest] q by fastforce
qed

text \<open>
  What happens to a connected session: the server sends, the posted call of \<^verbatim>\<open>_write_message\<close> runs, or the
  socket reports that a write is complete.
\<close>

datatype tx_event = Tx_send "byte list" bool | Tx_posted | Tx_written int

fun tx_step :: "compress_strategy \<Rightarrow> tx_event \<Rightarrow> tcp_session \<Rightarrow> net_handled" where
  "tx_step cs (Tx_send p b) s = send_message cs p b s"
| "tx_step cs Tx_posted s = write_message 0 s"
| "tx_step cs (Tx_written sz) s = handle_write False sz s"

fun tx_run :: "compress_strategy \<Rightarrow> tx_event list \<Rightarrow> tcp_session \<Rightarrow> net_handled" where
  "tx_run cs [] s = (s, [])"
| "tx_run cs (e # es) s = (let (s1, fx) = tx_step cs e s; (s2, gx) = tx_run cs es s1 in (s2, fx @ gx))"

definition frame_sent :: "compress_strategy \<Rightarrow> bool \<Rightarrow> tx_event \<Rightarrow> byte list" where
  "frame_sent cs f e =
     (case e of
        Tx_send p b \<Rightarrow>
          if p = [] \<or> MAX_MESSAGE_LEN - 1 < length p then []
          else m_data (if f then makeMessage p False b else compress cs p b)
      | _ \<Rightarrow> [])"

definition tx_ready :: "tcp_session \<Rightarrow> bool" where
  "tx_ready s \<longleftrightarrow> isvalid s \<and> isconnected s \<and> \<not> iscompress s"

lemma write_message_bytes:
  "write_message sz s = (s', fx) \<Longrightarrow> sent_bytes fx @ queue_bytes s' = queue_bytes s \<and> (tx_ready s \<longrightarrow> tx_ready s' \<and> father s' = father s)"
  by (auto simp: write_message_def Let_def queue_bytes_def tx_ready_def gather_bytes split: if_splits prod.splits)

lemma tx_step_bytes:
  assumes "tx_ready s" "tx_step cs e s = (s', fx)"
  shows "sent_bytes fx @ queue_bytes s' = queue_bytes s @ frame_sent cs (father s) e \<and> tx_ready s' \<and> father s' = father s"
proof (cases e)
  case (Tx_send p b)
  then show ?thesis
    using assms by (auto simp: send_message_def send_framed_def frame_sent_def Let_def queue_bytes_def tx_ready_def split: if_splits)
next
  case Tx_posted
  then show ?thesis using assms write_message_bytes [of 0 s s' fx] by (simp add: frame_sent_def)
next
  case (Tx_written sz)
  then show ?thesis
    using assms write_message_bytes [of sz "s\<lparr>is_sending := False\<rparr>" s' fx]
    by (simp add: frame_sent_def handle_write_def tx_ready_def queue_bytes_def)
qed

text \<open>
  C31.  Whatever the order of sends, posted calls and completed writes, the bytes handed to the socket followed
  by those still queued are the frames of the accepted messages in the order they were sent: nothing is
  lost, repeated or reordered.
\<close>

theorem send_fifo:
  assumes "tx_ready s"
  shows "case tx_run cs es s of (s', fx) \<Rightarrow>
    sent_bytes fx @ queue_bytes s' = queue_bytes s @ concat (map (frame_sent cs (father s)) es)"
  using assms
proof (induction es arbitrary: s)
  case (Cons e es)
  obtain s1 fx where step: "tx_step cs e s = (s1, fx)" by fastforce
  then show ?case using tx_step_bytes [OF Cons.prems step] Cons.IH [of s1] by (auto split: prod.splits)
qed simp

theorem send_fifo_witness:
  "case tx_run None [Tx_send [1, 2] True, Tx_send [3, 4] True, Tx_posted, Tx_send [5, 6] False] sample_tcp of (s', fx) \<Rightarrow>
    sent_bytes fx @ queue_bytes s' = queue_bytes sample_tcp @ concat (map (frame_sent None (father sample_tcp))
      [Tx_send [1, 2] True, Tx_send [3, 4] True, Tx_posted, Tx_send [5, 6] False])"
  by (rule send_fifo) (simp add: tx_ready_def sample_tcp_def)

text \<open>The completions of one write after the other, as long as the session starts a new one.\<close>

fun completions :: "nat \<Rightarrow> int \<Rightarrow> tcp_session \<Rightarrow> tcp_session \<times> byte list" where
  "completions 0 sz s = (s, [])"
| "completions (Suc n) sz s =
     (case handle_write False sz s of
        (s1, [Async_write bs]) \<Rightarrow> (let (s2, out) = completions n (int (length bs)) s1 in (s2, bs @ out))
      | (s1, _) \<Rightarrow> (s1, []))"

lemma handle_write_next:
  assumes "tx_ready s"
  shows "handle_write False sz s =
    (if queue_send s = [] then (s\<lparr>is_sending := False, not_sent_size := not_sent_size s - sz\<rparr>, [])
     else let (bs, rest) = gather 0 (queue_send s)
          in (s\<lparr>is_sending := True, not_sent_size := not_sent_size s - sz, queue_send := rest\<rparr>, [Async_write bs]))"
  using assms by (auto simp: handle_write_def write_message_def tx_ready_def Let_def split: prod.splits)

text \<open>
  When every queued frame is within the maximal length, the queue is sent completely: after at most one
  completion more than there are frames the queue is empty, its bytes were written in order, no write is
  under way and the count of unsent bytes, if it was right, is zero.
\<close>

lemma send_drains:
  assumes "tx_ready s" "\<forall>m \<in> set (queue_send s). length (m_data m) \<le> MAX_MESSAGE_LEN" "length (queue_send s) < n"
    "not_sent_size s = sz + int (length (queue_bytes s))"
  shows "case completions n sz s of (s', out) \<Rightarrow>
    queue_send s' = [] \<and> out = queue_bytes s \<and> \<not> is_sending s' \<and> not_sent_size s' = 0"
  using assms
proof (induction n arbitrary: sz s)
  case (Suc n)
  show ?case
  proof (cases "queue_send s = []")
    case True
    then show ?thesis using Suc.prems handle_write_next [of s sz] by (simp add: queue_bytes_def)
  next
    case False
    obtain bs rest where g: "gather 0 (queue_send s) = (bs, rest)" by fastforce
    define s1 where "s1 = s\<lparr>is_sending := True, not_sent_size := not_sent_size s - sz, queue_send := rest\<rparr>"
    have wr: "handle_write False sz s = (s1, [Async_write bs])"
      using handle_write_next [OF Suc.prems(1), of sz] False g by (simp add: s1_def)
    have bytes: "queue_bytes s = bs @ queue_bytes s1" using gather_bytes [OF g] by (simp add: queue_bytes_def s1_def)
    have "length rest < length (queue_send s)" "set rest \<subseteq> set (queue_send s)"
      using gather_progress [OF g False Suc.prems(2)] by auto
    then have "\<forall>m \<in> set (queue_send s1). length (m_data m) \<le> MAX_MESSAGE_LEN" "length (queue_send s1) < n" "tx_ready s1"
      using Suc.prems by (auto simp: s1_def tx_ready_def)
    moreover have "not_sent_size s1 = int (length bs) + int (length (queue_bytes s1))"
      using Suc.prems(4) arg_cong [OF bytes, of length] by (simp add: s1_def)
    ultimately show ?thesis using Suc.IH [of s1 "int (length bs)"] wr bytes by (auto split: prod.splits)
  qed
qed simp

text \<open>
  A message of 64991 to 64999 bytes is accepted by \<^verbatim>\<open>send_message\<close>, but its frame is longer than the buffer
  of a write: from then on every write of the session is empty, and the queue never moves again.
\<close>

lemma oversized_accepted:
  assumes "tx_ready s" "father s" "length p + MESSAGE_HEAD_LEN > MAX_MESSAGE_LEN" "length p < MAX_MESSAGE_LEN"
  shows "queue_send (fst (send_message cs p b s)) = queue_send s @ [makeMessage p False b] \<and>
    MAX_MESSAGE_LEN < length (m_data (makeMessage p False b))"
  using assms by (auto simp: send_message_def send_framed_def tx_ready_def frame_length wire_consts Let_def)

theorem oversized_frame_blocks:
  assumes "tx_ready s" "queue_send s = m # ms" "MAX_MESSAGE_LEN < length (m_data m)"
  shows "case completions n sz s of (s', out) \<Rightarrow> queue_send s' = m # ms \<and> out = []"
  using assms
proof (induction n arbitrary: sz s)
  case (Suc n)
  let ?s = "s\<lparr>is_sending := True, not_sent_size := not_sent_size s - sz, queue_send := m # ms\<rparr>"
  have "handle_write False sz s = (?s, [Async_write []])" using Suc.prems handle_write_next [of s sz] by simp
  then show ?case using Suc.IH [of ?s 0] Suc.prems by (auto simp: tx_ready_def split: prod.splits)
qed simp

end
