(* ===== verification/Base64.thy ===== *)
theory Base64
  imports Prelude "HOL-Library.Word"
begin

text \<open>
  The base 64 transport encoding of \<^verbatim>\<open>src/common/utilities.cpp\<close> (\<^verbatim>\<open>Base64Encode\<close>, \<^verbatim>\<open>LMoveBit\<close> and
  \<^verbatim>\<open>Base64Decode\<close>), through which the messages between client and gate server pass.  Characters are
  bytes, that is 8 bit words.
\<close>

unbundle bit_operations_syntax

section \<open>Encoding\<close>

definition base64digits :: "8 word list" where
  "base64digits = map of_char ''ABCDEFGHIJKLMNOPQRSTUVWXYZabcdefghijklmnopqrstuvwxyz0123456789+/''"

definition base64digit :: "8 word \<Rightarrow> 8 word" where
  "base64digit i = base64digits ! unat i"

definition pad_char :: "8 word" where
  "pad_char = of_char CHR ''=''"

fun Base64Encode :: "8 word list \<Rightarrow> 8 word list" where
  "Base64Encode (x # y # z # data) =
     base64digit (drop_bit 2 x) # base64digit ((push_bit 4 x AND 0x30) OR drop_bit 4 y) #
     base64digit ((push_bit 2 y AND 0x3c) OR drop_bit 6 z) # base64digit (z AND 0x3f) # Base64Encode data"
| "Base64Encode [x, y] =
     [base64digit (drop_bit 2 x), base64digit ((push_bit 4 x AND 0x30) OR drop_bit 4 y),
      base64digit (push_bit 2 y AND 0x3c), pad_char]"
| "Base64Encode [x] = [base64digit (drop_bit 2 x), base64digit (push_bit 4 x AND 0x30), pad_char, pad_char]"
| "Base64Encode [] = []"

section \<open>Decoding\<close>

definition LMoveBit :: "nat \<Rightarrow> nat \<Rightarrow> 8 word" where
  "LMoveBit base n = (if n = 0 then 1 else if n = 1 then 1 else word_of_nat (base * 2 ^ (n - 1)))"

definition base64_alphabet :: "8 word list" where
  "base64_alphabet = base64digits @ [pad_char]"

fun alphabet_index :: "8 word \<Rightarrow> 8 word list \<Rightarrow> nat \<Rightarrow> nat option" where
  "alphabet_index c [] j = None"
| "alphabet_index c (x # xs) j = (if c = x then Some j else alphabet_index c xs (j + 1))"

text \<open>
  The four codes of a group.  A character outside the alphabet leaves the element of \<^verbatim>\<open>temp1\<close> as it
  was: from the group before, or uninitialised.
\<close>

definition read_code :: "nat \<Rightarrow> 8 word \<Rightarrow> 8 word list \<Rightarrow> 8 word list" where
  "read_code i c temp1 =
     (case alphabet_index c base64_alphabet 0 of None \<Rightarrow> temp1 | Some j \<Rightarrow> temp1[i := word_of_nat j])"

text \<open>The output is the region that is cleared first, together with the number of bytes written.\<close>

record decoder =
  temp1 :: "8 word list"
  Buffer :: "8 word list"
  outlen :: nat

definition move_code :: "nat \<Rightarrow> nat \<Rightarrow> decoder \<Rightarrow> decoder" where
  "move_code base64b k d =
     (let i = 3; t = temp1 d
      in if t ! (i - (k - 1)) = 64 then d
         else let hi = t ! (i - (k - 1)) div LMoveBit 2 ((k - 1) * 2);
                  temp2 = (t ! (i - k) AND (LMoveBit 2 (k * 2) - 1)) * LMoveBit 2 (8 - 2 * k);
                  x = hi + temp2
              in d\<lparr>temp1 := t[i - (k - 1) := x], Buffer := (Buffer d)[base64b * 3 + (3 - k) := x], outlen := outlen d + 1\<rparr>)"

definition decode_group :: "nat \<Rightarrow> 8 word list \<Rightarrow> decoder \<Rightarrow> decoder" where
  "decode_group base64b buf d =
     fold (move_code base64b) [1..<4]
       (d\<lparr>temp1 := fold (\<lambda>i t. read_code i (buf ! i) t) [0..<4] (temp1 d)\<rparr>)"

fun decode_groups :: "nat \<Rightarrow> 8 word list \<Rightarrow> decoder \<Rightarrow> decoder" where
  "decode_groups base64b (c0 # c1 # c2 # c3 # cs) d =
     decode_groups (base64b + 1) cs (decode_group base64b [c0, c1, c2, c3] d)"
| "decode_groups base64b _ d = d"

text \<open>\<open>t\<close> is the content of the uninitialised array \<^verbatim>\<open>temp1\<close>.\<close>

definition Base64Decode :: "8 word list \<Rightarrow> 8 word list \<Rightarrow> 8 word list \<times> nat" where
  "Base64Decode t base64code =
     (let d = decode_groups 0 base64code
                \<lparr>temp1 = t, Buffer = replicate (length base64code * 3 div 4) 0, outlen = 0\<rparr>
      in (Buffer d, outlen d))"

section \<open>Decoding inverts encoding\<close>

lemma base64_alphabet_distinct: "distinct base64_alphabet"
  by (simp add: base64_alphabet_def base64digits_def pad_char_def)

lemma alphabet_index_nth:
  "distinct xs \<Longrightarrow> i < length xs \<Longrightarrow> alphabet_index (xs ! i) xs k = Some (k + i)"
proof (induction xs arbitrary: i k)
  case (Cons x xs)
  then show ?case by (cases i) auto
qed simp

lemma base64digits_length: "length base64digits = 64"
  by (simp add: base64digits_def)

lemma read_digit:
  assumes "unat x < 64"
  shows "read_code i (base64digit x) t = t[i := x]"
proof -
  have "base64digit x = base64_alphabet ! unat x"
    using assms by (simp add: base64digit_def base64_alphabet_def nth_append base64digits_length)
  then show ?thesis
    using alphabet_index_nth [OF base64_alphabet_distinct, of "unat x" 0] assms
    by (simp add: read_code_def base64_alphabet_def base64digits_length)
qed

lemma read_pad: "read_code i pad_char t = t[i := 64]"
  using alphabet_index_nth [OF base64_alphabet_distinct, of 64 0]
  by (simp add: read_code_def base64_alphabet_def base64digits_length nth_append)

text \<open>The six bit pieces of three bytes, and the bytes they are put together to.\<close>

lemma six_bits: "(\<And>i. 6 \<le> i \<Longrightarrow> \<not> bit x i) \<Longrightarrow> unat x < 64" for x :: "8 word"
proof -
  assume "\<And>i. 6 \<le> i \<Longrightarrow> \<not> bit x i"
  then have "x = take_bit 6 x" by (intro bit_word_eqI) (auto simp: bit_simps, meson linorder_not_less)
  then have "unat x = take_bit 6 (unat x)" by (metis unsigned_take_bit_eq)
  then show ?thesis using take_bit_nat_less_exp [of 6 "unat x"] by simp
qed

lemma masks:
  "(0x30 :: 8 word) = push_bit 4 (mask 2)" "(0x3c :: 8 word) = push_bit 2 (mask 4)" "(0x3f :: 8 word) = mask 6"
  "(3 :: 8 word) = mask 2" "(15 :: 8 word) = mask 4"
  by (simp_all add: mask_eq_exp_minus_1 push_bit_eq_mult)

lemma six_bit_pieces:
  "unat (drop_bit 2 x :: 8 word) < 64" "unat ((push_bit 4 x AND 0x30) OR drop_bit 4 y :: 8 word) < 64"
  "unat ((push_bit 2 y AND 0x3c) OR drop_bit 6 z :: 8 word) < 64" "unat (z AND 0x3f :: 8 word) < 64"
  "unat (push_bit 4 x AND 0x30 :: 8 word) < 64" "unat (push_bit 2 y AND 0x3c :: 8 word) < 64"
  by (rule six_bits; auto simp: bit_simps masks dest: bit_imp_le_length)+

lemma byte_eqI:
  fixes x y :: "8 word"
  assumes "bit x 0 = bit y 0" "bit x 1 = bit y 1" "bit x 2 = bit y 2" "bit x 3 = bit y 3"
    "bit x 4 = bit y 4" "bit x 5 = bit y 5" "bit x 6 = bit y 6" "bit x 7 = bit y 7"
  shows "x = y"
proof (rule bit_word_eqI)
  fix n assume "n < LENGTH(8)"
  then have "n \<in> {0, 1, 2, 3, 4, 5, 6, 7}" by auto
  then show "bit x n = bit y n" using assms by auto
qed

lemma join_bits: "x AND y = 0 \<Longrightarrow> x OR y = w \<Longrightarrow> x + y = w" for x y :: "8 word"
  using disjunctive_add_eq_or by metis

lemma word_shifts:
  "x div 4 = drop_bit 2 x" "x div 16 = drop_bit 4 x" "x * 4 = push_bit 2 x" "x * 16 = push_bit 4 x" "x * 64 = push_bit 6 x"
  for x :: "8 word"
  by (simp_all add: drop_bit_eq_div push_bit_eq_mult)

lemma bytes_joined:
  "(z AND 0x3f) + (((push_bit 2 y AND 0x3c) OR drop_bit 6 z) AND 3) * 64 = z"
  "((push_bit 2 y AND 0x3c) OR drop_bit 6 z) div 4 + (((push_bit 4 x AND 0x30) OR drop_bit 4 y) AND 15) * 16 = y"
  "(push_bit 2 y AND 0x3c) div 4 + (((push_bit 4 x AND 0x30) OR drop_bit 4 y) AND 15) * 16 = y"
  "((push_bit 4 x AND 0x30) OR drop_bit 4 y) div 16 + (drop_bit 2 x AND 63) * 4 = x"
  "(push_bit 4 x AND 0x30) div 16 + (drop_bit 2 x AND 63) * 4 = x"
  for x y z :: "8 word"
  unfolding word_shifts
  by (rule join_bits; rule byte_eqI; simp add: bit_simps)+

lemma LMoveBit_values:
  "LMoveBit 2 0 = 1" "LMoveBit 2 2 = 4" "LMoveBit 2 4 = 16" "LMoveBit 2 6 = 64"
  by (simp_all add: LMoveBit_def)

lemma three_moves: "fold f [1..<4] d = f 3 (f 2 (f 1 d))"
  by (simp add: upt_conv_Cons numeral_3_eq_3 numeral_2_eq_2)

lemma four_codes: "fold f [0..<4] t = f 3 (f 2 (f 1 (f 0 t)))"
  by (simp add: upt_conv_Cons numeral_3_eq_3 numeral_2_eq_2)

lemma not_pad: "unat x < 64 \<Longrightarrow> x \<noteq> 64" for x :: "8 word"
  by auto

lemma four_elements: "length t = 4 \<Longrightarrow> \<exists>a b c d. t = [a, b, c, d]"
  by (auto simp: numeral_eq_Suc length_Suc_conv)

lemma four_updates:
  "[a, b, c, d][0 := x] = [x, b, c, d]" "[a, b, c, d][Suc 0 := x] = [a, x, c, d]"
  "[a, b, c, d][2 := x] = [a, b, x, d]" "[a, b, c, d][3 := x] = [a, b, c, x]"
  by (simp_all add: numeral_2_eq_2 numeral_3_eq_3)

lemma move_1:
  "temp1 d = [i0, i1, i2, i3] \<Longrightarrow> move_code b 1 d =
    (if i3 = 64 then d
     else let z = i3 + (i2 AND 3) * 64
          in d\<lparr>temp1 := [i0, i1, i2, z], Buffer := (Buffer d)[b * 3 + 2 := z], outlen := outlen d + 1\<rparr>)"
  by (simp add: move_code_def Let_def LMoveBit_values four_updates)

lemma move_2:
  "temp1 d = [i0, i1, i2, z] \<Longrightarrow> move_code b 2 d =
    (if i2 = 64 then d
     else let y = i2 div 4 + (i1 AND 15) * 16
          in d\<lparr>temp1 := [i0, i1, y, z], Buffer := (Buffer d)[b * 3 + 1 := y], outlen := outlen d + 1\<rparr>)"
  by (simp add: move_code_def Let_def LMoveBit_values four_updates)

lemma move_3:
  "temp1 d = [i0, i1, y, z] \<Longrightarrow> move_code b 3 d =
    (if i1 = 64 then d
     else let x = i1 div 16 + (i0 AND 63) * 4
          in d\<lparr>temp1 := [i0, x, y, z], Buffer := (Buffer d)[b * 3 := x], outlen := outlen d + 1\<rparr>)"
  by (simp add: move_code_def Let_def LMoveBit_values four_updates)

lemma read_group: "length t = 4 \<Longrightarrow> t[0 := i0, 1 := i1, 2 := i2, 3 := i3] = [i0, i1, i2, i3]"
  using four_elements [of t] by (auto simp: four_updates)

lemmas group_simps = decode_group_def three_moves four_codes read_group read_digit read_pad move_1 move_2 move_3
  not_pad Let_def

lemma group_full:
  assumes "length (temp1 d) = 4" "unat i0 < 64" "unat i1 < 64" "unat i2 < 64" "unat i3 < 64"
  defines "z \<equiv> i3 + (i2 AND 3) * 64" and "y \<equiv> i2 div 4 + (i1 AND 15) * 16" and "x \<equiv> i1 div 16 + (i0 AND 63) * 4"
  shows "decode_group b [base64digit i0, base64digit i1, base64digit i2, base64digit i3] d =
    d\<lparr>temp1 := [i0, x, y, z], Buffer := (Buffer d)[b * 3 + 2 := z, b * 3 + 1 := y, b * 3 := x], outlen := outlen d + 3\<rparr>"
  using assms(1-5) by (simp del: One_nat_def add: group_simps x_def y_def z_def)

lemma group_pad1:
  assumes "length (temp1 d) = 4" "unat i0 < 64" "unat i1 < 64" "unat i2 < 64"
  defines "y \<equiv> i2 div 4 + (i1 AND 15) * 16" and "x \<equiv> i1 div 16 + (i0 AND 63) * 4"
  shows "decode_group b [base64digit i0, base64digit i1, base64digit i2, pad_char] d =
    d\<lparr>temp1 := [i0, x, y, 64], Buffer := (Buffer d)[b * 3 + 1 := y, b * 3 := x], outlen := outlen d + 2\<rparr>"
  using assms(1-4) by (simp del: One_nat_def add: group_simps x_def y_def)

lemma group_pad2:
  assumes "length (temp1 d) = 4" "unat i0 < 64" "unat i1 < 64"
  defines "x \<equiv> i1 div 16 + (i0 AND 63) * 4"
  shows "decode_group b [base64digit i0, base64digit i1, pad_char, pad_char] d =
    d\<lparr>temp1 := [i0, x, 64, 64], Buffer := (Buffer d)[b * 3 := x], outlen := outlen d + 1\<rparr>"
  using assms(1-3) by (simp del: One_nat_def add: group_simps x_def)

text \<open>A group written behind the bytes of the groups before it.\<close>

lemma behind:
  "length pre = b * 3 \<Longrightarrow> (pre @ u # v # w # rs)[b * 3 + 2 := z, b * 3 + 1 := y, b * 3 := x] = pre @ x # y # z # rs"
  "length pre = b * 3 \<Longrightarrow> (pre @ u # v # w # rs)[b * 3 + 1 := y, b * 3 := x] = pre @ x # y # w # rs"
  "length pre = b * 3 \<Longrightarrow> (pre @ u # v # w # rs)[b * 3 := x] = pre @ x # v # w # rs"
  by (simp_all add: list_update_append)

lemma groups_of:
  "(length (x # y # z # data) + 2) div 3 = Suc ((length data + 2) div 3)"
  "(length [x, y] + 2) div 3 = 1" "(length [x] + 2) div 3 = 1" "(length [] + 2) div 3 = 0"
proof -
  have "length (x # y # z # data) + 2 = (length data + 2) + 3" by simp
  then show "(length (x # y # z # data) + 2) div 3 = Suc ((length data + 2) div 3)" by (metis div_add_self2 Suc_eq_plus1 zero_neq_numeral)
qed simp_all

lemma Base64Encode_length: "length (Base64Encode data) = 4 * ((length data + 2) div 3)"
proof (induction data rule: Base64Encode.induct)
  case (1 x y z data)
  then show ?case unfolding groups_of by simp
qed simp_all

lemma three_zeros: "replicate (3 * Suc n) x = x # x # x # replicate (3 * n) x"
  by (simp add: numeral_3_eq_3)

lemma decode_encoded:
  assumes "length (temp1 d) = 4" "length pre = b * 3"
    "Buffer d = pre @ replicate (3 * ((length data + 2) div 3)) 0"
  shows "\<exists>rest. Buffer (decode_groups b (Base64Encode data) d) = pre @ data @ rest \<and>
    outlen (decode_groups b (Base64Encode data) d) = outlen d + length data"
  using assms
proof (induction data arbitrary: b pre d rule: Base64Encode.induct)
  case (1 x y z data)
  let ?d = "decode_group b (take 4 (Base64Encode (x # y # z # data))) d"
  have d: "?d = d\<lparr>temp1 := [drop_bit 2 x, x, y, z], Buffer := (Buffer d)[b * 3 + 2 := z, b * 3 + 1 := y, b * 3 := x], outlen := outlen d + 3\<rparr>"
    using group_full [OF 1(2) six_bit_pieces(1) six_bit_pieces(2) six_bit_pieces(3) six_bit_pieces(4), of b x x y y z z] by (simp add: bytes_joined)
  have "Buffer ?d = (pre @ [x, y, z]) @ replicate (3 * ((length data + 2) div 3)) 0"
    using 1(4) behind(1) [OF 1(3)] unfolding d groups_of three_zeros by simp
  then obtain rest where "Buffer (decode_groups (b + 1) (Base64Encode data) ?d) = (pre @ [x, y, z]) @ data @ rest"
    "outlen (decode_groups (b + 1) (Base64Encode data) ?d) = outlen ?d + length data"
    using 1(1) [of ?d "pre @ [x, y, z]" "b + 1"] 1(3) d by auto
  then show ?case using d by auto
next
  case (2 x y)
  have "Buffer d = pre @ [0, 0, 0]" using 2(3) unfolding groups_of by (simp add: numeral_3_eq_3)
  then show ?case
    using group_pad1 [OF 2(1) six_bit_pieces(1) six_bit_pieces(2) six_bit_pieces(6), of b x x y y] behind(2) [OF 2(2)]
    by (simp add: bytes_joined)
next
  case (3 x)
  have "Buffer d = pre @ [0, 0, 0]" using 3(3) unfolding groups_of by (simp add: numeral_3_eq_3)
  then show ?case
    using group_pad2 [OF 3(1) six_bit_pieces(1) six_bit_pieces(5), of b x x] behind(3) [OF 3(2)]
    by (simp add: bytes_joined)
next
  case 4
  then show ?case by simp
qed

lemma Base64Decode_Encode:
  assumes "length t = 4"
  shows "\<exists>rest. Base64Decode t (Base64Encode data) = (data @ rest, length data)"
proof -
  have "length (Base64Encode data) * 3 div 4 = 3 * ((length data + 2) div 3)" by (simp add: Base64Encode_length)
  then show ?thesis
    using decode_encoded [of "\<lparr>temp1 = t, Buffer = replicate (3 * ((length data + 2) div 3)) 0, outlen = 0\<rparr>" "[]" 0 data] assms
    by (auto simp: Base64Decode_def Let_def)
qed

text \<open>
  C34.  Decoding the encoding of any byte sequence returns its length and, in that many bytes of the buffer,
  the sequence itself, whatever the uninitialised array contains.
\<close>

theorem base64_roundtrip:
  assumes "length t = 4"
  shows "case Base64Decode t (Base64Encode data) of (buf, n) \<Rightarrow> n = length data \<and> take n buf = data"
  using Base64Decode_Encode [OF assms, of data] by auto

theorem base64_roundtrip_witness:
  "case Base64Decode [0, 0, 0, 0] (Base64Encode [77, 97, 110, 33]) of (buf, n) \<Rightarrow>
     n = length [77, 97, 110, 33 :: 8 word] \<and> take n buf = [77, 97, 110, 33]"
  by (rule base64_roundtrip) simp

end
