(* ===== verification/Packet.thy ===== *)
theory Packet
  imports Wire Base64
begin

text \<open>
  The message layer above the frames: \<^verbatim>\<open>pushProtocMessage\<close> and \<^verbatim>\<open>parseProtocmessage\<close> of
  \<^verbatim>\<open>src/common/protoc_common.h\<close> with the buffers of \<^verbatim>\<open>src/common/thread_buffer.h\<close>.  A packet is the flag, the
  length of the type name, the type name and the serialised message, in base 64 between client and gate.

  The protocol buffer library is external.  It appears as three functions: the name of a message's type, its
  serialisation, and the parsing of bytes as a message of a named type (\<open>None\<close> when the name is unknown or the
  bytes do not parse).
\<close>

section \<open>Buffers\<close>

text \<open>A send buffer of the capacity handed out for \<open>maxlen\<close>, when the buffer of the thread has \<open>avail\<close> bytes.\<close>

definition getThreadBuffer :: "nat \<Rightarrow> nat \<Rightarrow> nat" where
  "getThreadBuffer avail maxlen =
     (if avail < maxlen then if maxlen < 262144 then 262144 else maxlen * 150 mod 4294967296 div 100 else avail)"

text \<open>\<open>None\<close> is the exception \<^verbatim>\<open>BuffException\<close>.\<close>

definition send_write :: "nat \<Rightarrow> byte list \<Rightarrow> byte list \<Rightarrow> byte list option" where
  "send_write cap item buf = (if cap \<le> length buf + length item then None else Some (buf @ item))"

record recv_buffer =
  r_buff :: "byte list"
  r_pos :: nat

definition recv_open :: "byte list \<Rightarrow> bool \<Rightarrow> byte list \<Rightarrow> recv_buffer" where
  "recv_open t base64 data =
     \<lparr>r_buff = (if base64 then let (buf, n) = Base64Decode t data in take n buf else data), r_pos = 0\<rparr>"

text \<open>Reading the last byte sets the position back to the beginning.\<close>

definition recv_read :: "nat \<Rightarrow> recv_buffer \<Rightarrow> (byte list \<times> recv_buffer) option" where
  "recv_read n r =
     (if length (r_buff r) < r_pos r + n then None
      else let p = r_pos r + n
           in Some (take n (drop (r_pos r) (r_buff r)), r\<lparr>r_pos := if p = length (r_buff r) then 0 else p\<rparr>))"

section \<open>Packets\<close>

text \<open>
  The capacity is asked for without the four bytes of the flag.  \<open>None\<close> is an exception, \<open>Some None\<close> the
  result \<^verbatim>\<open>false\<close> of a serialisation that does not fit.
\<close>

definition pushProtocMessage ::
  "('m \<Rightarrow> byte list) \<Rightarrow> ('m \<Rightarrow> byte list) \<Rightarrow> nat \<Rightarrow> bool \<Rightarrow> 32 word \<Rightarrow> 'm \<Rightarrow> byte list option option" where
  "pushProtocMessage type_name serialise avail base64 flag m =
     (let name = type_name m; body = serialise m;
          cap = getThreadBuffer avail (4 + length name + length body)
      in case Option.bind (send_write cap (store32 flag) [])
                (\<lambda>b. Option.bind (send_write cap (store32 (word_of_nat (length name))) b) (send_write cap name)) of
           None \<Rightarrow> None
         | Some b \<Rightarrow>
             if cap - length b < length body then Some None
             else let packet = b @ body
                  in Some (Some (if base64 then Base64Encode packet else packet)))"

datatype 'm parsed = Throws | Rejected | Overread | Parsed 'm "32 word"

text \<open>
  The name is read without a test that it ends within the packet: beyond, it consists of bytes of earlier
  packets and the rest has a negative length (\<open>Overread\<close>).
\<close>

definition parseProtocmessage ::
  "(byte list \<Rightarrow> byte list \<Rightarrow> 'm option) \<Rightarrow> byte list \<Rightarrow> bool \<Rightarrow> byte list \<Rightarrow> 'm parsed" where
  "parseProtocmessage parse t base64 data =
     (if data = [] then Rejected
      else case recv_read 4 (recv_open t base64 data) of
        None \<Rightarrow> Throws
      | Some (flag, r1) \<Rightarrow>
          (case recv_read 4 r1 of
             None \<Rightarrow> Throws
           | Some (len, r2) \<Rightarrow>
               let name_len = unat (load32 len); rest = drop (r_pos r2) (r_buff r2)
               in if length (r_buff r2) < name_len \<or> name_len = 0 then Rejected
                  else if length rest < name_len then Overread
                  else case parse (take name_len rest) (drop name_len rest) of
                         None \<Rightarrow> Rejected
                       | Some m \<Rightarrow> Parsed m (load32 flag)))"

text \<open>Handing a packet to the session: what does not fit the session is dropped there without notice.\<close>

definition ProtocMsgBase_sendPBMessage ::
  "('m \<Rightarrow> byte list) \<Rightarrow> ('m \<Rightarrow> byte list) \<Rightarrow> nat \<Rightarrow> compress_strategy \<Rightarrow> bool \<Rightarrow> 32 word \<Rightarrow> 'm \<Rightarrow> tcp_session \<Rightarrow> net_handled option" where
  "ProtocMsgBase_sendPBMessage type_name serialise avail cs base64 flag m s =
     (case pushProtocMessage type_name serialise avail base64 flag m of
        None \<Rightarrow> None
      | Some None \<Rightarrow> Some (s, [])
      | Some (Some packet) \<Rightarrow> Some (send_message cs packet base64 s))"

section \<open>A packet is read as it was written\<close>

text \<open>What the code relies on: a serialised message parses, under the name of its type, as itself.\<close>

definition protobuf_ok :: "('m \<Rightarrow> byte list) \<Rightarrow> ('m \<Rightarrow> byte list) \<Rightarrow> (byte list \<Rightarrow> byte list \<Rightarrow> 'm option) \<Rightarrow> 'm \<Rightarrow> bool" where
  "protobuf_ok type_name serialise parse m \<longleftrightarrow>
     type_name m \<noteq> [] \<and> parse (type_name m) (serialise m) = Some m"

definition packet_of :: "('m \<Rightarrow> byte list) \<Rightarrow> ('m \<Rightarrow> byte list) \<Rightarrow> 32 word \<Rightarrow> 'm \<Rightarrow> byte list" where
  "packet_of type_name serialise flag m =
     store32 flag @ store32 (word_of_nat (length (type_name m))) @ type_name m @ serialise m"

text \<open>Room for a packet: the buffer of the thread always has it below its default size.\<close>

lemma push_packet:
  assumes "length (packet_of type_name serialise flag m) < 262144" "avail = 0 \<or> 262144 \<le> avail"
  shows "pushProtocMessage type_name serialise avail base64 flag m =
    Some (Some (if base64 then Base64Encode (packet_of type_name serialise flag m) else packet_of type_name serialise flag m))"
proof -
  have "262144 \<le> getThreadBuffer avail (4 + length (type_name m) + length (serialise m))"
    using assms by (auto simp: getThreadBuffer_def packet_of_def)
  then show ?thesis using assms(1) by (auto simp: pushProtocMessage_def send_write_def packet_of_def Let_def)
qed

lemma recv_open_encoded:
  assumes "length t = 4"
  shows "recv_open t b (if b then Base64Encode p else p) = \<lparr>r_buff = p, r_pos = 0\<rparr>"
  using Base64Decode_Encode [OF assms, of p] by (auto simp: recv_open_def)

lemma parse_packet:
  assumes "protobuf_ok type_name serialise parse m" "length t = 4" "length (type_name m) < 4294967296"
  shows "parseProtocmessage parse t b
      (if b then Base64Encode (packet_of type_name serialise flag m) else packet_of type_name serialise flag m) = Parsed m flag"
proof -
  let ?p = "packet_of type_name serialise flag m"
  have "Base64Encode ?p \<noteq> []" using Base64Encode_length [of ?p] by (auto simp: packet_of_def)
  moreover have "?p \<noteq> []" by (auto simp: packet_of_def store32_def)
  ultimately have ne: "(if b then Base64Encode ?p else ?p) \<noteq> []" by simp
  have name: "type_name m \<noteq> []" "parse (type_name m) (serialise m) = Some m" using assms(1) by (auto simp: protobuf_ok_def)
  have r1: "recv_read 4 \<lparr>r_buff = ?p, r_pos = 0\<rparr> = Some (store32 flag, \<lparr>r_buff = ?p, r_pos = 4\<rparr>)"
    using name(1) by (simp add: recv_read_def packet_of_def Let_def)
  have r2: "recv_read 4 \<lparr>r_buff = ?p, r_pos = 4\<rparr> = Some (store32 (word_of_nat (length (type_name m))), \<lparr>r_buff = ?p, r_pos = 8\<rparr>)"
    using name(1) by (simp add: recv_read_def packet_of_def Let_def)
  have len: "unat (load32 (store32 (word_of_nat (length (type_name m))))) = length (type_name m)"
    "load32 (store32 flag) = flag" using assms(3) by (simp_all add: unat_of_nat)
  have rest: "drop 8 ?p = type_name m @ serialise m" by (simp add: packet_of_def)
  show ?thesis
    unfolding parseProtocmessage_def recv_open_encoded [OF assms(2)] r1 r2 option.case prod.case len Let_def recv_buffer.simps rest
    using ne name by (simp add: packet_of_def)
qed

text \<open>
  A packet shorter than its two integers throws, and no process catches the exception: a message of two
  bytes ends the server that reads it.
\<close>

lemma short_packet_throws: "p \<noteq> [] \<Longrightarrow> length p < 8 \<Longrightarrow> parseProtocmessage parse t False p = Throws \<or> length p = 4"
  by (auto simp: parseProtocmessage_def recv_open_def recv_read_def Let_def)

section \<open>From end to end\<close>

fun send_all ::
  "('m \<Rightarrow> byte list) \<Rightarrow> ('m \<Rightarrow> byte list) \<Rightarrow> nat \<Rightarrow> compress_strategy \<Rightarrow> bool \<Rightarrow> (32 word \<times> 'm) list \<Rightarrow> tcp_session \<Rightarrow> tcp_session option" where
  "send_all type_name serialise avail cs b [] s = Some s"
| "send_all type_name serialise avail cs b ((flag, m) # ms) s =
     Option.bind (ProtocMsgBase_sendPBMessage type_name serialise avail cs b flag m s)
       (\<lambda>(s', fx). send_all type_name serialise avail cs b ms s')"

definition encoded :: "bool \<Rightarrow> byte list \<Rightarrow> byte list" where
  "encoded b p = (if b then Base64Encode p else p)"

text \<open>The packets that fit a frame.\<close>

definition sendable :: "('m \<Rightarrow> byte list) \<Rightarrow> ('m \<Rightarrow> byte list) \<Rightarrow> bool \<Rightarrow> 32 word \<times> 'm \<Rightarrow> bool" where
  "sendable type_name serialise b = (\<lambda>(flag, m). fits (encoded b (packet_of type_name serialise flag m)))"

definition frame_of :: "compress_strategy \<Rightarrow> bool \<Rightarrow> bool \<Rightarrow> byte list \<Rightarrow> message_t" where
  "frame_of cs f b p = (if f then makeMessage p False b else compress cs p b)"

lemma encoded_shorter: "length p \<le> length (encoded b p)"
proof -
  have "length p \<le> 4 * ((length p + 2) div 3)" by linarith
  then show ?thesis by (simp add: encoded_def Base64Encode_length)
qed

lemma send_one:
  assumes "tx_ready s" "sendable type_name serialise b (flag, m)" "avail = 0 \<or> 262144 \<le> avail"
  shows "\<exists>s' fx. ProtocMsgBase_sendPBMessage type_name serialise avail cs b flag m s = Some (s', fx) \<and> tx_ready s' \<and> father s' = father s \<and>
    queue_send s' = queue_send s @ [frame_of cs (father s) b (encoded b (packet_of type_name serialise flag m))] \<and>
    not_sent_size s' = not_sent_size s + int (length (m_data (frame_of cs (father s) b (encoded b (packet_of type_name serialise flag m)))))"
proof -
  let ?p = "packet_of type_name serialise flag m"
  have f: "fits (encoded b ?p)" using assms(2) by (simp add: sendable_def)
  then have "length ?p < 262144" using encoded_shorter [of ?p b] by (simp add: fits_def wire_consts)
  then have push: "pushProtocMessage type_name serialise avail b flag m = Some (Some (encoded b ?p))"
    unfolding encoded_def by (rule push_packet [OF _ assms(3)])
  have "encoded b ?p \<noteq> []" "\<not> MAX_MESSAGE_LEN - 1 < length (encoded b ?p)" using f by (auto simp: fits_def wire_consts)
  then show ?thesis
    using assms(1) push by (auto simp: ProtocMsgBase_sendPBMessage_def send_message_def send_framed_def tx_ready_def frame_of_def Let_def)
qed

lemma send_all_queue:
  assumes "tx_ready s" "\<forall>x \<in> set ms. sendable type_name serialise b x" "avail = 0 \<or> 262144 \<le> avail"
    "not_sent_size s = int (length (queue_bytes s))"
  shows "\<exists>s'. send_all type_name serialise avail cs b ms s = Some s' \<and> tx_ready s' \<and>
    queue_send s' = queue_send s @ map (\<lambda>(flag, m). frame_of cs (father s) b (encoded b (packet_of type_name serialise flag m))) ms \<and>
    not_sent_size s' = int (length (queue_bytes s'))"
  using assms
proof (induction ms arbitrary: s)
  case (Cons x ms)
  obtain flag m where x: "x = (flag, m)" by fastforce
  obtain s1 fx where s1: "ProtocMsgBase_sendPBMessage type_name serialise avail cs b flag m s = Some (s1, fx)" "tx_ready s1" "father s1 = father s"
    "queue_send s1 = queue_send s @ [frame_of cs (father s) b (encoded b (packet_of type_name serialise flag m))]"
    "not_sent_size s1 = not_sent_size s + int (length (m_data (frame_of cs (father s) b (encoded b (packet_of type_name serialise flag m)))))"
    using send_one [OF Cons.prems(1), of type_name serialise b flag m avail cs] Cons.prems(2,3) x by auto
  then have "not_sent_size s1 = int (length (queue_bytes s1))" using Cons.prems(4) by (simp add: queue_bytes_def)
  then show ?case using Cons.IH [of s1] Cons.prems(2,3) s1 x by auto
qed simp

text \<open>
  C5.  From end to end: messages sent one after the other over an idle connection are packed, encoded, framed,
  queued and, as the socket completes its writes, sent completely; and however the network cuts the bytes
  into pieces, the other side calls its handler with every message exactly once, in the order they were
  sent, with the contents and the flags that were sent.  The packets have to fit a frame, and the protocol
  buffer library and the compression (if there is one) have to restore what they packed.
\<close>

theorem protocol_delivery:
  assumes "tx_ready s" "queue_send s = []" "not_sent_size s = 0" "avail = 0 \<or> 262144 \<le> avail"
    and "\<forall>x \<in> set ms. sendable type_name serialise b x \<and> protobuf_ok type_name serialise parse (snd x)"
    and "strategy_ok cs" "length t = 4" "isvalid r" "recv r = []"
  shows "\<exists>s1 s2 out. send_all type_name serialise avail cs b ms s = Some s1 \<and>
    completions (length ms + 1) 0 s1 = (s2, out) \<and> queue_send s2 = [] \<and>
    (\<forall>chunks. concat chunks = out \<longrightarrow> (\<forall>c \<in> set chunks. length c \<le> MAX_MESSAGE_LEN) \<longrightarrow>
      (\<exists>r' fx. receive cs chunks r = Some (r', fx) \<and> isvalid r' \<and> recv r' = [] \<and>
        map (\<lambda>d. parseProtocmessage parse t (m_base64 d) (m_data d)) (pushed fx) = map (\<lambda>(flag, m). Parsed m flag) ms))"
proof -
  let ?ps = "map (\<lambda>(flag, m). encoded b (packet_of type_name serialise flag m)) ms"
  let ?fs = "map (frame_of cs (father s) b) ?ps"
  obtain s1 where s1: "send_all type_name serialise avail cs b ms s = Some s1" "tx_ready s1" "queue_send s1 = ?fs"
    "not_sent_size s1 = int (length (queue_bytes s1))"
    using send_all_queue [of s ms type_name serialise b avail cs] assms(1-5) by (auto simp: queue_bytes_def comp_def case_prod_beta)
  have fits: "\<forall>p \<in> set ?ps. fits p" using assms(5) by (auto simp: sendable_def)
  then have opens: "list_all2 (opens cs b) ?fs ?ps"
    using opens_plain opens_compressed [OF assms(6)] by (auto simp: list_all2_conv_all_nth frame_of_def)
  then have "\<forall>f \<in> set ?fs. length (m_data f) \<le> MAX_MESSAGE_LEN"
    using frame_length by (fastforce simp: list_all2_conv_all_nth in_set_conv_nth opens_def fits_def)
  then obtain s2 where s2: "completions (length ms + 1) 0 s1 = (s2, concat (map m_data ?fs))" "queue_send s2 = []"
    using send_drains [of s1 "length ms + 1" 0] s1 by (auto simp: queue_bytes_def)
  have "parseProtocmessage parse t b (encoded b (packet_of type_name serialise flag m)) = Parsed m flag" if "(flag, m) \<in> set ms" for flag m
  proof -
    have "fits (encoded b (packet_of type_name serialise flag m))" using fits that by force
    then have "length (type_name m) < 4294967296"
      using encoded_shorter [of "packet_of type_name serialise flag m" b] by (simp add: fits_def wire_consts packet_of_def)
    then show ?thesis using parse_packet assms(5,7) that by (fastforce simp: encoded_def)
  qed
  then have parsed: "map (\<lambda>p. parseProtocmessage parse t b p) ?ps = map (\<lambda>(flag, m). Parsed m flag) ms" by auto
  have "\<exists>r' fx. receive cs chunks r = Some (r', fx) \<and> isvalid r' \<and> recv r' = [] \<and>
      map (\<lambda>d. parseProtocmessage parse t (m_base64 d) (m_data d)) (pushed fx) = map (\<lambda>(flag, m). Parsed m flag) ms"
    if c: "concat chunks = concat (map m_data ?fs)" "\<forall>c \<in> set chunks. length c \<le> MAX_MESSAGE_LEN" for chunks
  proof -
    obtain r' fx where "receive cs chunks r = Some (r', fx)" "pushed fx = map (\<lambda>p. message_of p b) ?ps" "isvalid r'" "recv r' = []"
      using receive_frames [OF opens assms(8,9) c] by blast
    then show ?thesis using parsed by (auto simp: message_of_def comp_def)
  qed
  then show ?thesis using s1(1) s2 by blast
qed

text \<open>A library with one message type, named by the letter P, shows that the hypothesis on it can hold.\<close>

definition sample_name :: "byte list \<Rightarrow> byte list" where "sample_name m = [80]"

definition sample_parse :: "byte list \<Rightarrow> byte list \<Rightarrow> byte list option" where
  "sample_parse n bs = (if n = [80] then Some bs else None)"

theorem protocol_delivery_witness:
  "let ms = [(5, [1, 2, 3]), (6, replicate 700 7)]; cs = Some (pack_run, unpack_run); t = [0, 0, 0, 0]
   in \<exists>s1 s2 out. send_all sample_name id 0 cs True ms sample_tcp = Some s1 \<and>
    completions (length ms + 1) 0 s1 = (s2, out) \<and> queue_send s2 = [] \<and>
    (\<forall>chunks. concat chunks = out \<longrightarrow> (\<forall>c \<in> set chunks. length c \<le> MAX_MESSAGE_LEN) \<longrightarrow>
      (\<exists>r' fx. receive cs chunks sample_tcp = Some (r', fx) \<and> isvalid r' \<and> recv r' = [] \<and>
        map (\<lambda>d. parseProtocmessage sample_parse t (m_base64 d) (m_data d)) (pushed fx) = map (\<lambda>(flag, m). Parsed m flag) ms))"
  unfolding Let_def
  by (rule protocol_delivery [where s = sample_tcp and r = sample_tcp and avail = 0 and b = True and t = "[0, 0, 0, 0]"
        and ms = "[(5, [1, 2, 3]), (6, replicate 700 7)]" and cs = "Some (pack_run, unpack_run)" and type_name = sample_name
        and serialise = id and parse = sample_parse])
     (auto simp: sample_tcp_def tx_ready_def run_strategy_ok protobuf_ok_def sendable_def sample_name_def sample_parse_def
        encoded_def fits_def wire_consts packet_of_def Base64Encode_length)

end
