(* ===== verification/Pipelines.thy ===== *)
theory Pipelines
  imports Prelude
begin

text \<open>
  Runs of components that react to events with outputs, and the contracts of the components that hand things
  on: \<open>pipeline\<close> for a queue that keeps everything it is given, \<open>conveyor\<close> for one that may refuse and that
  keeps the order or only the number of the elements.
\<close>

text \<open>Runs of a component that reacts to events with outputs.\<close>

fun run_steps :: "('e \<Rightarrow> 's \<Rightarrow> 's \<times> 'o list) \<Rightarrow> 'e list \<Rightarrow> 's \<Rightarrow> 's \<times> 'o list" where
  "run_steps step [] s = (s, [])"
| "run_steps step (e # es) s = (let (s1, xs) = step e s; (s2, ys) = run_steps step es s1 in (s2, xs @ ys))"

lemma run_steps_append:
  "run_steps step (es @ fs) s = (let (s1, xs) = run_steps step es s; (s2, ys) = run_steps step fs s1 in (s2, xs @ ys))"
  by (induction es arbitrary: s) (auto simp: Let_def split: prod.splits)

text \<open>
  Elements enter with the events and leave as outputs; \<open>contents\<close> are the elements under way, oldest first.
  Over every run the elements that have left are then a prefix of those that have entered, each once and in
  order.
\<close>

locale pipeline =
  fixes ok :: "'s \<Rightarrow> bool"
    and contents :: "'s \<Rightarrow> 'a list"
    and step :: "'e \<Rightarrow> 's \<Rightarrow> 's \<times> 'a list"
    and enters :: "'e \<Rightarrow> 'a list"
  assumes keeps: "ok s \<Longrightarrow> step e s = (s', xs) \<Longrightarrow> ok s'"
    and conserve: "ok s \<Longrightarrow> step e s = (s', xs) \<Longrightarrow> contents s @ enters e = xs @ contents s'"
begin

lemma fifo: "ok s \<Longrightarrow> run_steps step es s = (s', xs) \<Longrightarrow> contents s @ concat (map enters es) = xs @ contents s'"
proof (induction es arbitrary: s xs)
  case (Cons e es)
  obtain s1 ys zs where s1: "step e s = (s1, ys)" "run_steps step es s1 = (s', zs)" "xs = ys @ zs"
    using Cons.prems(2) by (auto split: prod.splits)
  have "contents s @ enters e = ys @ contents s1" "ok s1" using conserve keeps Cons.prems(1) s1(1) by blast+
  then show ?case using Cons.IH [OF _ s1(2)] s1(3) by (metis append.assoc concat.simps(2) list.simps(9))
qed simp

end

text \<open>
  What is taken in and what is handed out are outputs, \<open>ins\<close> and \<open>outs\<close>.  The relation says how much of the
  order is kept: equality for a queue, equality of the multisets for a pool of workers.
\<close>

locale conveyor =
  fixes rel :: "'a list \<Rightarrow> 'a list \<Rightarrow> bool"
    and legal :: "'e \<Rightarrow> bool"
    and ok :: "'s \<Rightarrow> bool"
    and contents :: "'s \<Rightarrow> 'a list"
    and step :: "'e \<Rightarrow> 's \<Rightarrow> 's \<times> 'o list"
    and ins :: "'o list \<Rightarrow> 'a list"
    and outs :: "'o list \<Rightarrow> 'a list"
  assumes rel_refl: "rel xs xs"
    and rel_trans: "rel xs ys \<Longrightarrow> rel ys zs \<Longrightarrow> rel xs zs"
    and rel_append: "rel xs ys \<Longrightarrow> rel (us @ xs @ vs) (us @ ys @ vs)"
    and ins_append: "ins (os @ ps) = ins os @ ins ps" "ins [] = []"
    and outs_append: "outs (os @ ps) = outs os @ outs ps" "outs [] = []"
    and keeps: "ok s \<Longrightarrow> legal e \<Longrightarrow> step e s = (s', os) \<Longrightarrow> ok s'"
    and conserve: "ok s \<Longrightarrow> legal e \<Longrightarrow> step e s = (s', os) \<Longrightarrow> rel (contents s @ ins os) (outs os @ contents s')"
begin

lemma carried:
  "ok s \<Longrightarrow> \<forall>e \<in> set es. legal e \<Longrightarrow> run_steps step es s = (s', os) \<Longrightarrow> ok s' \<and> rel (contents s @ ins os) (outs os @ contents s')"
proof (induction es arbitrary: s os)
  case Nil
  then show ?case by (simp add: ins_append outs_append rel_refl)
next
  case (Cons e es)
  obtain s1 ps qs where s1: "step e s = (s1, ps)" "run_steps step es s1 = (s', qs)" "os = ps @ qs"
    using Cons.prems(3) by (auto split: prod.splits)
  have l: "ok s1" "rel (contents s @ ins ps) (outs ps @ contents s1)"
    using keeps conserve Cons.prems(1,2) s1(1) by auto
  have r: "ok s'" "rel (contents s1 @ ins qs) (outs qs @ contents s')" using Cons.IH [OF l(1) _ s1(2)] Cons.prems(2) by auto
  have "rel (contents s @ ins os) (outs ps @ contents s1 @ ins qs)"
    using rel_append [OF l(2), of "[]" "ins qs"] s1(3) by (simp add: ins_append)
  moreover have "rel (outs ps @ contents s1 @ ins qs) (outs os @ contents s')"
    using rel_append [OF r(2), of "outs ps" "[]"] s1(3) by (simp add: outs_append)
  ultimately show ?case using r(1) rel_trans by blast
qed

end

end
