(* ===== verification/Net_Server.thy ===== *)
theory Net_Server
  imports Wire Std_Map Pipelines
begin

text \<open>
  What stands between the sockets and the game logic: the two receive queues of \<^verbatim>\<open>tcp_server\<close> and
  \<^verbatim>\<open>tcp_client\<close>, the two queues of deferred calls of \<^verbatim>\<open>call_back_mgr\<close>, the three queues of \<^verbatim>\<open>HttpManager\<close>
  and the list of banned addresses (\<^verbatim>\<open>src/common/tcpserver.cpp\<close>, \<^verbatim>\<open>tcpclient.cpp\<close>, \<^verbatim>\<open>call_back.cpp\<close>,
  \<^verbatim>\<open>HttpManager.cpp\<close>).  A step is what a thread does while it holds the mutex, so that the steps of the
  threads interleave freely.
\<close>

section \<open>Double queues\<close>

text \<open>
  \<^verbatim>\<open>m_queue_recv_msg\<close> with \<^verbatim>\<open>m_current_recv_queue\<close>, and \<^verbatim>\<open>m_listcb\<close> with \<^verbatim>\<open>m_current_queue\<close>: the producers push to
  the current queue; the consumer switches the queues, unless the current one is empty, and works off the
  other one.  \<open>proc\<close> tells whether the consumer is in its loop.
\<close>

record 'a double_queue =
  queue0 :: "'a list"
  queue1 :: "'a list"
  current :: bool
  proc :: bool

definition dq_get :: "bool \<Rightarrow> 'a double_queue \<Rightarrow> 'a list" where
  "dq_get i q = (if i then queue1 q else queue0 q)"

definition dq_set :: "bool \<Rightarrow> 'a list \<Rightarrow> 'a double_queue \<Rightarrow> 'a double_queue" where
  "dq_set i xs q = (if i then q\<lparr>queue1 := xs\<rparr> else q\<lparr>queue0 := xs\<rparr>)"

definition push_message :: "'a \<Rightarrow> 'a double_queue \<Rightarrow> 'a double_queue" where
  "push_message x q = dq_set (current q) (dq_get (current q) q @ [x]) q"

text \<open>The consumer outside its loop: nothing to do, or the switch.\<close>

definition real_run :: "'a double_queue \<Rightarrow> 'a double_queue" where
  "real_run q = (if dq_get (current q) q = [] then q else q\<lparr>current := \<not> current q, proc := True\<rparr>)"

text \<open>The consumer in its loop: the front of the other queue, or the end of the loop.\<close>

definition proc_front :: "'a double_queue \<Rightarrow> 'a double_queue \<times> 'a list" where
  "proc_front q =
     (case dq_get (\<not> current q) q of
        [] \<Rightarrow> (q\<lparr>proc := False\<rparr>, [])
      | x # xs \<Rightarrow> (dq_set (\<not> current q) xs q, [x]))"

datatype 'a dq_event = Dq_push 'a | Dq_consumer

definition dq_step :: "'a dq_event \<Rightarrow> 'a double_queue \<Rightarrow> 'a double_queue \<times> 'a list" where
  "dq_step e q =
     (case e of
        Dq_push x \<Rightarrow> (push_message x q, [])
      | Dq_consumer \<Rightarrow> if proc q then proc_front q else (real_run q, []))"

definition dq_empty :: "'a double_queue" where
  "dq_empty = \<lparr>queue0 = [], queue1 = [], current = False, proc = False\<rparr>"

text \<open>Outside the loop the other queue is empty.\<close>

definition dq_ok :: "'a double_queue \<Rightarrow> bool" where
  "dq_ok q \<longleftrightarrow> proc q \<or> dq_get (\<not> current q) q = []"

text \<open>The elements under way: those of the queue that is worked off, then those of the current queue.\<close>

definition dq_contents :: "'a double_queue \<Rightarrow> 'a list" where
  "dq_contents q = dq_get (\<not> current q) q @ dq_get (current q) q"

fun dq_enters :: "'a dq_event \<Rightarrow> 'a list" where
  "dq_enters (Dq_push x) = [x]"
| "dq_enters Dq_consumer = []"

lemmas dq_defs = dq_step_def push_message_def real_run_def proc_front_def dq_ok_def dq_contents_def dq_get_def dq_set_def

interpretation dq: pipeline dq_ok dq_contents dq_step dq_enters
proof
  fix q q' :: "'a double_queue" and e xs
  assume "dq_ok q" "dq_step e q = (q', xs)"
  then show "dq_ok q'" "dq_contents q @ dq_enters e = xs @ dq_contents q'"
    by (cases e; auto simp: dq_defs split: list.splits if_splits)+
qed

text \<open>
  Whatever the interleaving of the network threads that push messages and the main thread that switches
  the two queues and works one off, the messages taken out are those pushed, each exactly once and in the
  order in which they were pushed, up to the ones still queued.  (A message taken out is handed to its
  session if that is still connected.)
\<close>

theorem double_queue_fifo:
  fixes es :: "'a dq_event list"
  shows "case run_steps dq_step es dq_empty of (q, handled) \<Rightarrow>
     concat (map dq_enters es) = handled @ dq_contents q"
proof -
  have "dq_ok (dq_empty :: 'a double_queue)" "dq_contents (dq_empty :: 'a double_queue) = []" by (simp_all add: dq_defs dq_empty_def)
  then show ?thesis using dq.fifo [OF _ surjective_pairing, of dq_empty es] by (simp add: case_prod_beta)
qed

section \<open>HTTP tasks\<close>

text \<open>
  \<^verbatim>\<open>HttpManager\<close>: a task added by the game logic waits in \<^verbatim>\<open>_https\<close>, is moved to \<^verbatim>\<open>_execute_https\<close> and executed
  by the HTTP thread (\<open>update\<close>), waits in \<^verbatim>\<open>_complete_task\<close> and is concluded by the main thread
  (\<open>logicUpdate\<close>).  The requests themselves are external: a task is any value, its execution and its conclusion
  are outputs.
\<close>

record 'a HttpManager =
  https :: "'a list"
  execute_https :: "'a list"
  complete_task :: "'a list"

datatype 'a http_output = Excute 'a | Logic_excute 'a

definition addHttpTask :: "'a \<Rightarrow> 'a HttpManager \<Rightarrow> 'a HttpManager" where
  "addHttpTask x h = h\<lparr>https := https h @ [x]\<rparr>"

text \<open>The two loops of \<^verbatim>\<open>update\<close>, each under its mutex.\<close>

definition http_fetch :: "'a HttpManager \<Rightarrow> 'a HttpManager" where
  "http_fetch h = h\<lparr>https := [], execute_https := execute_https h @ https h\<rparr>"

definition http_execute :: "'a HttpManager \<Rightarrow> 'a HttpManager \<times> 'a http_output list" where
  "http_execute h =
     (h\<lparr>execute_https := [], complete_task := complete_task h @ execute_https h\<rparr>, map Excute (execute_https h))"

definition http_update :: "'a HttpManager \<Rightarrow> 'a HttpManager \<times> 'a http_output list" where
  "http_update h = http_execute (http_fetch h)"

definition logicUpdate :: "'a HttpManager \<Rightarrow> 'a HttpManager \<times> 'a http_output list" where
  "logicUpdate h = (h\<lparr>complete_task := []\<rparr>, map Logic_excute (complete_task h))"

datatype 'a http_event = Http_add 'a | Http_fetch | Http_execute | Http_logic

fun http_step :: "'a http_event \<Rightarrow> 'a HttpManager \<Rightarrow> 'a HttpManager \<times> 'a http_output list" where
  "http_step (Http_add x) h = (addHttpTask x h, [])"
| "http_step Http_fetch h = (http_fetch h, [])"
| "http_step Http_execute h = http_execute h"
| "http_step Http_logic h = logicUpdate h"

definition http_empty :: "'a HttpManager" where
  "http_empty = \<lparr>https = [], execute_https = [], complete_task = []\<rparr>"

fun http_enters :: "'a http_event \<Rightarrow> 'a list" where
  "http_enters (Http_add x) = [x]"
| "http_enters _ = []"

definition executed :: "'a http_output list \<Rightarrow> 'a list" where
  "executed xs = concat (map (\<lambda>x. case x of Excute t \<Rightarrow> [t] | Logic_excute _ \<Rightarrow> []) xs)"

definition concluded :: "'a http_output list \<Rightarrow> 'a list" where
  "concluded xs = concat (map (\<lambda>x. case x of Logic_excute t \<Rightarrow> [t] | Excute _ \<Rightarrow> []) xs)"

lemma task_list_simps [simp]:
  "executed (xs @ ys) = executed xs @ executed ys" "concluded (xs @ ys) = concluded xs @ concluded ys"
  "executed [] = []" "concluded [] = []" "executed (map Excute ts) = ts" "concluded (map Logic_excute ts) = ts"
  "executed (map Logic_excute ts) = []" "concluded (map Excute ts) = []"
  by (induction ts) (auto simp: executed_def concluded_def)

text \<open>The same contract holds twice: up to the execution, and up to the conclusion.\<close>

interpretation http_exec: pipeline "\<lambda>_. True" "\<lambda>h. execute_https h @ https h"
  "\<lambda>e h. (fst (http_step e h), executed (snd (http_step e h)))" http_enters
proof
  fix h h' :: "'a HttpManager" and e xs
  assume "(fst (http_step e h), executed (snd (http_step e h))) = (h', xs)"
  then show "(execute_https h @ https h) @ http_enters e = xs @ execute_https h' @ https h'"
    by (cases e) (auto simp: addHttpTask_def http_fetch_def http_execute_def logicUpdate_def)
qed simp

interpretation http_logic: pipeline "\<lambda>_. True" "\<lambda>h. complete_task h @ execute_https h @ https h"
  "\<lambda>e h. (fst (http_step e h), concluded (snd (http_step e h)))" http_enters
proof
  fix h h' :: "'a HttpManager" and e xs
  assume "(fst (http_step e h), concluded (snd (http_step e h))) = (h', xs)"
  then show "(complete_task h @ execute_https h @ https h) @ http_enters e = xs @ complete_task h' @ execute_https h' @ https h'"
    by (cases e) (auto simp: addHttpTask_def http_fetch_def http_execute_def logicUpdate_def)
qed simp

lemma run_steps_map:
  assumes "\<And>xs ys. f (xs @ ys) = f xs @ f ys" "f [] = []"
  shows "run_steps (\<lambda>e h. (fst (step e h), f (snd (step e h)))) es s = (fst (run_steps step es s), f (snd (run_steps step es s)))"
  by (induction es arbitrary: s) (auto simp: assms case_prod_beta)

text \<open>
  C32.  Whatever the interleaving of the game logic that adds tasks, the HTTP thread and the main thread, the
  tasks executed and the tasks concluded are the tasks added, each exactly once and in order, up to those
  under way; and one round of \<^verbatim>\<open>update\<close> and \<^verbatim>\<open>logicUpdate\<close> without a further task executes and concludes
  all that were under way.
\<close>

theorem http_tasks_once:
  "case run_steps http_step es http_empty of (h, out) \<Rightarrow>
     concat (map http_enters es) = executed out @ execute_https h @ https h \<and>
     concat (map http_enters es) = concluded out @ complete_task h @ execute_https h @ https h \<and>
     (case http_update h of (h1, out1) \<Rightarrow> case logicUpdate h1 of (h2, out2) \<Rightarrow>
        h2 = http_empty \<and> concluded (out @ out1 @ out2) = concat (map http_enters es))"
proof -
  obtain h out where r: "run_steps http_step es http_empty = (h, out)" by fastforce
  have e: "concat (map http_enters es) = executed out @ execute_https h @ https h"
    using http_exec.fifo [of es http_empty h "executed out"] by (simp add: run_steps_map [of executed] r) (simp add: http_empty_def)
  have c: "concat (map http_enters es) = concluded out @ complete_task h @ execute_https h @ https h"
    using http_logic.fifo [of es http_empty h "concluded out"] by (simp add: run_steps_map [of concluded] r) (simp add: http_empty_def)
  show ?thesis using r e c by (simp add: http_update_def http_fetch_def http_execute_def logicUpdate_def http_empty_def)
qed

section \<open>Banned addresses\<close>

text \<open>The end of a ban is a time in seconds, an unsigned 32 bit number.\<close>

type_synonym ban_list = "(int, int \<times> ban_reason_t) smap"

definition is_ban_ip :: "int \<Rightarrow> int \<Rightarrow> ban_list \<Rightarrow> bool \<times> ban_list" where
  "is_ban_ip now addr m =
     (case map_find addr m of
        None \<Rightarrow> (False, m)
      | Some (t, r) \<Rightarrow> if t < now then (False, map_erase addr m) else (True, m))"

definition add_ban_ip :: "int \<Rightarrow> int \<Rightarrow> int \<Rightarrow> ban_reason_t \<Rightarrow> ban_list \<Rightarrow> ban_list" where
  "add_ban_ip now addr sec br m =
     (case map_find addr m of
        None \<Rightarrow> map_assign addr (wrap_u32 (now + sec), br) m
      | Some (t, r) \<Rightarrow> if t < sec then map_assign addr (sec, br) m else m)"

definition remove_ban_ip :: "int \<Rightarrow> ban_list \<Rightarrow> ban_list" where
  "remove_ban_ip addr m = map_erase addr m"

lemma new_ban_holds:
  assumes "map_wf m" "map_find addr m = None" "0 \<le> now" "0 \<le> sec" "now + sec < 4294967296"
  shows "fst (is_ban_ip later addr (add_ban_ip now addr sec br m)) \<longleftrightarrow> later \<le> now + sec"
  using assms by (simp add: is_ban_ip_def add_ban_ip_def wrap_u32_def map_find_assign not_less)

text \<open>
  A further ban compares the end of the first one, a time, with the number of seconds of the second: it
  never prolongs the ban.
\<close>

lemma second_ban_ignored:
  assumes "map_find addr m = Some (until, r)" "sec \<le> until"
  shows "add_ban_ip now addr sec br m = m"
  using assms by (simp add: add_ban_ip_def)

end
