(* ===== verification/Md5.thy ===== *)
theory Md5
  imports Prelude "HOL-Library.Word"
begin

text \<open>
  The message digest of \<^verbatim>\<open>src/common/md5.cpp\<close> and its client \<^verbatim>\<open>ssl::ssl_md5\<close>.  The class takes its
  input in pieces of any length: it keeps the bytes of an incomplete block in \<open>md_buffer\<close> and hands complete
  blocks to \<open>transform\<close>, which is unrolled into 64 lines.  The reference is RFC 1321: pad the whole message,
  cut it into blocks and run 64 steps over each, with the message index and the rotation given by formulas.
  Words have 32 bits as \<^verbatim>\<open>unsigned int\<close> has; \<^verbatim>\<open>size_t\<close> has 64.
\<close>

unbundle bit_operations_syntax

type_synonym md5_chain = "32 word \<times> 32 word \<times> 32 word \<times> 32 word"

record md5 =
  md_state :: md5_chain
  md_count :: "32 word \<times> 32 word"
  md_buffer :: "8 word list"
  md_digest :: "8 word list"
  md_finished :: bool

section \<open>One block\<close>

definition md5_F :: "32 word \<Rightarrow> 32 word \<Rightarrow> 32 word \<Rightarrow> 32 word" where
  "md5_F x y z = (x AND y) OR (NOT x AND z)"

definition md5_G :: "32 word \<Rightarrow> 32 word \<Rightarrow> 32 word \<Rightarrow> 32 word" where
  "md5_G x y z = (x AND z) OR (y AND NOT z)"

definition md5_H :: "32 word \<Rightarrow> 32 word \<Rightarrow> 32 word \<Rightarrow> 32 word" where
  "md5_H x y z = x XOR y XOR z"

definition md5_I :: "32 word \<Rightarrow> 32 word \<Rightarrow> 32 word \<Rightarrow> 32 word" where
  "md5_I x y z = y XOR (x OR NOT z)"

definition ROTATE_LEFT :: "32 word \<Rightarrow> nat \<Rightarrow> 32 word" where
  "ROTATE_LEFT x n = push_bit n x OR drop_bit (32 - n) x"

text \<open>
  A line of \<open>transform\<close> names its macro, the four registers in the order it passes them, the index into the
  block, the rotation and the constant.
\<close>

datatype md5_reg = RA | RB | RC | RD
datatype md5_macro = Round_F | Round_G | Round_H | Round_I

type_synonym md5_line = "md5_macro \<times> md5_reg \<times> md5_reg \<times> md5_reg \<times> md5_reg \<times> nat \<times> nat \<times> 32 word"

fun md5_fun :: "md5_macro \<Rightarrow> 32 word \<Rightarrow> 32 word \<Rightarrow> 32 word \<Rightarrow> 32 word" where
  "md5_fun Round_F = md5_F"
| "md5_fun Round_G = md5_G"
| "md5_fun Round_H = md5_H"
| "md5_fun Round_I = md5_I"

fun md5_exec :: "32 word list \<Rightarrow> md5_line \<Rightarrow> (md5_reg \<Rightarrow> 32 word) \<Rightarrow> md5_reg \<Rightarrow> 32 word" where
  "md5_exec x (m, a, b, c, d, k, s, ac) rs =
     (let rs1 = rs(a := rs a + (md5_fun m (rs b) (rs c) (rs d) + x ! k + ac));
          rs2 = rs1(a := ROTATE_LEFT (rs1 a) s)
      in rs2(a := rs2 a + rs2 b))"

definition transform_lines :: "md5_line list" where
  "transform_lines =
   [(Round_F, RA, RB, RC, RD, 0, 7, 0xd76aa478),
    (Round_F, RD, RA, RB, RC, 1, 12, 0xe8c7b756),
    (Round_F, RC, RD, RA, RB, 2, 17, 0x242070db),
    (Round_F, RB, RC, RD, RA, 3, 22, 0xc1bdceee),
    (Round_F, RA, RB, RC, RD, 4, 7, 0xf57c0faf),
    (Round_F, RD, RA, RB, RC, 5, 12, 0x4787c62a),
    (Round_F, RC, RD, RA, RB, 6, 17, 0xa8304613),
    (Round_F, RB, RC, RD, RA, 7, 22, 0xfd469501),
    (Round_F, RA, RB, RC, RD, 8, 7, 0x698098d8),
    (Round_F, RD, RA, RB, RC, 9, 12, 0x8b44f7af),
    (Round_F, RC, RD, RA, RB, 10, 17, 0xffff5bb1),
    (Round_F, RB, RC, RD, RA, 11, 22, 0x895cd7be),
    (Round_F, RA, RB, RC, RD, 12, 7, 0x6b901122),
    (Round_F, RD, RA, RB, RC, 13, 12, 0xfd987193),
    (Round_F, RC, RD, RA, RB, 14, 17, 0xa679438e),
    (Round_F, RB, RC, RD, RA, 15, 22, 0x49b40821),
    (Round_G, RA, RB, RC, RD, 1, 5, 0xf61e2562),
    (Round_G, RD, RA, RB, RC, 6, 9, 0xc040b340),
    (Round_G, RC, RD, RA, RB, 11, 14, 0x265e5a51),
    (Round_G, RB, RC, RD, RA, 0, 20, 0xe9b6c7aa),
    (Round_G, RA, RB, RC, RD, 5, 5, 0xd62f105d),
    (Round_G, RD, RA, RB, RC, 10, 9, 0x2441453),
    (Round_G, RC, RD, RA, RB, 15, 14, 0xd8a1e681),
    (Round_G, RB, RC, RD, RA, 4, 20, 0xe7d3fbc8),
    (Round_G, RA, RB, RC, RD, 9, 5, 0x21e1cde6),
    (Round_G, RD, RA, RB, RC, 14, 9, 0xc33707d6),
    (Round_G, RC, RD, RA, RB, 3, 14, 0xf4d50d87),
    (Round_G, RB, RC, RD, RA, 8, 20, 0x455a14ed),
    (Round_G, RA, RB, RC, RD, 13, 5, 0xa9e3e905),
    (Round_G, RD, RA, RB, RC, 2, 9, 0xfcefa3f8),
    (Round_G, RC, RD, RA, RB, 7, 14, 0x676f02d9),
    (Round_G, RB, RC, RD, RA, 12, 20, 0x8d2a4c8a),
    (Round_H, RA, RB, RC, RD, 5, 4, 0xfffa3942),
    (Round_H, RD, RA, RB, RC, 8, 11, 0x8771f681),
    (Round_H, RC, RD, RA, RB, 11, 16, 0x6d9d6122),
    (Round_H, RB, RC, RD, RA, 14, 23, 0xfde5380c),
    (Round_H, RA, RB, RC, RD, 1, 4, 0xa4beea44),
    (Round_H, RD, RA, RB, RC, 4, 11, 0x4bdecfa9),
    (Round_H, RC, RD, RA, RB, 7, 16, 0xf6bb4b60),
    (Round_H, RB, RC, RD, RA, 10, 23, 0xbebfbc70),
    (Round_H, RA, RB, RC, RD, 13, 4, 0x289b7ec6),
    (Round_H, RD, RA, RB, RC, 0, 11, 0xeaa127fa),
    (Round_H, RC, RD, RA, RB, 3, 16, 0xd4ef3085),
    (Round_H, RB, RC, RD, RA, 6, 23, 0x4881d05),
    (Round_H, RA, RB, RC, RD, 9, 4, 0xd9d4d039),
    (Round_H, RD, RA, RB, RC, 12, 11, 0xe6db99e5),
    (Round_H, RC, RD, RA, RB, 15, 16, 0x1fa27cf8),
    (Round_H, RB, RC, RD, RA, 2, 23, 0xc4ac5665),
    (Round_I, RA, RB, RC, RD, 0, 6, 0xf4292244),
    (Round_I, RD, RA, RB, RC, 7, 10, 0x432aff97),
    (Round_I, RC, RD, RA, RB, 14, 15, 0xab9423a7),
    (Round_I, RB, RC, RD, RA, 5, 21, 0xfc93a039),
    (Round_I, RA, RB, RC, RD, 12, 6, 0x655b59c3),
    (Round_I, RD, RA, RB, RC, 3, 10, 0x8f0ccc92),
    (Round_I, RC, RD, RA, RB, 10, 15, 0xffeff47d),
    (Round_I, RB, RC, RD, RA, 1, 21, 0x85845dd1),
    (Round_I, RA, RB, RC, RD, 8, 6, 0x6fa87e4f),
    (Round_I, RD, RA, RB, RC, 15, 10, 0xfe2ce6e0),
    (Round_I, RC, RD, RA, RB, 6, 15, 0xa3014314),
    (Round_I, RB, RC, RD, RA, 13, 21, 0x4e0811a1),
    (Round_I, RA, RB, RC, RD, 4, 6, 0xf7537e82),
    (Round_I, RD, RA, RB, RC, 11, 10, 0xbd3af235),
    (Round_I, RC, RD, RA, RB, 2, 15, 0x2ad7d2bb),
    (Round_I, RB, RC, RD, RA, 9, 21, 0xeb86d391)]"

fun md5_decode :: "8 word list \<Rightarrow> 32 word list" where
  "md5_decode (b0 # b1 # b2 # b3 # bs) =
     (ucast b0 OR push_bit 8 (ucast b1) OR push_bit 16 (ucast b2) OR push_bit 24 (ucast b3)) # md5_decode bs"
| "md5_decode _ = []"

fun md5_encode :: "32 word list \<Rightarrow> 8 word list" where
  "md5_encode [] = []"
| "md5_encode (w # ws) =
     ucast (w AND 0xff) # ucast (drop_bit 8 w AND 0xff) # ucast (drop_bit 16 w AND 0xff) #
     ucast (drop_bit 24 w AND 0xff) # md5_encode ws"

definition chain_regs :: "md5_chain \<Rightarrow> md5_reg \<Rightarrow> 32 word" where
  "chain_regs st r = (case st of (a, b, c, d) \<Rightarrow> case r of RA \<Rightarrow> a | RB \<Rightarrow> b | RC \<Rightarrow> c | RD \<Rightarrow> d)"

definition md5_transform :: "8 word list \<Rightarrow> md5_chain \<Rightarrow> md5_chain" where
  "md5_transform block st =
     (let x = md5_decode block;
          rs = fold (md5_exec x) transform_lines (chain_regs st)
      in case st of (a, b, c, d) \<Rightarrow> (a + rs RA, b + rs RB, c + rs RC, d + rs RD))"

section \<open>The streaming interface\<close>

definition md5_reset :: "md5 \<Rightarrow> md5" where
  "md5_reset m = m\<lparr>md_finished := False, md_count := (0, 0), md_state := (0x67452301, 0xefcdab89, 0x98badcfe, 0x10325476)\<rparr>"

text \<open>
  \<^verbatim>\<open>for (i = partLen; i + 63 < length; i += 64) transform(&input[i])\<close> with a 32 bit counter against a 64 bit
  length.  \<open>None\<close> is a block read beyond the input, and also a loop that never ends.
\<close>

partial_function (option) transform_blocks :: "8 word list \<Rightarrow> nat \<Rightarrow> md5_chain \<Rightarrow> (nat \<times> md5_chain) option" where
  "transform_blocks input i st =
     (if (i + 63) mod 4294967296 < length input
      then if length input < i + 64 then None
           else transform_blocks input ((i + 64) mod 4294967296) (md5_transform (take 64 (drop i input)) st)
      else Some (i, st))"

declare transform_blocks.simps [code]

definition md5_index :: "md5 \<Rightarrow> nat" where
  "md5_index m = unat (drop_bit 3 (fst (md_count m)) AND 0x3f)"

definition md5_add_count :: "nat \<Rightarrow> 32 word \<times> 32 word \<Rightarrow> 32 word \<times> 32 word" where
  "md5_add_count len c =
     (let n = (word_of_nat len :: 32 word); c0 = fst c + push_bit 3 n;
          c1 = (if c0 < push_bit 3 n then snd c + 1 else snd c)
      in (c0, c1 + drop_bit 29 n))"

definition memcpy_at :: "nat \<Rightarrow> 'a list \<Rightarrow> 'a list \<Rightarrow> 'a list" where
  "memcpy_at i src dst = take i dst @ src @ drop (i + length src) dst"

definition md5_update :: "8 word list \<Rightarrow> md5 \<Rightarrow> md5 option" where
  "md5_update input m =
     (let index = md5_index m; partLen = 64 - index;
          m1 = m\<lparr>md_finished := False, md_count := md5_add_count (length input) (md_count m)\<rparr>
      in if partLen \<le> length input
         then let buf = memcpy_at index (take partLen input) (md_buffer m1)
              in map_option (\<lambda>(i, st). m1\<lparr>md_state := st, md_buffer := memcpy_at 0 (drop i input) buf\<rparr>)
                   (transform_blocks input partLen (md5_transform buf (md_state m1)))
         else Some (m1\<lparr>md_buffer := memcpy_at index input (md_buffer m1)\<rparr>))"

definition md5_PADDING :: "8 word list" where
  "md5_PADDING = 0x80 # replicate 63 0"

definition chain_list :: "md5_chain \<Rightarrow> 32 word list" where
  "chain_list st = (case st of (a, b, c, d) \<Rightarrow> [a, b, c, d])"

definition md5_final :: "md5 \<Rightarrow> md5 option" where
  "md5_final m =
     (let bits = md5_encode [fst (md_count m), snd (md_count m)];
          index = md5_index m;
          padLen = (if index < 56 then 56 - index else 120 - index)
      in map_option (\<lambda>m2. m2\<lparr>md_digest := md5_encode (chain_list (md_state m2)), md_state := md_state m, md_count := md_count m\<rparr>)
           (Option.bind (md5_update (take padLen md5_PADDING) m) (md5_update bits)))"

definition digest :: "md5 \<Rightarrow> md5 option" where
  "digest m = (if \<not> md_finished m then md5_final (m\<lparr>md_finished := True\<rparr>) else Some m)"

definition md5_HEX :: string where
  "md5_HEX = ''0123456789abcdef''"

definition bytesToHexString :: "8 word list \<Rightarrow> string" where
  "bytesToHexString bs = concat (map (\<lambda>b. [md5_HEX ! (unat b div 16), md5_HEX ! (unat b mod 16)]) bs)"

definition md5_tostring :: "md5 \<Rightarrow> (md5 \<times> string) option" where
  "md5_tostring m = map_option (\<lambda>m1. (m1, bytesToHexString (md_digest m1))) (digest m)"

text \<open>An object is constructed in memory that holds anything: \<open>junk\<close>.\<close>

definition ssl_md5 :: "md5 \<Rightarrow> 8 word list \<Rightarrow> string option" where
  "ssl_md5 junk input = map_option snd (Option.bind (md5_update input (md5_reset junk)) md5_tostring)"

section \<open>RFC 1321\<close>

definition rfc_T :: "32 word list" where
  "rfc_T =
   [0xd76aa478, 0xe8c7b756, 0x242070db, 0xc1bdceee, 0xf57c0faf, 0x4787c62a, 0xa8304613, 0xfd469501,
    0x698098d8, 0x8b44f7af, 0xffff5bb1, 0x895cd7be, 0x6b901122, 0xfd987193, 0xa679438e, 0x49b40821,
    0xf61e2562, 0xc040b340, 0x265e5a51, 0xe9b6c7aa, 0xd62f105d, 0x2441453, 0xd8a1e681, 0xe7d3fbc8,
    0x21e1cde6, 0xc33707d6, 0xf4d50d87, 0x455a14ed, 0xa9e3e905, 0xfcefa3f8, 0x676f02d9, 0x8d2a4c8a,
    0xfffa3942, 0x8771f681, 0x6d9d6122, 0xfde5380c, 0xa4beea44, 0x4bdecfa9, 0xf6bb4b60, 0xbebfbc70,
    0x289b7ec6, 0xeaa127fa, 0xd4ef3085, 0x4881d05, 0xd9d4d039, 0xe6db99e5, 0x1fa27cf8, 0xc4ac5665,
    0xf4292244, 0x432aff97, 0xab9423a7, 0xfc93a039, 0x655b59c3, 0x8f0ccc92, 0xffeff47d, 0x85845dd1,
    0x6fa87e4f, 0xfe2ce6e0, 0xa3014314, 0x4e0811a1, 0xf7537e82, 0xbd3af235, 0x2ad7d2bb, 0xeb86d391]"

definition rfc_macro :: "nat \<Rightarrow> md5_macro" where
  "rfc_macro i = (if i < 16 then Round_F else if i < 32 then Round_G else if i < 48 then Round_H else Round_I)"

definition rfc_index :: "nat \<Rightarrow> nat" where
  "rfc_index i = (if i < 16 then i else if i < 32 then (5 * i + 1) mod 16 else if i < 48 then (3 * i + 5) mod 16 else (7 * i) mod 16)"

definition rfc_shift :: "nat \<Rightarrow> nat" where
  "rfc_shift i = [[7, 12, 17, 22], [5, 9, 14, 20], [4, 11, 16, 23], [6, 10, 15, 21]] ! (i div 16) ! (i mod 4)"

definition rfc_step :: "32 word list \<Rightarrow> nat \<Rightarrow> md5_chain \<Rightarrow> md5_chain" where
  "rfc_step x i = (\<lambda>(a, b, c, d).
     (d, b + word_rotl (rfc_shift i) (a + md5_fun (rfc_macro i) b c d + x ! rfc_index i + rfc_T ! i), b, c))"

definition rfc_compress :: "8 word list \<Rightarrow> md5_chain \<Rightarrow> md5_chain" where
  "rfc_compress block st =
     (case (st, fold (rfc_step (md5_decode block)) [0..<64] st) of
        ((a, b, c, d), (a', b', c', d')) \<Rightarrow> (a + a', b + b', c + c', d + d'))"

definition rfc_pad :: "8 word list \<Rightarrow> 8 word list" where
  "rfc_pad msg = msg @ 0x80 # replicate ((119 - length msg mod 64) mod 64) 0 @
     md5_encode [word_of_nat (8 * length msg), word_of_nat (8 * length msg div 4294967296)]"

fun rfc_absorb :: "nat \<Rightarrow> 8 word list \<Rightarrow> md5_chain \<Rightarrow> md5_chain" where
  "rfc_absorb 0 bs st = st"
| "rfc_absorb (Suc n) bs st = rfc_absorb n (drop 64 bs) (rfc_compress (take 64 bs) st)"

definition rfc1321 :: "8 word list \<Rightarrow> 8 word list" where
  "rfc1321 msg = md5_encode (chain_list
     (rfc_absorb (length (rfc_pad msg) div 64) (rfc_pad msg) (0x67452301, 0xefcdab89, 0x98badcfe, 0x10325476)))"

section \<open>The unrolled lines are the 64 steps\<close>

lemma ROTATE_LEFT_rotl: "n < 32 \<Longrightarrow> ROTATE_LEFT x n = word_rotl n x"
proof (rule bit_word_eqI)
  fix k
  assume n: "n < 32" and "k < LENGTH(32)"
  then have k: "k < 32" by simp
  have len: "LENGTH(32) = 32" by simp
  have "(k + (32 - n mod 32)) mod 32 = (if k < n then k + (32 - n) else k - n)"
    using n k by (cases "n = 0") (auto simp: mod_if)
  then have r: "bit (word_rotl n x) k = bit x (if k < n then k + (32 - n) else k - n)"
    unfolding bit_word_rotl_iff len using k by simp
  have l: "bit (ROTATE_LEFT x n) k \<longleftrightarrow> n \<le> k \<and> bit x (k - n) \<or> bit x (32 - n + k)"
    unfolding ROTATE_LEFT_def bit_or_iff bit_push_bit_iff possible_bit_word bit_drop_bit_eq comp_def len using k by blast
  have "\<not> bit x (32 - n + k)" if "n \<le> k"
  proof
    assume "bit x (32 - n + k)"
    then have "32 - n + k < 32" using bit_imp_le_length len by metis
    then show False using n that by linarith
  qed
  then show "bit (ROTATE_LEFT x n) k = bit (word_rotl n x) k"
    unfolding r l by (auto simp: add.commute)
qed

definition line_regs :: "nat \<Rightarrow> md5_reg \<times> md5_reg \<times> md5_reg \<times> md5_reg" where
  "line_regs i = (if i mod 4 = 0 then (RA, RB, RC, RD) else if i mod 4 = 1 then (RD, RA, RB, RC)
     else if i mod 4 = 2 then (RC, RD, RA, RB) else (RB, RC, RD, RA))"

definition line :: "nat \<Rightarrow> md5_line" where
  "line i = (case line_regs i of (a, b, c, d) \<Rightarrow> (rfc_macro i, a, b, c, d, rfc_index i, rfc_shift i, rfc_T ! i))"

definition read_regs :: "md5_reg \<times> md5_reg \<times> md5_reg \<times> md5_reg \<Rightarrow> (md5_reg \<Rightarrow> 32 word) \<Rightarrow> md5_chain" where
  "read_regs = (\<lambda>(a, b, c, d) rs. (rs a, rs b, rs c, rs d))"

lemma upt_64: "[0..<64] = [0, 1, 2, 3, 4, 5, 6, 7, 8, 9, 10, 11, 12, 13, 14, 15,
    16, 17, 18, 19, 20, 21, 22, 23, 24, 25, 26, 27, 28, 29, 30, 31,
    32, 33, 34, 35, 36, 37, 38, 39, 40, 41, 42, 43, 44, 45, 46, 47,
    48, 49, 50, 51, 52, 53, 54, 55, 56, 57, 58, 59, 60, 61, 62, 63]"
  by (simp add: upt_conv_Cons)

lemma transform_lines_eq: "transform_lines = map line [0..<64]"
  unfolding upt_64
  by (simp add: transform_lines_def line_def line_regs_def rfc_macro_def rfc_index_def rfc_shift_def rfc_T_def)

lemma rfc_shift_less: "i < 64 \<Longrightarrow> rfc_shift i < 32"
proof -
  assume "i < 64"
  then have "i div 16 < 4" "i mod 4 < 4" by auto
  then have "i div 16 \<in> {0, 1, 2, 3}" "i mod 4 \<in> {0, 1, 2, 3}" by auto
  then show ?thesis unfolding rfc_shift_def by (elim insertE) simp_all
qed

lemma md5_exec_line:
  assumes "i < 64"
  shows "read_regs (line_regs (Suc i)) (md5_exec x (line i) rs) = rfc_step x i (read_regs (line_regs i) rs)"
proof -
  have "i mod 4 = 0 \<or> i mod 4 = 1 \<or> i mod 4 = 2 \<or> i mod 4 = 3" by presburger
  then show ?thesis
    by (elim disjE)
      (simp_all add: line_def line_regs_def read_regs_def rfc_step_def mod_Suc ROTATE_LEFT_rotl rfc_shift_less [OF assms] algebra_simps)
qed

lemma md5_transform_eq: "md5_transform block st = rfc_compress block st"
proof -
  define x where "x = md5_decode block"
  have "n \<le> 64 \<Longrightarrow> read_regs (line_regs n) (fold (md5_exec x) (map line [0..<n]) (chain_regs st)) = fold (rfc_step x) [0..<n] st" for n
    by (induction n) (auto simp: md5_exec_line, simp add: read_regs_def line_regs_def chain_regs_def split: prod.splits)
  from this [of 64] have "read_regs (RA, RB, RC, RD) (fold (md5_exec x) transform_lines (chain_regs st)) = fold (rfc_step x) [0..<64] st"
    by (simp only: transform_lines_eq) (simp add: line_regs_def)
  then show ?thesis
    by (auto simp: md5_transform_def rfc_compress_def read_regs_def Let_def simp flip: x_def split: prod.splits)
qed

section \<open>Absorbing a message block by block\<close>

lemma rfc_absorb_add: "rfc_absorb (n + k) bs st = rfc_absorb k (drop (64 * n) bs) (rfc_absorb n bs st)"
  by (induction n arbitrary: bs st) (auto simp: algebra_simps)

lemma rfc_absorb_prefix: "64 * n \<le> length bs \<Longrightarrow> rfc_absorb n (bs @ cs) st = rfc_absorb n bs st"
  by (induction n arbitrary: bs st) auto

lemma transform_blocks_absorb:
  assumes "length input + 63 < 4294967296" "i \<le> length input"
  shows "transform_blocks input i st =
    Some (i + 64 * ((length input - i) div 64), rfc_absorb ((length input - i) div 64) (drop i input) st)"
  using assms(2)
proof (induction "(length input - i) div 64" arbitrary: i st)
  case 0
  then have "length input \<le> i + 63" by auto
  then show ?case using 0 assms by (subst transform_blocks.simps) auto
next
  case (Suc k)
  then have i: "i + 64 \<le> length input" and k: "k = (length input - (i + 64)) div 64" by auto
  have eq: "(length input - i) div 64 = Suc ((length input - (i + 64)) div 64)" using Suc(2) k by simp
  show ?case
    using Suc(1) [OF k i, of "rfc_compress (take 64 (drop i input)) st"] i assms
    by (subst transform_blocks.simps) (simp add: eq md5_transform_eq algebra_simps)
qed

definition md5_init :: md5_chain where
  "md5_init = (0x67452301, 0xefcdab89, 0x98badcfe, 0x10325476)"

definition md5_holds :: "8 word list \<Rightarrow> md5 \<Rightarrow> bool" where
  "md5_holds msg m \<longleftrightarrow>
     md_state m = rfc_absorb (length msg div 64) msg md5_init \<and>
     md_count m = (word_of_nat (8 * length msg), word_of_nat (8 * length msg div 4294967296)) \<and>
     length (md_buffer m) = 64 \<and>
     take (length msg mod 64) (md_buffer m) = drop (64 * (length msg div 64)) msg"

lemma md5_index_holds: "md5_holds msg m \<Longrightarrow> md5_index m = length msg mod 64"
proof -
  assume "md5_holds msg m"
  then have "md5_index m = unat (take_bit 6 (drop_bit 3 (word_of_nat (8 * length msg) :: 32 word)))"
    by (simp add: md5_index_def md5_holds_def take_bit_eq_mask mask_eq_exp_minus_1)
  also have "\<dots> = (8 * length msg mod 4294967296) div 8 mod 64"
    by (simp only: unsigned_take_bit_eq unat_drop_bit_eq unat_of_nat) (simp add: take_bit_eq_mod drop_bit_eq_div)
  also have "8 * length msg mod 4294967296 = 8 * (length msg mod 536870912)"
    using mult_mod_right [of 8 "length msg" 536870912] by simp
  also have "\<dots> div 8 mod 64 = length msg mod 64" by (simp add: mod_mod_cancel)
  finally show ?thesis .
qed

lemma add_mod_less_iff: "a < M \<Longrightarrow> b < M \<Longrightarrow> (a + b) mod M < b \<longleftrightarrow> M \<le> a + b" for a b M :: nat
  by (cases "M \<le> a + b") (auto simp: mod_if)

lemma div_carry: "0 < M \<Longrightarrow> (a + b) div M = a div M + b div M + (if M \<le> a mod M + b mod M then 1 else 0)" for a b M :: nat
proof -
  assume M: "0 < M"
  then have "a mod M + b mod M < M + M" by (intro add_strict_mono) auto
  then have "(a mod M + b mod M) div M = (if M \<le> a mod M + b mod M then 1 else 0)"
    using M by (auto simp: div_if)
  then show ?thesis by (simp add: div_add1_eq [of a b])
qed

lemma md5_add_count_eq:
  assumes "len < 4294967296"
  shows "md5_add_count len (word_of_nat (8 * n), word_of_nat (8 * n div 4294967296)) =
    (word_of_nat (8 * (n + len)), word_of_nat (8 * (n + len) div 4294967296))"
proof -
  let ?M = "4294967296 :: nat"
  have p: "push_bit 3 (word_of_nat len :: 32 word) = word_of_nat (8 * len)"
    by (simp add: push_bit_eq_mult)
  have d: "drop_bit 29 (word_of_nat len :: 32 word) = word_of_nat (8 * len div ?M)"
    using assms by (intro word_unat_eq_iff [THEN iffD2]) (simp only: unat_drop_bit_eq unat_of_nat, simp add: drop_bit_eq_div)
  have c: "(word_of_nat (8 * n) + word_of_nat (8 * len) < (word_of_nat (8 * len) :: 32 word)) \<longleftrightarrow>
      ?M \<le> 8 * n mod ?M + 8 * len mod ?M"
    using add_mod_less_iff [of "8 * n mod ?M" ?M "8 * len mod ?M"]
    by (simp only: word_less_nat_alt unat_word_ariths unat_of_nat) simp
  have e: "8 * (n + len) div ?M = 8 * n div ?M + 8 * len div ?M + (if ?M \<le> 8 * n mod ?M + 8 * len mod ?M then 1 else 0)"
    using div_carry [of ?M "8 * n" "8 * len"] by (simp only: distrib_left)
  show ?thesis
    unfolding md5_add_count_def Let_def fst_conv snd_conv p d c e by (simp add: distrib_left)
qed

lemma div_mod_64: "n = 64 * a + b \<Longrightarrow> b < 64 \<Longrightarrow> n div 64 = a \<and> n mod 64 = b" for n a b :: nat
  by simp

lemma length_memcpy_at: "i + length src \<le> length dst \<Longrightarrow> length (memcpy_at i src dst) = length dst"
  by (simp add: memcpy_at_def)

lemma take_memcpy_at: "i \<le> length dst \<Longrightarrow> take (i + length src) (memcpy_at i src dst) = take i dst @ src"
  by (simp add: memcpy_at_def)

lemma md5_update_holds:
  assumes m: "md5_holds msg m" and len: "length input + 63 < 4294967296"
  shows "\<exists>m'. md5_update input m = Some m' \<and> md5_holds (msg @ input) m' \<and> \<not> md_finished m' \<and>
    (64 \<le> length msg mod 64 + length input \<longrightarrow>
       drop (length (msg @ input) mod 64) (md_buffer m') = drop (length (msg @ input) mod 64) (memcpy_at (length msg mod 64) (take (64 - length msg mod 64) input) (md_buffer m)))"
proof -
  let ?n = "length msg" and ?l = "length input"
  define r where "r = ?n mod 64"
  define q where "q = ?n div 64"
  have n: "?n = 64 * q + r" "r < 64" by (auto simp: q_def r_def)
  have buf: "length (md_buffer m) = 64" "take r (md_buffer m) = drop (64 * q) msg"
    and st: "md_state m = rfc_absorb q msg md5_init" using m by (auto simp: md5_holds_def q_def r_def)
  have cnt: "md5_add_count ?l (md_count m) = (word_of_nat (8 * (?n + ?l)), word_of_nat (8 * (?n + ?l) div 4294967296))"
    using m len md5_add_count_eq [of ?l ?n] by (simp add: md5_holds_def)
  have idx: "md5_index m = r" using md5_index_holds [OF m] by (simp add: r_def)
  show ?thesis
  proof (cases "64 - r \<le> ?l")
    case False
    then have "?n + ?l = 64 * q + (r + ?l)" "r + ?l < 64" using n by auto
    then have "(?n + ?l) div 64 = q" "(?n + ?l) mod 64 = r + ?l"
      using div_mod_64 by blast+
    then show ?thesis
      using False n buf st cnt idx take_memcpy_at [of r "md_buffer m" input]
      by (auto simp: md5_update_def md5_holds_def Let_def length_memcpy_at rfc_absorb_prefix r_def [symmetric])
  next
    case True
    define p where "p = take (64 - r) input"
    define b where "b = memcpy_at r p (md_buffer m)"
    define k where "k = (?l - (64 - r)) div 64"
    define e where "e = (64 - r) + 64 * k"
    have p: "length p = 64 - r" using True by (simp add: p_def)
    have b: "b = drop (64 * q) msg @ p" "length b = 64" using n buf p by (simp_all add: b_def memcpy_at_def)
    have dm: "(?n + ?l) div 64 = q + Suc k" "(?n + ?l) mod 64 = ?l - e" "e \<le> ?l" "?l - e < 64"
    proof -
      have "?l - (64 - r) = 64 * k + (?l - (64 - r)) mod 64" by (simp add: k_def)
      then have "?n + ?l = 64 * (q + Suc k) + (?l - (64 - r)) mod 64" and e: "?l - e = (?l - (64 - r)) mod 64" and "e \<le> ?l"
        using n True by (auto simp: e_def)
      then show "(?n + ?l) div 64 = q + Suc k" "(?n + ?l) mod 64 = ?l - e" "e \<le> ?l" "?l - e < 64"
        using div_mod_64 [of "?n + ?l" "q + Suc k" "?l - e"] by simp_all
    qed
    have "rfc_absorb (q + Suc k) (msg @ input) md5_init = rfc_absorb (Suc k) (drop (64 * q) (msg @ input)) (md_state m)"
      unfolding rfc_absorb_add st using n by (simp add: rfc_absorb_prefix del: rfc_absorb.simps)
    also have "drop (64 * q) (msg @ input) = b @ drop (64 - r) input"
      using n by (simp add: b p_def)
    also have "rfc_absorb (Suc k) (b @ drop (64 - r) input) (md_state m) = rfc_absorb k (drop (64 - r) input) (rfc_compress b (md_state m))"
      using b(2) by simp
    finally have state: "rfc_absorb (q + Suc k) (msg @ input) md5_init =
      rfc_absorb k (drop (64 - r) input) (rfc_compress b (md_state m))" .
    define m' where "m' = m\<lparr>md_finished := False, md_count := md5_add_count ?l (md_count m),
        md_state := rfc_absorb k (drop (64 - r) input) (rfc_compress b (md_state m)), md_buffer := memcpy_at 0 (drop e input) b\<rparr>"
    have u: "md5_update input m = Some m'"
      using True len transform_blocks_absorb [of input "64 - r" "rfc_compress b (md_state m)"]
      by (simp add: md5_update_def Let_def idx md5_transform_eq k_def e_def p_def b_def m'_def)
    have tail: "drop (64 * (q + Suc k)) (msg @ input) = drop e input"
      using n by (simp add: e_def algebra_simps)
    have le: "length (drop e input) = ?l - e" by simp
    have "md5_holds (msg @ input) m'"
      unfolding md5_holds_def length_append dm(1) dm(2) state tail
      using cnt dm(3,4) b(2) take_memcpy_at [of 0 b "drop e input"] unfolding le
      by (simp add: m'_def length_memcpy_at)
    moreover have "drop (length (msg @ input) mod 64) (md_buffer m') = drop (length (msg @ input) mod 64) b"
      unfolding length_append dm(2) using dm(3,4) by (simp add: m'_def memcpy_at_def)
    moreover have "\<not> md_finished m'" by (simp add: m'_def)
    ultimately show ?thesis using u unfolding b_def p_def r_def by blast
  qed
qed

section \<open>The digest\<close>

definition md5_bits :: "8 word list \<Rightarrow> 8 word list" where
  "md5_bits msg = md5_encode [word_of_nat (8 * length msg), word_of_nat (8 * length msg div 4294967296)]"

lemma length_md5_bits [simp]: "length (md5_bits msg) = 8"
  by (simp add: md5_bits_def)

definition pad_len :: "nat \<Rightarrow> nat" where
  "pad_len r = (if r < 56 then 56 - r else 120 - r)"

lemma pad_len_le: "r < 64 \<Longrightarrow> pad_len r \<le> 64"
  by (auto simp: pad_len_def)

lemma rfc_pad_eq: "rfc_pad msg = msg @ take (pad_len (length msg mod 64)) md5_PADDING @ md5_bits msg"
proof -
  define r where "r = length msg mod 64"
  have r: "r < 64" by (simp add: r_def)
  have p: "pad_len r = Suc ((119 - r) mod 64)" "(119 - r) mod 64 \<le> 63"
    using r by (auto simp: pad_len_def mod_if)
  then have "take (pad_len r) md5_PADDING = 0x80 # replicate ((119 - r) mod 64) 0"
    by (simp add: md5_PADDING_def min_def)
  then show ?thesis by (simp add: rfc_pad_def md5_bits_def flip: r_def)
qed

text \<open>
  Computing the digest restores the state and the count, but not the buffer: a tail of 56 or more bytes has
  been overwritten by the padding and by the length.
\<close>

definition after_digest :: "8 word list \<Rightarrow> 8 word list" where
  "after_digest msg =
     (let r = length msg mod 64
      in if r < 56 then msg
         else take (64 * (length msg div 64)) msg @ replicate 56 0 @ take (r - 56) (md5_bits msg))"

lemma md5_final_holds:
  assumes m: "md5_holds msg m"
  shows "\<exists>m'. md5_final m = Some m' \<and> md_digest m' = rfc1321 msg \<and> \<not> md_finished m' \<and> md5_holds (after_digest msg) m'"
proof -
  define r where "r = length msg mod 64"
  define q where "q = length msg div 64"
  define pad where "pad = take (pad_len r) md5_PADDING"
  have n: "length msg = 64 * q + r" "r < 64" by (simp_all add: q_def r_def)
  have lp: "length pad = pad_len r" using n by (simp add: pad_def md5_PADDING_def pad_len_def)
  have bits: "md5_encode [fst (md_count m), snd (md_count m)] = md5_bits msg"
    using m by (simp add: md5_holds_def md5_bits_def)
  have "length pad + 63 < 4294967296" using lp pad_len_le [OF n(2)] by linarith
  then obtain m1 where m1: "md5_update pad m = Some m1" "md5_holds (msg @ pad) m1"
    using md5_update_holds [OF m] by blast
  have len1: "length (msg @ pad) = 64 * (if r < 56 then q else Suc q) + 56"
    using n lp by (simp add: pad_len_def)
  then have mod1: "length (msg @ pad) mod 64 = 56" and div1: "length (msg @ pad) div 64 = (if r < 56 then q else Suc q)"
    by simp_all
  have buf1: "take 56 (md_buffer m1) = drop (64 * (if r < 56 then q else Suc q)) (msg @ pad)" "length (md_buffer m1) = 64"
    using m1(2) unfolding md5_holds_def mod1 div1 by blast+
  obtain m2 where m2: "md5_update (md5_bits msg) m1 = Some m2" "md5_holds (rfc_pad msg) m2" "\<not> md_finished m2"
    and b2: "drop (length (rfc_pad msg) mod 64) (md_buffer m2) =
      drop (length (rfc_pad msg) mod 64) (memcpy_at 56 (md5_bits msg) (md_buffer m1))"
    using md5_update_holds [OF m1(2), of "md5_bits msg"] mod1 by (auto simp: rfc_pad_eq pad_def r_def)
  have "length (rfc_pad msg) = length (msg @ pad) + 8" by (simp add: rfc_pad_eq pad_def r_def)
  then have mod2: "length (rfc_pad msg) mod 64 = 0" using len1 by simp
  then have buf2: "md_buffer m2 = drop (64 * (if r < 56 then q else Suc q)) (msg @ pad) @ md5_bits msg"
    using b2 buf1 by (simp add: memcpy_at_def)
  define m' where "m' = m2\<lparr>md_digest := md5_encode (chain_list (md_state m2)), md_state := md_state m, md_count := md_count m\<rparr>"
  have "md5_final m = map_option (\<lambda>m2. m2\<lparr>md_digest := md5_encode (chain_list (md_state m2)), md_state := md_state m, md_count := md_count m\<rparr>)
      (Option.bind (md5_update pad m) (md5_update (md5_bits msg)))"
    unfolding md5_final_def Let_def bits md5_index_holds [OF m] pad_def pad_len_def r_def ..
  then have f: "md5_final m = Some m'" by (simp add: m1(1) m2(1) m'_def)
  have d: "md_digest m' = rfc1321 msg"
    using m2(2) by (simp add: m'_def rfc1321_def md5_holds_def md5_init_def)
  have "md5_holds (after_digest msg) m'"
  proof (cases "r < 56")
    case True
    then show ?thesis
      using m n buf2 by (simp add: md5_holds_def after_digest_def Let_def m'_def lp pad_len_def flip: r_def q_def)
  next
    case False
    have "length pad = 120 - r" using lp False by (simp add: pad_len_def)
    moreover have "pad_len r = Suc (119 - r)" "119 - r \<le> 63" using False n by (simp_all add: pad_len_def)
    then have "pad = 0x80 # replicate (119 - r) 0" by (simp add: pad_def md5_PADDING_def min_def)
    ultimately have z: "drop (64 * Suc q) (msg @ pad) = replicate 56 0"
      using n False by (simp add: drop_Cons')
    have l: "length (after_digest msg) = length msg"
      using False n by (simp add: after_digest_def Let_def flip: r_def q_def)
    have a: "rfc_absorb q (after_digest msg) md5_init = rfc_absorb q msg md5_init"
      using False n rfc_absorb_prefix [of q "take (64 * q) msg" "drop (64 * q) msg"]
        rfc_absorb_prefix [of q "take (64 * q) msg" "replicate 56 0 @ take (r - 56) (md5_bits msg)"]
      by (simp add: after_digest_def Let_def flip: r_def q_def)
    show ?thesis
      unfolding md5_holds_def l using m n buf2 z a False
      by (simp add: md5_holds_def m'_def after_digest_def Let_def flip: r_def q_def)
  qed
  then show ?thesis using f d m2(3) by (auto simp: m'_def)
qed

fun md5_updates :: "8 word list list \<Rightarrow> md5 \<Rightarrow> md5 option" where
  "md5_updates [] m = Some m"
| "md5_updates (c # cs) m = Option.bind (md5_update c m) (md5_updates cs)"

lemma md5_reset_holds: "length (md_buffer junk) = 64 \<Longrightarrow> md5_holds [] (md5_reset junk) \<and> \<not> md_finished (md5_reset junk)"
  by (simp add: md5_holds_def md5_reset_def md5_init_def)

lemma md5_updates_holds:
  "md5_holds msg m \<Longrightarrow> \<not> md_finished m \<Longrightarrow> \<forall>c \<in> set cs. length c + 63 < 4294967296 \<Longrightarrow>
   \<exists>m'. md5_updates cs m = Some m' \<and> md5_holds (msg @ concat cs) m' \<and> \<not> md_finished m'"
proof (induction cs arbitrary: msg m)
  case (Cons c cs)
  then obtain m1 where "md5_update c m = Some m1" "md5_holds (msg @ c) m1" "\<not> md_finished m1"
    using md5_update_holds [of msg m c] by auto
  then show ?case using Cons.IH [of "msg @ c" m1] Cons.prems(3) by auto
qed simp

lemma md5_holds_finished [simp]: "md5_holds msg (m\<lparr>md_finished := b\<rparr>) = md5_holds msg m"
  by (simp add: md5_holds_def)

lemma digest_holds:
  "md5_holds msg m \<Longrightarrow> \<not> md_finished m \<Longrightarrow>
   \<exists>m'. digest m = Some m' \<and> md_digest m' = rfc1321 msg \<and> \<not> md_finished m' \<and> md5_holds (after_digest msg) m'"
  using md5_final_holds [of msg "m\<lparr>md_finished := True\<rparr>"] by (simp add: digest_def)

text \<open>C24.
  However a message is cut into pieces, each less than 63 bytes short of 4 GB, the object constructed in any
  memory returns on \<open>tostring\<close>, after the pieces have been handed to \<open>update\<close>, the hexadecimal digits of the
  digest that RFC 1321 defines for the whole message: the loop over the blocks ends and stays within the input.
\<close>

theorem md5_streaming:
  assumes "length (md_buffer junk) = 64" "\<forall>c \<in> set cs. length c + 63 < 4294967296"
  shows "map_option snd (Option.bind (md5_updates cs (md5_reset junk)) md5_tostring) = Some (bytesToHexString (rfc1321 (concat cs)))"
proof -
  obtain m where m: "md5_updates cs (md5_reset junk) = Some m" "md5_holds (concat cs) m" "\<not> md_finished m"
    using md5_updates_holds [of "[]" "md5_reset junk" cs] md5_reset_holds [OF assms(1)] assms(2) by auto
  then show ?thesis using digest_holds [OF m(2,3)] by (auto simp: md5_tostring_def)
qed

theorem md5_streaming_witness:
  "map_option snd (Option.bind (md5_updates [[97], [98, 99]] (md5_reset (md5.make (0, 0, 0, 0) (0, 0) (replicate 64 7) [] True))) md5_tostring) =
     Some (bytesToHexString (rfc1321 [97, 98, 99]))"
  using md5_streaming [of "md5.make (0, 0, 0, 0) (0, 0) (replicate 64 7) [] True" "[[97], [98, 99]]"]
  by (simp add: md5.defs)

lemma ssl_md5_correct:
  assumes "length (md_buffer junk) = 64" "length input + 63 < 4294967296"
  shows "ssl_md5 junk input = Some (bytesToHexString (rfc1321 input))"
proof -
  obtain m where m: "md5_update input (md5_reset junk) = Some m" "md5_holds input m" "\<not> md_finished m"
    using md5_update_holds [of "[]" "md5_reset junk" input] md5_reset_holds [OF assms(1)] assms(2) by auto
  then show ?thesis using digest_holds [OF m(2,3)] by (auto simp: ssl_md5_def md5_tostring_def)
qed

text \<open>
  The digest can be asked for a second time only as long as fewer than 56 bytes are waiting in the buffer:
  \<open>update\<close> clears the mark \<open>md_finished\<close> that \<open>digest\<close> has just set, so the digest is computed anew, now from
  a buffer that \<open>final\<close> has overwritten.
\<close>

lemma second_digest:
  assumes "md5_holds msg m" "\<not> md_finished m"
  shows "map_option md_digest (Option.bind (digest m) digest) = Some (rfc1321 (after_digest msg))"
proof -
  obtain m1 where m1: "digest m = Some m1" "\<not> md_finished m1" "md5_holds (after_digest msg) m1"
    using digest_holds [OF assms] by auto
  then show ?thesis using digest_holds [OF m1(3,2)] by auto
qed

text \<open>The first test of the RFC, for the tables.\<close>

lemma rfc_steps_0: "fold (rfc_step [0x80, 0, 0, 0, 0, 0, 0, 0, 0, 0, 0, 0, 0, 0, 0, 0]) [0, 1, 2, 3, 4, 5, 6, 7] (0x67452301, 0xefcdab89, 0x98badcfe, 0x10325476) = (0x32033344, 0x9bc13ce9, 0xf5b158db, 0x2f35d494)"
  by code_simp

lemma rfc_steps_1: "fold (rfc_step [0x80, 0, 0, 0, 0, 0, 0, 0, 0, 0, 0, 0, 0, 0, 0, 0]) [8, 9, 10, 11, 12, 13, 14, 15] (0x32033344, 0x9bc13ce9, 0xf5b158db, 0x2f35d494) = (0xf56c7cf1, 0xd6819c6a, 0x5aa53f75, 0x374943a7)"
  by code_simp

lemma rfc_steps_2: "fold (rfc_step [0x80, 0, 0, 0, 0, 0, 0, 0, 0, 0, 0, 0, 0, 0, 0, 0]) [16, 17, 18, 19, 20, 21, 22, 23] (0xf56c7cf1, 0xd6819c6a, 0x5aa53f75, 0x374943a7) = (0x3d1e3e6c, 0xe422531a, 0xeb41643e, 0x68b7b3e3)"
  by code_simp

lemma rfc_steps_3: "fold (rfc_step [0x80, 0, 0, 0, 0, 0, 0, 0, 0, 0, 0, 0, 0, 0, 0, 0]) [24, 25, 26, 27, 28, 29, 30, 31] (0x3d1e3e6c, 0xe422531a, 0xeb41643e, 0x68b7b3e3) = (0x13707036, 0xa2205f1f, 0x1c31c384, 0xae7813db)"
  by code_simp

lemma rfc_steps_4: "fold (rfc_step [0x80, 0, 0, 0, 0, 0, 0, 0, 0, 0, 0, 0, 0, 0, 0, 0]) [32, 33, 34, 35, 36, 37, 38, 39] (0x13707036, 0xa2205f1f, 0x1c31c384, 0xae7813db) = (0x5f7a9b2e, 0xc5dc8c15, 0x91ca4cb7, 0xabc34e16)"
  by code_simp

lemma rfc_steps_5: "fold (rfc_step [0x80, 0, 0, 0, 0, 0, 0, 0, 0, 0, 0, 0, 0, 0, 0, 0]) [40, 41, 42, 43, 44, 45, 46, 47] (0x5f7a9b2e, 0xc5dc8c15, 0x91ca4cb7, 0xabc34e16) = (0x3f55edfd, 0xca7d2dbd, 0x68d84ea2, 0x22a31f54)"
  by code_simp

lemma rfc_steps_6: "fold (rfc_step [0x80, 0, 0, 0, 0, 0, 0, 0, 0, 0, 0, 0, 0, 0, 0, 0]) [48, 49, 50, 51, 52, 53, 54, 55] (0x3f55edfd, 0xca7d2dbd, 0x68d84ea2, 0x22a31f54) = (0x5625a114, 0x1e77fa61, 0x392ad0d0, 0x3450f42b)"
  by code_simp

lemma rfc_steps_7: "fold (rfc_step [0x80, 0, 0, 0, 0, 0, 0, 0, 0, 0, 0, 0, 0, 0, 0, 0]) [56, 57, 58, 59, 60, 61, 62, 63] (0x5625a114, 0x1e77fa61, 0x392ad0d0, 0x3450f42b) = (0x7246fad3, 0x14e45506, 0xff4ea3eb, 0x6e10a476)"
  by code_simp

lemma rfc_pad_Nil: "md5_decode (rfc_pad []) = [0x80, 0, 0, 0, 0, 0, 0, 0, 0, 0, 0, 0, 0, 0, 0, 0]"
proof -
  have "replicate 55 (0 :: 8 word) = [0, 0, 0, 0, 0, 0, 0, 0, 0, 0, 0, 0, 0, 0, 0, 0, 0, 0, 0, 0, 0, 0, 0, 0, 0, 0, 0, 0, 0, 0, 0, 0, 0, 0, 0, 0, 0, 0, 0, 0, 0, 0, 0, 0, 0, 0, 0, 0, 0, 0, 0, 0, 0, 0, 0]" by (simp add: numeral_eq_Suc)
  then have "rfc_pad [] = 0x80 # [0, 0, 0, 0, 0, 0, 0, 0, 0, 0, 0, 0, 0, 0, 0, 0, 0, 0, 0, 0, 0, 0, 0, 0, 0, 0, 0, 0, 0, 0, 0, 0, 0, 0, 0, 0, 0, 0, 0, 0, 0, 0, 0, 0, 0, 0, 0, 0, 0, 0, 0, 0, 0, 0, 0] @ [0, 0, 0, 0, 0, 0, 0, 0]" by (simp add: rfc_pad_def)
  then show ?thesis by simp
qed

lemma rfc1321_Nil: "bytesToHexString (rfc1321 []) = ''d41d8cd98f00b204e9800998ecf8427e''"
proof -
  have l: "length (rfc_pad []) = 64" by (simp add: rfc_pad_def)
  have k: "length (rfc_pad []) div 64 = Suc 0" and t: "take 64 (rfc_pad []) = rfc_pad []" by (simp_all add: l)
  have "fold (rfc_step (md5_decode (rfc_pad []))) [0..<64] md5_init = (0x7246fad3, 0x14e45506, 0xff4ea3eb, 0x6e10a476)"
    unfolding upt_64 rfc_pad_Nil md5_init_def
    using rfc_steps_0 rfc_steps_1 rfc_steps_2 rfc_steps_3 rfc_steps_4 rfc_steps_5 rfc_steps_6 rfc_steps_7
    by (simp only: fold.simps comp_def id_def)
  then have "rfc_compress (rfc_pad []) md5_init = (0xd98c1dd4, 0x04b2008f, 0x980980e9, 0x7e42f8ec)"
    by (simp add: rfc_compress_def md5_init_def)
  then have r: "rfc1321 [] = md5_encode [0xd98c1dd4, 0x04b2008f, 0x980980e9, 0x7e42f8ec]"
    unfolding rfc1321_def md5_init_def [symmetric] k rfc_absorb.simps t by (simp add: chain_list_def)
  show ?thesis unfolding r by code_simp
qed

end
