(* ===== verification/Events.thy ===== *)
theory Events
  imports Prelude "HOL-Library.Word"
begin

text \<open>
  The table of timed events of \<^verbatim>\<open>src/common/event_table_object.cpp\<close>, \<^verbatim>\<open>event_manager.h\<close> and
  \<^verbatim>\<open>event_call_back.h\<close>.  An event is shared by the object that asked for it (\<open>o_events\<close>, a multimap from
  types to events) and by a holder that runs it (\<open>h_list\<close>); a reference count decides when it is freed.
  The memory of events is the map \<open>heap\<close>; \<open>None\<close> is the use of memory that has been freed.
  What a callback does when it is run is an argument of the model: a function from the table and the callback to the
  operations it calls, any operation of the table and the destruction of any object among them.
\<close>

unbundle bit_operations_syntax

section \<open>Callbacks\<close>

text \<open>A callback keeps the object, the method and the arguments; \<open>None\<close> is a null pointer.\<close>

record ('m, 'a) callback =
  cb_self :: "nat option"
  cb_fun :: "'m option"
  cb_args :: "'a list"

definition CallbackP :: "nat option \<Rightarrow> 'm option \<Rightarrow> 'a list \<Rightarrow> ('m, 'a) callback" where
  "CallbackP obj f args = \<lparr>cb_self = obj, cb_fun = f, cb_args = args\<rparr>"

text \<open>The constructor for ten arguments stores the number ten for the last one.\<close>

definition CallbackP10 :: "nat option \<Rightarrow> 'm option \<Rightarrow> 'a list \<Rightarrow> 'a \<Rightarrow> ('m, 'a) callback" where
  "CallbackP10 obj f args ten = \<lparr>cb_self = obj, cb_fun = f, cb_args = butlast args @ [ten]\<rparr>"

definition execute :: "('m, 'a) callback \<Rightarrow> (nat \<times> 'm \<times> 'a list) option" where
  "execute cb =
     (case cb_self cb of None \<Rightarrow> None
      | Some self \<Rightarrow> (case cb_fun cb of None \<Rightarrow> None | Some f \<Rightarrow> Some (self, f, cb_args cb)))"

section \<open>Events, objects and holders\<close>

record ('m, 'a) timed_event =
  t_obj :: "nat option"
  t_cb :: "('m, 'a) callback option"
  t_type :: "32 word"
  t_flag :: "16 word"
  t_ms :: "32 word"
  t_curr :: "32 word"
  t_repeats :: "32 word"
  t_deleted :: bool
  t_instance :: "int"
  t_ref :: nat

record eobject =
  o_instance :: int
  o_holder :: "nat option"
  o_events :: "(32 word \<times> nat) list"

record eholder =
  h_instance :: int
  h_list :: "nat list"

record ('m, 'a) etable =
  heap :: "nat \<Rightarrow> ('m, 'a) timed_event option"
  next_event :: nat
  objects :: "nat \<Rightarrow> eobject option"
  eholders :: "nat \<Rightarrow> eholder option"
  mHolders :: "int \<Rightarrow> nat option"

definition EVENT_FLAG_DO_NOT_EXECUTE_IN_WORLD_CONTEXT :: "16 word" where
  "EVENT_FLAG_DO_NOT_EXECUTE_IN_WORLD_CONTEXT = 1"

definition EVENT_FLAG_DELETES_OBJECT :: "16 word" where
  "EVENT_FLAG_DELETES_OBJECT = 2"

definition EVENT_REMOVAL_FLAG_ALL :: "32 word" where
  "EVENT_REMOVAL_FLAG_ALL = 0xFFFFFFFF"

definition WORLD_INSTANCE :: int where
  "WORLD_INSTANCE = -1"

definition TimedEvent_new :: "nat \<Rightarrow> ('m, 'a) callback option \<Rightarrow> 32 word \<Rightarrow> 32 word \<Rightarrow> 32 word \<Rightarrow> 32 word \<Rightarrow> int \<Rightarrow> ('m, 'a) timed_event" where
  "TimedEvent_new obj cb ty time repeats flags junk =
     \<lparr>t_obj = Some obj, t_cb = cb, t_type = ty, t_flag = ucast flags, t_ms = time, t_curr = time, t_repeats = repeats,
      t_deleted = False, t_instance = junk, t_ref = 0\<rparr>"

definition set_event :: "nat \<Rightarrow> ('m, 'a) timed_event \<Rightarrow> ('m, 'a) etable \<Rightarrow> ('m, 'a) etable" where
  "set_event e ev w = w\<lparr>heap := (heap w)(e := Some ev)\<rparr>"

definition set_object :: "nat \<Rightarrow> eobject \<Rightarrow> ('m, 'a) etable \<Rightarrow> ('m, 'a) etable" where
  "set_object o' ob w = w\<lparr>objects := (objects w)(o' := Some ob)\<rparr>"

definition set_eholder :: "nat \<Rightarrow> eholder \<Rightarrow> ('m, 'a) etable \<Rightarrow> ('m, 'a) etable" where
  "set_eholder h hr w = w\<lparr>eholders := (eholders w)(h := Some hr)\<rparr>"

definition incRef :: "nat \<Rightarrow> ('m, 'a) etable \<Rightarrow> ('m, 'a) etable option" where
  "incRef e w = (case heap w e of None \<Rightarrow> None | Some ev \<Rightarrow> Some (set_event e (ev\<lparr>t_ref := t_ref ev + 1\<rparr>) w))"

definition decRef :: "nat \<Rightarrow> ('m, 'a) etable \<Rightarrow> ('m, 'a) etable option" where
  "decRef e w =
     (case heap w e of
        None \<Rightarrow> None
      | Some ev \<Rightarrow>
          if t_ref ev \<le> 1 then Some (w\<lparr>heap := (heap w)(e := None)\<rparr>)
          else Some (set_event e (ev\<lparr>t_obj := None, t_deleted := True, t_ref := t_ref ev - 1\<rparr>) w))"

fun decRefs :: "nat list \<Rightarrow> ('m, 'a) etable \<Rightarrow> ('m, 'a) etable option" where
  "decRefs [] w = Some w"
| "decRefs (e # es) w = Option.bind (decRef e w) (decRefs es)"

section \<open>Operations on the events of an object\<close>

definition getEventHolder :: "int \<Rightarrow> ('m, 'a) etable \<Rightarrow> nat option" where
  "getEventHolder i w = mHolders w i"

fun multi_insert :: "32 word \<Rightarrow> nat \<Rightarrow> (32 word \<times> nat) list \<Rightarrow> (32 word \<times> nat) list" where
  "multi_insert k e [] = [(k, e)]"
| "multi_insert k e ((a, b) # m) = (if k < a then (k, e) # (a, b) # m else (a, b) # multi_insert k e m)"

definition of_type :: "32 word \<Rightarrow> (32 word \<times> nat) list \<Rightarrow> nat list" where
  "of_type ty m = map snd (filter (\<lambda>(k, _). k = ty) m)"

definition holder_addEvent :: "nat \<Rightarrow> nat \<Rightarrow> ('m, 'a) etable \<Rightarrow> ('m, 'a) etable option" where
  "holder_addEvent h e w =
     Option.bind (incRef e w) (\<lambda>w1.
       case eholders w1 h of
         None \<Rightarrow> None
       | Some hr \<Rightarrow> Some (set_eholder h (hr\<lparr>h_list := h_list hr @ [e]\<rparr>) w1))"

text \<open>
  \<open>inst\<close> is the virtual function \<^verbatim>\<open>eventGetInstanceID\<close> of the objects.  An object without a holder takes
  that of its instance, otherwise that of the world; without either the assertion fails.
\<close>

definition eventAddEvent :: "(nat \<Rightarrow> int) \<Rightarrow> nat \<Rightarrow> nat \<Rightarrow> ('m, 'a) etable \<Rightarrow> ('m, 'a) etable option" where
  "eventAddEvent inst o' e w =
     (case objects w o' of
        None \<Rightarrow> None
      | Some ob \<Rightarrow>
          let ob1 = (if o_holder ob = None then ob\<lparr>o_instance := inst o', o_holder := getEventHolder (inst o') w\<rparr> else ob)
          in Option.bind (incRef e w) (\<lambda>w1.
             case heap w1 e of
               None \<Rightarrow> None
             | Some ev \<Rightarrow>
                 let w2 = set_event e (ev\<lparr>t_instance := o_instance ob1\<rparr>) w1;
                     ob2 = ob1\<lparr>o_events := multi_insert (t_type ev) e (o_events ob1)\<rparr>;
                     ob3 = (if o_holder ob2 = None
                            then ob2\<lparr>o_instance := -1, o_holder := getEventHolder (-1) w2\<rparr> else ob2)
                 in (case o_holder ob3 of
                       None \<Rightarrow> None
                     | Some h \<Rightarrow> holder_addEvent h e (set_object o' ob3 w2))))"

text \<open>\<^verbatim>\<open>EventMgr::addEvent\<close>\<close>

definition mgr_addEvent ::
  "(nat \<Rightarrow> int) \<Rightarrow> nat \<Rightarrow> 'm \<Rightarrow> 'a list \<Rightarrow> 32 word \<Rightarrow> 32 word \<Rightarrow> 32 word \<Rightarrow> 32 word \<Rightarrow> ('m, 'a) etable \<Rightarrow> ('m, 'a) etable option" where
  "mgr_addEvent inst o' f args ty time repeats flags w =
     (let e = next_event w;
          ev = TimedEvent_new o' (Some (CallbackP (Some o') (Some f) args)) ty time repeats flags 0
      in eventAddEvent inst o' e (set_event e ev (w\<lparr>next_event := e + 1\<rparr>)))"

fun remove_first :: "32 word \<Rightarrow> nat \<Rightarrow> (32 word \<times> nat) list \<Rightarrow> (32 word \<times> nat) list" where
  "remove_first ty e [] = []"
| "remove_first ty e ((a, b) # m) = (if a = ty \<and> b = e then m else (a, b) # remove_first ty e m)"

definition eventRemoveByPointer :: "nat \<Rightarrow> nat \<Rightarrow> ('m, 'a) etable \<Rightarrow> ('m, 'a) etable option" where
  "eventRemoveByPointer o' e w =
     (case objects w o' of
        None \<Rightarrow> None
      | Some ob \<Rightarrow>
          (case heap w e of
             None \<Rightarrow> None
           | Some ev \<Rightarrow>
               if (t_type ev, e) \<in> set (o_events ob)
               then map_option (set_object o' (ob\<lparr>o_events := remove_first (t_type ev) e (o_events ob)\<rparr>)) (decRef e w)
               else Some w))"

definition eventRemoveEvents :: "nat \<Rightarrow> 32 word \<Rightarrow> ('m, 'a) etable \<Rightarrow> ('m, 'a) etable option" where
  "eventRemoveEvents o' ty w =
     (case objects w o' of
        None \<Rightarrow> None
      | Some ob \<Rightarrow>
          if o_events ob = [] then Some w
          else if ty = EVENT_REMOVAL_FLAG_ALL
          then map_option (set_object o' (ob\<lparr>o_events := []\<rparr>)) (decRefs (map snd (o_events ob)) w)
          else map_option (set_object o' (ob\<lparr>o_events := filter (\<lambda>(k, _). k \<noteq> ty) (o_events ob)\<rparr>)) (decRefs (of_type ty (o_events ob)) w))"

fun modify_events :: "(('m, 'a) timed_event \<Rightarrow> ('m, 'a) timed_event) \<Rightarrow> nat list \<Rightarrow> ('m, 'a) etable \<Rightarrow> ('m, 'a) etable option" where
  "modify_events f [] w = Some w"
| "modify_events f (e # es) w =
     (case heap w e of None \<Rightarrow> None | Some ev \<Rightarrow> modify_events f es (set_event e (f ev) w))"

definition modify_type :: "(('m, 'a) timed_event \<Rightarrow> ('m, 'a) timed_event) \<Rightarrow> nat \<Rightarrow> 32 word \<Rightarrow> ('m, 'a) etable \<Rightarrow> ('m, 'a) etable option" where
  "modify_type f o' ty w =
     (case objects w o' of None \<Rightarrow> None | Some ob \<Rightarrow> modify_events f (of_type ty (o_events ob)) w)"

definition eventModifyTimeLeft :: "nat \<Rightarrow> 32 word \<Rightarrow> 32 word \<Rightarrow> bool \<Rightarrow> ('m, 'a) etable \<Rightarrow> ('m, 'a) etable option" where
  "eventModifyTimeLeft o' ty left unconditioned =
     modify_type (\<lambda>ev. ev\<lparr>t_curr := (if unconditioned then left else if t_ms ev < left then t_ms ev else left)\<rparr>) o' ty"

definition eventModifyTime :: "nat \<Rightarrow> 32 word \<Rightarrow> 32 word \<Rightarrow> ('m, 'a) etable \<Rightarrow> ('m, 'a) etable option" where
  "eventModifyTime o' ty time = modify_type (\<lambda>ev. ev\<lparr>t_ms := time\<rparr>) o' ty"

definition eventModifyTimeAndTimeLeft :: "nat \<Rightarrow> 32 word \<Rightarrow> 32 word \<Rightarrow> ('m, 'a) etable \<Rightarrow> ('m, 'a) etable option" where
  "eventModifyTimeAndTimeLeft o' ty time = modify_type (\<lambda>ev. ev\<lparr>t_curr := time, t_ms := time\<rparr>) o' ty"

fun first_alive :: "nat list \<Rightarrow> ('m, 'a) etable \<Rightarrow> ('m, 'a) timed_event option option" where
  "first_alive [] w = Some None"
| "first_alive (e # es) w =
     (case heap w e of None \<Rightarrow> None | Some ev \<Rightarrow> if t_deleted ev then first_alive es w else Some (Some ev))"

definition eventGetTimeLeft :: "nat \<Rightarrow> 32 word \<Rightarrow> ('m, 'a) etable \<Rightarrow> 32 word option option" where
  "eventGetTimeLeft o' ty w =
     (case objects w o' of
        None \<Rightarrow> None
      | Some ob \<Rightarrow> map_option (map_option t_curr) (first_alive (of_type ty (o_events ob)) w))"

definition eventHasEvent :: "nat \<Rightarrow> 32 word \<Rightarrow> ('m, 'a) etable \<Rightarrow> bool option" where
  "eventHasEvent o' ty w =
     (case objects w o' of
        None \<Rightarrow> None
      | Some ob \<Rightarrow> map_option (\<lambda>x. x \<noteq> None) (first_alive (of_type ty (o_events ob)) w))"

definition eventGetEventPeriod :: "nat \<Rightarrow> 32 word \<Rightarrow> ('m, 'a) etable \<Rightarrow> 32 word option" where
  "eventGetEventPeriod o' ty w =
     (case objects w o' of
        None \<Rightarrow> None
      | Some ob \<Rightarrow>
          (case of_type ty (o_events ob) of [] \<Rightarrow> Some 0 | e # _ \<Rightarrow> map_option t_ms (heap w e)))"

definition new_eobject :: eobject where
  "new_eobject = \<lparr>o_instance = -1, o_holder = None, o_events = []\<rparr>"

definition destroy_eobject :: "nat \<Rightarrow> ('m, 'a) etable \<Rightarrow> ('m, 'a) etable option" where
  "destroy_eobject o' w =
     (case objects w o' of
        None \<Rightarrow> None
      | Some ob \<Rightarrow> map_option (\<lambda>w1. w1\<lparr>objects := (objects w1)(o' := None)\<rparr>) (decRefs (map snd (o_events ob)) w))"

fun share_events :: "nat \<Rightarrow> nat list \<Rightarrow> ('m, 'a) etable \<Rightarrow> ('m, 'a) etable option" where
  "share_events h [] w = Some w"
| "share_events h (e # es) w =
     (case (heap w e, eholders w h) of
        (Some ev, Some hr) \<Rightarrow>
          if t_deleted ev \<or> h_instance hr = WORLD_INSTANCE \<and> t_flag ev AND EVENT_FLAG_DO_NOT_EXECUTE_IN_WORLD_CONTEXT \<noteq> 0
          then share_events h es w
          else share_events h es (set_eholder h (hr\<lparr>h_list := h_list hr @ [e]\<rparr>)
                 (set_event e (ev\<lparr>t_ref := t_ref ev + 1, t_instance := h_instance hr\<rparr>) w))
      | _ \<Rightarrow> None)"

text \<open>\<open>share_events\<close> is \<^verbatim>\<open>EventableObjectHolder::addObject\<close>.\<close>

definition eventRelocate :: "(nat \<Rightarrow> int) \<Rightarrow> nat \<Rightarrow> ('m, 'a) etable \<Rightarrow> ('m, 'a) etable option" where
  "eventRelocate inst o' w =
     (case objects w o' of
        None \<Rightarrow> None
      | Some ob \<Rightarrow>
          if getEventHolder (inst o') w = o_holder ob then Some w
          else (case (case getEventHolder (inst o') w of None \<Rightarrow> getEventHolder (-1) w | Some h \<Rightarrow> Some h) of
                  None \<Rightarrow> None
                | Some h \<Rightarrow>
                    Option.bind (share_events h (map snd (o_events ob)) w) (\<lambda>w1.
                      case eholders w1 h of
                        None \<Rightarrow> None
                      | Some hr \<Rightarrow> Some (set_object o' (ob\<lparr>o_instance := h_instance hr, o_holder := Some h\<rparr>) w1))))"

section \<open>Operations and the update of a holder\<close>

datatype ('m, 'a) table_op =
  Create_object nat
| Destroy_object nat
| Add_event nat 'm "'a list" "32 word" "32 word" "32 word" "32 word"
| Remove_events nat "32 word"
| Modify_time_left nat "32 word" "32 word" bool
| Modify_time nat "32 word" "32 word"
| Modify_both nat "32 word" "32 word"
| Relocate nat
| New_holder nat int

definition new_eholder :: "nat \<Rightarrow> int \<Rightarrow> ('m, 'a) etable \<Rightarrow> ('m, 'a) etable" where
  "new_eholder h i w =
     (set_eholder h \<lparr>h_instance = i, h_list = []\<rparr> w)\<lparr>mHolders := (if mHolders w i = None then (mHolders w)(i := Some h) else mHolders w)\<rparr>"

fun table_exec :: "(nat \<Rightarrow> int) \<Rightarrow> ('m, 'a) table_op \<Rightarrow> ('m, 'a) etable \<Rightarrow> ('m, 'a) etable option" where
  "table_exec inst (Create_object o') w = Some (set_object o' new_eobject w)"
| "table_exec inst (Destroy_object o') w = destroy_eobject o' w"
| "table_exec inst (Add_event o' f args ty time repeats flags) w = mgr_addEvent inst o' f args ty time repeats flags w"
| "table_exec inst (Remove_events o' ty) w = eventRemoveEvents o' ty w"
| "table_exec inst (Modify_time_left o' ty left u) w = eventModifyTimeLeft o' ty left u w"
| "table_exec inst (Modify_time o' ty time) w = eventModifyTime o' ty time w"
| "table_exec inst (Modify_both o' ty time) w = eventModifyTimeAndTimeLeft o' ty time w"
| "table_exec inst (Relocate o') w = eventRelocate inst o' w"
| "table_exec inst (New_holder h i) w = Some (new_eholder h i w)"

fun table_execs :: "(nat \<Rightarrow> int) \<Rightarrow> ('m, 'a) table_op list \<Rightarrow> ('m, 'a) etable \<Rightarrow> ('m, 'a) etable option" where
  "table_execs inst [] w = Some w"
| "table_execs inst (a # as) w = Option.bind (table_exec inst a w) (table_execs inst as)"

type_synonym ('m, 'a) behaviour = "('m, 'a) etable \<Rightarrow> nat \<times> 'm \<times> 'a list \<Rightarrow> ('m, 'a) table_op list"

definition remove_nth :: "nat \<Rightarrow> 'x list \<Rightarrow> 'x list" where
  "remove_nth i xs = take i xs @ drop (Suc i) xs"

definition erase_event :: "nat \<Rightarrow> nat \<Rightarrow> nat \<Rightarrow> ('m, 'a) etable \<Rightarrow> ('m, 'a) etable option" where
  "erase_event h i e w =
     Option.bind (decRef e w) (\<lambda>w1.
       case eholders w1 h of
         None \<Rightarrow> None
       | Some hr \<Rightarrow> Some (set_eholder h (hr\<lparr>h_list := remove_nth i (h_list hr)\<rparr>) w1))"

text \<open>
  The event is run: the method of a destroyed object is undefined, as is the use of an event that the callback has
  freed.  The result tells whether the event has been taken from the list.
\<close>

definition run_callback ::
  "(nat \<Rightarrow> int) \<Rightarrow> ('m, 'a) behaviour \<Rightarrow> ('m, 'a) callback \<Rightarrow> ('m, 'a) etable \<Rightarrow> ('m, 'a) etable option" where
  "run_callback inst act cb w =
     (case execute cb of
        None \<Rightarrow> Some w
      | Some (self, call) \<Rightarrow> if objects w self = None then None else table_execs inst (act w (self, call)) w)"

definition after_callback :: "nat \<Rightarrow> nat \<Rightarrow> nat \<Rightarrow> ('m, 'a) etable \<Rightarrow> (('m, 'a) etable \<times> bool) option" where
  "after_callback h i e w =
     (case heap w e of
        None \<Rightarrow> None
      | Some ev \<Rightarrow>
          if t_flag ev AND EVENT_FLAG_DELETES_OBJECT \<noteq> 0 then map_option (\<lambda>w1. (w1, True)) (erase_event h i e w)
          else let repeats = (if t_repeats ev \<noteq> 0 then t_repeats ev - 1 else t_repeats ev);
                   ended = (t_repeats ev \<noteq> 0 \<and> repeats = 0);
                   ev1 = ev\<lparr>t_repeats := repeats\<rparr>
               in if ended \<or> t_deleted ev
                  then map_option (\<lambda>w1. (w1, True)) (erase_event h i e (set_event e ev1 w))
                  else Some (set_event e (ev1\<lparr>t_curr := t_ms ev1\<rparr>) w, False))"

definition visit_event ::
  "(nat \<Rightarrow> int) \<Rightarrow> ('m, 'a) behaviour \<Rightarrow> 32 word \<Rightarrow> nat \<Rightarrow> nat \<Rightarrow> nat \<Rightarrow> ('m, 'a) etable \<Rightarrow> (('m, 'a) etable \<times> bool \<times> nat list) option" where
  "visit_event inst act diff h i e w =
     (case (heap w e, eholders w h) of
        (Some ev, Some hr) \<Rightarrow>
          if t_instance ev \<noteq> h_instance hr \<or> t_deleted ev \<or>
             h_instance hr = WORLD_INSTANCE \<and> t_flag ev AND EVENT_FLAG_DO_NOT_EXECUTE_IN_WORLD_CONTEXT \<noteq> 0
          then map_option (\<lambda>w1. (w1, True, [])) (erase_event h i e w)
          else if t_curr ev \<le> diff
          then (case t_cb ev of
                  None \<Rightarrow> map_option (\<lambda>w1. (w1, True, [])) (erase_event h i e w)
                | Some cb \<Rightarrow>
                    map_option (\<lambda>(w1, erased). (w1, erased, [e])) (Option.bind (run_callback inst act cb w) (after_callback h i e)))
          else Some (set_event e (ev\<lparr>t_curr := t_curr ev - diff\<rparr>) w, False, [])
      | _ \<Rightarrow> None)"

text \<open>
  The loop of \<^verbatim>\<open>update\<close>.  The successor in the list is taken before the event is run: an event that is appended
  meanwhile is visited in the same round, unless the event that is run is the last.  The outer \<open>None\<close> is a
  loop that does not end, the inner \<open>None\<close> is undefined behaviour; the list of the result holds the events run.
\<close>

partial_function (option) holder_loop ::
  "(nat \<Rightarrow> int) \<Rightarrow> ('m, 'a) behaviour \<Rightarrow> 32 word \<Rightarrow> nat \<Rightarrow> nat \<Rightarrow> ('m, 'a) etable \<Rightarrow> nat list \<Rightarrow> (('m, 'a) etable \<times> nat list) option option" where
  "holder_loop inst act diff h i w fired =
     (case eholders w h of
        None \<Rightarrow> Some None
      | Some hr \<Rightarrow>
          if length (h_list hr) \<le> i then Some (Some (w, fired))
          else (case visit_event inst act diff h i (h_list hr ! i) w of
                  None \<Rightarrow> Some None
                | Some (w1, erased, run) \<Rightarrow>
                    if Suc i = length (h_list hr) then Some (Some (w1, fired @ run))
                    else holder_loop inst act diff h (if erased then i else Suc i) w1 (fired @ run)))"

declare holder_loop.simps [code]

definition holder_update ::
  "(nat \<Rightarrow> int) \<Rightarrow> ('m, 'a) behaviour \<Rightarrow> nat \<Rightarrow> 32 word \<Rightarrow> ('m, 'a) etable \<Rightarrow> (('m, 'a) etable \<times> nat list) option option" where
  "holder_update inst act h diff w = holder_loop inst act diff h 0 w []"

end
