(* ===== verification/Event_Refs.thy ===== *)
theory Event_Refs
  imports Events "HOL-Library.Multiset"
begin

text \<open>
  The memory of the table of events.  An invariant equates the reference count of every event with the number of
  multimaps and lists it is in; every operation and the update keep it, so that no run uses an event that has been
  freed and no callback runs for a destroyed object.
\<close>

section \<open>Reference counts\<close>

definition tally :: "('v \<Rightarrow> nat) \<Rightarrow> (nat \<Rightarrow> 'v option) \<Rightarrow> nat" where
  "tally c f = (\<Sum>k \<in> dom f. c (the (f k)))"

lemma tally_upd: "finite (dom f) \<Longrightarrow> tally c (f(k := Some v)) = tally c (f(k := None)) + c v"
proof -
  assume fin: "finite (dom f)"
  have "tally c (f(k := Some v)) = c v + (\<Sum>j \<in> dom f - {k}. c (the ((f(k := Some v)) j)))"
    using fin by (simp add: tally_def sum.insert_remove)
  also have "(\<Sum>j \<in> dom f - {k}. c (the ((f(k := Some v)) j))) = tally c (f(k := None))"
    unfolding tally_def by (rule sum.cong) auto
  finally show ?thesis unfolding fun_upd_def by simp
qed

lemma tally_split: "finite (dom f) \<Longrightarrow> f k = Some v \<Longrightarrow> tally c f = tally c (f(k := None)) + c v"
  using tally_upd [of f c k v] by (simp add: fun_upd_idem)

lemma tally_absent: "f k = None \<Longrightarrow> tally c (f(k := None)) = tally c f"
  by (simp add: fun_upd_idem)

definition object_refs :: "nat \<Rightarrow> eobject \<Rightarrow> nat" where
  "object_refs e ob = count (mset (map snd (o_events ob))) e"

definition holder_refs :: "nat \<Rightarrow> eholder \<Rightarrow> nat" where
  "holder_refs e hr = count (mset (h_list hr)) e"

definition refs :: "('m, 'a) etable \<Rightarrow> nat \<Rightarrow> nat" where
  "refs w e = tally (object_refs e) (objects w) + tally (holder_refs e) (eholders w)"

text \<open>
  An event that is not marked as deleted is still in the multimap of its object, which exists, and its callback
  calls that object.  \<open>P\<close> holds references that are about to be given up.
\<close>

definition owned :: "nat multiset \<Rightarrow> ('m, 'a) etable \<Rightarrow> nat \<Rightarrow> ('m, 'a) timed_event \<Rightarrow> bool" where
  "owned P w e ev \<longleftrightarrow> e \<in># P \<or>
     (\<exists>o' ob. t_obj ev = Some o' \<and> objects w o' = Some ob \<and> e \<in> snd ` set (o_events ob) \<and>
        (\<forall>cb. t_cb ev = Some cb \<longrightarrow> cb_self cb = Some o'))"

definition event_ok :: "nat multiset \<Rightarrow> ('m, 'a) etable \<Rightarrow> nat \<Rightarrow> bool" where
  "event_ok P w e \<longleftrightarrow>
     (case heap w e of
        None \<Rightarrow> refs w e + count P e = 0
      | Some ev \<Rightarrow> t_ref ev = refs w e + count P e \<and> 0 < t_ref ev \<and> (t_deleted ev \<or> owned P w e ev))"

definition table_ok :: "nat multiset \<Rightarrow> ('m, 'a) etable \<Rightarrow> bool" where
  "table_ok P w \<longleftrightarrow> finite (dom (objects w)) \<and> finite (dom (eholders w)) \<and> (\<forall>e. event_ok P w e) \<and>
     (\<forall>e \<ge> next_event w. heap w e = None) \<and>
     (\<forall>i h. mHolders w i = Some h \<longrightarrow> eholders w h \<noteq> None) \<and>
     (\<forall>o' ob h. objects w o' = Some ob \<longrightarrow> o_holder ob = Some h \<longrightarrow> eholders w h \<noteq> None)"

lemma refs_heap [simp]: "refs (w\<lparr>heap := g\<rparr>) e = refs w e" "refs (w\<lparr>next_event := n\<rparr>) e = refs w e"
  by (simp_all add: refs_def)

lemma owned_heap [simp]: "owned P (w\<lparr>heap := g\<rparr>) e ev = owned P w e ev"
  by (simp add: owned_def)

lemma owned_add [simp]: "owned (add_mset x P) w e ev \<longleftrightarrow> e = x \<or> owned P w e ev"
  by (auto simp: owned_def)

lemma decRef_ok:
  assumes "table_ok (add_mset e P) w"
  shows "\<exists>g. decRef e w = Some (w\<lparr>heap := g\<rparr>) \<and> table_ok P (w\<lparr>heap := g\<rparr>)"
proof -
  have ok: "\<And>x. event_ok (add_mset e P) w x" using assms by (simp add: table_ok_def)
  obtain ev where ev: "heap w e = Some ev" "t_ref ev = refs w e + count P e + 1"
    using ok [of e] by (auto simp: event_ok_def split: option.splits)
  define g where "g = (heap w)(e := if t_ref ev \<le> 1 then None else Some (ev\<lparr>t_obj := None, t_deleted := True, t_ref := t_ref ev - 1\<rparr>))"
  have d: "decRef e w = Some (w\<lparr>heap := g\<rparr>)"
    using ev by (auto simp: decRef_def set_event_def g_def count_eq_zero_iff)
  have "event_ok P (w\<lparr>heap := g\<rparr>) x" for x
    using ok [of x] ev by (cases "x = e") (auto simp: event_ok_def g_def split: option.splits)
  moreover have "\<forall>x \<ge> next_event w. g x = None" using assms ev by (auto simp: table_ok_def g_def)
  ultimately show ?thesis using d assms by (auto simp: table_ok_def)
qed

lemma decRefs_ok: "table_ok (mset es + P) w \<Longrightarrow> \<exists>g. decRefs es w = Some (w\<lparr>heap := g\<rparr>) \<and> table_ok P (w\<lparr>heap := g\<rparr>)"
proof (induction es arbitrary: w)
  case Nil
  then show ?case by (auto intro: exI [of _ "heap w"])
next
  case (Cons e es)
  then obtain g where g: "decRef e w = Some (w\<lparr>heap := g\<rparr>)" "table_ok (mset es + P) (w\<lparr>heap := g\<rparr>)"
    using decRef_ok [of e "mset es + P" w] by auto
  then show ?case using Cons.IH [OF g(2)] by auto
qed

lemma decRef_set_object: "decRef e (set_object o' ob w) = map_option (set_object o' ob) (decRef e w)"
  by (auto simp: decRef_def set_event_def set_object_def split: option.splits)

lemma decRefs_set_object: "decRefs es (set_object o' ob w) = map_option (set_object o' ob) (decRefs es w)"
  by (induction es arbitrary: w) (auto simp: decRef_set_object bind_map_option split: bind_splits)

lemma holder_exists: "table_ok P w \<Longrightarrow> objects w o' = Some ob \<Longrightarrow> o_holder ob = Some h \<Longrightarrow> eholders w h \<noteq> None"
  unfolding table_ok_def by blast

text \<open>References that leave a multimap or a list become references that are about to be given up.\<close>

lemma table_ok_shrink_object:
  assumes ok: "table_ok P w" and o: "objects w o' = Some ob"
    and m: "mset (map snd (o_events ob)) = mset (map snd (o_events ob')) + Q" and h: "\<And>h. o_holder ob' = Some h \<Longrightarrow> eholders w h \<noteq> None"
  shows "table_ok (Q + P) (w\<lparr>objects := (objects w)(o' := Some ob')\<rparr>)"
proof -
  let ?w = "w\<lparr>objects := (objects w)(o' := Some ob')\<rparr>"
  have fin: "finite (dom (objects w))" using ok by (simp add: table_ok_def)
  have r: "refs w x = refs ?w x + count Q x" for x
    using tally_split [OF fin o, of "object_refs x"] tally_upd [OF fin, of "object_refs x" o' ob'] m
    by (simp add: refs_def object_refs_def)
  have s: "x \<in> snd ` set (o_events ob) \<Longrightarrow> x \<in> snd ` set (o_events ob') \<or> x \<in># Q" for x
    using arg_cong [OF m, of "\<lambda>M. x \<in># M"] by (auto simp: image_iff)
  have "event_ok (Q + P) ?w x" for x
  proof -
    have "event_ok P w x" using ok by (simp add: table_ok_def)
    moreover have "owned (Q + P) ?w x ev" if own: "owned P w x ev" for ev
    proof (cases "x \<in># Q + P")
      case False
      then obtain p obp where p: "t_obj ev = Some p" "objects w p = Some obp" "x \<in> snd ` set (o_events obp)"
        "\<forall>cb. t_cb ev = Some cb \<longrightarrow> cb_self cb = Some p"
        using own False unfolding owned_def by auto
      then have "\<exists>obq. objects ?w p = Some obq \<and> x \<in> snd ` set (o_events obq)"
        using o s [of x] False by (cases "p = o'") auto
      then show ?thesis using p by (auto simp: owned_def)
    qed (simp add: owned_def)
    ultimately show ?thesis by (auto simp: event_ok_def r split: option.splits)
  qed
  then show ?thesis using ok o h by (auto simp: table_ok_def)
qed

text \<open>The lists of the holders only grow; the holders keep their instance.\<close>

definition grows :: "('m, 'a) etable \<Rightarrow> ('m, 'a) etable \<Rightarrow> bool" where
  "grows w w' \<longleftrightarrow> (\<forall>h hr. eholders w h = Some hr \<longrightarrow>
     (\<exists>hr' xs. eholders w' h = Some hr' \<and> h_list hr' = h_list hr @ xs \<and> h_instance hr' = h_instance hr))"

lemma grows_refl [simp]: "grows w w"
  by (simp add: grows_def)

lemma grows_same: "eholders w' = eholders w \<Longrightarrow> grows w w'"
  by (simp add: grows_def)

lemma grows_trans: "grows w w' \<Longrightarrow> grows w' w'' \<Longrightarrow> grows w w''"
  unfolding grows_def by (metis append.assoc)

lemma referenced:
  assumes "table_ok P w" "objects w o' = Some ob" "(k, e) \<in> set (o_events ob)"
  shows "\<exists>ev. heap w e = Some ev"
proof -
  have fin: "finite (dom (objects w))" using assms(1) by (simp add: table_ok_def)
  have "0 < object_refs e ob" using assms(3) by (force simp: object_refs_def)
  then have "0 < refs w e" using tally_split [OF fin assms(2), of "object_refs e"] by (simp add: refs_def)
  moreover have "event_ok P w e" using assms(1) by (simp add: table_ok_def)
  ultimately show ?thesis by (auto simp: event_ok_def split: option.splits)
qed

lemma listed:
  assumes "table_ok P w" "eholders w h = Some hr" "e \<in> set (h_list hr)"
  shows "\<exists>ev. heap w e = Some ev"
proof -
  have fin: "finite (dom (eholders w))" using assms(1) by (simp add: table_ok_def)
  have "0 < holder_refs e hr" using assms(3) by (simp add: holder_refs_def)
  then have "0 < refs w e" using tally_split [OF fin assms(2), of "holder_refs e"] by (simp add: refs_def)
  moreover have "event_ok P w e" using assms(1) by (simp add: table_ok_def)
  ultimately show ?thesis by (auto simp: event_ok_def split: option.splits)
qed

lemma owned_cong: "t_obj ev' = t_obj ev \<Longrightarrow> t_cb ev' = t_cb ev \<Longrightarrow> owned P w e ev' = owned P w e ev"
  by (simp add: owned_def)

lemma table_ok_touch:
  assumes "table_ok P w" "heap w e = Some ev"
    and "t_ref ev' = t_ref ev" "t_deleted ev' = t_deleted ev" "t_obj ev' = t_obj ev" "t_cb ev' = t_cb ev"
  shows "table_ok P (set_event e ev' w)"
proof -
  have "event_ok P (set_event e ev' w) x" for x
  proof -
    have "event_ok P w x" using assms(1) by (simp add: table_ok_def)
    then show ?thesis using assms(2-) owned_cong [of ev' ev P w e]
      by (cases "x = e") (auto simp: event_ok_def set_event_def split: option.splits)
  qed
  then show ?thesis using assms by (auto simp: table_ok_def set_event_def)
qed

lemma mset_of_type: "mset (map snd m) = mset (map snd (filter (\<lambda>(k, _). k \<noteq> ty) m)) + mset (of_type ty m)"
  by (induction m) (auto simp: of_type_def)

lemma eventRemoveEvents_ok:
  assumes ok: "table_ok {#} w" and o: "objects w o' = Some ob"
  shows "\<exists>w'. eventRemoveEvents o' ty w = Some w' \<and> table_ok {#} w' \<and> eholders w' = eholders w"
proof -
  have rm: "\<exists>w'. map_option (set_object o' ob') (decRefs es w) = Some w' \<and> table_ok {#} w' \<and> eholders w' = eholders w"
    if m: "mset (map snd (o_events ob)) = mset (map snd (o_events ob')) + mset es" and h: "o_holder ob' = o_holder ob" for ob' es
  proof -
    have "table_ok (mset es + {#}) (set_object o' ob' w)"
      using table_ok_shrink_object [OF ok o m] holder_exists [OF ok o] h by (simp add: set_object_def)
    from decRefs_ok [OF this] obtain g where "map_option (set_object o' ob') (decRefs es w) = Some (set_object o' ob' w\<lparr>heap := g\<rparr>)"
      "table_ok {#} (set_object o' ob' w\<lparr>heap := g\<rparr>)"
      unfolding decRefs_set_object by blast
    then show ?thesis by (intro exI) (auto simp: set_object_def)
  qed
  show ?thesis
    using rm [of "ob\<lparr>o_events := []\<rparr>" "map snd (o_events ob)"] rm [of "ob\<lparr>o_events := filter (\<lambda>(k, _). k \<noteq> ty) (o_events ob)\<rparr>" "of_type ty (o_events ob)"] mset_of_type [of "o_events ob" ty] ok o
    by (auto simp: eventRemoveEvents_def)
qed
lemma destroy_eobject_ok:
  assumes ok: "table_ok {#} w" and o: "objects w o' = Some ob"
  shows "\<exists>w'. destroy_eobject o' w = Some w' \<and> table_ok {#} w' \<and> eholders w' = eholders w"
proof -
  let ?ob = "ob\<lparr>o_events := []\<rparr>"
  have "table_ok (mset (map snd (o_events ob)) + {#}) (set_object o' ?ob w)"
    using table_ok_shrink_object [OF ok o, of ?ob "mset (map snd (o_events ob))"] holder_exists [OF ok o] by (simp add: set_object_def)
  from decRefs_ok [OF this] obtain g where g: "map_option (set_object o' ?ob) (decRefs (map snd (o_events ob)) w) = Some (set_object o' ?ob w\<lparr>heap := g\<rparr>)"
    "table_ok {#} (set_object o' ?ob w\<lparr>heap := g\<rparr>)"
    unfolding decRefs_set_object by blast
  then obtain w1 where w1: "decRefs (map snd (o_events ob)) w = Some w1" "set_object o' ?ob w1 = set_object o' ?ob w\<lparr>heap := g\<rparr>"
    by auto
  define w2 where "w2 = set_object o' ?ob w1"
  have ok2: "table_ok {#} w2" and o2: "objects w2 o' = Some ?ob" and e2: "eholders w2 = eholders w"
    using g(2) unfolding w2_def w1(2) by (simp_all add: set_object_def)
  let ?w = "w2\<lparr>objects := (objects w2)(o' := None)\<rparr>"
  have fin: "finite (dom (objects w2))" using ok2 by (simp add: table_ok_def)
  have r: "refs ?w x = refs w2 x" for x
    using tally_split [OF fin o2, of "object_refs x"] by (simp add: refs_def object_refs_def)
  have own: "owned {#} ?w x ev = owned {#} w2 x ev" for x ev
  proof (cases "t_obj ev")
    case (Some p)
    then show ?thesis using o2 by (cases "p = o'") (auto simp: owned_def)
  qed (simp add: owned_def)
  have "event_ok {#} ?w x" for x
  proof -
    have "event_ok {#} w2 x" using ok2 by (simp add: table_ok_def)
    then show ?thesis by (auto simp: event_ok_def r own split: option.splits)
  qed
  then have "table_ok {#} ?w" using ok2 by (auto simp: table_ok_def)
  moreover have "?w = w1\<lparr>objects := (objects w1)(o' := None)\<rparr>" by (simp add: w2_def set_object_def)
  ultimately show ?thesis using w1(1) o e2 by (auto simp: destroy_eobject_def w2_def set_object_def)
qed

lemma modify_events_ok:
  assumes "table_ok {#} w" "\<forall>e \<in> set es. \<exists>ev. heap w e = Some ev"
    and "\<And>ev. t_ref (f ev) = t_ref ev \<and> t_deleted (f ev) = t_deleted ev \<and> t_obj (f ev) = t_obj ev \<and> t_cb (f ev) = t_cb ev"
  shows "\<exists>w'. modify_events f es w = Some w' \<and> table_ok {#} w' \<and> eholders w' = eholders w"
  using assms(1,2)
proof (induction es arbitrary: w)
  case (Cons e es)
  then obtain ev where ev: "heap w e = Some ev" by auto
  have "table_ok {#} (set_event e (f ev) w)" using table_ok_touch [OF Cons.prems(1) ev, of "f ev"] assms(3) by simp
  moreover have "\<forall>x \<in> set es. \<exists>ev'. heap (set_event e (f ev) w) x = Some ev'"
    using Cons.prems(2) by (auto simp: set_event_def)
  ultimately show ?case using Cons.IH [of "set_event e (f ev) w"] ev by (auto simp: set_event_def)
qed auto

lemma modify_type_ok:
  assumes "table_ok {#} w" "objects w o' = Some ob"
    and "\<And>ev. t_ref (f ev) = t_ref ev \<and> t_deleted (f ev) = t_deleted ev \<and> t_obj (f ev) = t_obj ev \<and> t_cb (f ev) = t_cb ev"
  shows "\<exists>w'. modify_type f o' ty w = Some w' \<and> table_ok {#} w' \<and> eholders w' = eholders w"
proof -
  have "\<forall>e \<in> set (of_type ty (o_events ob)). \<exists>ev. heap w e = Some ev"
    using referenced [OF assms(1,2)] by (auto simp: of_type_def)
  then show ?thesis using modify_events_ok [OF assms(1) _ assms(3)] assms(2) by (simp add: modify_type_def)
qed

lemma modify_type_grows:
  assumes "table_ok {#} w" "objects w o' = Some ob"
    and "\<And>ev. t_ref (f ev) = t_ref ev \<and> t_deleted (f ev) = t_deleted ev \<and> t_obj (f ev) = t_obj ev \<and> t_cb (f ev) = t_cb ev"
  shows "\<exists>w'. modify_type f o' ty w = Some w' \<and> table_ok {#} w' \<and> grows w w'"
  using modify_type_ok [OF assms] grows_same by blast

lemma mset_multi_insert: "mset (map snd (multi_insert k e m)) = add_mset e (mset (map snd m))"
  by (induction k e m rule: multi_insert.induct) auto

definition can_add :: "(nat \<Rightarrow> int) \<Rightarrow> nat \<Rightarrow> ('m, 'a) etable \<Rightarrow> bool" where
  "can_add inst o' w \<longleftrightarrow> (case objects w o' of None \<Rightarrow> False
     | Some ob \<Rightarrow> o_holder ob \<noteq> None \<or> mHolders w (inst o') \<noteq> None \<or> mHolders w (-1) \<noteq> None)"

definition added ::
  "nat \<Rightarrow> 'm \<Rightarrow> 'a list \<Rightarrow> 32 word \<Rightarrow> 32 word \<Rightarrow> 32 word \<Rightarrow> 32 word \<Rightarrow> int \<Rightarrow> eobject \<Rightarrow> nat \<Rightarrow> eholder \<Rightarrow> ('m, 'a) etable \<Rightarrow> ('m, 'a) etable" where
  "added o' f args ty time repeats flags i ob h hr w =
     (let e = next_event w; ev = TimedEvent_new o' (Some (CallbackP (Some o') (Some f) args)) ty time repeats flags 0
      in w\<lparr>heap := (heap w)(e := Some (ev\<lparr>t_instance := i, t_ref := 2\<rparr>)), next_event := e + 1,
           objects := (objects w)(o' := Some (ob\<lparr>o_holder := Some h, o_events := multi_insert ty e (o_events ob)\<rparr>)),
           eholders := (eholders w)(h := Some (hr\<lparr>h_list := h_list hr @ [e]\<rparr>))\<rparr>)"

lemmas add_defs = mgr_addEvent_def eventAddEvent_def incRef_def set_event_def set_object_def set_eholder_def
  holder_addEvent_def getEventHolder_def Let_def added_def TimedEvent_new_def numeral_2_eq_2

lemma mgr_addEvent_eq:
  assumes ok: "table_ok {#} w" and add: "can_add inst o' w" and o: "objects w o' = Some ob"
  shows "\<exists>i j h hr. eholders w h = Some hr \<and>
    mgr_addEvent inst o' f args ty time repeats flags w = Some (added o' f args ty time repeats flags i (ob\<lparr>o_instance := j\<rparr>) h hr w)"
proof -
  have H: "mHolders w i = Some h \<Longrightarrow> \<exists>hr. eholders w h = Some hr" "o_holder ob = Some h \<Longrightarrow> \<exists>hr. eholders w h = Some hr" for i h
    using ok o by (auto simp: table_ok_def)
  show ?thesis
  proof (cases "o_holder ob")
    case n: None
    show ?thesis
    proof (cases "mHolders w (inst o')")
      case i: None
      then obtain h where m: "mHolders w (-1) = Some h" using add o n by (auto simp: can_add_def)
      then obtain hr where h: "mHolders w (-1) = Some h" "eholders w h = Some hr" using H(1) by blast
      show ?thesis
        by (rule exI [of _ "inst o'"], rule exI [of _ "-1"], rule exI [of _ h], rule exI [of _ hr])
          (use n i h o in \<open>cases w; cases ob; simp add: add_defs\<close>)
    next
      case i: (Some h)
      then obtain hr where h: "eholders w h = Some hr" using H(1) by blast
      show ?thesis
        by (rule exI [of _ "inst o'"], rule exI [of _ "inst o'"], rule exI [of _ h], rule exI [of _ hr])
          (use n i h o in \<open>cases w; cases ob; simp add: add_defs\<close>)
    qed
  next
    case i: (Some h)
    then obtain hr where h: "eholders w h = Some hr" using H(2) by blast
    show ?thesis
      by (rule exI [of _ "o_instance ob"], rule exI [of _ "o_instance ob"], rule exI [of _ h], rule exI [of _ hr])
        (use i h o in \<open>cases w; cases ob; simp add: add_defs\<close>)
  qed
qed

lemma added_ok:
  assumes ok: "table_ok {#} w" and o: "objects w o' = Some ob" and h: "eholders w h = Some hr"
  shows "table_ok {#} (added o' f args ty time repeats flags i (ob\<lparr>o_instance := j\<rparr>) h hr w)" (is "table_ok _ ?w")
proof -
  let ?e = "next_event w"
  let ?ob = "ob\<lparr>o_instance := j, o_holder := Some h, o_events := multi_insert ty ?e (o_events ob)\<rparr>"
  let ?hr = "hr\<lparr>h_list := h_list hr @ [?e]\<rparr>"
  have fin: "finite (dom (objects w))" "finite (dom (eholders w))" using ok by (simp_all add: table_ok_def)
  have e0: "heap w ?e = None" using ok by (simp add: table_ok_def)
  have r: "refs ?w x = refs w x + (if x = ?e then 2 else 0)" for x
    using tally_split [OF fin(1) o, of "object_refs x"] tally_upd [OF fin(1), of "object_refs x" o' ?ob]
      tally_split [OF fin(2) h, of "holder_refs x"] tally_upd [OF fin(2), of "holder_refs x" h ?hr]
      mset_multi_insert [of ty ?e "o_events ob"]
    by (simp add: refs_def added_def Let_def object_refs_def holder_refs_def)
  have s: "snd ` set (multi_insert ty ?e m) = insert ?e (snd ` set m)" for m
    using mset_multi_insert [of ty ?e m] by (metis list.set_map set_mset_add_mset_insert set_mset_mset)
  have "event_ok {#} ?w x" for x
  proof (cases "x = ?e")
    case True
    have "event_ok {#} w ?e" using ok by (simp add: table_ok_def)
    then have "refs w ?e = 0" using e0 by (simp add: event_ok_def)
    then show ?thesis unfolding True
      using r [of ?e] s by (simp add: event_ok_def added_def Let_def TimedEvent_new_def owned_def CallbackP_def)
  next
    case False
    have "owned {#} w x ev \<Longrightarrow> owned {#} ?w x ev" for ev
    proof -
      assume "owned {#} w x ev"
      then obtain p obp where p: "t_obj ev = Some p" "objects w p = Some obp" "x \<in> snd ` set (o_events obp)"
        "\<forall>cb. t_cb ev = Some cb \<longrightarrow> cb_self cb = Some p" by (auto simp: owned_def)
      have "\<exists>obq. objects ?w p = Some obq \<and> x \<in> snd ` set (o_events obq)"
        using p o s [of "o_events ob"] by (cases "p = o'") (auto simp: added_def Let_def)
      then show ?thesis using p by (auto simp: owned_def)
    qed
    moreover have "event_ok {#} w x" using ok by (simp add: table_ok_def)
    moreover have "heap ?w x = heap w x" using False by (simp add: added_def Let_def)
    ultimately show ?thesis using r [of x] False by (auto simp: event_ok_def split: option.splits)
  qed
  then show ?thesis using ok h fin o by (auto simp: table_ok_def added_def Let_def)
qed

lemma share_events_ok:
  assumes "table_ok {#} w" "\<forall>e \<in> set es. 0 < tally (object_refs e) (objects w)" "eholders w h \<noteq> None"
  shows "\<exists>w'. share_events h es w = Some w' \<and> table_ok {#} w' \<and> objects w' = objects w \<and> mHolders w' = mHolders w \<and> grows w w'"
  using assms
proof (induction es arbitrary: w)
  case Nil
  then show ?case by auto
next
  case (Cons e es)
  obtain hr where hr: "eholders w h = Some hr" using Cons.prems(3) by auto
  have fin: "finite (dom (eholders w))" using Cons.prems(1) by (simp add: table_ok_def)
  have "0 < refs w e" using Cons.prems(2) by (simp add: refs_def)
  moreover have eok: "event_ok {#} w e" using Cons.prems(1) by (simp add: table_ok_def)
  ultimately obtain ev where ev: "heap w e = Some ev" by (auto simp: event_ok_def split: option.splits)
  define w1 where "w1 = set_eholder h (hr\<lparr>h_list := h_list hr @ [e]\<rparr>)
                 (set_event e (ev\<lparr>t_ref := t_ref ev + 1, t_instance := h_instance hr\<rparr>) w)"
  have r: "refs w1 x = refs w x + (if x = e then 1 else 0)" for x
    using tally_split [OF fin hr, of "holder_refs x"] tally_upd [OF fin, of "holder_refs x" h "hr\<lparr>h_list := h_list hr @ [e]\<rparr>"]
    by (simp add: refs_def w1_def set_eholder_def set_event_def holder_refs_def)
  have own: "owned {#} w1 x y = owned {#} w x y" for x y by (simp add: owned_def w1_def set_eholder_def set_event_def)
  have "event_ok {#} w1 x" for x
  proof -
    have "event_ok {#} w x" using Cons.prems(1) by (simp add: table_ok_def)
    then show ?thesis using r [of x] own ev owned_cong [of "ev\<lparr>t_ref := t_ref ev + 1, t_instance := h_instance hr\<rparr>" ev "{#}" w e]
      by (cases "x = e") (auto simp: event_ok_def w1_def set_eholder_def set_event_def split: option.splits)
  qed
  then have "table_ok {#} w1" using Cons.prems(1) ev hr by (auto simp: table_ok_def w1_def set_eholder_def set_event_def)
  moreover have "grows w w1" using hr by (auto simp: grows_def w1_def set_eholder_def set_event_def)
  moreover have o1: "objects w1 = objects w" "mHolders w1 = mHolders w" "eholders w1 h \<noteq> None"
    by (simp_all add: w1_def set_eholder_def set_event_def)
  ultimately have "\<exists>w'. share_events h es w1 = Some w' \<and> table_ok {#} w' \<and> objects w' = objects w \<and> mHolders w' = mHolders w \<and> grows w w'"
    using Cons.IH [of w1] Cons.prems(2) grows_trans by auto
  moreover have "\<exists>w'. share_events h es w = Some w' \<and> table_ok {#} w' \<and> objects w' = objects w \<and> mHolders w' = mHolders w \<and> grows w w'"
    using Cons.IH [OF Cons.prems(1) _ Cons.prems(3)] Cons.prems(2) by simp
  ultimately show ?case by (simp add: ev hr w1_def)
qed

definition can_relocate :: "(nat \<Rightarrow> int) \<Rightarrow> nat \<Rightarrow> ('m, 'a) etable \<Rightarrow> bool" where
  "can_relocate inst o' w \<longleftrightarrow> (case objects w o' of None \<Rightarrow> False
     | Some ob \<Rightarrow> mHolders w (inst o') = o_holder ob \<or> mHolders w (inst o') \<noteq> None \<or> mHolders w (-1) \<noteq> None)"

lemma eventRelocate_ok:
  assumes ok: "table_ok {#} w" and o: "objects w o' = Some ob" and add: "can_relocate inst o' w"
  shows "\<exists>w'. eventRelocate inst o' w = Some w' \<and> table_ok {#} w' \<and> grows w w'"
proof (cases "mHolders w (inst o') = o_holder ob")
  case True
  then show ?thesis using ok o by (simp add: eventRelocate_def getEventHolder_def)
next
  case False
  then obtain h where h: "(case mHolders w (inst o') of None \<Rightarrow> mHolders w (-1) | Some h \<Rightarrow> Some h) = Some h"
    using add o by (cases "mHolders w (inst o')"; cases "mHolders w (-1)") (auto simp: can_relocate_def)
  then have hn: "eholders w h \<noteq> None" using ok by (auto simp: table_ok_def split: option.splits)
  have fin: "finite (dom (objects w))" using ok by (simp add: table_ok_def)
  have "\<forall>e \<in> set (map snd (o_events ob)). 0 < tally (object_refs e) (objects w)"
    using tally_split [OF fin o] by (force simp: object_refs_def)
  then obtain w1 where w1: "share_events h (map snd (o_events ob)) w = Some w1" "table_ok {#} w1" "objects w1 = objects w" "grows w w1"
    using share_events_ok [OF ok _ hn] by blast
  then obtain hr where hr: "eholders w1 h = Some hr" using hn by (fastforce simp: grows_def)
  have "table_ok {#} (set_object o' (ob\<lparr>o_instance := h_instance hr, o_holder := Some h\<rparr>) w1)"
    using table_ok_shrink_object [OF w1(2), of o' ob "ob\<lparr>o_instance := h_instance hr, o_holder := Some h\<rparr>" "{#}"] w1(3) o hr
    by (simp add: set_object_def)
  moreover have "eventRelocate inst o' w = Some (set_object o' (ob\<lparr>o_instance := h_instance hr, o_holder := Some h\<rparr>) w1)"
    unfolding eventRelocate_def getEventHolder_def using False h o w1(1) hr by simp
  moreover have "grows w (set_object o' (ob\<lparr>o_instance := h_instance hr, o_holder := Some h\<rparr>) w1)"
    using w1(4) by (simp add: grows_def set_object_def)
  ultimately show ?thesis by blast
qed

text \<open>
  What a caller has to respect: objects and holders are constructed once, only existing objects are used, and a
  holder exists before the first event.
\<close>

fun legal :: "(nat \<Rightarrow> int) \<Rightarrow> ('m, 'a) table_op \<Rightarrow> ('m, 'a) etable \<Rightarrow> bool" where
  "legal inst (Create_object o') w \<longleftrightarrow> objects w o' = None"
| "legal inst (Add_event o' f args ty time repeats flags) w \<longleftrightarrow> can_add inst o' w"
| "legal inst (Relocate o') w \<longleftrightarrow> can_relocate inst o' w"
| "legal inst (New_holder h i) w \<longleftrightarrow> eholders w h = None"
| "legal inst (Destroy_object o') w \<longleftrightarrow> objects w o' \<noteq> None"
| "legal inst (Remove_events o' ty) w \<longleftrightarrow> objects w o' \<noteq> None"
| "legal inst (Modify_time_left o' ty left u) w \<longleftrightarrow> objects w o' \<noteq> None"
| "legal inst (Modify_time o' ty time) w \<longleftrightarrow> objects w o' \<noteq> None"
| "legal inst (Modify_both o' ty time) w \<longleftrightarrow> objects w o' \<noteq> None"

fun legals :: "(nat \<Rightarrow> int) \<Rightarrow> ('m, 'a) table_op list \<Rightarrow> ('m, 'a) etable \<Rightarrow> bool" where
  "legals inst [] w \<longleftrightarrow> True"
| "legals inst (a # as) w \<longleftrightarrow> legal inst a w \<and> (case table_exec inst a w of None \<Rightarrow> True | Some w1 \<Rightarrow> legals inst as w1)"

lemma new_object_ok: "table_ok {#} w \<Longrightarrow> objects w o' = None \<Longrightarrow> table_ok {#} (set_object o' new_eobject w)"
proof -
  assume ok: "table_ok {#} w" and o: "objects w o' = None"
  have fin: "finite (dom (objects w))" using ok by (simp add: table_ok_def)
  have r: "refs (set_object o' new_eobject w) x = refs w x" for x
    using tally_upd [OF fin, of "object_refs x" o' new_eobject] tally_absent [of "objects w" o' "object_refs x"] o
    by (simp add: refs_def set_object_def object_refs_def new_eobject_def)
  have own: "owned {#} w x ev \<Longrightarrow> owned {#} (set_object o' new_eobject w) x ev" for x ev
    using o unfolding owned_def set_object_def by fastforce
  have "event_ok {#} (set_object o' new_eobject w) x" for x
  proof -
    have "event_ok {#} w x" using ok by (simp add: table_ok_def)
    then show ?thesis using own by (auto simp: event_ok_def r split: option.splits) (auto simp: set_object_def)
  qed
  then show ?thesis using ok by (auto simp: table_ok_def set_object_def new_eobject_def)
qed

lemma new_eholder_ok: "table_ok {#} w \<Longrightarrow> eholders w h = None \<Longrightarrow> table_ok {#} (new_eholder h i w)"
proof -
  assume ok: "table_ok {#} w" and o: "eholders w h = None"
  have fin: "finite (dom (eholders w))" using ok by (simp add: table_ok_def)
  have r: "refs (new_eholder h i w) x = refs w x" for x
    using tally_upd [OF fin, of "holder_refs x" h "\<lparr>h_instance = i, h_list = []\<rparr>"] tally_absent [of "eholders w" h "holder_refs x"] o
    by (simp add: refs_def new_eholder_def set_eholder_def holder_refs_def)
  have "event_ok {#} (new_eholder h i w) x" for x
  proof -
    have "event_ok {#} w x" using ok by (simp add: table_ok_def)
    moreover have "heap (new_eholder h i w) x = heap w x" by (simp add: new_eholder_def set_eholder_def)
    moreover have "owned {#} (new_eholder h i w) x ev = owned {#} w x ev" for ev
      by (simp add: owned_def new_eholder_def set_eholder_def)
    ultimately show ?thesis by (auto simp: event_ok_def r split: option.splits)
  qed
  then show ?thesis using ok by (auto simp: table_ok_def new_eholder_def set_eholder_def split: if_splits)
qed

lemma table_exec_ok:
  assumes ok: "table_ok {#} w" and l: "legal inst a w"
  shows "\<exists>w'. table_exec inst a w = Some w' \<and> table_ok {#} w' \<and> grows w w'"
proof (cases a)
  case (Create_object o')
  then show ?thesis using new_object_ok [OF ok] l by (auto simp: set_object_def grows_same)
next
  case (Destroy_object o')
  then show ?thesis using destroy_eobject_ok [OF ok] l grows_same by fastforce
next
  case (Add_event o' f args ty time repeats flags)
  then have add: "can_add inst o' w" using l by simp
  then obtain ob where o: "objects w o' = Some ob" by (auto simp: can_add_def split: option.splits)
  obtain i j h hr where h: "eholders w h = Some hr"
    and eq: "mgr_addEvent inst o' f args ty time repeats flags w = Some (added o' f args ty time repeats flags i (ob\<lparr>o_instance := j\<rparr>) h hr w)"
    using mgr_addEvent_eq [OF ok add o] by blast
  then show ?thesis using added_ok [OF ok o h] Add_event by (auto simp: grows_def added_def Let_def)
next
  case (Remove_events o' ty)
  then show ?thesis using eventRemoveEvents_ok [OF ok] l grows_same by fastforce
next
  case (Modify_time_left o' ty left u)
  then obtain ob where o: "objects w o' = Some ob" using l by auto
  show ?thesis unfolding Modify_time_left table_exec.simps eventModifyTimeLeft_def
    by (rule modify_type_grows [OF ok o]) simp
next
  case (Modify_time o' ty time)
  then obtain ob where o: "objects w o' = Some ob" using l by auto
  show ?thesis unfolding Modify_time table_exec.simps eventModifyTime_def
    by (rule modify_type_grows [OF ok o]) simp
next
  case (Modify_both o' ty time)
  then obtain ob where o: "objects w o' = Some ob" using l by auto
  show ?thesis unfolding Modify_both table_exec.simps eventModifyTimeAndTimeLeft_def
    by (rule modify_type_grows [OF ok o]) simp
next
  case (Relocate o')
  then have r: "can_relocate inst o' w" using l by simp
  then obtain ob where "objects w o' = Some ob" by (auto simp: can_relocate_def split: option.splits)
  then show ?thesis using eventRelocate_ok [OF ok _ r] Relocate by simp
next
  case (New_holder h i)
  then show ?thesis using new_eholder_ok [OF ok] l by (auto simp: grows_def new_eholder_def set_eholder_def)
qed

lemma table_execs_ok:
  "table_ok {#} w \<Longrightarrow> legals inst as w \<Longrightarrow> \<exists>w'. table_execs inst as w = Some w' \<and> table_ok {#} w' \<and> grows w w'"
proof (induction as arbitrary: w)
  case (Cons a as)
  then obtain w1 where w1: "table_exec inst a w = Some w1" "table_ok {#} w1" "grows w w1" using table_exec_ok by fastforce
  then show ?case using Cons.IH [of w1] Cons.prems grows_trans [of w w1] by auto
qed auto

section \<open>The update runs no freed memory\<close>

lemma erase_event_ok:
  assumes ok: "table_ok {#} w" and h: "eholders w h = Some hr" and i: "i < length (h_list hr)"
  shows "\<exists>w' hr'. erase_event h i (h_list hr ! i) w = Some w' \<and> table_ok {#} w' \<and> objects w' = objects w \<and>
    eholders w' = (eholders w)(h := Some (hr\<lparr>h_list := remove_nth i (h_list hr)\<rparr>))"
proof -
  let ?e = "h_list hr ! i" and ?hr = "hr\<lparr>h_list := remove_nth i (h_list hr)\<rparr>"
  let ?w = "set_eholder h ?hr w"
  have fin: "finite (dom (eholders w))" using ok by (simp add: table_ok_def)
  have "h_list hr = take i (h_list hr) @ ?e # drop (Suc i) (h_list hr)" using i by (rule id_take_nth_drop)
  then have m: "mset (h_list hr) = add_mset ?e (mset (remove_nth i (h_list hr)))"
    by (metis remove_nth_def mset_append mset.simps(2) union_mset_add_mset_right)
  have r: "refs w x = refs ?w x + count {#?e#} x" for x
    using tally_split [OF fin h, of "holder_refs x"] tally_upd [OF fin, of "holder_refs x" h ?hr] m
    by (simp add: refs_def holder_refs_def set_eholder_def)
  have "event_ok {#?e#} ?w x" for x
  proof -
    have "event_ok {#} w x" using ok by (simp add: table_ok_def)
    moreover have "heap ?w x = heap w x" by (simp add: set_eholder_def)
    moreover have "owned {#} w x ev \<Longrightarrow> owned {#?e#} ?w x ev" for ev by (simp add: owned_def set_eholder_def)
    ultimately show ?thesis by (auto simp: event_ok_def r split: option.splits)
  qed
  then have "table_ok (add_mset ?e {#}) ?w" using ok by (auto simp: table_ok_def set_eholder_def)
  from decRef_ok [OF this] obtain g where g: "decRef ?e ?w = Some (?w\<lparr>heap := g\<rparr>)" "table_ok {#} (?w\<lparr>heap := g\<rparr>)" by blast
  have "decRef ?e ?w = map_option (set_eholder h ?hr) (decRef ?e w)"
    by (auto simp: decRef_def set_event_def set_eholder_def split: option.splits)
  then have "map_option (set_eholder h ?hr) (decRef ?e w) = Some (?w\<lparr>heap := g\<rparr>)" using g(1) by (rule subst)
  then obtain w1 where w1: "decRef ?e w = Some w1" "set_eholder h ?hr w1 = ?w\<lparr>heap := g\<rparr>"
    unfolding map_option_eq_Some by blast
  have "eholders w1 = eholders w" using w1(1) by (auto simp: decRef_def set_event_def split: option.splits if_splits)
  then have "erase_event h i ?e w = Some (?w\<lparr>heap := g\<rparr>)" using w1 h by (simp add: erase_event_def)
  then show ?thesis using g(2) by (simp add: set_eholder_def)
qed

text \<open>The callbacks respect the rules for the tables they are called in.\<close>

definition well_behaved :: "(nat \<Rightarrow> int) \<Rightarrow> ('m, 'a) behaviour \<Rightarrow> bool" where
  "well_behaved inst act \<longleftrightarrow> (\<forall>w call. table_ok {#} w \<longrightarrow> objects w (fst call) \<noteq> None \<longrightarrow> legals inst (act w call) w)"

text \<open>The result of a pass: the list has kept its front; the event at the index is gone or still there.\<close>

lemma visit_event_ok:
  assumes ok: "table_ok {#} w" and act: "well_behaved inst act" and h: "eholders w h = Some hr" and i: "i < length (h_list hr)"
  shows "\<exists>w' erased run hr' xs. visit_event inst act diff h i (h_list hr ! i) w = Some (w', erased, run) \<and> table_ok {#} w' \<and>
    eholders w' h = Some hr' \<and> h_instance hr' = h_instance hr \<and>
    h_list hr' = (if erased then remove_nth i (h_list hr @ xs) else h_list hr @ xs)"
proof -
  let ?e = "h_list hr ! i"
  obtain ev where ev: "heap w ?e = Some ev" using listed [OF ok h] i by (auto simp: in_set_conv_nth)
  have e_ok: "event_ok {#} w ?e" using ok by (simp add: table_ok_def)
  have erase: "\<exists>w' hr'. erase_event h i ?e w1 = Some w' \<and> table_ok {#} w' \<and> eholders w' h = Some hr' \<and> h_instance hr' = h_instance hr \<and>
      h_list hr' = remove_nth i (h_list hr @ xs)"
    if "table_ok {#} w1" "eholders w1 h = Some hr1" "h_list hr1 = h_list hr @ xs" "h_instance hr1 = h_instance hr" for w1 hr1 xs
    using erase_event_ok [OF that(1,2), of i] that(3,4) i by (auto simp: nth_append)
  show ?thesis
  proof (cases "t_instance ev \<noteq> h_instance hr \<or> t_deleted ev \<or>
             h_instance hr = WORLD_INSTANCE \<and> t_flag ev AND EVENT_FLAG_DO_NOT_EXECUTE_IN_WORLD_CONTEXT \<noteq> 0")
    case True
    obtain w' hr' where "erase_event h i ?e w = Some w'" "table_ok {#} w'" "eholders w' h = Some hr'"
      "h_instance hr' = h_instance hr" "h_list hr' = remove_nth i (h_list hr @ [])"
      using erase [OF ok h, of "[]"] by auto
    then show ?thesis using True ev h
      by (intro exI [of _ w'] exI [of _ True] exI [of _ "[]"] exI [of _ hr']) (simp add: visit_event_def)
  next
    case alive: False
    show ?thesis
    proof (cases "t_curr ev \<le> diff")
      case False
      then show ?thesis using alive ev h table_ok_touch [OF ok ev, of "ev\<lparr>t_curr := t_curr ev - diff\<rparr>"]
        by (auto simp: visit_event_def set_event_def intro: exI [of _ "[]"])
    next
      case due: True
      show ?thesis
      proof (cases "t_cb ev")
        case None
        obtain w' hr' where "erase_event h i ?e w = Some w'" "table_ok {#} w'" "eholders w' h = Some hr'"
          "h_instance hr' = h_instance hr" "h_list hr' = remove_nth i (h_list hr @ [])"
          using erase [OF ok h, of "[]"] by auto
        then show ?thesis using None due alive ev h
          by (intro exI [of _ w'] exI [of _ True] exI [of _ "[]"] exI [of _ hr']) (simp add: visit_event_def)
      next
        case (Some cb)
        then obtain o' where o': "objects w o' \<noteq> None" "cb_self cb = Some o'"
          using e_ok ev alive by (auto simp: event_ok_def owned_def)
        have "\<exists>w1. run_callback inst act cb w = Some w1 \<and> table_ok {#} w1 \<and> grows w w1"
          using table_execs_ok [OF ok, of inst] act o' ok
          by (auto simp: run_callback_def execute_def well_behaved_def split: option.splits)
        then obtain w1 hr1 xs where w1: "run_callback inst act cb w = Some w1" "table_ok {#} w1"
          "eholders w1 h = Some hr1" "h_list hr1 = h_list hr @ xs" "h_instance hr1 = h_instance hr"
          using h unfolding grows_def by blast
        have "?e \<in> set (h_list hr1)" using w1(4) i by (simp add: nth_append)
        then obtain ev1 where ev1: "heap w1 ?e = Some ev1" using listed [OF w1(2,3)] by blast
        have "\<exists>w' erased hr'. after_callback h i ?e w1 = Some (w', erased) \<and> table_ok {#} w' \<and> eholders w' h = Some hr' \<and>
            h_instance hr' = h_instance hr \<and> h_list hr' = (if erased then remove_nth i (h_list hr @ xs) else h_list hr @ xs)"
        proof (cases "t_flag ev1 AND EVENT_FLAG_DELETES_OBJECT \<noteq> 0")
          case True
          then show ?thesis using erase [OF w1(2-5)] ev1 by (auto simp: after_callback_def)
        next
          case False
          define rep where "rep = (if t_repeats ev1 \<noteq> 0 then t_repeats ev1 - 1 else t_repeats ev1)"
          show ?thesis
          proof (cases "t_repeats ev1 \<noteq> 0 \<and> rep = 0 \<or> t_deleted ev1")
            case True
            have "table_ok {#} (set_event ?e (ev1\<lparr>t_repeats := rep\<rparr>) w1)" using table_ok_touch [OF w1(2) ev1] by simp
            moreover have "eholders (set_event ?e (ev1\<lparr>t_repeats := rep\<rparr>) w1) h = Some hr1" using w1(3) by (simp add: set_event_def)
            ultimately show ?thesis using erase [OF _ _ w1(4,5)] False True ev1
              by (simp add: after_callback_def Let_def flip: rep_def) blast
          next
            case nE: False
            have "table_ok {#} (set_event ?e (ev1\<lparr>t_repeats := rep, t_curr := t_ms ev1\<rparr>) w1)" using table_ok_touch [OF w1(2) ev1] by simp
            then show ?thesis using w1 False nE ev1
              by (simp add: after_callback_def Let_def flip: rep_def) (auto simp: set_event_def)
          qed
        qed
        then show ?thesis using due alive ev h Some w1(1) by (auto simp: visit_event_def)
      qed
    qed
  qed
qed

lemma holder_loop_ok:
  assumes "holder_loop inst act diff h i w fired = Some r" "well_behaved inst act" "table_ok {#} w" "eholders w h \<noteq> None"
  shows "\<exists>w' fired'. r = Some (w', fired') \<and> table_ok {#} w' \<and> eholders w' h \<noteq> None"
  using assms
proof (induction rule: holder_loop.raw_induct [rotated, consumes 1])
  case (1 loop inst act diff h i w fired r)
  obtain hr where h: "eholders w h = Some hr" using 1(5) by auto
  show ?case
  proof (cases "length (h_list hr) \<le> i")
    case True
    then show ?thesis using 1(2) 1(4) h by auto
  next
    case False
    then obtain w1 erased run where v: "visit_event inst act diff h i (h_list hr ! i) w = Some (w1, erased, run)"
      "table_ok {#} w1" "eholders w1 h \<noteq> None"
      using visit_event_ok [OF 1(4,3) h, of i diff] by auto
    show ?thesis
    proof (cases "Suc i = length (h_list hr)")
      case True
      then show ?thesis using 1(2) h v by auto
    next
      case nl: False
      then have "loop inst act diff h (if erased then i else Suc i) w1 (fired @ run) = Some r"
        using 1(2) h v(1) False by simp
      then show ?thesis using 1(1) 1(3) v(2,3) by blast
    qed
  qed
qed

section \<open>Runs of the table\<close>

datatype ('m, 'a) table_cmd = Do "('m, 'a) table_op" | Update nat "32 word"

fun table_step :: "(nat \<Rightarrow> int) \<Rightarrow> ('m, 'a) behaviour \<Rightarrow> ('m, 'a) table_cmd \<Rightarrow> ('m, 'a) etable \<Rightarrow> (('m, 'a) etable \<times> nat list) option option" where
  "table_step inst act (Do a) w = Some (map_option (\<lambda>w1. (w1, [])) (table_exec inst a w))"
| "table_step inst act (Update h diff) w = holder_update inst act h diff w"

fun legal_cmd :: "(nat \<Rightarrow> int) \<Rightarrow> ('m, 'a) table_cmd \<Rightarrow> ('m, 'a) etable \<Rightarrow> bool" where
  "legal_cmd inst (Do a) w = legal inst a w"
| "legal_cmd inst (Update h diff) w \<longleftrightarrow> eholders w h \<noteq> None"

fun table_run :: "(nat \<Rightarrow> int) \<Rightarrow> ('m, 'a) behaviour \<Rightarrow> ('m, 'a) table_cmd list \<Rightarrow> ('m, 'a) etable \<Rightarrow> (('m, 'a) etable \<times> nat list list) option option" where
  "table_run inst act [] w = Some (Some (w, []))"
| "table_run inst act (c # cs) w =
     (case table_step inst act c w of
        None \<Rightarrow> None
      | Some None \<Rightarrow> Some None
      | Some (Some (w1, fired)) \<Rightarrow> map_option (map_option (\<lambda>(w2, log). (w2, fired # log))) (table_run inst act cs w1))"

fun legal_run :: "(nat \<Rightarrow> int) \<Rightarrow> ('m, 'a) behaviour \<Rightarrow> ('m, 'a) table_cmd list \<Rightarrow> ('m, 'a) etable \<Rightarrow> bool" where
  "legal_run inst act [] w \<longleftrightarrow> True"
| "legal_run inst act (c # cs) w \<longleftrightarrow> legal_cmd inst c w \<and>
     (case table_step inst act c w of Some (Some (w1, _)) \<Rightarrow> legal_run inst act cs w1 | _ \<Rightarrow> True)"

definition etable_start :: "('m, 'a) etable" where
  "etable_start = \<lparr>heap = (\<lambda>_. None), next_event = 0, objects = (\<lambda>_. None), eholders = (\<lambda>_. None), mHolders = (\<lambda>_. None)\<rparr>"

lemma etable_start_ok: "table_ok {#} etable_start"
  by (simp add: table_ok_def etable_start_def event_ok_def refs_def tally_def)

lemma table_step_ok:
  assumes "table_ok {#} w" "well_behaved inst act" "legal_cmd inst c w" "table_step inst act c w = Some r"
  shows "\<exists>w1 fired. r = Some (w1, fired) \<and> table_ok {#} w1"
proof (cases c)
  case (Do a)
  then show ?thesis using table_exec_ok [OF assms(1), of inst a] assms(3,4) by auto
next
  case (Update h diff)
  then show ?thesis using holder_loop_ok [OF _ assms(2,1)] assms(3,4) by (fastforce simp: holder_update_def)
qed

lemma table_run_ok:
  "table_ok {#} w \<Longrightarrow> well_behaved inst act \<Longrightarrow> legal_run inst act cs w \<Longrightarrow> table_run inst act cs w = Some r \<Longrightarrow>
   \<exists>w1 log. r = Some (w1, log) \<and> table_ok {#} w1"
proof (induction cs arbitrary: w r)
  case (Cons c cs)
  then obtain r1 where r1: "table_step inst act c w = Some r1" by (auto split: option.splits)
  then obtain w1 fired where s: "table_step inst act c w = Some (Some (w1, fired))" "table_ok {#} w1"
    using table_step_ok [OF Cons.prems(1,2) _ r1] Cons.prems(3) by auto
  then obtain r2 where r2: "table_run inst act cs w1 = Some r2" "r = map_option (\<lambda>(w2, log). (w2, fired # log)) r2"
    using Cons.prems(4) by auto
  have "legal_run inst act cs w1" using Cons.prems(3) s(1) by simp
  then show ?case using Cons.IH [OF s(2) Cons.prems(2) _ r2(1)] r2(2) by auto
qed auto

text \<open>C10.
  As long as the callers and the callbacks use existing objects only, no run of the table uses an event that has
  been freed or calls a method of a destroyed object, whatever the callbacks do: they may remove the event that
  is running and destroy its object.  At the end the count of every event is the number of its owners, and an
  event that is not marked as deleted is in the multimap of its existing object.
\<close>

theorem event_table_safe:
  assumes "well_behaved inst act" "legal_run inst act cs etable_start"
  shows "table_run inst act cs etable_start \<noteq> Some None \<and>
    (\<forall>w log e ev. table_run inst act cs etable_start = Some (Some (w, log)) \<and> heap w e = Some ev \<longrightarrow>
       t_ref ev = refs w e \<and> 0 < t_ref ev \<and>
       (t_deleted ev \<or> (\<exists>o' ob. t_obj ev = Some o' \<and> objects w o' = Some ob \<and> e \<in> snd ` set (o_events ob))))"
proof (intro conjI allI impI)
  show "table_run inst act cs etable_start \<noteq> Some None"
    using table_run_ok [OF etable_start_ok assms] by auto
  fix w log e ev
  assume a: "table_run inst act cs etable_start = Some (Some (w, log)) \<and> heap w e = Some ev"
  then have "event_ok {#} w e" using table_run_ok [OF etable_start_ok assms] by (auto simp: table_ok_def)
  then show "t_ref ev = refs w e" "0 < t_ref ev"
    "t_deleted ev \<or> (\<exists>o' ob. t_obj ev = Some o' \<and> objects w o' = Some ob \<and> e \<in> snd ` set (o_events ob))"
    using a by (auto simp: event_ok_def owned_def)
qed

definition sample_act :: "(nat, nat) behaviour" where
  "sample_act w call = (if fst (snd call) = 7 then [Destroy_object (fst call)] else [])"

lemma sample_act_behaves: "well_behaved inst sample_act"
  by (auto simp: well_behaved_def sample_act_def split: option.splits)

definition sample_cmds :: "(nat, nat) table_cmd list" where
  "sample_cmds = [Do (New_holder 0 (-1)), Do (Create_object 1), Do (Create_object 2),
     Do (Add_event 1 7 [] 5 100 1 0), Do (Add_event 2 8 [] 5 300 0 0), Update 0 60, Update 0 60]"

lemmas sample_defs = sample_cmds_def etable_start_def new_eholder_def set_eholder_def set_object_def set_event_def new_eobject_def
  mgr_addEvent_def eventAddEvent_def incRef_def getEventHolder_def holder_addEvent_def TimedEvent_new_def Let_def can_add_def
  holder_update_def visit_event_def run_callback_def execute_def CallbackP_def sample_act_def after_callback_def erase_event_def
  decRef_def destroy_eobject_def remove_nth_def EVENT_FLAG_DELETES_OBJECT_def EVENT_FLAG_DO_NOT_EXECUTE_IN_WORLD_CONTEXT_def
  WORLD_INSTANCE_def

lemma sample_legal: "legal_run (\<lambda>_. -1) sample_act sample_cmds etable_start"
  by (simp add: sample_defs holder_loop.simps)

lemma sample_log: "map_option (map_option snd) (table_run (\<lambda>_. -1) sample_act sample_cmds etable_start) = Some (Some [[], [], [], [], [], [], [0]])"
  by (simp add: sample_defs holder_loop.simps)

theorem event_table_safe_witness: "table_run (\<lambda>_. -1) sample_act sample_cmds etable_start \<noteq> Some None"
  using event_table_safe [OF sample_act_behaves sample_legal] by blast

end
