(* ===== verification/Event_Time.thy ===== *)
theory Event_Time
  imports Event_Refs
begin

text \<open>
  When the table runs an event: neither before its time has passed nor later than in the update that completes it,
  and once.  The proof follows one event through the operations, the callbacks and the loop of the update.
\<close>

section \<open>When an event runs\<close>

text \<open>An operation that leaves the events of type \<open>ty\<close> of the object \<open>o'\<close> alone.\<close>

fun spares :: "nat \<Rightarrow> 32 word \<Rightarrow> ('m, 'a) table_op \<Rightarrow> bool" where
  "spares o' ty (Destroy_object p) \<longleftrightarrow> p \<noteq> o'"
| "spares o' ty (Relocate p) \<longleftrightarrow> p \<noteq> o'"
| "spares o' ty (Remove_events p t) \<longleftrightarrow> p \<noteq> o' \<or> t \<noteq> ty \<and> t \<noteq> EVENT_REMOVAL_FLAG_ALL"
| "spares o' ty (Modify_time_left p t left u) \<longleftrightarrow> p \<noteq> o' \<or> t \<noteq> ty"
| "spares o' ty (Modify_time p t time) \<longleftrightarrow> p \<noteq> o' \<or> t \<noteq> ty"
| "spares o' ty (Modify_both p t time) \<longleftrightarrow> p \<noteq> o' \<or> t \<noteq> ty"
| "spares o' ty a \<longleftrightarrow> True"

text \<open>The event is in the multimap of \<open>o'\<close> only, and under its type.\<close>

definition filed :: "nat \<Rightarrow> 32 word \<Rightarrow> nat \<Rightarrow> ('m, 'a) etable \<Rightarrow> bool" where
  "filed o' ty e w \<longleftrightarrow> e < next_event w \<and> (\<forall>p ob k. objects w p = Some ob \<longrightarrow> (k, e) \<in> set (o_events ob) \<longrightarrow> p = o' \<and> k = ty)"

lemma decRefs_other: "decRefs es w = Some w' \<Longrightarrow> e \<notin> set es \<Longrightarrow> heap w' e = heap w e"
proof (induction es arbitrary: w)
  case (Cons x es)
  then obtain w1 where w1: "decRef x w = Some w1" "decRefs es w1 = Some w'" by (auto split: bind_splits)
  moreover have "heap w1 e = heap w e"
    using w1(1) Cons.prems(2) by (auto simp: decRef_def set_event_def split: option.splits if_splits)
  ultimately show ?case using Cons by auto
qed simp

lemma decRefs_objects: "decRefs es w = Some w' \<Longrightarrow> objects w' = objects w \<and> next_event w' = next_event w"
proof (induction es arbitrary: w)
  case (Cons x es)
  then obtain w1 where w1: "decRef x w = Some w1" "decRefs es w1 = Some w'" by (auto split: bind_splits)
  moreover have "objects w1 = objects w \<and> next_event w1 = next_event w"
    using w1(1) by (auto simp: decRef_def set_event_def split: option.splits if_splits)
  ultimately show ?case using Cons by auto
qed simp

lemma modify_events_other: "modify_events f es w = Some w' \<Longrightarrow> (e \<notin> set es \<longrightarrow> heap w' e = heap w e) \<and> objects w' = objects w \<and> next_event w' = next_event w"
proof (induction es arbitrary: w)
  case (Cons x es)
  then obtain ev where ev: "heap w x = Some ev" "modify_events f es (set_event x (f ev) w) = Some w'"
    by (auto split: option.splits)
  show ?case using Cons.IH [OF ev(2)] by (auto simp: set_event_def)
qed simp

lemma modify_type_other:
  assumes "modify_type f p t w = Some w'" "filed o' ty e w" "p \<noteq> o' \<or> t \<noteq> ty"
  shows "heap w' e = heap w e \<and> filed o' ty e w'"
proof -
  obtain ob where ob: "objects w p = Some ob" "modify_events f (of_type t (o_events ob)) w = Some w'"
    using assms(1) by (auto simp: modify_type_def split: option.splits)
  have "e \<notin> set (of_type t (o_events ob))" using assms(2,3) ob(1) by (auto simp: of_type_def filed_def)
  then show ?thesis using modify_events_other [OF ob(2), of e] assms(2) by (simp add: filed_def)
qed

lemma share_events_other:
  "share_events h es w = Some w' \<Longrightarrow> e \<notin> set es \<Longrightarrow>
   heap w' e = heap w e \<and> objects w' = objects w \<and> next_event w' = next_event w \<and> (eholders w h0 = Some hr \<longrightarrow>
     (\<exists>hr'. eholders w' h0 = Some hr' \<and> h_instance hr' = h_instance hr \<and> count (mset (h_list hr')) e = count (mset (h_list hr)) e))"
proof (induction es arbitrary: w hr)
  case (Cons x es)
  obtain ev hx where ev: "heap w x = Some ev" "eholders w h = Some hx"
    using Cons.prems(1) by (auto split: option.splits)
  show ?case
  proof (cases "t_deleted ev \<or> h_instance hx = WORLD_INSTANCE \<and> t_flag ev AND EVENT_FLAG_DO_NOT_EXECUTE_IN_WORLD_CONTEXT \<noteq> 0")
    case True
    then show ?thesis using Cons ev by auto
  next
    case False
    define w1 where "w1 = set_eholder h (hx\<lparr>h_list := h_list hx @ [x]\<rparr>)
                 (set_event x (ev\<lparr>t_ref := t_ref ev + 1, t_instance := h_instance hx\<rparr>) w)"
    have s: "share_events h es w1 = Some w'" using Cons.prems(1) False ev by (simp add: w1_def)
    have "heap w1 e = heap w e" "objects w1 = objects w" "next_event w1 = next_event w"
      using Cons.prems(2) by (simp_all add: w1_def set_eholder_def set_event_def)
    moreover have "\<exists>hr1. eholders w1 h0 = Some hr1 \<and> h_instance hr1 = h_instance hr \<and> count (mset (h_list hr1)) e = count (mset (h_list hr)) e"
      if "eholders w h0 = Some hr"
      using Cons.prems(2) ev that by (auto simp: w1_def set_eholder_def set_event_def)
    ultimately show ?thesis using Cons.IH [OF s] Cons.prems(2) by (metis list.set_intros(2))
  qed
qed auto

text \<open>What an operation that spares an event preserves of it.\<close>

definition kept :: "nat \<Rightarrow> 32 word \<Rightarrow> nat \<Rightarrow> nat \<Rightarrow> ('m, 'a) etable \<Rightarrow> ('m, 'a) etable \<Rightarrow> bool" where
  "kept o' ty e h w w' \<longleftrightarrow> heap w' e = heap w e \<and> filed o' ty e w' \<and>
     (\<forall>hr. eholders w h = Some hr \<longrightarrow>
       (\<exists>hr'. eholders w' h = Some hr' \<and> h_instance hr' = h_instance hr \<and> count (mset (h_list hr')) e = count (mset (h_list hr)) e))"

lemma keptI: "heap w' e = heap w e \<Longrightarrow> filed o' ty e w' \<Longrightarrow> eholders w' = eholders w \<Longrightarrow> kept o' ty e h w w'"
  by (simp add: kept_def)

lemma kept_trans: "kept o' ty e h w w' \<Longrightarrow> kept o' ty e h w' w'' \<Longrightarrow> kept o' ty e h w w''"
  unfolding kept_def by metis

lemma set_multi_insert: "set (multi_insert k x m) = insert (k, x) (set m)"
  by (induction k x m rule: multi_insert.induct) auto

lemma table_exec_kept:
  assumes ok: "table_ok {#} w" and l: "legal inst a w" and ex: "table_exec inst a w = Some w'"
    and sp: "spares o' ty a" and f: "filed o' ty e w"
  shows "kept o' ty e h w w'"
proof (cases a)
  case (Create_object p)
  then show ?thesis using f l ex by (auto simp: kept_def filed_def set_object_def new_eobject_def split: if_splits)
next
  case (Destroy_object p)
  then obtain ob where ob: "objects w p = Some ob" using l by auto
  obtain w1 where w1: "decRefs (map snd (o_events ob)) w = Some w1" "w' = w1\<lparr>objects := (objects w1)(p := None)\<rparr>"
    using ex ob Destroy_object by (auto simp: destroy_eobject_def)
  have "e \<notin> set (map snd (o_events ob))" using f ob sp Destroy_object by (auto simp: filed_def)
  then have "heap w' e = heap w e" using decRefs_other [OF w1(1)] w1(2) by simp
  moreover have "eholders w' = eholders w" using destroy_eobject_ok [OF ok ob] ex Destroy_object by auto
  moreover have "filed o' ty e w'" using f w1(2) decRefs_objects [OF w1(1)] by (auto simp: filed_def split: if_splits)
  ultimately show ?thesis using keptI by blast
next
  case (Add_event p m args t time repeats flags)
  then have add: "can_add inst p w" using l by simp
  then obtain ob where ob: "objects w p = Some ob" by (auto simp: can_add_def split: option.splits)
  obtain i j h1 hr where h: "eholders w h1 = Some hr" "w' = added p m args t time repeats flags i (ob\<lparr>o_instance := j\<rparr>) h1 hr w"
  proof -
    have "mgr_addEvent inst p m args t time repeats flags w = Some w'" using ex Add_event by simp
    then show ?thesis using mgr_addEvent_eq [OF ok add ob, of m args t time repeats flags] that by auto
  qed
  have ne: "e \<noteq> next_event w" using f by (simp add: filed_def)
  show ?thesis using f ne h ob by (auto simp: kept_def h(2) added_def Let_def filed_def set_multi_insert)
next
  case (Remove_events p t)
  then obtain ob where ob: "objects w p = Some ob" using l by auto
  have eh: "eholders w' = eholders w" using eventRemoveEvents_ok [OF ok ob, of t] ex Remove_events by auto
  have ne: "p = o' \<Longrightarrow> t \<noteq> ty \<and> t \<noteq> EVENT_REMOVAL_FLAG_ALL" using sp Remove_events by auto
  consider "w' = w" | es ob' w1 where "decRefs es w = Some w1" "w' = set_object p ob' w1" "e \<notin> set es" "set (o_events ob') \<subseteq> set (o_events ob)"
  proof (cases "o_events ob = []")
    case True
    then show ?thesis using that(1) ex ob Remove_events by (simp add: eventRemoveEvents_def)
  next
    case False
    show ?thesis
    proof (cases "t = EVENT_REMOVAL_FLAG_ALL")
      case True
      then obtain w1 where "decRefs (map snd (o_events ob)) w = Some w1" "w' = set_object p (ob\<lparr>o_events := []\<rparr>) w1"
        using ex ob Remove_events False by (auto simp: eventRemoveEvents_def)
      moreover have "e \<notin> set (map snd (o_events ob))" using f ob ne True by (auto simp: filed_def)
      ultimately show ?thesis using that(2) by force
    next
      case nall: False
      then obtain w1 where "decRefs (of_type t (o_events ob)) w = Some w1"
        "w' = set_object p (ob\<lparr>o_events := filter (\<lambda>(k, _). k \<noteq> t) (o_events ob)\<rparr>) w1"
        using ex ob Remove_events False by (auto simp: eventRemoveEvents_def)
      moreover have "e \<notin> set (of_type t (o_events ob))" using f ob ne by (auto simp: filed_def of_type_def)
      ultimately show ?thesis using that(2) [of "of_type t (o_events ob)" w1] by force
    qed
  qed
  then show ?thesis
  proof cases
    case 1
    then show ?thesis using f by (simp add: kept_def)
  next
    case (2 es ob' w1)
    have "heap w' e = heap w e" using decRefs_other [OF 2(1,3)] 2(2) by (simp add: set_object_def)
    moreover have "filed o' ty e w'" using f 2(2,4) decRefs_objects [OF 2(1)] ob by (auto simp: filed_def set_object_def split: if_splits)
    ultimately show ?thesis using eh keptI by blast
  qed
next
  case (Modify_time_left p t left u)
  then obtain ob where ob: "objects w p = Some ob" using l by auto
  have m: "modify_type (\<lambda>ev. ev\<lparr>t_curr := if u then left else if t_ms ev < left then t_ms ev else left\<rparr>) p t w = Some w'"
    using ex Modify_time_left by (simp add: eventModifyTimeLeft_def)
  then have "eholders w' = eholders w" using modify_type_ok [OF ok ob, of "\<lambda>ev. ev\<lparr>t_curr := if u then left else if t_ms ev < left then t_ms ev else left\<rparr>" t] by simp
  then show ?thesis using modify_type_other [OF m f] sp Modify_time_left keptI by auto
next
  case (Modify_time p t time)
  then obtain ob where ob: "objects w p = Some ob" using l by auto
  have m: "modify_type (\<lambda>ev. ev\<lparr>t_ms := time\<rparr>) p t w = Some w'" using ex Modify_time by (simp add: eventModifyTime_def)
  then have "eholders w' = eholders w" using modify_type_ok [OF ok ob, of "\<lambda>ev. ev\<lparr>t_ms := time\<rparr>" t] by simp
  then show ?thesis using modify_type_other [OF m f] sp Modify_time keptI by auto
next
  case (Modify_both p t time)
  then obtain ob where ob: "objects w p = Some ob" using l by auto
  have m: "modify_type (\<lambda>ev. ev\<lparr>t_curr := time, t_ms := time\<rparr>) p t w = Some w'" using ex Modify_both by (simp add: eventModifyTimeAndTimeLeft_def)
  then have "eholders w' = eholders w" using modify_type_ok [OF ok ob, of "\<lambda>ev. ev\<lparr>t_curr := time, t_ms := time\<rparr>" t] by simp
  then show ?thesis using modify_type_other [OF m f] sp Modify_both keptI by auto
next
  case (Relocate p)
  then obtain ob where ob: "objects w p = Some ob" using l by (auto simp: can_relocate_def split: option.splits)
  have ne: "e \<notin> set (map snd (o_events ob))" using f ob sp Relocate by (auto simp: filed_def)
  have "w' = w \<or> (\<exists>h1 w1. \<exists>hr :: eholder. share_events h1 (map snd (o_events ob)) w = Some w1 \<and>
      w' = set_object p (ob\<lparr>o_instance := h_instance hr, o_holder := Some h1\<rparr>) w1)"
    using ex ob Relocate by (auto simp: eventRelocate_def split: if_splits option.splits bind_splits)
  then show ?thesis
  proof (elim disjE exE conjE)
    assume "w' = w"
    then show ?thesis using f by (simp add: kept_def)
  next
    fix h1 w1 and hr :: eholder
    assume s: "share_events h1 (map snd (o_events ob)) w = Some w1"
      and w': "w' = set_object p (ob\<lparr>o_instance := h_instance hr, o_holder := Some h1\<rparr>) w1"
    show ?thesis
      using share_events_other [OF s ne] f ob unfolding kept_def w' filed_def by (auto simp: set_object_def)
  qed
next
  case (New_holder h1 i)
  then show ?thesis using f l ex by (auto simp: kept_def filed_def new_eholder_def set_eholder_def)
qed
lemma table_execs_kept:
  "table_ok {#} w \<Longrightarrow> legals inst as w \<Longrightarrow> table_execs inst as w = Some w' \<Longrightarrow> \<forall>a \<in> set as. spares o' ty a \<Longrightarrow>
   filed o' ty e w \<Longrightarrow> kept o' ty e h w w'"
proof (induction as arbitrary: w)
  case Nil
  then show ?case by (simp add: kept_def)
next
  case (Cons a as)
  then obtain w1 where w1: "table_exec inst a w = Some w1" "table_ok {#} w1" using table_exec_ok by fastforce
  then have k: "kept o' ty e h w w1" using table_exec_kept [OF Cons.prems(1) _ w1(1)] Cons.prems by auto
  then have "filed o' ty e w1" by (simp add: kept_def)
  then have "kept o' ty e h w1 w'" using Cons.IH [OF w1(2)] Cons.prems w1(1) by auto
  then show ?case using kept_trans k by blast
qed

definition sparing :: "nat \<Rightarrow> 32 word \<Rightarrow> ('m, 'a) behaviour \<Rightarrow> bool" where
  "sparing o' ty act \<longleftrightarrow> (\<forall>w call. \<forall>a \<in> set (act w call). spares o' ty a)"

lemma run_callback_kept:
  assumes "table_ok {#} w" "well_behaved inst act" "sparing o' ty act" "filed o' ty e w" "eholders w h = Some hr"
    and run: "run_callback inst act cb w = Some w1"
  shows "table_ok {#} w1 \<and> heap w1 e = heap w e \<and> filed o' ty e w1 \<and>
    (\<exists>hr1 xs. eholders w1 h = Some hr1 \<and> h_list hr1 = h_list hr @ xs \<and> h_instance hr1 = h_instance hr \<and> e \<notin> set xs)"
proof -
  have "table_ok {#} w1 \<and> grows w w1 \<and> kept o' ty e h w w1"
  proof (cases "execute cb")
    case None
    then show ?thesis using assms by (simp add: run_callback_def kept_def)
  next
    case (Some call)
    then have ex: "objects w (fst call) \<noteq> None" "table_execs inst (act w call) w = Some w1"
      using run by (auto simp: run_callback_def split: prod.splits if_splits)
    have l: "legals inst (act w call) w" using assms(1,2) ex(1) unfolding well_behaved_def by blast
    have "table_ok {#} w1 \<and> grows w w1" using table_execs_ok [OF assms(1) l] ex(2) by auto
    moreover have "kept o' ty e h w w1"
      using assms(3) unfolding sparing_def by (intro table_execs_kept [OF assms(1) l ex(2) _ assms(4)]) blast
    ultimately show ?thesis by blast
  qed
  moreover from this obtain hr1 xs where hr1: "eholders w1 h = Some hr1" "h_list hr1 = h_list hr @ xs" "h_instance hr1 = h_instance hr"
    using assms(5) unfolding grows_def by blast
  moreover have "count (mset (h_list hr1)) e = count (mset (h_list hr)) e"
    using calculation(1) assms(5) hr1(1) unfolding kept_def by fastforce
  then have "e \<notin> set xs" using hr1(2) by (simp add: count_eq_zero_iff flip: set_mset_mset)
  ultimately show ?thesis using hr1 by (auto simp: kept_def)
qed

lemma erase_event_other:
  assumes "table_ok {#} w" "eholders w h = Some hr" "i < length (h_list hr)" "erase_event h i (h_list hr ! i) w = Some w'" "filed o' ty e w"
  shows "(h_list hr ! i \<noteq> e \<longrightarrow> heap w' e = heap w e) \<and> filed o' ty e w' \<and> table_ok {#} w' \<and>
    eholders w' h = Some (hr\<lparr>h_list := remove_nth i (h_list hr)\<rparr>)"
proof -
  have "objects w' = objects w" "table_ok {#} w'" "eholders w' h = Some (hr\<lparr>h_list := remove_nth i (h_list hr)\<rparr>)"
    using erase_event_ok [OF assms(1-3)] assms(4) by auto
  moreover have "(h_list hr ! i \<noteq> e \<longrightarrow> heap w' e = heap w e) \<and> next_event w' = next_event w"
    using assms(4) by (auto simp: erase_event_def decRef_def set_event_def set_eholder_def split: option.splits bind_splits if_splits)
  ultimately show ?thesis using assms(5) by (auto simp: filed_def)
qed

definition once :: "('m, 'a) timed_event \<Rightarrow> bool" where
  "once ev \<longleftrightarrow> t_flag ev AND EVENT_FLAG_DELETES_OBJECT \<noteq> 0 \<or> t_repeats ev = 1"

definition rearmed :: "('m, 'a) timed_event \<Rightarrow> ('m, 'a) timed_event" where
  "rearmed ev = ev\<lparr>t_repeats := (if t_repeats ev = 0 then 0 else t_repeats ev - 1), t_curr := t_ms ev\<rparr>"

lemma after_callback_alive:
  assumes "heap w e = Some ev" "\<not> t_deleted ev"
  shows "after_callback h i e w =
    (if once ev then map_option (\<lambda>w1. (w1, True))
       (erase_event h i e (if t_flag ev AND EVENT_FLAG_DELETES_OBJECT \<noteq> 0 then w else set_event e (ev\<lparr>t_repeats := 0\<rparr>) w))
     else Some (set_event e (rearmed ev) w, False))"
  using assms by (auto simp: after_callback_def once_def rearmed_def Let_def)

text \<open>The event is armed in the holder \<open>h\<close>: it is there once, alive, and the holder runs it.\<close>

definition armed :: "nat \<Rightarrow> 32 word \<Rightarrow> nat \<Rightarrow> nat \<Rightarrow> ('m, 'a) timed_event \<Rightarrow> ('m, 'a) etable \<Rightarrow> bool" where
  "armed o' ty e h ev w \<longleftrightarrow> heap w e = Some ev \<and> \<not> t_deleted ev \<and> t_cb ev \<noteq> None \<and> filed o' ty e w \<and>
     (\<exists>hr. eholders w h = Some hr \<and> t_instance ev = h_instance hr \<and> count (mset (h_list hr)) e = 1 \<and>
        \<not> (h_instance hr = WORLD_INSTANCE \<and> t_flag ev AND EVENT_FLAG_DO_NOT_EXECUTE_IN_WORLD_CONTEXT \<noteq> 0))"

text \<open>A pass over another event.\<close>

lemma visit_other:
  assumes ok: "table_ok {#} w" and wb: "well_behaved inst act" and sp: "sparing o' ty act" and f: "filed o' ty e w"
    and h: "eholders w h = Some hr" and i: "i < length (h_list hr)" and ne: "h_list hr ! i \<noteq> e"
    and v: "visit_event inst act diff h i (h_list hr ! i) w = Some (w', erased, run)"
  shows "table_ok {#} w' \<and> heap w' e = heap w e \<and> filed o' ty e w' \<and> e \<notin> set run \<and>
    (\<exists>hr' xs. eholders w' h = Some hr' \<and> h_instance hr' = h_instance hr \<and> e \<notin> set xs \<and>
       h_list hr' = (if erased then remove_nth i (h_list hr @ xs) else h_list hr @ xs))"
proof -
  let ?x = "h_list hr ! i"
  obtain ev where ev: "heap w ?x = Some ev" using v by (auto simp: visit_event_def split: option.splits)
  have er: ?thesis if "erase_event h i ?x w1 = Some w'" "table_ok {#} w1" "eholders w1 h = Some hr1" "h_list hr1 = h_list hr @ xs"
    "h_instance hr1 = h_instance hr" "filed o' ty e w1" "heap w1 e = heap w e" "e \<notin> set xs" "erased" "e \<notin> set run" for w1 hr1 xs
    using erase_event_other [OF that(2,3), of i w' o' ty e] that i ne by (auto simp: nth_append)
  have touch: ?thesis if "w' = set_event ?x ev' w1" "heap w1 ?x = Some ev1" "t_ref ev' = t_ref ev1 \<and> t_deleted ev' = t_deleted ev1 \<and> t_obj ev' = t_obj ev1 \<and> t_cb ev' = t_cb ev1"
    "table_ok {#} w1" "eholders w1 h = Some hr1" "h_list hr1 = h_list hr @ xs"
    "h_instance hr1 = h_instance hr" "filed o' ty e w1" "heap w1 e = heap w e" "e \<notin> set xs" "\<not> erased" "e \<notin> set run" for w1 hr1 xs ev' ev1
    using table_ok_touch [OF that(4,2), of ev'] that ne by (auto simp: set_event_def filed_def)
  consider (drop) "erase_event h i ?x w = Some w'" "erased" "run = []"
    | (run) cb w1 where "run_callback inst act cb w = Some w1" "after_callback h i ?x w1 = Some (w', erased)" "run = [?x]"
    | (wait) "w' = set_event ?x (ev\<lparr>t_curr := t_curr ev - diff\<rparr>) w" "\<not> erased" "run = []"
    using v ev h by (auto simp: visit_event_def split: option.splits if_splits bind_splits)
  then show ?thesis
  proof cases
    case drop
    then show ?thesis using er [OF drop(1) ok h, of "[]"] f by simp
  next
    case wait
    then show ?thesis using touch [OF wait(1) ev _ ok h, of "[]"] f by simp
  next
    case (run cb w1)
    obtain hr1 xs where k: "table_ok {#} w1" "heap w1 e = heap w e" "filed o' ty e w1" "eholders w1 h = Some hr1"
      "h_list hr1 = h_list hr @ xs" "h_instance hr1 = h_instance hr" "e \<notin> set xs"
      using run_callback_kept [OF ok wb sp f h run(1)] by blast
    obtain ev1 where ev1: "heap w1 ?x = Some ev1" using run(2) by (auto simp: after_callback_def split: option.splits)
    define ev2 where "ev2 = ev1\<lparr>t_repeats := (if t_repeats ev1 \<noteq> 0 then t_repeats ev1 - 1 else t_repeats ev1)\<rparr>"
    have k2: "table_ok {#} (set_event ?x ev2 w1)" "heap (set_event ?x ev2 w1) e = heap w e" "filed o' ty e (set_event ?x ev2 w1)"
      "eholders (set_event ?x ev2 w1) h = Some hr1"
      using table_ok_touch [OF k(1) ev1, of ev2] k ne by (simp_all add: ev2_def set_event_def filed_def)
    consider "erase_event h i ?x w1 = Some w'" "erased" | "erase_event h i ?x (set_event ?x ev2 w1) = Some w'" "erased"
      | "w' = set_event ?x (ev2\<lparr>t_curr := t_ms ev2\<rparr>) w1" "\<not> erased"
      using run(2) ev1 by (auto simp: after_callback_def Let_def ev2_def split: if_splits)
    then show ?thesis
    proof cases
      case 1
      then show ?thesis using er [OF 1(1) k(1,4-6) k(3,2,7)] run(3) ne by simp
    next
      case 2
      then show ?thesis using er [OF 2(1) k2(1,4) k(5,6) k2(3,2) k(7)] run(3) ne by simp
    next
      case 3
      then show ?thesis using touch [OF 3(1) ev1 _ k(1,4-6) k(3,2,7)] run(3) ne by (simp add: ev2_def)
    qed
  qed
qed

text \<open>The pass over the event itself.\<close>

lemma visit_self:
  assumes ok: "table_ok {#} w" and wb: "well_behaved inst act" and sp: "sparing o' ty act" and a: "armed o' ty e h ev w"
    and h: "eholders w h = Some hr" and i: "i < length (h_list hr)" and e: "h_list hr ! i = e"
    and v: "visit_event inst act diff h i e w = Some (w', erased, run)"
  shows "table_ok {#} w' \<and> filed o' ty e w' \<and> (\<exists>hr' xs. eholders w' h = Some hr' \<and> h_instance hr' = h_instance hr \<and> e \<notin> set xs \<and>
       h_list hr' = (if erased then remove_nth i (h_list hr @ xs) else h_list hr @ xs)) \<and>
    (if t_curr ev \<le> diff then run = [e] \<and> erased = once ev \<and> (\<not> once ev \<longrightarrow> heap w' e = Some (rearmed ev))
     else run = [] \<and> \<not> erased \<and> heap w' e = Some (ev\<lparr>t_curr := t_curr ev - diff\<rparr>))"
proof -
  have ev: "heap w e = Some ev" and al: "\<not> t_deleted ev" and f: "filed o' ty e w" and cb: "t_cb ev \<noteq> None"
    and p: "\<not> (t_instance ev \<noteq> h_instance hr \<or> t_deleted ev \<or> h_instance hr = WORLD_INSTANCE \<and> t_flag ev AND EVENT_FLAG_DO_NOT_EXECUTE_IN_WORLD_CONTEXT \<noteq> 0)"
    using a h by (auto simp: armed_def)
  show ?thesis
  proof (cases "t_curr ev \<le> diff")
    case False
    then have w': "w' = set_event e (ev\<lparr>t_curr := t_curr ev - diff\<rparr>) w" "\<not> erased" "run = []"
      using v ev h p by (auto simp: visit_event_def)
    then show ?thesis using False table_ok_touch [OF ok ev, of "ev\<lparr>t_curr := t_curr ev - diff\<rparr>"] f h
      by (auto simp: set_event_def filed_def)
  next
    case True
    then obtain c w1 where w1: "run_callback inst act c w = Some w1" "after_callback h i e w1 = Some (w', erased)" "run = [e]"
      using v ev h p cb by (auto simp: visit_event_def split: bind_splits)
    obtain hr1 xs where k: "table_ok {#} w1" "heap w1 e = Some ev" "filed o' ty e w1" "eholders w1 h = Some hr1"
      "h_list hr1 = h_list hr @ xs" "h_instance hr1 = h_instance hr" "e \<notin> set xs"
      using run_callback_kept [OF ok wb sp f h w1(1)] ev by auto
    have ix: "i < length (h_list hr1)" "h_list hr1 ! i = e" using k(5) i e by (simp_all add: nth_append)
    show ?thesis
    proof (cases "once ev")
      case o: True
      define w2 where "w2 = (if t_flag ev AND EVENT_FLAG_DELETES_OBJECT \<noteq> 0 then w1 else set_event e (ev\<lparr>t_repeats := 0\<rparr>) w1)"
      have k2: "table_ok {#} w2" "filed o' ty e w2" "eholders w2 h = Some hr1"
        using table_ok_touch [OF k(1,2), of "ev\<lparr>t_repeats := 0\<rparr>"] k by (simp_all add: w2_def set_event_def filed_def)
      have "erase_event h i (h_list hr1 ! i) w2 = Some w'" "erased"
        using w1(2) after_callback_alive [OF k(2) al, of h i] o ix by (auto simp: w2_def)
      then show ?thesis using erase_event_other [OF k2(1,3) ix(1) _ k2(2)] True o w1(3) k by auto
    next
      case n: False
      then have w': "w' = set_event e (rearmed ev) w1" "\<not> erased" using w1(2) after_callback_alive [OF k(2) al, of h i] by auto
      then show ?thesis using table_ok_touch [OF k(1,2), of "rearmed ev"] True n w1(3) k
        by (auto simp: set_event_def filed_def rearmed_def)
    qed
  qed
qed

lemma remove_nth_other: "i < length xs \<Longrightarrow> xs ! i \<noteq> e \<Longrightarrow> count (mset (remove_nth i xs)) e = count (mset xs) e"
proof -
  assume "i < length xs" "xs ! i \<noteq> e"
  moreover have "mset xs = mset (take i xs @ xs ! i # drop (Suc i) xs)"
    using calculation(1) by (simp flip: id_take_nth_drop)
  ultimately show ?thesis by (simp add: remove_nth_def)
qed

lemma remove_nth_self: "i < length xs \<Longrightarrow> xs ! i = e \<Longrightarrow> count (mset xs) e = 1 \<Longrightarrow> count (mset (remove_nth i xs)) e = 0"
proof -
  assume "i < length xs" "xs ! i = e" "count (mset xs) e = 1"
  moreover have "mset xs = mset (take i xs @ xs ! i # drop (Suc i) xs)"
    using calculation(1) by (simp flip: id_take_nth_drop)
  ultimately show ?thesis by (simp add: remove_nth_def)
qed

text \<open>
  Once the loop has passed an event, the rest of the loop leaves it alone (\<open>left_alone\<close>); an event that is still
  ahead runs exactly once if it is due and is armed again or taken from the list, otherwise it waits on (\<open>served\<close>).
\<close>

definition left_alone ::
  "nat \<Rightarrow> 32 word \<Rightarrow> nat \<Rightarrow> nat \<Rightarrow> ('m, 'a) etable \<Rightarrow> nat list \<Rightarrow> eholder \<Rightarrow> ('m, 'a) etable \<Rightarrow> nat list \<Rightarrow> bool" where
  "left_alone o' ty e h w fired hr w' fired' \<longleftrightarrow>
     heap w' e = heap w e \<and> filed o' ty e w' \<and> count (mset fired') e = count (mset fired) e \<and>
     (\<exists>hr'. eholders w' h = Some hr' \<and> h_instance hr' = h_instance hr \<and> count (mset (h_list hr')) e = count (mset (h_list hr)) e)"

definition served ::
  "32 word \<Rightarrow> nat \<Rightarrow> 32 word \<Rightarrow> nat \<Rightarrow> nat \<Rightarrow> ('m, 'a) timed_event \<Rightarrow> nat list \<Rightarrow> ('m, 'a) etable \<Rightarrow> nat list \<Rightarrow> bool" where
  "served diff o' ty e h ev fired w' fired' \<longleftrightarrow>
     (if t_curr ev \<le> diff
      then count (mset fired') e = count (mset fired) e + 1 \<and>
        (if once ev then \<exists>hr'. eholders w' h = Some hr' \<and> e \<notin> set (h_list hr') else armed o' ty e h (rearmed ev) w')
      else count (mset fired') e = count (mset fired) e \<and> armed o' ty e h (ev\<lparr>t_curr := t_curr ev - diff\<rparr>) w')"

lemma left_alone_step:
  "left_alone o' ty e h w1 (fired @ run) hr1 w' fired' \<Longrightarrow> heap w1 e = heap w e \<Longrightarrow> h_instance hr1 = h_instance hr \<Longrightarrow>
   count (mset (h_list hr1)) e = count (mset (h_list hr)) e \<Longrightarrow> e \<notin> set run \<Longrightarrow> left_alone o' ty e h w fired hr w' fired'"
  by (auto simp: left_alone_def count_eq_zero_iff)

lemma drop_remove_nth: "i < length xs \<Longrightarrow> drop i (remove_nth i (xs @ ys)) = drop (Suc i) (xs @ ys)"
  by (simp add: remove_nth_def)

lemma holder_loop_tracks:
  assumes "holder_loop inst act diff h i w fired = Some r" "well_behaved inst act" "sparing o' ty act" "table_ok {#} w"
    "eholders w h = Some hr" "r = Some (w', fired')"
  shows "(filed o' ty e w \<longrightarrow> e \<notin> set (drop i (h_list hr)) \<longrightarrow> left_alone o' ty e h w fired hr w' fired') \<and>
    (\<forall>ev. armed o' ty e h ev w \<longrightarrow> e \<in> set (drop i (h_list hr)) \<longrightarrow> served diff o' ty e h ev fired w' fired')"
  using assms
proof (induction arbitrary: hr rule: holder_loop.raw_induct [rotated, consumes 1])
  case (1 loop inst act diff h i w fired r)
  note h = 1(6)
  show ?case
  proof (cases "length (h_list hr) \<le> i")
    case True
    then show ?thesis using 1(2,7) h by (auto simp: left_alone_def)
  next
    case False
    then have i: "i < length (h_list hr)" by simp
    then have d: "drop i (h_list hr) = h_list hr ! i # drop (Suc i) (h_list hr)" by (simp add: Cons_nth_drop_Suc)
    obtain w1 erased run where v: "visit_event inst act diff h i (h_list hr ! i) w = Some (w1, erased, run)"
      using visit_event_ok [OF 1(5,3) h i, of diff] by auto
    let ?j = "if erased then i else Suc i"
    have last: "Suc i = length (h_list hr) \<Longrightarrow> w' = w1 \<and> fired' = fired @ run"
      using 1(2,7) h i v by auto
    have next': "Suc i \<noteq> length (h_list hr) \<Longrightarrow> loop inst act diff h ?j w1 (fired @ run) = Some r"
      using 1(2) h v i by simp
    \<comment> \<open>what the rest of the loop does to an event that is not ahead\<close>
    have rest: "left_alone o' ty e h w1 (fired @ run) hr1 w' fired'"
      if "table_ok {#} w1" "filed o' ty e w1" "eholders w1 h = Some hr1" "e \<notin> set (drop ?j (h_list hr1))" for hr1
    proof (cases "Suc i = length (h_list hr)")
      case True
      then show ?thesis using last that by (simp add: left_alone_def)
    next
      case False
      then show ?thesis using 1(1) [OF next' 1(3,4) that(1,3) 1(7)] that(2,4) by blast
    qed
    show ?thesis
    proof (cases "h_list hr ! i = e")
      case ne: False
      have key: "(\<exists>hr1. table_ok {#} w1 \<and> heap w1 e = heap w e \<and> filed o' ty e w1 \<and> e \<notin> set run \<and> eholders w1 h = Some hr1 \<and>
          h_instance hr1 = h_instance hr \<and> count (mset (h_list hr1)) e = count (mset (h_list hr)) e \<and>
          (e \<in> set (drop ?j (h_list hr1)) \<longleftrightarrow> e \<in> set (drop i (h_list hr))))" if f: "filed o' ty e w"
      proof -
        obtain hr1 xs where p: "table_ok {#} w1" "heap w1 e = heap w e" "filed o' ty e w1" "e \<notin> set run" "eholders w1 h = Some hr1"
          "h_instance hr1 = h_instance hr" "e \<notin> set xs" "h_list hr1 = (if erased then remove_nth i (h_list hr @ xs) else h_list hr @ xs)"
          using visit_other [OF 1(5,3,4) f h i ne v] by blast
        moreover have "count (mset (h_list hr1)) e = count (mset (h_list hr)) e"
          using p(7,8) i ne remove_nth_other [of i "h_list hr @ xs" e] by (auto simp: nth_append count_eq_zero_iff)
        moreover have "e \<in> set (drop ?j (h_list hr1)) \<longleftrightarrow> e \<in> set (drop i (h_list hr))"
          using p(7,8) ne i d drop_remove_nth [OF i, of xs] by auto
        ultimately show ?thesis by blast
      qed
      show ?thesis
      proof (intro conjI impI allI)
        assume f: "filed o' ty e w" and out: "e \<notin> set (drop i (h_list hr))"
        then show "left_alone o' ty e h w fired hr w' fired'" using key [OF f] rest left_alone_step by blast
      next
        fix ev
        assume a: "armed o' ty e h ev w" and ahead: "e \<in> set (drop i (h_list hr))"
        then obtain hr1 where p: "table_ok {#} w1" "heap w1 e = heap w e" "filed o' ty e w1" "e \<notin> set run" "eholders w1 h = Some hr1"
          "h_instance hr1 = h_instance hr" "count (mset (h_list hr1)) e = count (mset (h_list hr)) e" "e \<in> set (drop ?j (h_list hr1))"
          using key by (auto simp: armed_def)
        have a1: "armed o' ty e h ev w1" using a h p(2,3,5-7) by (auto simp: armed_def)
        have "Suc i \<noteq> length (h_list hr)" using ahead ne d by auto
        then have "served diff o' ty e h ev (fired @ run) w' fired'" using 1(1) [OF next' 1(3,4) p(1,5) 1(7)] a1 p(8) by blast
        then show "served diff o' ty e h ev fired w' fired'" using p(4) by (auto simp: served_def count_eq_zero_iff)
      qed
    next
      case e: True
      show ?thesis
      proof (intro conjI impI allI)
        assume "e \<notin> set (drop i (h_list hr))"
        then show "left_alone o' ty e h w fired hr w' fired'" using d e by simp
      next
        fix ev
        assume a: "armed o' ty e h ev w"
        have one: "count (mset (h_list hr)) e = 1" "t_instance ev = h_instance hr" "\<not> t_deleted ev" "t_cb ev \<noteq> None"
          "\<not> (h_instance hr = WORLD_INSTANCE \<and> t_flag ev AND EVENT_FLAG_DO_NOT_EXECUTE_IN_WORLD_CONTEXT \<noteq> 0)"
          using a h by (auto simp: armed_def)
        have s: "table_ok {#} w1" "filed o' ty e w1"
          "if t_curr ev \<le> diff then run = [e] \<and> erased = once ev \<and> (\<not> once ev \<longrightarrow> heap w1 e = Some (rearmed ev))
           else run = [] \<and> \<not> erased \<and> heap w1 e = Some (ev\<lparr>t_curr := t_curr ev - diff\<rparr>)"
          and "\<exists>hr' xs. eholders w1 h = Some hr' \<and> h_instance hr' = h_instance hr \<and> e \<notin> set xs \<and>
           h_list hr' = (if erased then remove_nth i (h_list hr @ xs) else h_list hr @ xs)"
          using visit_self [OF 1(5,3,4) a h i e] v unfolding e by blast+
        then obtain hr1 xs where p: "eholders w1 h = Some hr1" "h_instance hr1 = h_instance hr" "e \<notin> set xs"
          "h_list hr1 = (if erased then remove_nth i (h_list hr @ xs) else h_list hr @ xs)" by blast
        have c: "count (mset (h_list hr1)) e = (if erased then 0 else 1)"
          using p(3,4) i e one(1) remove_nth_self [of i "h_list hr @ xs" e] by (simp add: nth_append count_eq_zero_iff)
        have "count (mset (take i (h_list hr))) e + count (mset (drop i (h_list hr))) e = 1"
          using one(1) by (metis append_take_drop_id count_union mset_append)
        then have "e \<notin> set (drop (Suc i) (h_list hr))" using d e by (simp add: count_eq_zero_iff)
        then have "e \<notin> set (drop ?j (h_list hr1))" using p(3,4) i drop_remove_nth [OF i, of xs] by auto
        then have r: "left_alone o' ty e h w1 (fired @ run) hr1 w' fired'" using rest s(1,2) p(1) by blast
        show "served diff o' ty e h ev fired w' fired'"
          using r s(3) c one(2-5) p(2)
          by (auto simp: served_def left_alone_def armed_def rearmed_def count_eq_zero_iff once_def split: if_splits)
      qed
    qed
  qed
qed

section \<open>Timers in a run\<close>

fun gentle :: "nat \<Rightarrow> 32 word \<Rightarrow> nat \<Rightarrow> ('m, 'a) table_cmd \<Rightarrow> bool" where
  "gentle o' ty h (Do a) \<longleftrightarrow> spares o' ty a"
| "gentle o' ty h (Update h' diff) \<longleftrightarrow> h' = h"

fun elapsed :: "('m, 'a) table_cmd list \<Rightarrow> nat" where
  "elapsed [] = 0"
| "elapsed (Do a # cs) = elapsed cs"
| "elapsed (Update h diff # cs) = unat diff + elapsed cs"

lemma armed_kept: "armed o' ty e h ev w \<Longrightarrow> kept o' ty e h w w' \<Longrightarrow> armed o' ty e h ev w'"
  unfolding armed_def kept_def by metis

lemma table_step_armed:
  assumes "well_behaved inst act" "sparing o' ty act" "table_ok {#} w" "armed o' ty e h ev w" "legal_cmd inst c w" "gentle o' ty h c"
    and st: "table_step inst act c w = Some (Some (w1, fired))"
  shows "case c of Do a \<Rightarrow> fired = [] \<and> armed o' ty e h ev w1 | Update _ diff \<Rightarrow> served diff o' ty e h ev [] w1 fired"
proof (cases c)
  case (Do a)
  then have ex: "table_exec inst a w = Some w1" "fired = []" using st by auto
  have "filed o' ty e w" using assms(4) by (simp add: armed_def)
  then have "kept o' ty e h w w1" using table_exec_kept [OF assms(3) _ ex(1)] assms(5,6) Do by auto
  then show ?thesis using armed_kept assms(4) ex(2) Do by auto
next
  case (Update h' diff)
  then have l: "holder_loop inst act diff h 0 w [] = Some (Some (w1, fired))" using st assms(6) by (simp add: holder_update_def)
  obtain hr where hr: "eholders w h = Some hr" "count (mset (h_list hr)) e = 1" using assms(4) by (auto simp: armed_def)
  then have "e \<in> set (drop 0 (h_list hr))" by (metis count_eq_zero_iff drop_0 set_mset_mset zero_neq_one)
  then show ?thesis using holder_loop_tracks [OF l assms(1-3) hr(1) refl] assms(4) Update by auto
qed

lemma timer_waits:
  assumes "well_behaved inst act" "sparing o' ty act" "table_ok {#} w" "armed o' ty e h ev w" "legal_run inst act cs w"
    "\<forall>c \<in> set cs. gentle o' ty h c" "table_run inst act cs w = Some (Some (w', runs))" "elapsed cs < unat (t_curr ev)"
  shows "e \<notin> set (concat runs) \<and> table_ok {#} w' \<and> armed o' ty e h (ev\<lparr>t_curr := t_curr ev - word_of_nat (elapsed cs)\<rparr>) w'"
  using assms(3-)
proof (induction cs arbitrary: w ev runs)
  case Nil
  then show ?case by simp
next
  case (Cons c cs)
  obtain w1 fired runs1 where s: "table_step inst act c w = Some (Some (w1, fired))"
    "table_run inst act cs w1 = Some (Some (w', runs1))" "runs = fired # runs1"
    using Cons.prems(5) by (auto split: option.splits)
  have l: "legal_cmd inst c w" "legal_run inst act cs w1" "gentle o' ty h c" using Cons.prems(3,4) s(1) by auto
  have ok1: "table_ok {#} w1" using table_step_ok [OF Cons.prems(1) assms(1) l(1) s(1)] by auto
  note st = table_step_armed [OF assms(1,2) Cons.prems(1,2) l(1,3) s(1)]
  show ?case
  proof (cases c)
    case (Do a)
    then show ?thesis using Cons.IH [OF ok1 _ l(2) _ s(2), of ev] st Cons.prems(4,6) s(3) by auto
  next
    case (Update h' diff)
    have lt: "unat diff + elapsed cs < unat (t_curr ev)" using Cons.prems(6) Update by simp
    then have nd: "\<not> t_curr ev \<le> diff" by (simp add: word_le_nat_alt)
    let ?ev = "ev\<lparr>t_curr := t_curr ev - diff\<rparr>"
    have "armed o' ty e h ?ev w1" "e \<notin> set fired"
      using st Update nd by (auto simp: served_def count_eq_zero_iff)
    moreover have "elapsed cs < unat (t_curr ?ev)"
      using lt by (simp add: unat_sub_if')
    ultimately show ?thesis using Cons.IH [OF ok1 _ l(2) _ s(2), of ?ev] Cons.prems(4) s(3) Update by (simp add: diff_diff_eq)
  qed
qed

lemma table_run_append:
  "table_run inst act (cs @ ds) w = Some (Some (w', runs)) \<longleftrightarrow>
   (\<exists>w1 runs1 runs2. table_run inst act cs w = Some (Some (w1, runs1)) \<and> table_run inst act ds w1 = Some (Some (w', runs2)) \<and> runs = runs1 @ runs2)"
proof (induction cs arbitrary: w runs)
  case (Cons c cs)
  show ?case
    by (cases "table_step inst act c w") (auto simp: Cons.IH split: option.splits)
qed auto

lemma table_run_single:
  "table_run inst act [c] w = Some (Some (w', runs)) \<longleftrightarrow> (\<exists>fired. table_step inst act c w = Some (Some (w', fired)) \<and> runs = [fired])"
proof (cases "table_step inst act c w")
  case (Some r)
  then show ?thesis by (cases r) auto
qed simp

lemma legal_run_append:
  "table_run inst act cs w = Some (Some (w1, runs1)) \<Longrightarrow> legal_run inst act (cs @ ds) w \<longleftrightarrow> legal_run inst act cs w \<and> legal_run inst act ds w1"
proof (induction cs arbitrary: w runs1)
  case (Cons c cs)
  then obtain w2 fired runs2 where "table_step inst act c w = Some (Some (w2, fired))" "table_run inst act cs w2 = Some (Some (w1, runs2))"
    by (auto split: option.splits)
  then show ?case using Cons.IH by auto
qed auto

text \<open>The holder that an object has, or takes with its first event.\<close>

definition joins :: "(nat \<Rightarrow> int) \<Rightarrow> nat \<Rightarrow> nat \<Rightarrow> ('m, 'a) etable \<Rightarrow> bool" where
  "joins inst o' h w \<longleftrightarrow>
     (case (objects w o', eholders w h) of
        (Some ob, Some hr) \<Rightarrow>
          (case o_holder ob of
             Some h1 \<Rightarrow> h1 = h \<and> o_instance ob = h_instance hr
           | None \<Rightarrow> mHolders w (inst o') = Some h \<and> inst o' = h_instance hr)
      | _ \<Rightarrow> False)"

lemma added_armed:
  assumes ok: "table_ok {#} w" and j: "joins inst o' h w"
    and fl: "(ucast flags :: 16 word) AND EVENT_FLAG_DO_NOT_EXECUTE_IN_WORLD_CONTEXT = 0"
  shows "\<exists>w1 ev. mgr_addEvent inst o' f args ty time repeats flags w = Some w1 \<and> armed o' ty (next_event w) h ev w1 \<and> t_curr ev = time"
proof -
  obtain ob hr where o: "objects w o' = Some ob" and h: "eholders w h = Some hr"
    using j by (auto simp: joins_def split: option.splits)
  let ?e = "next_event w"
  have "heap w ?e = None" "event_ok {#} w ?e" using ok by (auto simp: table_ok_def)
  then have r0: "refs w ?e = 0" by (simp add: event_ok_def)
  have fin: "finite (dom (objects w))" "finite (dom (eholders w))" using ok by (simp_all add: table_ok_def)
  have c0: "count (mset (h_list hr)) ?e = 0"
    using tally_split [OF fin(2) h, of "holder_refs ?e"] r0 by (simp add: refs_def holder_refs_def)
  have n0: "objects w p = Some obp \<Longrightarrow> (k, ?e) \<notin> set (o_events obp)" for p obp k
    using tally_split [OF fin(1), of p obp "object_refs ?e"] r0 by (force simp: refs_def object_refs_def count_eq_zero_iff)
  define ob1 where "ob1 = (if o_holder ob = None then ob\<lparr>o_instance := inst o'\<rparr> else ob)"
  define w1 where "w1 = added o' f args ty time repeats flags (h_instance hr) ob1 h hr w"
  have oe: "o_events ob1 = o_events ob" by (simp add: ob1_def)
  have "mgr_addEvent inst o' f args ty time repeats flags w = Some w1"
  proof (cases "o_holder ob")
    case n: None
    then have m: "mHolders w (inst o') = Some h" "inst o' = h_instance hr" using j o h by (auto simp: joins_def)
    show ?thesis by (use n m o h in \<open>cases w; cases ob; simp add: add_defs w1_def ob1_def\<close>)
  next
    case n: (Some h1)
    then have m: "h1 = h" "o_instance ob = h_instance hr" using j o h by (simp_all add: joins_def)
    show ?thesis by (use n m o h in \<open>cases w; cases ob; simp add: add_defs w1_def ob1_def\<close>)
  qed
  moreover obtain ev where "heap w1 ?e = Some ev" "t_curr ev = time" "\<not> t_deleted ev" "t_cb ev \<noteq> None" "t_instance ev = h_instance hr" "t_flag ev = ucast flags"
    by (simp add: w1_def added_def Let_def TimedEvent_new_def)
  moreover have "filed o' ty ?e w1"
    using n0 o oe by (auto simp: filed_def w1_def added_def Let_def set_multi_insert split: if_splits)
  moreover have "eholders w1 h = Some (hr\<lparr>h_list := h_list hr @ [?e]\<rparr>)" by (simp add: w1_def added_def Let_def)
  ultimately show ?thesis using c0 fl by (auto simp: armed_def)
qed


text \<open>The second object asks for a timer of 100 ms while the event of the first destroys its object.\<close>

definition sample_before :: "(nat, nat) table_cmd list" where
  "sample_before = [Do (New_holder 0 (-1)), Do (Create_object 1), Do (Create_object 2), Do (Add_event 1 7 [] 5 60 1 0)]"

definition sample_after :: "(nat, nat) table_cmd list" where
  "sample_after = [Update 0 60, Do (Remove_events 2 9)]"

lemma sample_sparing: "sparing 2 5 (\<lambda>w call. if fst call = 1 then [Destroy_object 1] else [])"
  by (simp add: sparing_def)

lemma sample_behaves: "well_behaved inst (\<lambda>w call. if fst call = 1 then [Destroy_object 1] else [])"
  by (auto simp: well_behaved_def split: option.splits)

definition sample_w0 :: "(nat, nat) etable" where
  "sample_w0 = fst (the (the (table_run (\<lambda>_. -1) (\<lambda>w call. if fst call = 1 then [Destroy_object 1] else []) sample_before etable_start)))"

lemma sample_before_run:
  "table_run (\<lambda>_. -1) (\<lambda>w call. if fst call = 1 then [Destroy_object 1] else []) sample_before etable_start = Some (Some (sample_w0, [[], [], [], []]))"
  by (simp add: sample_w0_def sample_before_def sample_defs)

lemma sample_after_run:
  "\<exists>w. table_run (\<lambda>_. -1) (\<lambda>w call. if fst call = 1 then [Destroy_object 1] else [])
     (Do (Add_event 2 8 [] 5 100 1 0) # sample_after @ [Update 0 60]) sample_w0 = Some (Some (w, [[], [0], [], [1]]))"
  by (simp add: sample_w0_def sample_after_def sample_before_def sample_defs holder_loop.simps eventRemoveEvents_def of_type_def EVENT_REMOVAL_FLAG_ALL_def)


text \<open>
  Two paths that no object of the servers takes lose events.  An object whose instance has no holder falls back to
  the holder of the world, but its first event keeps the other instance and is dropped by the next update.  And
  after a change of the holder the old holder gives up its reference, which marks the event as deleted for the
  new holder as well.
\<close>

lemma fallback_loses_event:
  "map_option (map_option snd) (table_run (\<lambda>_. 5) (\<lambda>w call. [])
     [Do (New_holder 0 (-1)), Do (Create_object 1), Do (Add_event 1 (7::nat) [] 5 60 1 0), Update 0 100] etable_start) = Some (Some [[], [], [], []])"
  by (simp add: sample_defs holder_loop.simps)

lemma relocation_loses_event:
  "map_option (map_option snd) (table_run (\<lambda>_. 5) (\<lambda>w call. [])
     [Do (New_holder 0 (-1)), Do (Create_object 1), Do (Add_event 1 (7::nat) [] 5 60 1 0), Do (New_holder 1 5), Do (Relocate 1),
      Update 0 10, Update 1 100] etable_start) = Some (Some [[], [], [], [], [], [], []])"
  by (simp add: sample_defs holder_loop.simps eventRelocate_def)

end
