(* ===== verification/Event_Progress.thy ===== *)
theory Event_Progress
  imports Event_Time
begin

text \<open>
  The loop of the update visits events that the callbacks append, so it need not end.  It does if no operation makes
  an event due within the update: the events ahead that are due become fewer, or the list ahead becomes shorter.
\<close>

section \<open>An update ends\<close>

text \<open>Operations that make no event due within the update that is going on.\<close>

fun punctual :: "32 word \<Rightarrow> ('m, 'a) table_op \<Rightarrow> bool" where
  "punctual diff (Add_event p m args t time repeats flags) \<longleftrightarrow> diff < time"
| "punctual diff (Modify_both p t time) \<longleftrightarrow> diff < time"
| "punctual diff (Modify_time_left p t left u) \<longleftrightarrow> u \<and> diff < left"
| "punctual diff (Relocate p) \<longleftrightarrow> False"
| "punctual diff a \<longleftrightarrow> True"

definition due :: "32 word \<Rightarrow> ('m, 'a) etable \<Rightarrow> nat \<Rightarrow> bool" where
  "due diff w e \<longleftrightarrow> (case heap w e of None \<Rightarrow> False | Some ev \<Rightarrow> t_curr ev \<le> diff)"

text \<open>No event becomes due, and what is appended to the list of the holder is new.\<close>

definition calmer :: "32 word \<Rightarrow> nat \<Rightarrow> ('m, 'a) etable \<Rightarrow> ('m, 'a) etable \<Rightarrow> bool" where
  "calmer diff h w w' \<longleftrightarrow> (\<forall>x. due diff w' x \<longrightarrow> due diff w x) \<and> next_event w \<le> next_event w' \<and>
     (\<forall>hr. eholders w h = Some hr \<longrightarrow>
       (\<exists>hr' xs. eholders w' h = Some hr' \<and> h_list hr' = h_list hr @ xs \<and> (\<forall>x \<in> set xs. next_event w \<le> x) \<and>
         (distinct (h_list hr) \<longrightarrow> distinct (h_list hr'))))"

lemma calmer_refl [simp]: "calmer diff h w w"
  by (simp add: calmer_def)

lemma calmer_trans: "calmer diff h w w' \<Longrightarrow> calmer diff h w' w'' \<Longrightarrow> calmer diff h w w''"
  unfolding calmer_def by (fastforce dest: order_trans)

lemma calmer_same: "eholders w' = eholders w \<Longrightarrow> next_event w' = next_event w \<Longrightarrow> (\<And>x. due diff w' x \<Longrightarrow> due diff w x) \<Longrightarrow> calmer diff h w w'"
  by (simp add: calmer_def)

lemma decRef_due: "decRef e w = Some w' \<Longrightarrow> due diff w' x \<Longrightarrow> due diff w x"
  by (auto simp: decRef_def due_def set_event_def split: option.splits if_splits)

lemma decRefs_due: "decRefs es w = Some w' \<Longrightarrow> due diff w' x \<Longrightarrow> due diff w x"
  by (induction es arbitrary: w) (auto split: bind_splits dest: decRef_due)

lemma modify_events_due:
  "modify_events f es w = Some w' \<Longrightarrow> (\<And>ev. t_curr (f ev) \<le> diff \<Longrightarrow> t_curr ev \<le> diff) \<Longrightarrow> due diff w' x \<Longrightarrow> due diff w x"
proof (induction es arbitrary: w)
  case (Cons e es)
  then obtain ev where ev: "heap w e = Some ev" "modify_events f es (set_event e (f ev) w) = Some w'"
    by (auto split: option.splits)
  have "due diff (set_event e (f ev) w) x" using Cons.IH [OF ev(2)] Cons.prems(2,3) by blast
  then show ?case using Cons.prems(2) ev(1) by (auto simp: due_def set_event_def split: if_splits)
qed simp

lemma modify_type_calmer:
  assumes ok: "table_ok {#} w" and l: "objects w p \<noteq> None" and m: "modify_type f p t w = Some w'"
    and "\<And>ev. t_ref (f ev) = t_ref ev \<and> t_deleted (f ev) = t_deleted ev \<and> t_obj (f ev) = t_obj ev \<and> t_cb (f ev) = t_cb ev"
    and "\<And>ev. t_curr (f ev) \<le> diff \<Longrightarrow> t_curr ev \<le> diff"
  shows "calmer diff h w w'"
proof -
  obtain ob where ob: "objects w p = Some ob" using l by auto
  then have "modify_events f (of_type t (o_events ob)) w = Some w'" using m by (simp add: modify_type_def)
  then show ?thesis
    using modify_type_ok [OF ok ob, of f t] assms(4) m modify_events_due [of f _ w w' diff, OF _ assms(5)] modify_events_other
    by (intro calmer_same) fastforce+
qed

lemma table_exec_calmer:
  assumes ok: "table_ok {#} w" and l: "legal inst a w" and ex: "table_exec inst a w = Some w'" and p: "punctual diff a"
  shows "calmer diff h w w'"
proof (cases a)
  case (Create_object q)
  then show ?thesis using ex by (auto intro!: calmer_same simp: set_object_def due_def)
next
  case (Destroy_object q)
  then obtain ob where ob: "objects w q = Some ob" using l by auto
  obtain w1 where w1: "decRefs (map snd (o_events ob)) w = Some w1" "w' = w1\<lparr>objects := (objects w1)(q := None)\<rparr>"
    using ex ob Destroy_object by (auto simp: destroy_eobject_def)
  have "eholders w' = eholders w" using destroy_eobject_ok [OF ok ob] ex Destroy_object by auto
  moreover have "due diff w' x \<Longrightarrow> due diff w x" for x using decRefs_due [OF w1(1)] w1(2) by (simp add: due_def)
  ultimately show ?thesis using decRefs_objects [OF w1(1)] w1(2) by (intro calmer_same) simp_all
next
  case (Add_event q m args t time repeats flags)
  then have add: "can_add inst q w" using l by simp
  then obtain ob where ob: "objects w q = Some ob" by (auto simp: can_add_def split: option.splits)
  obtain i j h1 hr where h: "eholders w h1 = Some hr" "w' = added q m args t time repeats flags i (ob\<lparr>o_instance := j\<rparr>) h1 hr w"
  proof -
    have "mgr_addEvent inst q m args t time repeats flags w = Some w'" using ex Add_event by simp
    then show ?thesis using mgr_addEvent_eq [OF ok add ob, of m args t time repeats flags] that by auto
  qed
  have "\<not> time \<le> diff" using p Add_event by (simp add: not_le)
  moreover have "next_event w \<notin> set (h_list hr2)" if "eholders w h2 = Some hr2" for h2 hr2
    using listed [OF ok that, of "next_event w"] ok by (auto simp: table_ok_def)
  ultimately show ?thesis using h(1) by (auto simp: calmer_def h(2) added_def Let_def due_def TimedEvent_new_def split: if_splits)
next
  case (Remove_events q t)
  then obtain ob where ob: "objects w q = Some ob" using l by auto
  have eh: "eholders w' = eholders w" using eventRemoveEvents_ok [OF ok ob, of t] ex Remove_events by auto
  have "w' = w \<or> (\<exists>es ob' w1. decRefs es w = Some w1 \<and> w' = set_object q ob' w1)"
    using ex ob Remove_events by (auto simp: eventRemoveEvents_def split: if_splits)
  then show ?thesis
  proof (elim disjE exE conjE)
    fix es ob' w1
    assume d: "decRefs es w = Some w1" "w' = set_object q ob' w1"
    have "due diff w' x \<Longrightarrow> due diff w x" for x using decRefs_due [OF d(1)] d(2) by (simp add: due_def set_object_def)
    then show ?thesis using eh d(2) decRefs_objects [OF d(1)] by (intro calmer_same) (simp_all add: set_object_def)
  qed simp
next
  case (Modify_time_left q t left u)
  then have m: "modify_type (\<lambda>ev. ev\<lparr>t_curr := if u then left else if t_ms ev < left then t_ms ev else left\<rparr>) q t w = Some w'"
    using ex by (simp add: eventModifyTimeLeft_def)
  have "u" "\<not> left \<le> diff" using p Modify_time_left by (simp_all add: not_le)
  then show ?thesis using l Modify_time_left by (intro modify_type_calmer [OF ok _ m]) simp_all
next
  case (Modify_time q t time)
  then have m: "modify_type (\<lambda>ev. ev\<lparr>t_ms := time\<rparr>) q t w = Some w'" using ex by (simp add: eventModifyTime_def)
  show ?thesis using l Modify_time by (intro modify_type_calmer [OF ok _ m]) simp_all
next
  case (Modify_both q t time)
  then have m: "modify_type (\<lambda>ev. ev\<lparr>t_curr := time, t_ms := time\<rparr>) q t w = Some w'" using ex by (simp add: eventModifyTimeAndTimeLeft_def)
  have "\<not> time \<le> diff" using p Modify_both by (simp add: not_le)
  then show ?thesis using l Modify_both by (intro modify_type_calmer [OF ok _ m]) simp_all
next
  case (New_holder h1 i)
  then show ?thesis using ex l by (auto simp: calmer_def new_eholder_def set_eholder_def due_def)
qed (use p in simp)

lemma table_execs_calmer:
  "table_ok {#} w \<Longrightarrow> legals inst as w \<Longrightarrow> table_execs inst as w = Some w' \<Longrightarrow> \<forall>a \<in> set as. punctual diff a \<Longrightarrow> calmer diff h w w'"
proof (induction as arbitrary: w)
  case (Cons a as)
  then obtain w1 where w1: "table_exec inst a w = Some w1" "table_ok {#} w1" using table_exec_ok by fastforce
  then have "calmer diff h w w1" using table_exec_calmer [OF Cons.prems(1) _ w1(1)] Cons.prems by auto
  moreover have "calmer diff h w1 w'" using Cons.IH [OF w1(2)] Cons.prems w1(1) by auto
  ultimately show ?case using calmer_trans by blast
qed simp

lemma run_callback_calmer:
  assumes "table_ok {#} w" "well_behaved inst act" "\<forall>w call. \<forall>a \<in> set (act w call). punctual diff a"
    and run: "run_callback inst act cb w = Some w1"
  shows "calmer diff h w w1"
proof (cases "execute cb")
  case None
  then show ?thesis using run by (simp add: run_callback_def)
next
  case (Some call)
  then have ex: "objects w (fst call) \<noteq> None" "table_execs inst (act w call) w = Some w1"
    using run by (auto simp: run_callback_def split: prod.splits if_splits)
  have "legals inst (act w call) w" using assms(1,2) ex(1) unfolding well_behaved_def by blast
  then show ?thesis using table_execs_calmer [OF assms(1) _ ex(2)] assms(3) by blast
qed

lemma erase_event_due: "erase_event h i e w = Some w' \<Longrightarrow> due diff w' x \<Longrightarrow> due diff w x"
proof -
  assume e: "erase_event h i e w = Some w'" and d: "due diff w' x"
  obtain w1 where w1: "decRef e w = Some w1" "heap w' = heap w1"
    using e by (auto simp: erase_event_def set_eholder_def split: bind_splits option.splits)
  then show ?thesis using decRef_due [OF w1(1)] d by (simp add: due_def)
qed

lemma after_callback_due:
  "after_callback h i e w = Some (w', erased) \<Longrightarrow> x \<noteq> e \<Longrightarrow> due diff w' x \<Longrightarrow> due diff w x"
  by (auto simp: after_callback_def Let_def set_event_def due_def split: option.splits if_splits dest!: erase_event_due [unfolded due_def])

text \<open>How many of the events ahead are due.\<close>

definition due_ahead :: "32 word \<Rightarrow> ('m, 'a) etable \<Rightarrow> nat list \<Rightarrow> nat" where
  "due_ahead diff w xs = length (filter (due diff w) xs)"

lemma due_ahead_mono: "(\<And>x. x \<in> set xs \<Longrightarrow> due diff w' x \<Longrightarrow> due diff w x) \<Longrightarrow> due_ahead diff w' xs \<le> due_ahead diff w xs"
  unfolding due_ahead_def by (induction xs) auto

lemma due_ahead_app: "due_ahead diff w (xs @ ys) = due_ahead diff w xs + due_ahead diff w ys"
  "due_ahead diff w (x # xs) = (if due diff w x then 1 else 0) + due_ahead diff w xs" "due_ahead diff w [] = 0"
  by (simp_all add: due_ahead_def)

lemma distinct_remove_nth: "distinct xs \<Longrightarrow> distinct (remove_nth i xs)"
  by (simp add: remove_nth_def set_take_disj_set_drop_if_distinct)

lemma visit_progress:
  assumes ok: "table_ok {#} w" and wb: "well_behaved inst act" and pu: "\<forall>w call. \<forall>a \<in> set (act w call). punctual diff a"
    and h: "eholders w h = Some hr" and i: "i < length (h_list hr)" and di: "distinct (h_list hr)"
    and v: "visit_event inst act diff h i (h_list hr ! i) w = Some (w', erased, run)"
  shows "\<exists>hr'. eholders w' h = Some hr' \<and> table_ok {#} w' \<and> distinct (h_list hr') \<and>
    (let a = due_ahead diff w' (drop (if erased then i else Suc i) (h_list hr')); b = due_ahead diff w (drop i (h_list hr))
     in a < b \<or> a \<le> b \<and> length (h_list hr') - (if erased then i else Suc i) < length (h_list hr) - i)"
proof -
  let ?e = "h_list hr ! i" and ?j = "if erased then i else Suc i"
  obtain w0 erased0 run0 hr0 xs0 where v0: "visit_event inst act diff h i ?e w = Some (w0, erased0, run0)" "table_ok {#} w0"
    "eholders w0 h = Some hr0" using visit_event_ok [OF ok wb h i, of diff] by blast
  then have ok': "table_ok {#} w'" and h': "eholders w' h = Some hr0" using v by auto
  obtain ev where ev: "heap w ?e = Some ev" using v by (auto simp: visit_event_def split: option.splits)
  have d: "drop i (h_list hr) = ?e # drop (Suc i) (h_list hr)" using i by (simp add: Cons_nth_drop_Suc)
  have ne: "x \<in> set (drop (Suc i) (h_list hr)) \<Longrightarrow> x \<noteq> ?e" for x
    using distinct_drop [OF di, of i] d by auto
  have erased_list: "h_list hr0 = remove_nth i (h_list hr1)" if "erase_event h i ?e w1 = Some w'" "eholders w1 h = Some hr1" for w1 hr1
    using that h' by (auto simp: erase_event_def decRef_def set_event_def set_eholder_def split: option.splits bind_splits if_splits)
  consider (drop) "erase_event h i ?e w = Some w'" "erased"
    | (run) cb w1 where "run_callback inst act cb w = Some w1" "after_callback h i ?e w1 = Some (w', erased)" "t_curr ev \<le> diff"
    | (wait) "w' = set_event ?e (ev\<lparr>t_curr := t_curr ev - diff\<rparr>) w" "\<not> erased"
    using v ev h by (auto simp: visit_event_def split: option.splits if_splits bind_splits)
  then show ?thesis
  proof cases
    case drop
    have l: "h_list hr0 = remove_nth i (h_list hr)" using erased_list [OF drop(1) h] .
    then have "drop i (h_list hr0) = drop (Suc i) (h_list hr)" using drop_remove_nth [OF i, of "[]"] by simp
    moreover have "due_ahead diff w' (drop (Suc i) (h_list hr)) \<le> due_ahead diff w (drop (Suc i) (h_list hr))"
      using erase_event_due [OF drop(1)] by (intro due_ahead_mono) blast
    moreover have "length (h_list hr0) = length (h_list hr) - 1" "distinct (h_list hr0)"
      using l i di by (auto simp: remove_nth_def set_take_disj_set_drop_if_distinct)
    ultimately show ?thesis using drop(2) ok' h' i d by (auto simp: due_ahead_app)
  next
    case wait
    have l: "hr0 = hr" using h' h wait(1) by (simp add: set_event_def)
    have "due_ahead diff w' (drop (Suc i) (h_list hr)) \<le> due_ahead diff w (drop (Suc i) (h_list hr))"
      using ne by (intro due_ahead_mono) (auto simp: wait(1) due_def set_event_def split: if_splits)
    then show ?thesis using wait(2) ok' h' l i di d by (auto simp: due_ahead_app)
  next
    case (run cb w1)
    have calm: "calmer diff h w w1" using run_callback_calmer [OF ok wb pu run(1)] .
    obtain hr1 xs where hr1: "eholders w1 h = Some hr1" "h_list hr1 = h_list hr @ xs" "\<forall>x \<in> set xs. next_event w \<le> x" "distinct (h_list hr1)"
      using calm h di unfolding calmer_def by blast
    have nx: "\<not> due diff w x" if "x \<in> set xs" for x using hr1(3) that ok by (auto simp: due_def table_ok_def)
    have e_xs: "?e \<notin> set xs" using hr1(2,4) i by (auto simp: disjoint_iff)
    have dd: "drop ?j (h_list hr0) = drop (Suc i) (h_list hr) @ xs \<and> distinct (h_list hr0)"
    proof (cases erased)
      case True
      then obtain w2 where "erase_event h i ?e w2 = Some w'" "eholders w2 h = Some hr1"
        using run(2) hr1(1) by (auto simp: after_callback_def Let_def set_event_def split: option.splits if_splits)
      then have "h_list hr0 = remove_nth i (h_list hr @ xs)" using erased_list hr1(2) by metis
      then show ?thesis using True drop_remove_nth [OF i, of xs] hr1(2) distinct_remove_nth [OF hr1(4), of i] i by simp
    next
      case False
      then have "eholders w' h = eholders w1 h"
        using run(2) by (auto simp: after_callback_def Let_def set_event_def split: option.splits if_splits)
      then show ?thesis using False hr1 h' i by simp
    qed
    have "x \<noteq> ?e" if "x \<in> set (drop (Suc i) (h_list hr) @ xs)" for x using that ne e_xs by auto
    moreover have "due diff w x" if "x \<noteq> ?e" "due diff w' x" for x
      using after_callback_due [OF run(2) that] calm by (simp add: calmer_def)
    ultimately have "due_ahead diff w' (drop (Suc i) (h_list hr) @ xs) \<le> due_ahead diff w (drop (Suc i) (h_list hr) @ xs)"
      by (intro due_ahead_mono) blast
    also have "due_ahead diff w (drop (Suc i) (h_list hr) @ xs) = due_ahead diff w (drop (Suc i) (h_list hr))"
      using nx by (auto simp: due_ahead_app) (auto simp: due_ahead_def)
    also have "\<dots> < due_ahead diff w (drop i (h_list hr))" using ev run(3) d by (simp add: due_ahead_app due_def)
    finally show ?thesis using dd ok' h' by auto
  qed
qed

lemma holder_loop_returns:
  assumes "table_ok {#} w" "well_behaved inst act" "\<forall>w call. \<forall>a \<in> set (act w call). punctual diff a"
    "eholders w h = Some hr" "distinct (h_list hr)"
  shows "\<exists>w' fired'. holder_loop inst act diff h i w fired = Some (Some (w', fired'))"
  using assms(1,4,5)
proof (induction "(due_ahead diff w (drop i (h_list hr)), length (h_list hr) - i)" arbitrary: w hr i fired
    rule: wf_induct_rule [OF wf_lex_prod [OF wf_less wf_less]])
  case 1
  show ?case
  proof (cases "length (h_list hr) \<le> i")
    case True
    then show ?thesis using 1(3) by (subst holder_loop.simps) simp
  next
    case False
    then have i: "i < length (h_list hr)" by simp
    obtain w1 erased run where v: "visit_event inst act diff h i (h_list hr ! i) w = Some (w1, erased, run)"
      using visit_event_ok [OF 1(2) assms(2) 1(3) i, of diff] by blast
    let ?j = "if erased then i else Suc i"
    obtain hr1 where p: "eholders w1 h = Some hr1" "table_ok {#} w1" "distinct (h_list hr1)"
      "((due_ahead diff w1 (drop ?j (h_list hr1)), length (h_list hr1) - ?j), (due_ahead diff w (drop i (h_list hr)), length (h_list hr) - i))
        \<in> {(x, y). x < y} <*lex*> {(x, y). x < y}"
      using visit_progress [OF 1(2) assms(2,3) 1(3) i 1(4) v] by (auto simp: Let_def order_le_less)
    have "\<exists>w' fired'. holder_loop inst act diff h ?j w1 (fired @ run) = Some (Some (w', fired'))"
      using 1(1) [OF p(4) p(2,1,3)] .
    then show ?thesis using 1(3) i v by (subst holder_loop.simps) auto
  qed
qed


definition sample_adds :: "(nat, nat) behaviour" where
  "sample_adds w call = (if can_add (\<lambda>_. -1) 2 w then [Add_event 2 8 [] 5 70 1 0] else [])"


end
