(* ===== verification/Database.thy ===== *)
theory Database
  imports Pipelines Std_Map
begin

text \<open>
  The task engine in front of MySQL (\<^verbatim>\<open>src/common/database.cpp\<close>, \<^verbatim>\<open>database.h\<close>, \<^verbatim>\<open>run_object.h\<close>): the queues of
  tasks by type, the threads that execute them, the list of results and the main thread, which runs the
  callbacks and stops the threads.  A step is what a thread does between two accesses to shared data, so that
  the steps of the threads and of the main thread interleave freely.  MySQL is external: whether a connection
  succeeds and what an execution leaves behind come with the step.  A task carries a value of a type of its
  own, which is handed to its callback.
\<close>

section \<open>State\<close>

datatype obj_state = init_obj | run_obj | wait_stop | stop_obj

datatype query_kind = STORE_QUERY | USE_QUERY | TRANCE_QUERY | BATCH_QUERY

datatype task_state = task_doing | task_done | task_error

text \<open>\<open>dt_result\<close> is the result set, or what a batch function wrote into the data of its task.\<close>

record ('a, 'r) DBTask =
  dt_store :: query_kind
  dt_data :: 'a
  dt_result :: "'r option"
  dt_state :: task_state

text \<open>
  Where a thread stands: at the head of the loop of \<^verbatim>\<open>run\<close>, in \<^verbatim>\<open>connetDatabase\<close>, at the beginning of \<^verbatim>\<open>work\<close>, before
  and after \<^verbatim>\<open>getTask\<close> (whose result is not yet in \<^verbatim>\<open>_task\<close>), in the loop over the tasks, before \<^verbatim>\<open>addDone\<close>, and
  returned.
\<close>

datatype ('a, 'r) thread_pc =
  At_loop | At_connect | At_work | At_get | At_got "('a, 'r) DBTask option" | At_task | At_done bool | At_end

record ('a, 'r) db_thread =
  th_type :: int
  th_connect :: bool
  th_stop :: bool
  th_task :: "('a, 'r) DBTask option"
  th_pc :: "('a, 'r) thread_pc"

text \<open>The main thread: outside \<^verbatim>\<open>Database::run\<close>, in \<^verbatim>\<open>checkStop\<close> (three places), before and in the loop over the results.\<close>

datatype main_pc = Main_idle | Main_count | Main_thread nat | Main_join nat | Main_results | Main_loop

record ('a, 'r) Database =
  db_state :: obj_state
  db_tasks :: "(int, ('a, 'r) DBTask list) smap"
  db_threads :: "('a, 'r) db_thread list"
  db_results :: "('a, 'r) DBTask list"
  db_tem :: "('a, 'r) DBTask list"
  db_main :: main_pc

datatype db_fail = Bad_query int | Mysql_exception | Other_exception

text \<open>An execution ends well, or with an exception, before which the result may have been stored.\<close>

datatype 'r outcome = Exec_ok 'r | Exec_fail db_fail "'r option"

text \<open>\<open>Ran_again\<close>: the task stays with the thread, which will execute it once more.\<close>

datatype ran = Ran_done | Ran_failed | Ran_again

datatype ('a, 'r) db_out = Queued 'a | Ran 'a ran | Called 'a "'r option" bool

abbreviation (input) NORMAL_THREAD :: int where "NORMAL_THREAD \<equiv> 0"

section \<open>Adding tasks\<close>

definition setObjState :: "obj_state \<Rightarrow> ('a, 'r) Database \<Rightarrow> ('a, 'r) Database" where
  "setObjState st d = d\<lparr>db_state := st\<rparr>"

definition isObjState :: "obj_state \<Rightarrow> ('a, 'r) Database \<Rightarrow> bool" where
  "isObjState st d \<longleftrightarrow> db_state d = st"

definition isObjStop :: "('a, 'r) Database \<Rightarrow> bool" where
  "isObjStop d \<longleftrightarrow> db_state d = stop_obj"

definition new_task :: "query_kind \<Rightarrow> 'a \<Rightarrow> ('a, 'r) DBTask" where
  "new_task k x = \<lparr>dt_store = k, dt_data = x, dt_result = None, dt_state = task_doing\<rparr>"

definition new_thread :: "int \<Rightarrow> ('a, 'r) db_thread" where
  "new_thread ty = \<lparr>th_type = ty, th_connect = False, th_stop = False, th_task = None, th_pc = At_loop\<rparr>"

definition addThread :: "int \<Rightarrow> nat \<Rightarrow> ('a, 'r) Database \<Rightarrow> ('a, 'r) Database" where
  "addThread ty n d =
     d\<lparr>db_tasks := map_assign ty [] (db_tasks d),
       db_threads := db_threads d @ (if ty \<noteq> NORMAL_THREAD then [new_thread ty] else replicate n (new_thread ty))\<rparr>"

definition task_queue :: "int \<Rightarrow> ('a, 'r) Database \<Rightarrow> ('a, 'r) DBTask list" where
  "task_queue ty d = (case map_find ty (db_tasks d) of None \<Rightarrow> [] | Some q \<Rightarrow> q)"

text \<open>The call of itself in \<^verbatim>\<open>addRealTask\<close> finds the queue that \<^verbatim>\<open>addThread\<close> has made.\<close>

definition addRealTask :: "int \<Rightarrow> ('a, 'r) DBTask \<Rightarrow> ('a, 'r) Database \<Rightarrow> ('a, 'r) Database" where
  "addRealTask ty t d =
     (let d1 = (if map_find ty (db_tasks d) = None then addThread ty 1 d else d)
      in d1\<lparr>db_tasks := map_assign ty (task_queue ty d1 @ [t]) (db_tasks d1)\<rparr>)"

definition initDatabase :: "nat \<Rightarrow> ('a, 'r) Database" where
  "initDatabase n =
     setObjState run_obj (addThread NORMAL_THREAD n
       \<lparr>db_state = init_obj, db_tasks = [], db_threads = [], db_results = [], db_tem = [], db_main = Main_idle\<rparr>)"

text \<open>\<^verbatim>\<open>addSQueryTask\<close>, \<^verbatim>\<open>addUQueryTask\<close>, \<^verbatim>\<open>addTranceTask\<close> and \<^verbatim>\<open>addBatchTask\<close>: the kind is that of the function.\<close>

definition addKindTask :: "query_kind \<Rightarrow> int \<Rightarrow> 'a \<Rightarrow> ('a, 'r) Database \<Rightarrow> ('a, 'r) Database \<times> ('a, 'r) db_out list" where
  "addKindTask k ty x d =
     (if \<not> isObjState run_obj d then (d, []) else (addRealTask ty (new_task k x) d, [Queued x]))"

section \<open>The threads\<close>

definition put_thread :: "nat \<Rightarrow> ('a, 'r) db_thread \<Rightarrow> ('a, 'r) Database \<Rightarrow> ('a, 'r) Database" where
  "put_thread i th d = d\<lparr>db_threads := (db_threads d)[i := th]\<rparr>"

definition getTask :: "int \<Rightarrow> ('a, 'r) Database \<Rightarrow> ('a, 'r) DBTask option \<times> ('a, 'r) Database" where
  "getTask ty d =
     (case task_queue ty d of
        [] \<Rightarrow> (None, d)
      | t # q \<Rightarrow> (Some t, d\<lparr>db_tasks := map_assign ty q (db_tasks d)\<rparr>))"

definition store_result :: "'r option \<Rightarrow> ('a, 'r) DBTask \<Rightarrow> ('a, 'r) DBTask" where
  "store_result r t = (case r of None \<Rightarrow> t | Some _ \<Rightarrow> t\<lparr>dt_result := r\<rparr>)"

text \<open>
  The execution of a task in \<^verbatim>\<open>work\<close>.  A lost connection (2013, 2006) and an exception that is not one of MySQL's
  leave the task with the thread, which executes it again.
\<close>

definition execute_task :: "'r outcome \<Rightarrow> ('a, 'r) DBTask \<Rightarrow> ('a, 'r) db_thread \<Rightarrow> ('a, 'r) db_thread" where
  "execute_task oc t th =
     (case oc of
        Exec_ok r \<Rightarrow> th\<lparr>th_task := Some (t\<lparr>dt_result := Some r, dt_state := task_done\<rparr>), th_pc := At_done True\<rparr>
      | Exec_fail (Bad_query errCode) r \<Rightarrow>
          if errCode \<noteq> 2013 \<and> errCode \<noteq> 2006
          then th\<lparr>th_task := Some ((store_result r t)\<lparr>dt_state := task_error\<rparr>), th_connect := False, th_pc := At_done False\<rparr>
          else th\<lparr>th_task := Some (store_result r t), th_connect := False, th_pc := At_loop\<rparr>
      | Exec_fail Mysql_exception r \<Rightarrow>
          th\<lparr>th_task := Some ((store_result r t)\<lparr>dt_state := task_error\<rparr>), th_pc := At_done False\<rparr>
      | Exec_fail Other_exception r \<Rightarrow> th\<lparr>th_task := Some (store_result r t), th_pc := At_loop\<rparr>)"

definition ran_end :: "'r outcome \<Rightarrow> ran" where
  "ran_end oc =
     (case oc of
        Exec_ok _ \<Rightarrow> Ran_done
      | Exec_fail (Bad_query errCode) _ \<Rightarrow> if errCode \<noteq> 2013 \<and> errCode \<noteq> 2006 then Ran_failed else Ran_again
      | Exec_fail Mysql_exception _ \<Rightarrow> Ran_failed
      | Exec_fail Other_exception _ \<Rightarrow> Ran_again)"

text \<open>\<open>up\<close>: whether the connection attempt succeeds, and whether the connection is up before an execution.\<close>

definition thread_move ::
  "bool \<Rightarrow> 'r outcome \<Rightarrow> ('a, 'r) db_thread \<Rightarrow> ('a, 'r) Database \<Rightarrow> ('a, 'r) db_thread \<times> ('a, 'r) Database \<times> ('a, 'r) db_out list" where
  "thread_move up oc th d =
     (case th_pc th of
        At_loop \<Rightarrow> (th\<lparr>th_pc := if th_stop th then At_end else At_connect\<rparr>, d, [])
      | At_connect \<Rightarrow> (if th_connect th \<or> th_stop th then th\<lparr>th_pc := At_work\<rparr> else th\<lparr>th_connect := up\<rparr>, d, [])
      | At_work \<Rightarrow> (th\<lparr>th_pc := if th_task th = None then At_get else At_task\<rparr>, d, [])
      | At_get \<Rightarrow> let (r, d1) = getTask (th_type th) d in (th\<lparr>th_pc := At_got r\<rparr>, d1, [])
      | At_got r \<Rightarrow> (th\<lparr>th_task := r, th_pc := if r = None then At_loop else At_task\<rparr>, d, [])
      | At_task \<Rightarrow>
          (case th_task th of
             None \<Rightarrow> (th\<lparr>th_pc := At_loop\<rparr>, d, [])
           | Some t \<Rightarrow> if \<not> up then (th\<lparr>th_pc := At_loop\<rparr>, d, []) else (execute_task oc t th, d, [Ran (dt_data t) (ran_end oc)]))
      | At_done again \<Rightarrow>
          let d1 = d\<lparr>db_results := db_results d @ (case th_task th of None \<Rightarrow> [] | Some t \<Rightarrow> [t])\<rparr>
          in if again then (th\<lparr>th_pc := At_get\<rparr>, d1, []) else (th\<lparr>th_task := None, th_pc := At_loop\<rparr>, d1, [])
      | At_end \<Rightarrow> (th, d, []))"

definition thread_step :: "nat \<Rightarrow> bool \<Rightarrow> 'r outcome \<Rightarrow> ('a, 'r) Database \<Rightarrow> ('a, 'r) Database \<times> ('a, 'r) db_out list" where
  "thread_step i up oc d =
     (if i < length (db_threads d)
      then let (th, d1, os) = thread_move up oc (db_threads d ! i) d in (put_thread i th d1, os)
      else (d, []))"

section \<open>The main thread\<close>

definition getTaskCount :: "('a, 'r) Database \<Rightarrow> nat" where
  "getTaskCount d = sum_list (map (length \<circ> snd) (db_tasks d))"

definition isDone :: "('a, 'r) db_thread \<Rightarrow> bool" where
  "isDone th \<longleftrightarrow> th_task th = None"

text \<open>\<^verbatim>\<open>checkStop\<close>: the queues only shrink while the main thread counts them, which is therefore one step.\<close>

definition checkStop :: "('a, 'r) Database \<Rightarrow> ('a, 'r) Database" where
  "checkStop d =
     (case db_main d of
        Main_idle \<Rightarrow> d\<lparr>db_main := if isObjState wait_stop d then Main_count else Main_results\<rparr>
      | Main_count \<Rightarrow> d\<lparr>db_main := if 0 < getTaskCount d then Main_results else Main_thread 0\<rparr>
      | Main_thread i \<Rightarrow>
          if i < length (db_threads d)
          then if isDone (db_threads d ! i)
               then (put_thread i ((db_threads d ! i)\<lparr>th_stop := True\<rparr>) d)\<lparr>db_main := Main_join i\<rparr>
               else d\<lparr>db_main := Main_results\<rparr>
          else (setObjState stop_obj d)\<lparr>db_main := Main_results\<rparr>
      | Main_join i \<Rightarrow> if th_pc (db_threads d ! i) = At_end then d\<lparr>db_main := Main_thread (Suc i)\<rparr> else d
      | _ \<Rightarrow> d)"

definition Database_run :: "('a, 'r) Database \<Rightarrow> ('a, 'r) Database \<times> ('a, 'r) db_out list" where
  "Database_run d =
     (case db_main d of
        Main_results \<Rightarrow>
          if (isObjState wait_stop d \<or> isObjState run_obj d) \<and> db_results d \<noteq> []
          then (d\<lparr>db_tem := db_results d, db_results := [], db_main := Main_loop\<rparr>, [])
          else (d\<lparr>db_main := Main_idle\<rparr>, [])
      | Main_loop \<Rightarrow>
          (case db_tem d of
             [] \<Rightarrow> (d\<lparr>db_main := Main_idle\<rparr>, [])
           | t # ts \<Rightarrow> (d\<lparr>db_tem := ts\<rparr>, [Called (dt_data t) (dt_result t) (dt_state t = task_done)]))
      | _ \<Rightarrow> (checkStop d, []))"

text \<open>
  The main thread adds tasks and sets the state outside \<^verbatim>\<open>run\<close> or in a callback.
\<close>

datatype ('a, 'r) db_event = Add_task query_kind int 'a | Set_obj_state obj_state | Main_run | Thread_run nat bool "'r outcome"

definition main_free :: "('a, 'r) Database \<Rightarrow> bool" where
  "main_free d \<longleftrightarrow> db_main d = Main_idle \<or> db_main d = Main_loop"

fun db_step :: "('a, 'r) db_event \<Rightarrow> ('a, 'r) Database \<Rightarrow> ('a, 'r) Database \<times> ('a, 'r) db_out list" where
  "db_step (Add_task k ty x) d = (if main_free d then addKindTask k ty x d else (d, []))"
| "db_step (Set_obj_state st) d = (if main_free d then (setObjState st d, []) else (d, []))"
| "db_step Main_run d = Database_run d"
| "db_step (Thread_run i up oc) d = thread_step i up oc d"

end
