(* ===== verification/Database_Tasks.thy ===== *)
theory Database_Tasks
  imports Database "HOL-Library.Multiset" "HOL-Library.Sublist"
begin

text \<open>
  What becomes of the tasks of the engine of \<open>Database\<close>: over every interleaving each task is called back at
  most once and none is lost, and the tasks of a type with a single thread are executed and called back in the
  order in which they were added.
\<close>

section \<open>Tasks under way\<close>

fun opt_list :: "'x option \<Rightarrow> 'x list" where
  "opt_list None = []"
| "opt_list (Some x) = [x]"

text \<open>After \<^verbatim>\<open>addDone\<close> the pointer \<^verbatim>\<open>_task\<close> is stale until the next \<^verbatim>\<open>getTask\<close> has returned.\<close>

definition held :: "('a, 'r) db_thread \<Rightarrow> ('a, 'r) DBTask list" where
  "held th = (case th_pc th of At_got r \<Rightarrow> opt_list r | At_get \<Rightarrow> [] | _ \<Rightarrow> opt_list (th_task th))"

definition under_way :: "('a, 'r) Database \<Rightarrow> 'a list" where
  "under_way d =
     map dt_data (db_tem d @ db_results d @ concat (map held (db_threads d)) @ concat (map snd (db_tasks d)))"

definition queued :: "('a, 'r) db_out list \<Rightarrow> 'a list" where
  "queued os = concat (map (\<lambda>x. case x of Queued a \<Rightarrow> [a] | _ \<Rightarrow> []) os)"

definition called :: "('a, 'r) db_out list \<Rightarrow> 'a list" where
  "called os = concat (map (\<lambda>x. case x of Called a r ok \<Rightarrow> [a] | _ \<Rightarrow> []) os)"

lemma queued_called_simps [simp]:
  "queued [] = []" "called [] = []" "queued (os @ ps) = queued os @ queued ps" "called (os @ ps) = called os @ called ps"
  "queued [Queued a] = [a]" "called [Queued a] = []" "queued [Called a r ok] = []" "called [Called a r ok] = [a]"
  "queued [Ran a b] = []" "called [Ran a b] = []"
  by (simp_all add: queued_def called_def)

lemma filter_update:
  assumes "i < length xs" "Q y = Q (xs ! i)"
  shows "length (filter Q (xs[i := y])) = length (filter Q xs)"
    "\<not> Q y \<Longrightarrow> filter Q (xs[i := y]) = filter Q xs"
    "Q y \<Longrightarrow> length (filter Q xs) \<le> 1 \<Longrightarrow> filter Q xs = [xs ! i] \<and> filter Q (xs[i := y]) = [y]"
proof -
  have split: "filter Q xs = filter Q (take i xs) @ (if Q (xs ! i) then [xs ! i] else []) @ filter Q (drop (Suc i) xs)"
    by (subst id_take_nth_drop [OF assms(1)]) simp
  moreover have "filter Q (xs[i := y]) = filter Q (take i xs) @ (if Q y then [y] else []) @ filter Q (drop (Suc i) xs)"
    by (simp add: upd_conv_take_nth_drop [OF assms(1)])
  ultimately show "length (filter Q (xs[i := y])) = length (filter Q xs)" "\<not> Q y \<Longrightarrow> filter Q (xs[i := y]) = filter Q xs"
    "Q y \<Longrightarrow> length (filter Q xs) \<le> 1 \<Longrightarrow> filter Q xs = [xs ! i] \<and> filter Q (xs[i := y]) = [y]"
    using assms(2) by auto
qed

lemma queues_assign:
  "map_wf m \<Longrightarrow> mset (concat (map snd (map_assign k v m))) + mset (case map_find k m of None \<Rightarrow> [] | Some q \<Rightarrow> q) =
     mset (concat (map snd m)) + mset v"
proof (induction m)
  case (Cons p m)
  obtain a w where p: "p = (a, w)" by (cases p)
  have wf: "map_wf m" and lt: "\<And>x. x \<in> fst ` set m \<Longrightarrow> a < x" using Cons.prems by (auto simp: map_wf_def p)
  have "map_find k m = None" if "k < a" using lt that by (force simp: map_find_None_notin)
  then show ?case using Cons.IH [OF wf] by (auto simp: p add_ac)
qed simp

section \<open>A step of a thread\<close>

text \<open>A thread takes from the queue of its type, and what it lets go of is in the results.\<close>

lemma execute_task_kept:
  "th_type (execute_task oc t th) = th_type th" "th_stop (execute_task oc t th) = th_stop th"
  "map dt_data (held (execute_task oc t th)) = [dt_data t]"
  by (auto simp: execute_task_def held_def store_result_def split: outcome.splits db_fail.splits option.splits)

definition same_main :: "('a, 'r) Database \<Rightarrow> ('a, 'r) Database \<Rightarrow> bool" where
  "same_main d d1 \<longleftrightarrow>
     db_state d1 = db_state d \<and> db_threads d1 = db_threads d \<and> db_tem d1 = db_tem d \<and> db_main d1 = db_main d"

lemma getTask_kept:
  assumes "getTask ty d = (r, d1)" "map_wf (db_tasks d)"
  shows "same_main d d1" "db_results d1 = db_results d" "map_wf (db_tasks d1)"
    "task_queue ty d = opt_list r @ task_queue ty d1" "ty' \<noteq> ty \<Longrightarrow> task_queue ty' d1 = task_queue ty' d"
    "fst ` set (db_tasks d1) = fst ` set (db_tasks d)"
    "db_tasks d1 = db_tasks d \<or> db_tasks d1 = map_assign ty (task_queue ty d1) (db_tasks d)"
proof -
  have "same_main d d1 \<and> db_results d1 = db_results d \<and> map_wf (db_tasks d1) \<and>
    task_queue ty d = opt_list r @ task_queue ty d1 \<and> (ty' \<noteq> ty \<longrightarrow> task_queue ty' d1 = task_queue ty' d) \<and>
    fst ` set (db_tasks d1) = fst ` set (db_tasks d) \<and>
    (db_tasks d1 = db_tasks d \<or> db_tasks d1 = map_assign ty (task_queue ty d1) (db_tasks d))"
  proof (cases "task_queue ty d")
    case Nil
    then show ?thesis using assms by (auto simp: getTask_def same_main_def)
  next
    case (Cons t q)
    then have "map_find ty (db_tasks d) \<noteq> None" by (auto simp: task_queue_def split: option.splits)
    then have k: "insert ty (fst ` set (db_tasks d)) = fst ` set (db_tasks d)" by (simp add: map_find_None_notin insert_absorb)
    have d1: "r = Some t" "d1 = d\<lparr>db_tasks := map_assign ty q (db_tasks d)\<rparr>" using assms(1) Cons by (auto simp: getTask_def)
    have "task_queue ty' d1 = (if ty' = ty then q else task_queue ty' d)" for ty'
      using assms(2) by (simp add: d1 task_queue_def map_find_assign)
    then show ?thesis using assms(2) k by (simp add: d1 Cons same_main_def map_wf_assign fst_set_map_assign)
  qed
  then show "same_main d d1" "db_results d1 = db_results d" "map_wf (db_tasks d1)"
    "task_queue ty d = opt_list r @ task_queue ty d1" "ty' \<noteq> ty \<Longrightarrow> task_queue ty' d1 = task_queue ty' d"
    "fst ` set (db_tasks d1) = fst ` set (db_tasks d)"
    "db_tasks d1 = db_tasks d \<or> db_tasks d1 = map_assign ty (task_queue ty d1) (db_tasks d)"
    by simp_all
qed

lemma thread_move_kept:
  assumes "thread_move up oc th d = (th', d1, os)" "map_wf (db_tasks d)"
  shows "th_type th' = th_type th" "same_main d d1" "map_wf (db_tasks d1)" "queued os = []" "called os = []"
    "\<exists>rs. db_results d1 = db_results d @ rs \<and>
       map dt_data (rs @ held th' @ task_queue (th_type th) d1) = map dt_data (held th @ task_queue (th_type th) d)"
    "ty' \<noteq> th_type th \<Longrightarrow> task_queue ty' d1 = task_queue ty' d"
    "fst ` set (db_tasks d1) = fst ` set (db_tasks d)"
    "db_tasks d1 = db_tasks d \<or> db_tasks d1 = map_assign (th_type th) (task_queue (th_type th) d1) (db_tasks d)"
proof -
  have q: "task_queue ty (d\<lparr>db_results := x\<rparr>) = task_queue ty d" for ty x by (simp add: task_queue_def)
  have h: "held (th\<lparr>th_pc := p\<rparr>) = (case p of At_got r \<Rightarrow> opt_list r | At_get \<Rightarrow> [] | _ \<Rightarrow> opt_list (th_task th))" for p
    by (cases p) (simp_all add: held_def)
  have "th_type th' = th_type th \<and> same_main d d1 \<and> map_wf (db_tasks d1) \<and> queued os = [] \<and> called os = [] \<and>
    (\<exists>rs. db_results d1 = db_results d @ rs \<and>
      map dt_data (rs @ held th' @ task_queue (th_type th) d1) = map dt_data (held th @ task_queue (th_type th) d)) \<and>
    (ty' \<noteq> th_type th \<longrightarrow> task_queue ty' d1 = task_queue ty' d) \<and> fst ` set (db_tasks d1) = fst ` set (db_tasks d) \<and>
    (db_tasks d1 = db_tasks d \<or> db_tasks d1 = map_assign (th_type th) (task_queue (th_type th) d1) (db_tasks d))"
  proof (cases "th_pc th")
    case At_get
    then have "getTask (th_type th) d = (case th_pc th' of At_got r \<Rightarrow> r, d1)" "th' = th\<lparr>th_pc := th_pc th'\<rparr>"
      "\<exists>r. th_pc th' = At_got r" "os = []"
      using assms(1) by (auto simp: thread_move_def split: prod.splits)
    then show ?thesis using At_get getTask_kept [OF _ assms(2), of "th_type th"] by (auto simp: held_def)
  qed (use assms in \<open>auto simp: thread_move_def same_main_def Let_def q h execute_task_kept [unfolded held_def] held_def
         split: option.splits if_splits\<close>)
  then show "th_type th' = th_type th" "same_main d d1" "map_wf (db_tasks d1)" "queued os = []" "called os = []"
    "\<exists>rs. db_results d1 = db_results d @ rs \<and>
       map dt_data (rs @ held th' @ task_queue (th_type th) d1) = map dt_data (held th @ task_queue (th_type th) d)"
    "ty' \<noteq> th_type th \<Longrightarrow> task_queue ty' d1 = task_queue ty' d"
    "fst ` set (db_tasks d1) = fst ` set (db_tasks d)"
    "db_tasks d1 = db_tasks d \<or> db_tasks d1 = map_assign (th_type th) (task_queue (th_type th) d1) (db_tasks d)"
    by simp_all
qed


section \<open>Every task once\<close>

definition main_wf :: "('a, 'r) Database \<Rightarrow> bool" where
  "main_wf d \<longleftrightarrow> map_wf (db_tasks d) \<and> (db_main d \<noteq> Main_loop \<longrightarrow> db_tem d = [])"

lemma held_stop [simp]: "held (th\<lparr>th_stop := b\<rparr>) = held th"
  by (simp add: held_def split: thread_pc.splits)

lemma concat_map_update:
  "i < length xs \<Longrightarrow> mset (concat (map f (xs[i := y]))) + mset (f (xs ! i)) = mset (concat (map f xs)) + mset (f y)"
  by (induction xs arbitrary: i) (auto simp: nth_Cons add_ac split: nat.splits)

lemma thread_step_conserves:
  assumes "map_wf (db_tasks d)" "thread_step i up oc d = (d', os)"
  shows "mset (under_way d') = mset (under_way d)" "map_wf (db_tasks d')" "queued os = []" "called os = []"
    "db_main d' = db_main d" "db_tem d' = db_tem d"
proof -
  have "mset (under_way d') = mset (under_way d) \<and> map_wf (db_tasks d') \<and> queued os = [] \<and> called os = [] \<and>
    db_main d' = db_main d \<and> db_tem d' = db_tem d"
  proof (cases "i < length (db_threads d)")
    case True
    let ?th = "db_threads d ! i" and ?f = "image_mset dt_data"
    obtain th' d1 where m: "thread_move up oc ?th d = (th', d1, os)" "d' = put_thread i th' d1"
      using assms(2) True by (auto simp: thread_step_def split: prod.splits)
    note k = thread_move_kept [OF m(1) assms(1)]
    have threads: "?f (mset (concat (map held (db_threads d')))) + mset (map dt_data (held ?th)) =
        ?f (mset (concat (map held (db_threads d)))) + mset (map dt_data (held th'))"
      using arg_cong [OF concat_map_update [OF True, of held th'], of ?f] k(2) by (simp add: m(2) put_thread_def same_main_def)
    have queues: "?f (mset (concat (map snd (db_tasks d1)))) + mset (map dt_data (task_queue (th_type ?th) d)) =
        ?f (mset (concat (map snd (db_tasks d)))) + mset (map dt_data (task_queue (th_type ?th) d1))"
      using k(9) arg_cong [OF queues_assign [OF assms(1), of "th_type ?th" "task_queue (th_type ?th) d1"], of ?f]
      by (auto simp: task_queue_def add_ac)
    have kept: "mset (map dt_data (db_results d1)) + mset (map dt_data (held th')) + mset (map dt_data (task_queue (th_type ?th) d1)) =
        mset (map dt_data (db_results d)) + mset (map dt_data (held ?th)) + mset (map dt_data (task_queue (th_type ?th) d))"
    proof -
      obtain rs where rs: "db_results d1 = db_results d @ rs"
        "map dt_data (rs @ held th' @ task_queue (th_type ?th) d1) = map dt_data (held ?th @ task_queue (th_type ?th) d)"
        using k(6) by blast
      show ?thesis using arg_cong [OF rs(2), of mset] by (simp add: rs(1) add_ac)
    qed
    have "A' + B' + C' = A + B + C" if "B' + h = B + h'" "C' + q = C + q'" "A' + h' + q' = A + h + q"
      for A A' B B' C C' h h' q q' :: "'a multiset"
    proof -
      have "(A' + B' + C') + (h + q) = A' + (B + h') + (C + q')" by (simp flip: that(1,2) add: add_ac)
      also have "\<dots> = (A + B + C) + (h + q)" using that(3) by (simp add: add_ac)
      finally show ?thesis by simp
    qed
    from this [OF threads queues kept] k show ?thesis
      by (simp add: under_way_def m(2) put_thread_def same_main_def add_ac)
  qed (use assms in \<open>simp add: thread_step_def\<close>)
  then show "mset (under_way d') = mset (under_way d)" "map_wf (db_tasks d')" "queued os = []" "called os = []"
    "db_main d' = db_main d" "db_tem d' = db_tem d"
    by simp_all
qed

lemma addRealTask_conserves:
  assumes "map_wf (db_tasks d)"
  shows "mset (under_way (addRealTask ty (new_task k x) d)) = mset (under_way d) + {#x#}"
proof -
  let ?d1 = "if map_find ty (db_tasks d) = None then addThread ty 1 d else d"
  have wf: "map_wf (db_tasks ?d1)" using assms by (simp add: addThread_def map_wf_assign)
  have "mset (under_way ?d1) = mset (under_way d)"
    using arg_cong [OF queues_assign [OF assms, of ty "[]"], of "image_mset dt_data"]
    by (auto simp: under_way_def addThread_def new_thread_def held_def)
  moreover have "mset (under_way (addRealTask ty (new_task k x) d)) = mset (under_way ?d1) + {#x#}"
    using arg_cong [OF queues_assign [OF wf, of ty "task_queue ty ?d1 @ [new_task k x]"], of "image_mset dt_data"]
    by (auto simp: under_way_def addRealTask_def Let_def new_task_def task_queue_def add_ac)
  ultimately show ?thesis by simp
qed

lemma db_step_main_wf: "main_wf d \<Longrightarrow> db_step e d = (d', os) \<Longrightarrow> main_wf d'"
proof (cases e)
  case (Thread_run i up oc)
  then show "main_wf d \<Longrightarrow> db_step e d = (d', os) \<Longrightarrow> main_wf d'"
    using thread_step_conserves [of d i up oc d' os] by (simp add: main_wf_def)
qed (auto simp: main_wf_def addKindTask_def addRealTask_def addThread_def setObjState_def Database_run_def checkStop_def put_thread_def
      Let_def map_wf_assign main_free_def split: if_splits main_pc.splits list.splits)

lemma under_way_stop:
  "under_way (put_thread i ((db_threads d ! i)\<lparr>th_stop := b\<rparr>) d) = under_way d"
proof -
  have "map held ((db_threads d)[i := (db_threads d ! i)\<lparr>th_stop := b\<rparr>]) = map held (db_threads d)"
    by (cases "i < length (db_threads d)") (simp_all add: map_update list_update_same_conv list_update_beyond)
  then show ?thesis by (simp add: under_way_def put_thread_def del: map_update)
qed

lemma db_step_conserves:
  assumes "main_wf d" "db_step e d = (d', os)"
  shows "mset (under_way d @ queued os) = mset (called os @ under_way d')"
proof (cases e)
  case (Add_task k ty x)
  then show ?thesis using assms addRealTask_conserves [of d] by (auto simp: main_wf_def addKindTask_def split: if_splits)
next
  case Main_run
  have main: "under_way (d\<lparr>db_main := m\<rparr>) = under_way d" "under_way (d\<lparr>db_state := st, db_main := m\<rparr>) = under_way d" for m st
    by (simp_all add: under_way_def)
  have "under_way (D\<lparr>db_main := m\<rparr>) = under_way D" for D :: "('a, 'b) Database" and m by (simp add: under_way_def)
  then show ?thesis using assms Main_run under_way_stop [where d = d]
    by (auto simp: Database_run_def checkStop_def setObjState_def main main_wf_def split: main_pc.splits list.splits if_splits)
       (auto simp: under_way_def main_wf_def)
next
  case (Thread_run i up oc)
  then show ?thesis using assms thread_step_conserves [of d i up oc d' os] by (simp add: main_wf_def)
qed (use assms in \<open>auto simp: setObjState_def under_way_def split: if_splits\<close>)

interpretation all_tasks: conveyor "\<lambda>xs ys. mset xs = mset ys" "\<lambda>_. True" main_wf under_way db_step queued called
proof
  fix xs ys us vs :: "'a list"
  assume "mset xs = mset ys"
  then show "mset (us @ xs @ vs) = mset (us @ ys @ vs)" by simp
qed (auto dest: db_step_main_wf db_step_conserves)


section \<open>Every task of a single thread in its turn\<close>

text \<open>
  \<open>P\<close> describes the tasks that are added under the type \<open>ty\<close>, which has at most one thread.  The argument \<open>hold\<close>
  tells what a thread still has to pass on: to the results (\<open>held\<close>), or to MySQL (\<open>to_run\<close>).
\<close>

definition to_run :: "('a, 'r) db_thread \<Rightarrow> ('a, 'r) DBTask list" where
  "to_run th = (case th_pc th of At_done _ \<Rightarrow> [] | _ \<Rightarrow> held th)"

definition finished :: "('a, 'r) db_out list \<Rightarrow> 'a list" where
  "finished os = concat (map (\<lambda>x. case x of Ran a e \<Rightarrow> if e = Ran_again then [] else [a] | _ \<Rightarrow> []) os)"

lemma finished_simps [simp]:
  "finished [] = []" "finished (os @ ps) = finished os @ finished ps"
  "finished [Queued a] = []" "finished [Called a r ok] = []" "finished [Ran a e] = (if e = Ran_again then [] else [a])"
  by (simp_all add: finished_def)

definition lane ::
  "(('a, 'r) db_thread \<Rightarrow> ('a, 'r) DBTask list) \<Rightarrow> ('a \<Rightarrow> bool) \<Rightarrow> int \<Rightarrow> ('a, 'r) Database \<Rightarrow> 'a list" where
  "lane hold P ty d =
     filter P (map dt_data (concat (map hold (filter (\<lambda>th. th_type th = ty) (db_threads d))) @ task_queue ty d))"

definition sole ::
  "(('a, 'r) db_thread \<Rightarrow> ('a, 'r) DBTask list) \<Rightarrow> ('a \<Rightarrow> bool) \<Rightarrow> int \<Rightarrow> ('a, 'r) Database \<Rightarrow> bool" where
  "sole hold P ty d \<longleftrightarrow>
     main_wf d \<and> length (filter (\<lambda>th. th_type th = ty) (db_threads d)) \<le> 1 \<and>
     (\<forall>th \<in> set (db_threads d). th_type th \<in> fst ` set (db_tasks d)) \<and>
     (\<forall>ty' t. ty' \<noteq> ty \<longrightarrow> t \<in> set (task_queue ty' d) \<longrightarrow> \<not> P (dt_data t)) \<and>
     (\<forall>th \<in> set (db_threads d). th_type th \<noteq> ty \<longrightarrow> (\<forall>t \<in> set (hold th). \<not> P (dt_data t)))"

fun in_lane :: "('a \<Rightarrow> bool) \<Rightarrow> int \<Rightarrow> ('a, 'r) db_event \<Rightarrow> bool" where
  "in_lane P ty (Add_task k ty' x) \<longleftrightarrow> (P x \<longrightarrow> ty' = ty)"
| "in_lane P ty _ \<longleftrightarrow> True"

text \<open>\<open>out\<close>: what a step of a thread passes on.\<close>

locale passing_on =
  fixes hold :: "('a, 'r) db_thread \<Rightarrow> ('a, 'r) DBTask list"
    and out :: "('a, 'r) Database \<Rightarrow> ('a, 'r) Database \<Rightarrow> ('a, 'r) db_out list \<Rightarrow> 'a list"
  assumes advance: "thread_move up oc th d = (th', d1, os) \<Longrightarrow> map_wf (db_tasks d) \<Longrightarrow>
      out d d1 os @ map dt_data (hold th' @ task_queue (th_type th) d1) = map dt_data (hold th @ task_queue (th_type th) d)"
    and out_put: "out d (put_thread i th' d1) os = out d d1 os"
    and hold_stop: "hold (th\<lparr>th_stop := b\<rparr>) = hold th"
    and hold_new: "hold (new_thread ty) = []"
begin

lemma thread_step_lane:
  assumes "sole hold P ty d" "thread_step i up oc d = (d', os)" "i < length (db_threads d)"
  shows "sole hold P ty d'" "filter P (out d d' os) @ lane hold P ty d' = lane hold P ty d"
proof -
  let ?th = "db_threads d ! i" and ?own = "filter (\<lambda>th. th_type th = ty)"
  have s: "main_wf d" "map_wf (db_tasks d)" "length (?own (db_threads d)) \<le> 1"
    "\<And>th. th \<in> set (db_threads d) \<Longrightarrow> th_type th \<in> fst ` set (db_tasks d)"
    "\<And>ty' t. ty' \<noteq> ty \<Longrightarrow> t \<in> set (task_queue ty' d) \<Longrightarrow> \<not> P (dt_data t)"
    "\<And>th t. th \<in> set (db_threads d) \<Longrightarrow> th_type th \<noteq> ty \<Longrightarrow> t \<in> set (hold th) \<Longrightarrow> \<not> P (dt_data t)"
    using assms(1) by (auto simp: sole_def main_wf_def)
  obtain th' d1 where m: "thread_move up oc ?th d = (th', d1, os)" "d' = put_thread i th' d1"
    using assms(2,3) by (auto simp: thread_step_def split: prod.splits)
  note k = thread_move_kept [OF m(1) s(2)]
  note a = advance [OF m(1) s(2)]
  have th: "?th \<in> set (db_threads d)" using assms(3) by simp
  have type: "(th_type th' = ty) = (th_type ?th = ty)" using k(1) by simp
  have d': "db_threads d' = (db_threads d)[i := th']" "task_queue ty' d' = task_queue ty' d1" "db_tasks d' = db_tasks d1" for ty'
    using k(2) by (simp_all add: m(2) put_thread_def same_main_def task_queue_def)
  note change = filter_update [OF assms(3), of "\<lambda>th. th_type th = ty" th', OF type]
  have upd: "?own ((db_threads d)[i := th']) = (if th_type ?th = ty then [th'] else ?own (db_threads d))"
    "th_type ?th = ty \<Longrightarrow> ?own (db_threads d) = [?th]"
    using change(2,3) s(3) type by (cases "th_type ?th = ty"; simp)+
  have free: "\<forall>x \<in> set (out d d1 os @ map dt_data (hold th' @ task_queue (th_type ?th) d1)). \<not> P x" if "th_type ?th \<noteq> ty"
    unfolding a using s(5) [OF that] s(6) [OF th that] by auto
  show "filter P (out d d' os) @ lane hold P ty d' = lane hold P ty d"
  proof (cases "th_type ?th = ty")
    case True
    then show ?thesis
      using arg_cong [OF a, of "filter P"] by (simp add: m(2) out_put lane_def d' [unfolded m(2)] upd)
  next
    case False
    then have "filter P (out d d1 os) = []" using free by (auto simp: filter_empty_conv)
    then show ?thesis using False k(7) [of ty] by (simp add: m(2) out_put lane_def d' [unfolded m(2)] upd(1))
  qed
  have new: "u = th' \<or> u \<in> set (db_threads d)" if "u \<in> set (db_threads d')" for u
    using that set_update_subset_insert [of "db_threads d" i th'] by (auto simp: d')
  have "main_wf d'" using db_step_main_wf [of d "Thread_run i up oc"] s(1) assms(2) by simp
  moreover have "length (?own (db_threads d')) \<le> 1" using s(3) by (simp add: d' change(1))
  moreover have "th_type u \<in> fst ` set (db_tasks d')" if "u \<in> set (db_threads d')" for u
    using new [OF that] s(4) k(1,8) th by (auto simp: d')
  moreover have "\<not> P (dt_data t)" if "ty' \<noteq> ty" "t \<in> set (task_queue ty' d')" for ty' t
    using that s(5) [of ty' t] free k(7) [of ty'] by (cases "ty' = th_type ?th") (auto simp: d')
  moreover have "\<not> P (dt_data t)" if "u \<in> set (db_threads d')" "th_type u \<noteq> ty" "t \<in> set (hold u)" for u t
    using new [OF that(1)] that(2,3) s(6) free k(1) by auto
  ultimately show "sole hold P ty d'" unfolding sole_def by blast
qed

lemma lane_stop:
  "length (filter (\<lambda>th. th_type th = ty) ((db_threads d)[i := (db_threads d ! i)\<lparr>th_stop := b\<rparr>])) =
     length (filter (\<lambda>th. th_type th = ty) (db_threads d))"
  "lane hold P ty (put_thread i ((db_threads d ! i)\<lparr>th_stop := b\<rparr>) d) = lane hold P ty d"
  "map (\<lambda>th. (th_type th, hold th)) ((db_threads d)[i := (db_threads d ! i)\<lparr>th_stop := b\<rparr>]) =
     map (\<lambda>th. (th_type th, hold th)) (db_threads d)"
proof -
  let ?ths = "(db_threads d)[i := (db_threads d ! i)\<lparr>th_stop := b\<rparr>]"
  show same: "map (\<lambda>th. (th_type th, hold th)) ?ths = map (\<lambda>th. (th_type th, hold th)) (db_threads d)"
    by (cases "i < length (db_threads d)") (simp_all add: map_update list_update_same_conv list_update_beyond hold_stop)
  have own: "map hold (filter (\<lambda>th. th_type th = ty) ths) = map snd (filter (\<lambda>p. fst p = ty) (map (\<lambda>th. (th_type th, hold th)) ths))"
    for ths by (simp add: filter_map comp_def)
  show "length (filter (\<lambda>th. th_type th = ty) ?ths) = length (filter (\<lambda>th. th_type th = ty) (db_threads d))"
    using arg_cong [OF own [of ?ths], of length] arg_cong [OF own [of "db_threads d"], of length] same by simp
  show "lane hold P ty (put_thread i ((db_threads d ! i)\<lparr>th_stop := b\<rparr>) d) = lane hold P ty d"
    using own [of ?ths] own [of "db_threads d"] same by (simp add: lane_def put_thread_def task_queue_def)
qed

lemma sole_stop:
  "sole hold P ty d \<Longrightarrow> sole hold P ty (put_thread i ((db_threads d ! i)\<lparr>th_stop := b\<rparr>) d)"
proof -
  let ?ths = "(db_threads d)[i := (db_threads d ! i)\<lparr>th_stop := b\<rparr>]"
  assume s: "sole hold P ty d"
  have "\<exists>v \<in> set (db_threads d). th_type v = th_type u \<and> hold v = hold u" if "u \<in> set ?ths" for u
  proof -
    have "(th_type u, hold u) \<in> set (map (\<lambda>th. (th_type th, hold th)) ?ths)" using that by auto
    then show ?thesis by (auto simp: lane_stop(3) simp del: map_update)
  qed
  then have "(\<forall>th \<in> set ?ths. th_type th \<in> fst ` set (db_tasks d)) \<and>
      (\<forall>th \<in> set ?ths. th_type th \<noteq> ty \<longrightarrow> (\<forall>t \<in> set (hold th). \<not> P (dt_data t)))"
    using s unfolding sole_def by (metis (no_types, lifting))
  then show ?thesis using s by (simp add: sole_def put_thread_def main_wf_def lane_stop(1) task_queue_def)
qed

lemma sole_main:
  assumes "sole hold P ty d" "db_threads d' = db_threads d" "db_tasks d' = db_tasks d" "main_wf d'"
  shows "sole hold P ty d'" "lane hold P ty d' = lane hold P ty d"
  using assms by (auto simp: sole_def lane_def task_queue_def)

lemma addRealTask_lane:
  assumes "sole hold P ty d" "P x \<longrightarrow> ty' = ty" "d' = addRealTask ty' (new_task k x) d"
  shows "sole hold P ty d'" "lane hold P ty d' = lane hold P ty d @ filter P [x]"
proof -
  let ?d1 = "if map_find ty' (db_tasks d) = None then addThread ty' 1 d else d"
  have wf: "map_wf (db_tasks d)" using assms(1) by (simp add: sole_def main_wf_def)
  have q1: "task_queue a ?d1 = task_queue a d" for a
    using wf by (simp add: task_queue_def addThread_def map_find_assign)
  have own1: "filter (\<lambda>th. th_type th = ty) (db_threads ?d1) = filter (\<lambda>th. th_type th = ty) (db_threads d) \<or>
      filter (\<lambda>th. th_type th = ty) (db_threads ?d1) = [new_thread ty] \<and> filter (\<lambda>th. th_type th = ty) (db_threads d) = []"
  proof (cases "map_find ty' (db_tasks d) = None \<and> ty' = ty")
    case True
    then have "\<forall>th \<in> set (db_threads d). th_type th \<noteq> ty" using assms(1) by (auto simp: sole_def map_find_None_notin)
    then have "filter (\<lambda>th. th_type th = ty) (db_threads d) = []" by (simp add: filter_empty_conv)
    then show ?thesis using True by (simp add: addThread_def new_thread_def)
  qed (auto simp: addThread_def new_thread_def)
  define d1 where "d1 = ?d1"
  have threads: "u \<in> set (db_threads d) \<or> u = new_thread ty' \<and> ty' \<in> fst ` set (db_tasks d1)" if "u \<in> set (db_threads d1)" for u
    using that by (auto simp: d1_def addThread_def fst_set_map_assign split: if_splits)
  have keys: "fst ` set (db_tasks d) \<subseteq> fst ` set (db_tasks d1)" by (auto simp: d1_def addThread_def fst_set_map_assign)
  have new: "th_type (new_thread ty' :: ('a, 'r) db_thread) = ty'" by (simp add: new_thread_def)
  have s1: "sole hold P ty d1" "lane hold P ty d1 = lane hold P ty d"
  proof -
    have "main_wf d1" using assms(1) by (auto simp: d1_def sole_def main_wf_def addThread_def map_wf_assign)
    moreover have "length (filter (\<lambda>th. th_type th = ty) (db_threads d1)) \<le> 1"
      using own1 assms(1) unfolding d1_def [symmetric] by (auto simp: sole_def)
    moreover have "th_type u \<in> fst ` set (db_tasks d1)" if "u \<in> set (db_threads d1)" for u
      using threads [OF that] keys new assms(1) unfolding sole_def by blast
    moreover have "\<not> P (dt_data t)" if "a \<noteq> ty" "t \<in> set (task_queue a d1)" for a t
      using assms(1) that unfolding sole_def d1_def q1 by blast
    moreover have "\<not> P (dt_data t)" if "u \<in> set (db_threads d1)" "th_type u \<noteq> ty" "t \<in> set (hold u)" for u t
      using threads [OF that(1)] that(2,3) hold_new [of ty'] assms(1) by (auto simp: sole_def)
    ultimately show "sole hold P ty d1" unfolding sole_def by blast
    show "lane hold P ty d1 = lane hold P ty d" using own1 q1 unfolding d1_def [symmetric] by (auto simp: lane_def hold_new)
  qed
  have wf1: "map_wf (db_tasks d1)" using s1(1) by (simp add: sole_def main_wf_def)
  have d': "db_threads d' = db_threads d1" "task_queue a d' = (if a = ty' then task_queue ty' d1 @ [new_task k x] else task_queue a d1)"
    "fst ` set (db_tasks d1) \<subseteq> fst ` set (db_tasks d')" "main_wf d'" for a
    using wf1 s1(1) by (auto simp: assms(3) addRealTask_def Let_def d1_def [symmetric] task_queue_def map_find_assign fst_set_map_assign sole_def main_wf_def map_wf_assign)
  have x: "dt_data (new_task k x :: ('a, 'r) DBTask) = x" by (simp add: new_task_def)
  have "lane hold P ty d' = lane hold P ty d1 @ filter P [x]"
    using assms(2) by (cases "ty = ty'") (simp_all add: lane_def d'(1,2) x)
  then show "lane hold P ty d' = lane hold P ty d @ filter P [x]" using s1(2) by simp
  have "\<not> P (dt_data t)" if "a \<noteq> ty" "t \<in> set (task_queue a d')" for a t
  proof -
    have "t \<in> set (task_queue a d1) \<Longrightarrow> ?thesis" using that(1) s1(1) unfolding sole_def by blast
    moreover have "a = ty' \<Longrightarrow> t = new_task k x \<Longrightarrow> ?thesis" using that(1) assms(2) x by auto
    ultimately show ?thesis using that(2) by (auto simp: d'(2) split: if_splits)
  qed
  then show "sole hold P ty d'" using s1(1) d'(3,4) unfolding sole_def d'(1) by blast
qed

lemma other_step_lane:
  assumes "sole hold P ty d" "in_lane P ty e" "db_step e d = (d', os)" "\<And>i up oc. e \<noteq> Thread_run i up oc"
  shows "sole hold P ty d' \<and> lane hold P ty d' = lane hold P ty d @ filter P (queued os)"
proof (cases e)
  case (Add_task k ty' x)
  then show ?thesis
    using assms(1-3) addRealTask_lane [OF assms(1), of x ty' d' k] by (auto simp: addKindTask_def split: if_splits)
next
  case (Set_obj_state st)
  then show ?thesis
    using assms(1,3) sole_main [OF assms(1), of d'] db_step_main_wf [OF _ assms(3)]
    by (auto simp: setObjState_def sole_def split: if_splits)
next
  case Main_run
  have wf: "main_wf d'" using db_step_main_wf [OF _ assms(3)] assms(1) by (simp add: sole_def)
  have "queued os = []" using assms(3) Main_run by (auto simp: Database_run_def split: main_pc.splits list.splits if_splits)
  moreover have "(db_threads d' = db_threads d \<and> db_tasks d' = db_tasks d) \<or>
      (\<exists>i. db_threads d' = db_threads (put_thread i ((db_threads d ! i)\<lparr>th_stop := True\<rparr>) d) \<and> db_tasks d' = db_tasks d)"
    using assms(3) Main_run
    by (auto simp: Database_run_def checkStop_def setObjState_def put_thread_def split: main_pc.splits list.splits if_splits)
  moreover have "db_tasks (put_thread i th d) = db_tasks d" for i th by (simp add: put_thread_def)
  ultimately show ?thesis
    using sole_main [OF assms(1) _ _ wf] sole_main [OF sole_stop [OF assms(1)] _ _ wf] lane_stop(2) by fastforce
qed (use assms(4) in auto)

end


lemma results_grow:
  "thread_move up oc th d = (th', d1, os) \<Longrightarrow> map_wf (db_tasks d) \<Longrightarrow>
     map dt_data (drop (length (db_results d)) (db_results d1)) @ map dt_data (held th' @ task_queue (th_type th) d1) =
       map dt_data (held th @ task_queue (th_type th) d)"
  using thread_move_kept(6) by fastforce

lemma execute_task_to_run:
  "(if ran_end oc = Ran_again then [] else [dt_data t]) @ map dt_data (to_run (execute_task oc t th)) = [dt_data t]"
  by (auto simp: to_run_def execute_task_def held_def store_result_def ran_end_def split: outcome.splits db_fail.splits option.splits)

lemma executions_advance:
  assumes "thread_move up oc th d = (th', d1, os)" "map_wf (db_tasks d)"
  shows "finished os @ map dt_data (to_run th' @ task_queue (th_type th) d1) = map dt_data (to_run th @ task_queue (th_type th) d)"
proof -
  have q: "task_queue ty (d\<lparr>db_results := x\<rparr>) = task_queue ty d" for ty x by (simp add: task_queue_def)
  show ?thesis
  proof (cases "th_pc th")
    case At_get
    then have "getTask (th_type th) d = (case th_pc th' of At_got r \<Rightarrow> r, d1)" "th' = th\<lparr>th_pc := th_pc th'\<rparr>"
      "\<exists>r. th_pc th' = At_got r" "os = []"
      using assms(1) by (auto simp: thread_move_def split: prod.splits)
    then show ?thesis using At_get getTask_kept(4) [OF _ assms(2), of "th_type th"] by (auto simp: held_def to_run_def)
  next
    case At_task
    then have own: "to_run th = opt_list (th_task th)" "to_run (th\<lparr>th_pc := At_loop\<rparr>) = opt_list (th_task th)"
      by (simp_all add: to_run_def held_def)
    show ?thesis
    proof (cases "\<exists>t. th_task th = Some t \<and> up")
      case True
      then obtain t where "th_task th = Some t" up by blast
      then show ?thesis
        using assms(1) At_task own execute_task_to_run [of oc t th] by (auto simp: thread_move_def split: if_splits)
    qed (use assms(1) At_task own in \<open>auto simp: thread_move_def split: option.splits if_splits\<close>)
  qed (use assms in \<open>auto simp: thread_move_def Let_def q held_def to_run_def split: option.splits if_splits\<close>)
qed

interpretation by_call: passing_on held "\<lambda>d d1 os. map dt_data (drop (length (db_results d)) (db_results d1))"
  by unfold_locales (rule results_grow, assumption+, simp_all add: put_thread_def held_def new_thread_def split: thread_pc.splits)

interpretation by_run: passing_on to_run "\<lambda>d d1 os. finished os"
  by unfold_locales (rule executions_advance, assumption+, simp_all add: to_run_def held_def new_thread_def split: thread_pc.splits)

lemma results_of_thread:
  "map_wf (db_tasks d) \<Longrightarrow> thread_step i up oc d = (d', os) \<Longrightarrow> \<exists>rs. db_results d' = db_results d @ rs"
proof (cases "i < length (db_threads d)")
  case True
  assume "map_wf (db_tasks d)" "thread_step i up oc d = (d', os)"
  then show ?thesis using True thread_move_kept(6) [of up oc "db_threads d ! i" d]
    by (fastforce simp: thread_step_def put_thread_def split: prod.splits)
qed (auto simp: thread_step_def)

lemma other_step_results:
  assumes "main_wf d" "db_step e d = (d', os)" "\<And>i up oc. e \<noteq> Thread_run i up oc"
  shows "map dt_data (db_tem d @ db_results d) = called os @ map dt_data (db_tem d' @ db_results d')" "finished os = []"
  using assms
  by (cases e; auto simp: main_wf_def addKindTask_def addRealTask_def addThread_def setObjState_def Database_run_def checkStop_def
        put_thread_def Let_def split: if_splits main_pc.splits list.splits)+

interpretation callbacks: conveyor "(=)" "in_lane P ty" "sole held P ty"
  "\<lambda>d. filter P (map dt_data (db_tem d @ db_results d)) @ lane held P ty d" db_step
  "\<lambda>os. filter P (queued os)" "\<lambda>os. filter P (called os)" for P :: "'a \<Rightarrow> bool" and ty
proof
  fix d d' :: "('a, 'b) Database" and e os
  assume s: "sole held P ty d" and e: "in_lane P ty e" and step: "db_step e d = (d', os)"
  have wf: "main_wf d" "map_wf (db_tasks d)" using s by (simp_all add: sole_def main_wf_def)
  have "sole held P ty d' \<and> filter P (map dt_data (db_tem d @ db_results d)) @ lane held P ty d @ filter P (queued os) =
      filter P (called os) @ filter P (map dt_data (db_tem d' @ db_results d')) @ lane held P ty d'"
  proof (cases "\<exists>i up oc. e = Thread_run i up oc \<and> i < length (db_threads d)")
    case True
    then obtain i up oc where t: "thread_step i up oc d = (d', os)" "i < length (db_threads d)" using step by auto
    obtain rs where "db_results d' = db_results d @ rs" using results_of_thread [OF wf(2) t(1)] by blast
    then show ?thesis
      using by_call.thread_step_lane [OF s t] thread_step_conserves [OF wf(2) t(1)] by simp
  next
    case False
    then have "(d' = d \<and> os = []) \<or> (\<forall>i up oc. e \<noteq> Thread_run i up oc)" using step by (cases e) (auto simp: thread_step_def)
    then show ?thesis
      using s by_call.other_step_lane [OF s e step] arg_cong [OF other_step_results(1) [OF wf(1) step], of "filter P"] by auto
  qed
  then show "sole held P ty d'" "(filter P (map dt_data (db_tem d @ db_results d)) @ lane held P ty d) @ filter P (queued os) =
      filter P (called os) @ filter P (map dt_data (db_tem d' @ db_results d')) @ lane held P ty d'"
    by simp_all
qed auto

interpretation executions: conveyor "(=)" "in_lane P ty" "sole to_run P ty" "lane to_run P ty" db_step
  "\<lambda>os. filter P (queued os)" "\<lambda>os. filter P (finished os)" for P :: "'a \<Rightarrow> bool" and ty
proof
  fix d d' :: "('a, 'b) Database" and e os
  assume s: "sole to_run P ty d" and e: "in_lane P ty e" and step: "db_step e d = (d', os)"
  have wf: "main_wf d" "map_wf (db_tasks d)" using s by (simp_all add: sole_def main_wf_def)
  have "sole to_run P ty d' \<and> lane to_run P ty d @ filter P (queued os) = filter P (finished os) @ lane to_run P ty d'"
  proof (cases "\<exists>i up oc. e = Thread_run i up oc \<and> i < length (db_threads d)")
    case True
    then obtain i up oc where t: "thread_step i up oc d = (d', os)" "i < length (db_threads d)" using step by auto
    then show ?thesis
      using by_run.thread_step_lane [OF s t] thread_step_conserves [OF wf(2) t(1)] by simp
  next
    case False
    then have "(d' = d \<and> os = []) \<or> (\<forall>i up oc. e \<noteq> Thread_run i up oc)" using step by (cases e) (auto simp: thread_step_def)
    then show ?thesis
      using s by_run.other_step_lane [OF s e step] other_step_results(2) [OF wf(1) step] by auto
  qed
  then show "sole to_run P ty d'" "lane to_run P ty d @ filter P (queued os) = filter P (finished os) @ lane to_run P ty d'"
    by simp_all
qed auto

section \<open>The theorems\<close>

text \<open>A task that is handed on has been executed to the end that its state tells.\<close>

definition ended :: "('a, 'r) db_out set \<Rightarrow> ('a, 'r) DBTask \<Rightarrow> bool" where
  "ended R t \<longleftrightarrow> Ran (dt_data t) (if dt_state t = task_done then Ran_done else Ran_failed) \<in> R"

definition passed_on :: "('a, 'r) db_out set \<Rightarrow> ('a, 'r) Database \<Rightarrow> bool" where
  "passed_on R d \<longleftrightarrow>
     (\<forall>t \<in> set (db_tem d) \<union> set (db_results d). ended R t) \<and>
     (\<forall>th \<in> set (db_threads d). \<forall>b t. th_pc th = At_done b \<longrightarrow> th_task th = Some t \<longrightarrow> ended R t)"

lemma ended_mono: "ended R t \<Longrightarrow> R \<subseteq> S \<Longrightarrow> ended S t"
  by (auto simp: ended_def)

lemma thread_move_passed:
  assumes "thread_move up oc th d = (th', d1, os)" "\<forall>b t. th_pc th = At_done b \<longrightarrow> th_task th = Some t \<longrightarrow> ended R t"
  shows "\<forall>b t. th_pc th' = At_done b \<longrightarrow> th_task th' = Some t \<longrightarrow> ended (R \<union> set os) t"
    "\<exists>rs. db_results d1 = db_results d @ rs \<and> (\<forall>t \<in> set rs. ended R t)" "db_tem d1 = db_tem d" "db_threads d1 = db_threads d"
    "called os = []"
proof -
  have ex: "ended (R \<union> {Ran (dt_data t) (ran_end oc)}) u"
    if "th_task (execute_task oc t th) = Some u" "th_pc (execute_task oc t th) = At_done b" for t u b
    using that by (auto simp: execute_task_def ended_def ran_end_def store_result_def split: outcome.splits db_fail.splits if_splits option.splits)
  have get: "getTask ty d = (r, d1) \<Longrightarrow> db_results d1 = db_results d \<and> db_tem d1 = db_tem d \<and> db_threads d1 = db_threads d" for ty r
    by (auto simp: getTask_def split: list.splits)
  show "\<forall>b t. th_pc th' = At_done b \<longrightarrow> th_task th' = Some t \<longrightarrow> ended (R \<union> set os) t"
    using assms ex by (auto simp: thread_move_def Let_def split: thread_pc.splits option.splits if_splits prod.splits)
  show "\<exists>rs. db_results d1 = db_results d @ rs \<and> (\<forall>t \<in> set rs. ended R t)" "db_tem d1 = db_tem d" "db_threads d1 = db_threads d"
    "called os = []"
    using assms get by (auto simp: thread_move_def Let_def split: thread_pc.splits option.splits if_splits prod.splits)
qed

lemma db_step_passed:
  assumes "passed_on R d" "db_step e d = (d', os)"
  shows "passed_on (R \<union> set os) d'" "Called x r ok \<in> set os \<Longrightarrow> Ran x (if ok then Ran_done else Ran_failed) \<in> R"
proof -
  have "passed_on (R \<union> set os) d' \<and> (\<forall>x r ok. Called x r ok \<in> set os \<longrightarrow> Ran x (if ok then Ran_done else Ran_failed) \<in> R)"
  proof (cases "\<exists>i up oc. e = Thread_run i up oc")
    case True
    then obtain i up oc where t: "thread_step i up oc d = (d', os)" using assms(2) by auto
    show ?thesis
    proof (cases "i < length (db_threads d)")
      case True
      let ?th = "db_threads d ! i"
      obtain th' d1 where m: "thread_move up oc ?th d = (th', d1, os)" "d' = put_thread i th' d1"
        using t True by (auto simp: thread_step_def split: prod.splits)
      have own: "\<forall>b t. th_pc ?th = At_done b \<longrightarrow> th_task ?th = Some t \<longrightarrow> ended R t"
        using assms(1) nth_mem [OF True] unfolding passed_on_def by blast
      note k = thread_move_passed [OF m(1) own]
      have "u = th' \<or> u \<in> set (db_threads d)" if "u \<in> set (db_threads d')" for u
        using that set_update_subset_insert [of "db_threads d" i th'] by (auto simp: m(2) put_thread_def k(4))
      then have "passed_on (R \<union> set os) d'"
        using assms(1) k(1-3) ended_mono [of R _ "R \<union> set os"] unfolding passed_on_def
        by (fastforce simp: m(2) put_thread_def)
      moreover have "Called x r ok \<notin> set os" for x r ok using k(5) by (auto simp: called_def)
      ultimately show ?thesis by blast
    qed (use t assms(1) in \<open>simp add: thread_step_def\<close>)
  next
    case False
    have lists: "set (db_tem d') \<union> set (db_results d') \<subseteq> set (db_tem d) \<union> set (db_results d)"
      using assms(2) False
      by (cases e; auto simp: addKindTask_def addRealTask_def addThread_def setObjState_def Database_run_def checkStop_def
            put_thread_def Let_def split: if_splits main_pc.splits list.splits)
    have calls: "\<exists>t \<in> set (db_tem d). x = dt_data t \<and> ok = (dt_state t = task_done)" if "Called x r ok \<in> set os" for x r ok
      using assms(2) False that
      by (cases e) (auto simp: addKindTask_def Database_run_def split: if_splits main_pc.splits list.splits)
    have "db_threads d' = db_threads d \<or> (\<exists>ty. db_threads d' = db_threads d @ [new_thread ty]) \<or>
        (\<exists>i. db_threads d' = (db_threads d)[i := (db_threads d ! i)\<lparr>th_stop := True\<rparr>] \<and> i < length (db_threads d))"
      using assms(2) False
      by (cases e; auto simp: addKindTask_def addRealTask_def addThread_def setObjState_def Database_run_def checkStop_def
            put_thread_def Let_def split: if_splits main_pc.splits list.splits)
    then have threads: "(\<exists>v \<in> set (db_threads d). th_pc v = th_pc u \<and> th_task v = th_task u) \<or> th_pc u = At_loop"
      if "u \<in> set (db_threads d')" for u
    proof (elim disjE exE conjE)
      fix i
      assume "db_threads d' = (db_threads d)[i := (db_threads d ! i)\<lparr>th_stop := True\<rparr>]" "i < length (db_threads d)"
      then have "u = (db_threads d ! i)\<lparr>th_stop := True\<rparr> \<or> u \<in> set (db_threads d)" "db_threads d ! i \<in> set (db_threads d)"
        using that set_update_subset_insert [of "db_threads d" i] by auto
      then show ?thesis by force
    qed (use that in \<open>auto simp: new_thread_def\<close>)
    have "passed_on R d'" unfolding passed_on_def
    proof (intro conjI ballI allI impI)
      fix u b t
      assume u: "u \<in> set (db_threads d')" "th_pc u = At_done b" "th_task u = Some t"
      then obtain v where "v \<in> set (db_threads d)" "th_pc v = At_done b" "th_task v = Some t" using threads [OF u(1)] by auto
      then show "ended R t" using assms(1) unfolding passed_on_def by blast
    qed (use assms(1) lists in \<open>auto simp: passed_on_def\<close>)
    then have "passed_on (R \<union> set os) d'" using ended_mono [of R _ "R \<union> set os"] unfolding passed_on_def by fast
    moreover have "Ran x (if ok then Ran_done else Ran_failed) \<in> R" if c: "Called x r ok \<in> set os" for x r ok
    proof -
      obtain t where "t \<in> set (db_tem d)" "x = dt_data t" "ok = (dt_state t = task_done)" using calls [OF c] by blast
      moreover from this have "ended R t" using assms(1) unfolding passed_on_def by blast
      ultimately show ?thesis by (simp add: ended_def)
    qed
    ultimately show ?thesis by blast
  qed
  then show "passed_on (R \<union> set os) d'" "Called x r ok \<in> set os \<Longrightarrow> Ran x (if ok then Ran_done else Ran_failed) \<in> R" by blast+
qed

lemma db_run_passed:
  "passed_on R d \<Longrightarrow> run_steps db_step es d = (d', os) \<Longrightarrow> Called x r ok \<in> set os \<Longrightarrow>
     Ran x (if ok then Ran_done else Ran_failed) \<in> R \<union> set os"
proof (induction es arbitrary: R d os)
  case (Cons e es)
  obtain d1 os1 os2 where s: "db_step e d = (d1, os1)" "run_steps db_step es d1 = (d', os2)" "os = os1 @ os2"
    using Cons.prems(2) by (auto split: prod.splits)
  note k = db_step_passed [OF Cons.prems(1) s(1)]
  show ?case using Cons.IH [OF k(1) s(2)] k(2) Cons.prems(3) s(3) by fastforce
qed simp

lemma initDatabase_ok: "main_wf (initDatabase n)" "passed_on {} (initDatabase n)" "under_way (initDatabase n) = []"
  by (auto simp: initDatabase_def setObjState_def addThread_def main_wf_def map_wf_def passed_on_def new_thread_def under_way_def held_def
      map_replicate_const)

lemma tasks_conserved:
  "run_steps db_step es (initDatabase n) = (d, os) \<Longrightarrow> mset (queued os) = mset (called os) + mset (under_way d)"
  using all_tasks.carried [OF initDatabase_ok(1), where es = es and s' = d and os = os] by (simp add: initDatabase_ok(3))

text \<open>
  C18.  Every task once.  After any interleaving of the main thread, which adds tasks, runs callbacks and stops
  the engine, and of the threads, whatever connections are lost and whatever exceptions occur, the tasks that
  were accepted are those that were called back, each once, and those still under way; and a callback is told
  success only when its task was executed to its end, and failure only when its task failed.
\<close>

theorem database_tasks_once:
  assumes "run_steps db_step es (initDatabase n) = (d, os)"
  shows "mset (queued os) = mset (called os) + mset (under_way d) \<and>
    (Called x r ok \<in> set os \<longrightarrow> Ran x (if ok then Ran_done else Ran_failed) \<in> set os)"
  using tasks_conserved [OF assms] db_run_passed [OF initDatabase_ok(2) assms] by simp

lemma initDatabase_sole:
  assumes "ty \<noteq> NORMAL_THREAD \<or> n \<le> 1" "\<And>t. hold (new_thread t) = []"
  shows "sole hold P ty (initDatabase n)" "lane hold P ty (initDatabase n) = []"
  using assms(1) initDatabase_ok(1) [of n]
  by (auto simp: initDatabase_def setObjState_def addThread_def sole_def lane_def new_thread_def task_queue_def filter_replicate assms(2)
      [unfolded new_thread_def] split: if_splits)

lemma tasks_in_turn:
  fixes es :: "('a, 'r) db_event list"
  assumes "run_steps db_step es (initDatabase n) = (d, os)"
    and "ty \<noteq> NORMAL_THREAD \<or> n \<le> 1" "\<And>k ty' x. Add_task k ty' x \<in> set es \<Longrightarrow> P x \<Longrightarrow> ty' = ty"
  shows "prefix (filter P (finished os)) (filter P (queued os)) \<and> prefix (filter P (called os)) (filter P (queued os))"
proof -
  have legal: "\<forall>e \<in> set es. in_lane P ty e"
  proof
    fix e
    assume e: "e \<in> set es"
    show "in_lane P ty e" using e assms(3) by (cases "(P, ty, e)" rule: in_lane.cases) auto
  qed
  have new: "held (new_thread t :: ('a, 'r) db_thread) = []" "to_run (new_thread t :: ('a, 'r) db_thread) = []" for t by (simp_all add: held_def to_run_def new_thread_def)
  have "filter P (queued os) = filter P (finished os) @ lane to_run P ty d"
    using executions.carried [OF initDatabase_sole(1) [where hold = to_run, OF assms(2) new(2)] legal assms(1)]
      initDatabase_sole(2) [where hold = to_run, OF assms(2) new(2)] by simp
  moreover have "\<exists>zs. filter P (queued os) = filter P (called os) @ zs"
    using callbacks.carried [OF initDatabase_sole(1) [where hold = held, OF assms(2) new(1)] legal assms(1)]
      initDatabase_sole(2) [where hold = held, OF assms(2) new(1)]
    by (simp add: initDatabase_def setObjState_def addThread_def)
  ultimately show ?thesis by (auto simp: prefix_def)
qed

text \<open>
  C29.  The tasks of one type, if that is not the type of the pool or the pool has one thread, are executed to
  their end in the order in which they were added, and are called back in that order, over every interleaving
  and every loss of a connection: what has been executed and what has been called back are prefixes of what was
  accepted.
\<close>

theorem database_in_turn:
  fixes es :: "('a, 'r) db_event list"
  assumes "run_steps db_step es (initDatabase n) = (d, os)"
    and "ty \<noteq> NORMAL_THREAD \<or> n \<le> 1" "\<And>k ty' x. Add_task k ty' x \<in> set es \<Longrightarrow> P x \<Longrightarrow> ty' = ty"
  shows "prefix (filter P (finished os)) (filter P (queued os)) \<and> prefix (filter P (called os)) (filter P (queued os))"
  using tasks_in_turn [OF assms] .

text \<open>Two saves of one type; the connection is lost during the first, the second fails.\<close>

definition sample_db_events :: "(string, nat) db_event list" where
  "sample_db_events =
     (let go = Thread_run 2 True (Exec_ok 1)
      in [Add_task STORE_QUERY 3 ''a'', Add_task STORE_QUERY 3 ''b''] @ replicate 6 go @
         [Thread_run 2 True (Exec_fail (Bad_query 2006) None)] @ replicate 8 go @
         [Thread_run 2 True (Exec_fail Mysql_exception None), go] @ replicate 4 Main_run)"

lemma sample_db_outputs:
  "snd (run_steps db_step sample_db_events (initDatabase 2)) =
     [Queued ''a'', Queued ''b'', Ran ''a'' Ran_again, Ran ''a'' Ran_done, Ran ''b'' Ran_failed,
      Called ''a'' (Some 1) True, Called ''b'' None False]"
  by code_simp

theorem database_tasks_once_witness:
  "case run_steps db_step sample_db_events (initDatabase 2) of (d, os) \<Rightarrow>
     mset (queued os) = mset (called os) + mset (under_way d) \<and> Ran ''a'' Ran_done \<in> set os"
  using database_tasks_once [OF surjective_pairing, where es = sample_db_events and n = 2 and x = "''a''" and r = "Some 1" and ok = True]
  by (simp add: sample_db_outputs case_prod_beta)

lemma sample_db_type: "Add_task k ty' x \<in> set sample_db_events \<Longrightarrow> ty' = 3"
  by (auto simp: sample_db_events_def Let_def)

theorem database_in_turn_witness:
  "case run_steps db_step sample_db_events (initDatabase 2) of (d, os) \<Rightarrow>
     prefix (filter (\<lambda>_. True) (finished os)) (filter (\<lambda>_. True) (queued os)) \<and>
     prefix (filter (\<lambda>_. True) (called os)) (filter (\<lambda>_. True) (queued os)) \<and> finished os = [''a'', ''b'']"
proof -
  let ?os = "snd (run_steps db_step sample_db_events (initDatabase 2))"
  have "finished ?os = [''a'', ''b'']" by (simp add: sample_db_outputs finished_def)
  moreover have "prefix (filter (\<lambda>_. True) (finished ?os)) (filter (\<lambda>_. True) (queued ?os)) \<and>
      prefix (filter (\<lambda>_. True) (called ?os)) (filter (\<lambda>_. True) (queued ?os))"
    by (rule database_in_turn [OF surjective_pairing, where ty = 3]) (simp_all add: sample_db_type)
  ultimately show ?thesis by (simp add: case_prod_beta)
qed

section \<open>What the engine does not promise\<close>

text \<open>
  A task whose execution ends with an exception that is not one of MySQL's is executed again and again, and
  nothing behind it in its thread is executed: as long as every execution ends so, none comes to its end.
\<close>

lemma poison_task_blocks:
  assumes "\<And>i up oc. Thread_run i up oc \<in> set es \<Longrightarrow> \<exists>r. oc = Exec_fail Other_exception r" "run_steps db_step es d = (d', os)"
  shows "finished os = []"
  using assms
proof (induction es arbitrary: d os)
  case (Cons e es)
  obtain d1 os1 os2 where s: "db_step e d = (d1, os1)" "run_steps db_step es d1 = (d', os2)" "os = os1 @ os2"
    using Cons.prems(2) by (auto split: prod.splits)
  have "finished os1 = []"
    using s(1) Cons.prems(1)
    by (cases e) (fastforce simp: addKindTask_def Database_run_def thread_step_def thread_move_def ran_end_def Let_def
        split: if_splits main_pc.splits list.splits thread_pc.splits option.splits prod.splits)+
  moreover have "finished os2 = []" using Cons.IH [OF _ s(2)] Cons.prems(1) by (meson list.set_intros(2))
  ultimately show ?case using s(3) by simp
qed simp

text \<open>
  Once the engine has stopped, the results that have arrived are never called back: \<^verbatim>\<open>checkStop\<close> sets the state in
  the same call of \<^verbatim>\<open>run\<close> that would have delivered them.
\<close>

lemma stop_loses_results:
  assumes "isObjStop d" "db_main d \<noteq> Main_loop" "\<And>st. Set_obj_state st \<notin> set es" "run_steps db_step es d = (d', os)"
  shows "called os = []"
  using assms
proof (induction es arbitrary: d os)
  case (Cons e es)
  obtain d1 os1 os2 where s: "db_step e d = (d1, os1)" "run_steps db_step es d1 = (d', os2)" "os = os1 @ os2"
    using Cons.prems(4) by (auto split: prod.splits)
  have "isObjStop d1 \<and> db_main d1 \<noteq> Main_loop \<and> called os1 = []"
  proof (cases e)
    case (Thread_run i up oc)
    have "same_main d D \<and> called ps = []" if "thread_move up oc th d = (th', D, ps)" for th th' D ps
      using that by (auto simp: thread_move_def getTask_def same_main_def Let_def split: thread_pc.splits list.splits option.splits if_splits)
    then show ?thesis using s(1) Cons.prems(1,2) Thread_run
      by (auto simp: thread_step_def put_thread_def same_main_def isObjStop_def split: if_splits prod.splits)
  qed (use s(1) Cons.prems(1-3) in \<open>auto simp: isObjStop_def addKindTask_def isObjState_def Database_run_def checkStop_def setObjState_def
         put_thread_def split: if_splits main_pc.splits list.splits\<close>)
  then show ?case using Cons.IH [OF _ _ _ s(2)] Cons.prems(3) s(3) by simp
qed simp

text \<open>
  Such a stop: the save has been executed and its result has arrived when the engine stops, and its callback
  is never run.
\<close>

lemma stop_before_callback:
  "case run_steps db_step
     ([Add_task STORE_QUERY 3 ''save''] @ replicate 5 (Thread_run 0 True (Exec_ok 1)) @
      [Set_obj_state wait_stop] @ replicate 3 Main_run @ replicate 6 (Thread_run 0 True (Exec_ok 1)) @ replicate 4 Main_run)
     (initDatabase 0 :: (string, nat) Database) of (d, os) \<Rightarrow>
     isObjStop d \<and> finished os = [''save''] \<and> called os = [] \<and> map dt_data (db_results d) = [''save'']"
  by code_simp

end
