(* ===== verification/Login.thy ===== *)
theory Login
  imports Database_Tasks Crypt Strings
begin

text \<open>
  The login server (\<^verbatim>\<open>src/login\<close>): the connections of clients (\<^verbatim>\<open>UserLoginSession\<close>) and gates (\<^verbatim>\<open>GateSession\<close>),
  the accounts (\<^verbatim>\<open>AccountManager\<close>), the gates and the clients that wait for them (\<^verbatim>\<open>GateManager\<close>), the platform
  requests (\<^verbatim>\<open>LoginHttpTask\<close>) and the configuration (\<^verbatim>\<open>LoginConfig\<close>), on the task engine of \<open>Database\<close>.  Sessions
  are pooled, so that a pointer to one is a number that stays usable after its connection is gone.
\<close>

section \<open>State\<close>

datatype ls_state =
  ls_disable | ls_wait_data | ls_checking_data | ls_wait_gate | ls_wait_close | ls_wait_platform | ls_platform_success

record UserLoginSession =
  ls_valid :: bool
  ls_addr :: string
  ls_state :: ls_state
  ls_accid :: int
  ls_channel :: int
  ls_platform_user :: string
  ls_close :: "int option"

record lg_gate =
  gate_id :: int
  gate_onlines :: int
  out_ip :: string
  out_port :: int
  balence_time :: "int list"

record Account =
  a_nId :: int
  a_nTranId :: int
  a_nGateId :: int

datatype check_type = login_check | new_acc_check

text \<open>
  The data of a task; what \<^verbatim>\<open>batchQuery\<close> writes into it, \<^verbatim>\<open>acct\<close> and \<^verbatim>\<open>result\<close>, is the result of the task (no
  row: nothing).
\<close>

record CheckAcct =
  ca_str :: string
  ca_pwd :: string
  ca_ower :: int
  ca_check_type :: check_type
  ca_channel :: int

record LoginHttpTask =
  ht_user_id :: string
  ht_app_id :: string
  ht_app_key :: string
  ht_token :: string
  ht_extra :: string
  ht_channel :: int
  ht_session :: int
  ht_status :: int
  ht_nick_name :: string
  ht_s_token :: string

record LoginConfig =
  version :: "int \<times> int \<times> int"
  channels :: "int list"
  platform_url :: string
  need_platform_verify :: bool

record login =
  l_users :: "int \<Rightarrow> UserLoginSession"
  l_gates :: "int \<Rightarrow> lg_gate"
  l_active :: "int option list"
  m_Accts :: "(int, Account) smap"
  m_WaitSessions :: "(int, int) smap"
  m_BanAndMute :: "(int, int \<times> int) smap"
  l_db :: "(CheckAcct, (int \<times> int) option) Database"
  l_https :: "LoginHttpTask list"
  l_complete :: "LoginHttpTask list"
  l_config :: LoginConfig

datatype login_result =
    LoginResult_Success string int int
  | LoginResult_Fail
  | LoginResult_NameFail
  | LoginResult_ErrorVersion "int \<times> int \<times> int"
  | LoginResult_ErrorChannel
  | LoginResult_ErrorNeedThirdVerify

datatype login_out =
    Response int login_result
  | Register_faild int
  | Verify_ack int string string string bool
  | User_login int int int int
  | Kick_user int int int
  | Close_gate int
  | Post string
  | Db_out "(CheckAcct, (int \<times> int) option) db_out"

abbreviation (input) INVALID_ACCOUNT :: int where "INVALID_ACCOUNT \<equiv> 0"
abbreviation (input) INVALID_GATE_ID :: int where "INVALID_GATE_ID \<equiv> 0"
abbreviation (input) MAX_GATE_ID :: int where "MAX_GATE_ID \<equiv> 255"

definition wrap64 :: "int \<Rightarrow> int" where
  "wrap64 x = x mod 18446744073709551616"

section \<open>Configuration\<close>

definition CompareVersion :: "int \<Rightarrow> int \<Rightarrow> int \<Rightarrow> LoginConfig \<Rightarrow> bool" where
  "CompareVersion n1 n2 n3 c = (case version c of (v1, v2, v3) \<Rightarrow> v1 = n1 \<and> v2 = n2)"

fun channel_scan :: "int \<Rightarrow> int list \<Rightarrow> bool" where
  "channel_scan ch [] = False"
| "channel_scan ch (c # cs) = (if c = ch then True else channel_scan ch cs)"

definition CompareChannel :: "int \<Rightarrow> LoginConfig \<Rightarrow> bool" where
  "CompareChannel ch c = channel_scan ch (channels c)"

definition SetVersion :: "int \<Rightarrow> int \<Rightarrow> int \<Rightarrow> LoginConfig \<Rightarrow> LoginConfig" where
  "SetVersion n1 n2 n3 c = c\<lparr>version := (n1, n2, n3)\<rparr>"

definition SetChannels :: "string \<Rightarrow> LoginConfig \<Rightarrow> LoginConfig" where
  "SetChannels s c = c\<lparr>channels := channels c @ map atoi (SplitStringA s '';'')\<rparr>"

definition SetPlatform :: "string \<Rightarrow> LoginConfig \<Rightarrow> LoginConfig" where
  "SetPlatform s c = c\<lparr>platform_url := s\<rparr>"

definition SetNeedPlatformVerify :: "bool \<Rightarrow> LoginConfig \<Rightarrow> LoginConfig" where
  "SetNeedPlatformVerify b c = c\<lparr>need_platform_verify := b\<rparr>"

text \<open>
  The row of \<^verbatim>\<open>server_config\<close> that \<^verbatim>\<open>initDataFromDatabase\<close> reads: the version, the channels as one text, the platform
  and whether its verification is needed.  Without a row the configuration stays as it is.
\<close>

definition load_login_config :: "((int \<times> int \<times> int) \<times> string \<times> string \<times> bool) list \<Rightarrow> LoginConfig \<Rightarrow> LoginConfig" where
  "load_login_config rows c =
     (case rows of
        [] \<Rightarrow> c
      | ((n1, n2, n3), chs, url, need) # _ \<Rightarrow> SetNeedPlatformVerify need (SetPlatform url (SetChannels chs (SetVersion n1 n2 n3 c))))"

section \<open>Sessions of clients\<close>

definition set_user_session :: "int \<Rightarrow> UserLoginSession \<Rightarrow> login \<Rightarrow> login" where
  "set_user_session s u w = w\<lparr>l_users := (l_users w)(s := u)\<rparr>"

text \<open>\<open>ls_close\<close> is the event \<^verbatim>\<open>EVENT_USER_SESSION_CLOSE\<close> with its time left.\<close>

definition ls_setState :: "ls_state \<Rightarrow> UserLoginSession \<Rightarrow> UserLoginSession" where
  "ls_setState st u =
     (let u1 = u\<lparr>ls_state := st\<rparr>; modify = (\<lambda>t. u1\<lparr>ls_close := map_option (\<lambda>_. t) (ls_close u1)\<rparr>)
      in case st of
           ls_disable \<Rightarrow> u1\<lparr>ls_close := None\<rparr>
         | ls_wait_data \<Rightarrow> u1\<lparr>ls_close := Some 30000\<rparr>
         | ls_checking_data \<Rightarrow> modify 60000
         | ls_wait_gate \<Rightarrow> modify 60000
         | ls_wait_close \<Rightarrow> modify 5000
         | ls_wait_platform \<Rightarrow> modify 5000
         | ls_platform_success \<Rightarrow> modify 5000)"

definition user_setState :: "int \<Rightarrow> ls_state \<Rightarrow> login \<Rightarrow> login" where
  "user_setState s st w = set_user_session s (ls_setState st (l_users w s)) w"

text \<open>A connection is accepted by a session of the pool that is not in use.\<close>

definition login_on_accept :: "int \<Rightarrow> string \<Rightarrow> login \<Rightarrow> login" where
  "login_on_accept s addr w =
     (if ls_valid (l_users w s) then w
      else set_user_session s (ls_setState ls_wait_data ((l_users w s)\<lparr>ls_valid := True, ls_addr := addr\<rparr>)) w)"

text \<open>\<^verbatim>\<open>on_close\<close>, with the \<^verbatim>\<open>reset\<close> by which the session returns to the pool: the channel is kept.\<close>

definition login_on_close :: "int \<Rightarrow> login \<Rightarrow> login" where
  "login_on_close s w =
     set_user_session s ((ls_setState ls_disable (l_users w s))
       \<lparr>ls_platform_user := [], ls_state := ls_disable, ls_accid := 0, ls_valid := False, ls_addr := []\<rparr>) w"

text \<open>The event of the close runs \<^verbatim>\<open>setClose\<close>, whose body is disabled.\<close>

definition close_event :: "int \<Rightarrow> login \<Rightarrow> login" where
  "close_event s w = set_user_session s ((l_users w s)\<lparr>ls_close := None\<rparr>) w"

section \<open>Gates\<close>

definition getBalenceCount :: "lg_gate \<Rightarrow> int" where
  "getBalenceCount g = wrap32 (gate_onlines g + int (length (balence_time g)))"

definition addBalenceTime :: "int \<Rightarrow> int \<Rightarrow> login \<Rightarrow> login" where
  "addBalenceTime now g w =
     w\<lparr>l_gates := (l_gates w)(g := (l_gates w g)\<lparr>balence_time := balence_time (l_gates w g) @ [wrap64 now]\<rparr>)\<rparr>"

text \<open>
  \<^verbatim>\<open>_BALENCE_TIME_ * 20\<close> is \<^verbatim>\<open>2 * 1000 * 20\<close>, although the times are in seconds.  The comparison is one of
  unsigned 64 bit values.
\<close>

definition balenceInfoEvent :: "int \<Rightarrow> int \<Rightarrow> login \<Rightarrow> login" where
  "balenceInfoEvent now g w =
     w\<lparr>l_gates := (l_gates w)(g := (l_gates w g)
        \<lparr>balence_time := filter (\<lambda>t. \<not> wrap64 (40000 + t) < wrap64 now) (balence_time (l_gates w g))\<rparr>)\<rparr>"

definition lg_addGate :: "int \<Rightarrow> int \<Rightarrow> login \<Rightarrow> login" where
  "lg_addGate n g w = (if INVALID_GATE_ID < n \<and> n < MAX_GATE_ID then w\<lparr>l_active := (l_active w)[nat n := Some g]\<rparr> else w)"

definition lg_removeGate :: "int \<Rightarrow> login \<Rightarrow> login" where
  "lg_removeGate g w =
     (let n = gate_id (l_gates w g)
      in if INVALID_GATE_ID < n \<and> n < MAX_GATE_ID \<and> l_active w ! nat n = Some g
         then w\<lparr>l_active := (l_active w)[nat n := None]\<rparr> else w)"

fun idle_gate_scan :: "(int \<Rightarrow> int) \<Rightarrow> int option list \<Rightarrow> int option \<Rightarrow> int option" where
  "idle_gate_scan load [] pkGate = pkGate"
| "idle_gate_scan load (None # gs) pkGate = idle_gate_scan load gs pkGate"
| "idle_gate_scan load (Some g # gs) pkGate =
     (case pkGate of
        None \<Rightarrow> idle_gate_scan load gs (Some g)
      | Some k \<Rightarrow> if load g < load k then idle_gate_scan load gs (Some g) else idle_gate_scan load gs (Some k))"

definition getIdleGate :: "login \<Rightarrow> int option" where
  "getIdleGate w = idle_gate_scan (\<lambda>g. getBalenceCount (l_gates w g)) (l_active w) None"

definition kickUserFromGate :: "Account \<Rightarrow> login \<Rightarrow> login_out list" where
  "kickUserFromGate p w =
     (if INVALID_GATE_ID \<le> a_nGateId p \<and> a_nGateId p < MAX_GATE_ID
      then (case l_active w ! nat (a_nGateId p) of None \<Rightarrow> [] | Some g \<Rightarrow> [Kick_user g (a_nId p) (a_nTranId p)])
      else [])"

text \<open>The account is written through its pointer, that is, in the table.\<close>

definition giveUserToGate :: "int \<Rightarrow> Account \<Rightarrow> int \<Rightarrow> login \<Rightarrow> bool \<times> login \<times> login_out list" where
  "giveUserToGate now p s w =
     (case getIdleGate w of
        None \<Rightarrow> (False, w, [])
      | Some g \<Rightarrow>
          let ch = ls_channel (l_users w s);
              w1 = w\<lparr>m_Accts := map_assign (a_nId p) (p\<lparr>a_nGateId := gate_id (l_gates w g)\<rparr>) (m_Accts w)\<rparr>;
              w2 = set_user_session s (ls_setState ls_wait_gate ((l_users w1 s)\<lparr>ls_accid := a_nId p\<rparr>)) w1;
              w3 = addBalenceTime now g w2
          in (True, w3\<lparr>m_WaitSessions := map_insert (a_nTranId p) s (m_WaitSessions w3)\<rparr>,
              [User_login g (a_nId p) (a_nTranId p) ch]))"

definition receiveUserPrepar :: "int \<Rightarrow> string \<Rightarrow> int \<Rightarrow> login \<Rightarrow> login \<times> login_out list" where
  "receiveUserPrepar ntran ip port w =
     (case map_find (wrap_u32 ntran) (m_WaitSessions w) of
        None \<Rightarrow> (w, [])
      | Some s \<Rightarrow>
          ((user_setState s ls_wait_close w)\<lparr>m_WaitSessions := map_erase (wrap_u32 ntran) (m_WaitSessions w)\<rparr>,
           [Response s (LoginResult_Success ip port (wrap_u32 ntran))]))"

definition addAccount :: "int \<Rightarrow> int \<Rightarrow> int \<Rightarrow> login \<Rightarrow> login" where
  "addAccount a t n w = w\<lparr>m_Accts := map_assign a \<lparr>a_nId = a, a_nTranId = t, a_nGateId = n\<rparr> (m_Accts w)\<rparr>"

text \<open>
  The accounts that a gate reports.  The \<^verbatim>\<open>assert\<close> that an account known already is at this gate has no effect in a
  release build; the test behind it sends the account's user away from the other gate.
\<close>

fun register_accounts :: "int \<Rightarrow> (int \<times> int) list \<Rightarrow> login \<Rightarrow> login \<times> login_out list" where
  "register_accounts n [] w = (w, [])"
| "register_accounts n ((a, t) # ds) w =
     (let os = (case map_find (wrap64 a) (m_Accts w) of None \<Rightarrow> [] | Some p \<Rightarrow> if a_nGateId p \<noteq> n then kickUserFromGate p w else []);
          (w1, ps) = register_accounts n ds (addAccount (wrap64 a) (wrap_u32 t) n w)
      in (w1, os @ ps))"

text \<open>\<^verbatim>\<open>gate_id\<close> has 8 bits, \<^verbatim>\<open>out_port\<close> 16.  A gate of another version is closed, and registered all the same.\<close>

definition parseGateRegister ::
  "int \<Rightarrow> int \<Rightarrow> bool \<Rightarrow> string \<Rightarrow> int \<Rightarrow> (int \<times> int) list \<Rightarrow> login \<Rightarrow> login \<times> login_out list" where
  "parseGateRegister g serverid version_ok ip port accounts w =
     (let n = serverid mod 256;
          w1 = w\<lparr>l_gates := (l_gates w)(g := (l_gates w g)\<lparr>gate_id := n, gate_onlines := wrap_u32 (int (length accounts)), out_ip := ip,
                                             out_port := port mod 65536\<rparr>)\<rparr>;
          (w2, os) = register_accounts n accounts (lg_addGate n g w1)
      in (w2, (if version_ok then [] else [Close_gate g]) @ os))"

definition parseGateOnlines :: "int \<Rightarrow> int \<Rightarrow> login \<Rightarrow> login" where
  "parseGateOnlines g n w = w\<lparr>l_gates := (l_gates w)(g := (l_gates w g)\<lparr>gate_onlines := wrap_u32 n\<rparr>)\<rparr>"

definition parseGateUserPrepar :: "int \<Rightarrow> int \<Rightarrow> login \<Rightarrow> login \<times> login_out list" where
  "parseGateUserPrepar g a w = receiveUserPrepar a (out_ip (l_gates w g)) (out_port (l_gates w g)) w"


section \<open>Accounts\<close>

definition login_task :: "query_kind \<Rightarrow> int \<Rightarrow> CheckAcct \<Rightarrow> login \<Rightarrow> login \<times> login_out list" where
  "login_task k ty x w = (let (d, os) = db_step (Add_task k ty x) (l_db w) in (w\<lparr>l_db := d\<rparr>, map Db_out os))"

definition checkAccount :: "string \<Rightarrow> string \<Rightarrow> int \<Rightarrow> int \<Rightarrow> check_type \<Rightarrow> login \<Rightarrow> login \<times> login_out list" where
  "checkAccount name pwd channel s t w =
     login_task BATCH_QUERY NORMAL_THREAD
       \<lparr>ca_str = name, ca_pwd = pwd, ca_ower = s, ca_check_type = t, ca_channel = channel\<rparr>
       (user_setState s ls_checking_data w)"

definition text_bytes :: "string \<Rightarrow> 8 word list" where
  "text_bytes = map of_char"

definition makeTransId :: "int \<Rightarrow> string \<Rightarrow> int" where
  "makeTransId now s = uint (sslCrc32 (Some (text_bytes (s @ show_int now))))"

definition removeAccount :: "int \<Rightarrow> login \<Rightarrow> login" where
  "removeAccount a w = w\<lparr>m_Accts := map_erase a (m_Accts w)\<rparr>"

text \<open>What \<^verbatim>\<open>batchQuery\<close> leaves in \<^verbatim>\<open>acct\<close>, which has 32 bits, and in \<^verbatim>\<open>result\<close>.\<close>

definition checked_acct :: "(int \<times> int) option option \<Rightarrow> int" where
  "checked_acct r = (case r of Some (Some (a, res)) \<Rightarrow> wrap_u32 a | _ \<Rightarrow> INVALID_ACCOUNT)"

definition checked_result :: "(int \<times> int) option option \<Rightarrow> int" where
  "checked_result r = (case r of Some (Some (a, res)) \<Rightarrow> res mod 256 | _ \<Rightarrow> 0)"

definition tran_text :: "CheckAcct \<Rightarrow> UserLoginSession \<Rightarrow> string" where
  "tran_text x u = ca_str x @ ca_pwd x @ ls_addr u"

definition checkAccountCall :: "int \<Rightarrow> CheckAcct \<Rightarrow> (int \<times> int) option option \<Rightarrow> bool \<Rightarrow> login \<Rightarrow> login \<times> login_out list" where
  "checkAccountCall now x r sucess w =
     (let s = ca_ower x; acct = checked_acct r
      in if \<not> ls_valid (l_users w s) then (w, [])
         else if \<not> sucess then (user_setState s ls_wait_close w, [Response s LoginResult_Fail])
         else if acct = INVALID_ACCOUNT then (user_setState s ls_wait_close w, [Response s LoginResult_NameFail])
         else
           let kicks = (case map_find acct (m_Accts w) of None \<Rightarrow> [] | Some p \<Rightarrow> kickUserFromGate p w);
               p = \<lparr>a_nId = acct, a_nTranId = makeTransId now (tran_text x (l_users w s)), a_nGateId = 0\<rparr>;
               w1 = w\<lparr>m_Accts := map_assign acct p (m_Accts w)\<rparr>;
               (given, w2, os) = giveUserToGate now p s w1
           in if given then (w2, kicks @ os)
              else (user_setState s ls_wait_close (removeAccount acct w2), kicks @ os @ [Response s LoginResult_Fail]))"

text \<open>A new account is followed by a login with the same name and password, on channel 0.\<close>

definition CreateNewAccount :: "CheckAcct \<Rightarrow> (int \<times> int) option option \<Rightarrow> bool \<Rightarrow> login \<Rightarrow> login \<times> login_out list" where
  "CreateNewAccount x r sucess w =
     (let s = ca_ower x
      in if \<not> ls_valid (l_users w s) then (w, [])
         else if \<not> sucess \<or> checked_result r \<noteq> 0 then (user_setState s ls_wait_close w, [Register_faild s])
         else login_task BATCH_QUERY NORMAL_THREAD (x\<lparr>ca_check_type := login_check, ca_channel := 0\<rparr>) w)"

definition login_callback :: "int \<Rightarrow> (CheckAcct, (int \<times> int) option) db_out \<Rightarrow> login \<Rightarrow> login \<times> login_out list" where
  "login_callback now y w =
     (case y of
        Called x r ok \<Rightarrow>
          (case ca_check_type x of
             login_check \<Rightarrow> checkAccountCall now x r ok w
           | new_acc_check \<Rightarrow> CreateNewAccount x r ok w)
      | _ \<Rightarrow> (w, []))"

text \<open>The bans are loaded by nobody, and \<^verbatim>\<open>isBanned\<close> ignores them.\<close>

definition loadBanCall :: "(int \<times> int \<times> int) list \<Rightarrow> login \<Rightarrow> login" where
  "loadBanCall rows w = w\<lparr>m_BanAndMute := fold (\<lambda>(i, ban, mute). map_assign i (ban, mute)) rows (m_BanAndMute w)\<rparr>"

definition isBanned :: "int \<Rightarrow> login \<Rightarrow> bool" where
  "isBanned a w = False"

section \<open>Messages of clients\<close>

definition lg_parseLoginGame :: "int \<Rightarrow> string \<Rightarrow> string \<Rightarrow> int \<times> int \<times> int \<Rightarrow> int \<Rightarrow> login \<Rightarrow> login \<times> login_out list" where
  "lg_parseLoginGame s name pwd ver channel w =
     (let c = l_config w; u = l_users w s;
          verify = need_platform_verify c \<and> channel \<noteq> 0;
          unverified = ls_state u \<noteq> ls_platform_success \<or> name \<noteq> ls_platform_user u;
          warn = (if verify \<and> unverified then [Response s LoginResult_ErrorNeedThirdVerify] else []);
          check_account = (\<not> (verify \<and> \<not> unverified))
      in if \<not> check_account then (w, warn)
         else if \<not> (case ver of (n1, n2, n3) \<Rightarrow> CompareVersion n1 n2 n3 c)
         then (w, warn @ [Response s (LoginResult_ErrorVersion (version c))])
         else if \<not> CompareChannel channel c then (w, warn @ [Response s LoginResult_ErrorChannel])
         else if 128 \<le> length name \<or> 128 \<le> length pwd then (w, warn @ [Response s LoginResult_NameFail])
         else let (w1, os) = checkAccount name pwd channel s login_check w in (w1, warn @ os))"

definition parseRegister :: "int \<Rightarrow> string \<Rightarrow> string \<Rightarrow> login \<Rightarrow> login \<times> login_out list" where
  "parseRegister s name pwd w = checkAccount name pwd 0 s new_acc_check w"

text \<open>\<^verbatim>\<open>LoginHttpTask::init\<close>; \<open>junk\<close> is the value of \<^verbatim>\<open>_status\<close>, which the constructor does not set.\<close>

definition http_init :: "int \<Rightarrow> string \<Rightarrow> string \<Rightarrow> string \<Rightarrow> string \<Rightarrow> string \<Rightarrow> int \<Rightarrow> int \<Rightarrow> LoginHttpTask" where
  "http_init junk user_id app_id app_key token extra channel s =
     \<lparr>ht_user_id = user_id, ht_app_id = app_id, ht_app_key = app_key, ht_token = token, ht_extra = extra, ht_channel = channel,
      ht_session = s, ht_status = junk, ht_nick_name = [], ht_s_token = []\<rparr>"

definition parsePlatformVerify ::
  "int \<Rightarrow> int \<Rightarrow> string \<Rightarrow> string \<Rightarrow> string \<Rightarrow> string \<Rightarrow> string \<Rightarrow> int \<Rightarrow> login \<Rightarrow> login" where
  "parsePlatformVerify junk s user_id app_id app_key token extra channel w =
     (if ls_platform_user (l_users w s) = [] \<or> ls_platform_user (l_users w s) = user_id
      then user_setState s ls_wait_platform (w\<lparr>l_https := l_https w @ [http_init junk user_id app_id app_key token extra channel s]\<rparr>)
      else w)"

section \<open>Platform requests\<close>

definition login_url :: "string \<Rightarrow> LoginHttpTask \<Rightarrow> string" where
  "login_url platform t =
     platform @ ''/logincheck/account_service.php?action=third_login_check&channel_id='' @ show_int (ht_channel t) @
     ''&app_id='' @ ht_app_id t @ ''&app_key='' @ ht_app_key t @ ''&user_id='' @ ht_user_id t @
     ''&token='' @ ht_token t @ ''&extra_data='' @ ht_extra t"

text \<open>
  What the reply holds: no status that can be read, or a status, and those of the three texts of a reply with
  status 0 that could be read before an exception.
\<close>

datatype http_reply = Reply_unreadable | Reply_status int "string list"

definition read_reply :: "http_reply \<Rightarrow> LoginHttpTask \<Rightarrow> LoginHttpTask" where
  "read_reply r t =
     (case r of
        Reply_unreadable \<Rightarrow> t
      | Reply_status st xs \<Rightarrow>
          let t1 = t\<lparr>ht_status := st\<rparr>
          in if st \<noteq> 0 then t1
             else (case xs of
                     [] \<Rightarrow> t1
                   | [u] \<Rightarrow> t1\<lparr>ht_user_id := u\<rparr>
                   | [u, n] \<Rightarrow> t1\<lparr>ht_user_id := u, ht_nick_name := n\<rparr>
                   | u # n # k # _ \<Rightarrow> t1\<lparr>ht_user_id := u, ht_nick_name := n, ht_s_token := k\<rparr>))"

text \<open>The address is printed into a buffer of 10240 characters: a longer one leaves it (\<open>None\<close>).\<close>

definition http_excute :: "http_reply \<Rightarrow> string \<Rightarrow> LoginHttpTask \<Rightarrow> (LoginHttpTask \<times> login_out list) option" where
  "http_excute r platform t =
     (if 10240 \<le> length (login_url platform t) then None else Some (read_reply r t, [Post (login_url platform t)]))"

definition logicExcute :: "LoginHttpTask \<Rightarrow> login \<Rightarrow> login \<times> login_out list" where
  "logicExcute t w =
     (let s = ht_session t; success = (ls_state (l_users w s) = ls_wait_platform \<and> ht_status t = 0)
      in (if success then set_user_session s ((ls_setState ls_platform_success (l_users w s))\<lparr>ls_channel := ht_channel t\<rparr>) w else w,
          [Verify_ack s (ht_nick_name t) (ht_user_id t) (ht_s_token t) success]))"

section \<open>Steps\<close>

datatype login_event =
    Accept_user int string
  | Login_request int string string "int \<times> int \<times> int" int
  | Register_request int string string
  | Platform_verify int int string string string string string int
  | Close_user int
  | Close_user_time int
  | Register_gate int int bool string int "(int \<times> int) list"
  | Gate_onlines int int
  | Gate_prepar int int
  | Gate_closed int
  | Balence_time int int
  | Load_bans "(int \<times> int \<times> int) list"
  | Platform_thread http_reply
  | Platform_logic
  | Login_run int
  | Login_thread nat bool "(int \<times> int) option outcome"
  | Login_set_stop

definition run_login_db ::
  "int \<Rightarrow> (CheckAcct, (int \<times> int) option) db_event \<Rightarrow> login \<Rightarrow> login \<times> login_out list" where
  "run_login_db now e w =
     (let (d, os) = db_step e (l_db w); w1 = w\<lparr>l_db := d\<rparr>
      in (case os of
            [y] \<Rightarrow> let (w2, ps) = login_callback now y w1 in (w2, map Db_out os @ ps)
          | _ \<Rightarrow> (w1, map Db_out os)))"

definition http_thread :: "http_reply \<Rightarrow> login \<Rightarrow> (login \<times> login_out list) option" where
  "http_thread r w =
     (case l_https w of
        [] \<Rightarrow> Some (w, [])
      | t # ts \<Rightarrow>
          map_option (\<lambda>(t1, os). (w\<lparr>l_https := ts, l_complete := l_complete w @ [t1]\<rparr>, os))
            (http_excute r (platform_url (l_config w)) t))"

definition http_logic :: "login \<Rightarrow> login \<times> login_out list" where
  "http_logic w =
     (case l_complete w of
        [] \<Rightarrow> (w, [])
      | t # ts \<Rightarrow> logicExcute t (w\<lparr>l_complete := ts\<rparr>))"

text \<open>A message is handled on a session whose connection is up.\<close>

fun login_handle :: "login_event \<Rightarrow> login \<Rightarrow> login \<times> login_out list" where
  "login_handle (Accept_user s addr) w = (login_on_accept s addr w, [])"
| "login_handle (Login_request s name pwd ver ch) w =
     (if ls_valid (l_users w s) then lg_parseLoginGame s name pwd ver ch w else (w, []))"
| "login_handle (Register_request s name pwd) w = (if ls_valid (l_users w s) then parseRegister s name pwd w else (w, []))"
| "login_handle (Platform_verify junk s u a k t x ch) w =
     (if ls_valid (l_users w s) then parsePlatformVerify junk s u a k t x ch w else w, [])"
| "login_handle (Close_user s) w = (login_on_close s w, [])"
| "login_handle (Close_user_time s) w = (close_event s w, [])"
| "login_handle (Register_gate g n ok ip port ds) w = parseGateRegister g n ok ip port ds w"
| "login_handle (Gate_onlines g n) w = (parseGateOnlines g n w, [])"
| "login_handle (Gate_prepar g a) w = parseGateUserPrepar g a w"
| "login_handle (Gate_closed g) w = (lg_removeGate g w, [])"
| "login_handle (Balence_time now g) w = (balenceInfoEvent now g w, [])"
| "login_handle (Load_bans rows) w = (loadBanCall rows w, [])"
| "login_handle Platform_logic w = http_logic w"
| "login_handle _ w = (w, [])"

text \<open>The end of the server is the end of its engine; \<^verbatim>\<open>checkStop\<close> then closes everything and leaves the loop.\<close>

definition login_setStop :: "login \<Rightarrow> login \<times> login_out list" where
  "login_setStop w = run_login_db 0 (Set_obj_state wait_stop) w"

definition login_checkStop :: "login \<Rightarrow> bool" where
  "login_checkStop w = isObjStop (l_db w)"

text \<open>\<open>None\<close>: a buffer has been left.  The main thread handles messages when it is outside the engine.\<close>

fun login_step :: "login_event \<Rightarrow> login \<Rightarrow> (login \<times> login_out list) option" where
  "login_step (Platform_thread r) w = http_thread r w"
| "login_step (Login_run now) w = Some (run_login_db now Main_run w)"
| "login_step (Login_thread i up oc) w = Some (run_login_db 0 (Thread_run i up oc) w)"
| "login_step Login_set_stop w = Some (login_setStop w)"
| "login_step e w = Some (if db_main (l_db w) = Main_idle then login_handle e w else (w, []))"

fun login_steps :: "login_event list \<Rightarrow> login \<Rightarrow> (login \<times> login_out list) option" where
  "login_steps [] w = Some (w, [])"
| "login_steps (e # es) w =
     Option.bind (login_step e w) (\<lambda>(w1, os). map_option (\<lambda>(w2, ps). (w2, os @ ps)) (login_steps es w1))"

definition new_login_session :: UserLoginSession where
  "new_login_session = \<lparr>ls_valid = False, ls_addr = [], ls_state = ls_disable, ls_accid = 0, ls_channel = 0, ls_platform_user = [],
     ls_close = None\<rparr>"

definition new_lg_gate :: lg_gate where
  "new_lg_gate = \<lparr>gate_id = 0, gate_onlines = 0, out_ip = ''127.0.0.1'', out_port = 0, balence_time = []\<rparr>"

definition login_start :: "LoginConfig \<Rightarrow> nat \<Rightarrow> login" where
  "login_start c n =
     \<lparr>l_users = (\<lambda>_. new_login_session), l_gates = (\<lambda>_. new_lg_gate), l_active = replicate 255 None, m_Accts = [],
      m_WaitSessions = [], m_BanAndMute = [], l_db = initDatabase n, l_https = [], l_complete = [], l_config = c\<rparr>"

end
