(* ===== verification/Login_Runs.thy ===== *)
theory Login_Runs
  imports Login
begin

text \<open>
  Runs of the login server: its engine is a run of the task engine, every announcement of a user rests on an
  answer of the database, every success on an announcement, and the state keeps the types of the code.
\<close>

section \<open>The engine within the server\<close>

definition login_db_outs :: "login_out list \<Rightarrow> (CheckAcct, (int \<times> int) option) db_out list" where
  "login_db_outs os = concat (map (\<lambda>x. case x of Db_out y \<Rightarrow> [y] | _ \<Rightarrow> []) os)"

lemma login_db_outs_simps [simp]:
  "login_db_outs [] = []" "login_db_outs (os @ ps) = login_db_outs os @ login_db_outs ps"
  "login_db_outs (Db_out y # os) = y # login_db_outs os" "login_db_outs (Response s re # os) = login_db_outs os"
  "login_db_outs (Register_faild s # os) = login_db_outs os" "login_db_outs (Verify_ack s nm ui to su # os) = login_db_outs os"
  "login_db_outs (User_login g a t ch # os) = login_db_outs os" "login_db_outs (Kick_user g a t # os) = login_db_outs os"
  "login_db_outs (Close_gate g # os) = login_db_outs os" "login_db_outs (Post url # os) = login_db_outs os"
  by (simp_all add: login_db_outs_def)

lemma login_db_outs_map [simp]: "login_db_outs (map Db_out ys) = ys"
  by (induction ys) simp_all

lemma in_login_db_outs: "y \<in> set (login_db_outs os) \<longleftrightarrow> Db_out y \<in> set os"
  by (force simp: login_db_outs_def split: login_out.splits)

definition login_db_run :: "login \<Rightarrow> login_out list \<Rightarrow> login \<Rightarrow> bool" where
  "login_db_run w os w' \<longleftrightarrow> (\<exists>es. run_steps db_step es (l_db w) = (l_db w', login_db_outs os))"

lemma login_db_run_same: "l_db w' = l_db w \<Longrightarrow> login_db_outs os = [] \<Longrightarrow> login_db_run w os w'"
  unfolding login_db_run_def by (rule exI [of _ "[]"]) simp

lemma login_db_run_trans: "login_db_run w os w1 \<Longrightarrow> login_db_run w1 ps w2 \<Longrightarrow> login_db_run w (os @ ps) w2"
  unfolding login_db_run_def by (elim exE, rule_tac x = "es @ esa" in exI) (simp add: run_steps_append)

lemma login_db_run_step: "db_step e (l_db w) = (d, ys) \<Longrightarrow> l_db w' = d \<Longrightarrow> login_db_outs os = ys \<Longrightarrow> login_db_run w os w'"
  unfolding login_db_run_def by (rule exI [of _ "[e]"]) simp

section \<open>The effects of the handlers\<close>

text \<open>Everything but the table of gates, accounts and waiting sessions is the same, and nothing is sent to the engine.\<close>

fun is_kick :: "login_out \<Rightarrow> bool" where
  "is_kick (Kick_user g a t) = True"
| "is_kick _ = False"

lemma kick_list: "list_all is_kick (kickUserFromGate p w)"
  by (cases "l_active w ! nat (a_nGateId p)") (simp_all add: kickUserFromGate_def)

lemma kick_outs: "x \<in> set (kickUserFromGate p w) \<Longrightarrow> is_kick x"
  using kick_list by (metis list_all_iff)

lemma user_setState_simps [simp]:
  "l_db (user_setState s st w) = l_db w" "m_WaitSessions (user_setState s st w) = m_WaitSessions w"
  "m_Accts (user_setState s st w) = m_Accts w" "l_active (user_setState s st w) = l_active w"
  "l_gates (user_setState s st w) = l_gates w"
  by (simp_all add: user_setState_def set_user_session_def)

lemma register_accounts_kept:
  "register_accounts n ds w = (w', os) \<Longrightarrow>
     l_db w' = l_db w \<and> m_WaitSessions w' = m_WaitSessions w \<and> l_active w' = l_active w \<and> l_gates w' = l_gates w \<and>
     (\<forall>x \<in> set os. is_kick x)"
proof (induction n ds w arbitrary: w' os rule: register_accounts.induct)
  case (2 n a t ds w)
  obtain w1 ps where r: "register_accounts n ds (addAccount (wrap64 a) (wrap_u32 t) n w) = (w1, ps)" by fastforce
  let ?os = "case map_find (wrap64 a) (m_Accts w) of None \<Rightarrow> [] | Some p \<Rightarrow> if a_nGateId p \<noteq> n then kickUserFromGate p w else []"
  have "\<forall>x \<in> set ?os. is_kick x" using kick_outs by (auto split: option.splits if_splits)
  moreover have "w' = w1" "os = ?os @ ps" using 2(2) r by (simp_all add: Let_def)
  moreover have "l_db w1 = l_db w \<and> m_WaitSessions w1 = m_WaitSessions w \<and> l_active w1 = l_active w \<and> l_gates w1 = l_gates w \<and>
      (\<forall>x \<in> set ps. is_kick x)" using 2(1) [OF refl r] by (simp add: addAccount_def)
  ultimately show ?case by (simp add: ball_Un)
qed simp

lemma login_task_outs: "login_task k ty x w = (w', os) \<Longrightarrow> set os \<subseteq> {Db_out (Queued x)} \<and> m_WaitSessions w' = m_WaitSessions w"
  by (auto simp: login_task_def addKindTask_def split: if_splits)

lemma login_task_run: "login_task k ty x w = (w', os) \<Longrightarrow> l_db v = l_db w \<Longrightarrow> login_db_run v os w'"
proof -
  assume a: "login_task k ty x w = (w', os)" "l_db v = l_db w"
  obtain d ys where "db_step (Add_task k ty x) (l_db w) = (d, ys)" by fastforce
  then show ?thesis using a login_db_run_step [of "Add_task k ty x" v] by (auto simp: login_task_def)
qed

text \<open>
  What an output or a waiting session presupposes, in a run with the events \<open>E\<close> and the outputs \<open>R\<close>: that a
  login of the session was checked with the account as the answer.
\<close>

definition checked :: "login_out set \<Rightarrow> CheckAcct \<Rightarrow> int \<Rightarrow> int \<Rightarrow> bool" where
  "checked R x a t \<longleftrightarrow>
     (\<exists>r. Db_out (Called x r True) \<in> R \<and> checked_acct r = a) \<and> a \<noteq> INVALID_ACCOUNT \<and> ca_check_type x = login_check \<and>
     (\<exists>now addr. t = makeTransId now (ca_str x @ ca_pwd x @ addr))"

definition asked :: "login_event set \<Rightarrow> CheckAcct \<Rightarrow> bool" where
  "asked E x \<longleftrightarrow>
     (\<exists>ver ch. Login_request (ca_ower x) (ca_str x) (ca_pwd x) ver ch \<in> E) \<or> Register_request (ca_ower x) (ca_str x) (ca_pwd x) \<in> E"

fun login_grounded :: "login_event set \<Rightarrow> login_out set \<Rightarrow> login_out \<Rightarrow> bool" where
  "login_grounded E R (User_login g a t ch) \<longleftrightarrow> (\<exists>x. checked R x a t)"
| "login_grounded E R (Response s (LoginResult_Success ip port t)) \<longleftrightarrow>
     (\<exists>x a g ch. checked R x a t \<and> ca_ower x = s \<and> User_login g a t ch \<in> R) \<and> (\<exists>g a. Gate_prepar g a \<in> E \<and> wrap_u32 a = t)"
| "login_grounded E R (Db_out (Queued x)) \<longleftrightarrow> asked E x \<or> (\<exists>y r. Db_out (Called y r True) \<in> R \<and> ca_check_type y = new_acc_check \<and>
       x = y\<lparr>ca_check_type := login_check, ca_channel := 0\<rparr>)"
| "login_grounded E R _ \<longleftrightarrow> True"

definition waiting_ok :: "login_out set \<Rightarrow> login \<Rightarrow> bool" where
  "waiting_ok R w \<longleftrightarrow>
     (\<forall>t s. (t, s) \<in> set (m_WaitSessions w) \<longrightarrow> (\<exists>x a g ch. checked R x a t \<and> ca_ower x = s \<and> User_login g a t ch \<in> R))"

lemma checked_mono: "checked R x a t \<Longrightarrow> R \<subseteq> S \<Longrightarrow> checked S x a t"
  by (auto simp: checked_def)

lemma asked_mono: "asked E x \<Longrightarrow> E \<subseteq> F \<Longrightarrow> asked F x"
  unfolding asked_def by (meson subsetD)

lemma asked_follow_up [simp]: "asked E (x\<lparr>ca_check_type := k, ca_channel := ch\<rparr>) = asked E x"
  by (simp add: asked_def)

lemma login_grounded_mono: "login_grounded E R x \<Longrightarrow> E \<subseteq> F \<Longrightarrow> R \<subseteq> S \<Longrightarrow> login_grounded F S x"
proof (induction E R x rule: login_grounded.induct)
  case (2 E R s ip port t)
  then obtain x a g ch g' a' where "checked R x a t" "ca_ower x = s" "User_login g a t ch \<in> R" "Gate_prepar g' a' \<in> E" "wrap_u32 a' = t"
    by auto
  then show ?case using 2(2,3) checked_mono [of R x a t S] by (simp; blast)
next
  case (3 E R x)
  then show ?case using asked_mono [of E x F] by (simp; blast)
qed (auto dest: checked_mono)

lemma waiting_ok_mono: "waiting_ok R w \<Longrightarrow> R \<subseteq> S \<Longrightarrow> m_WaitSessions v = m_WaitSessions w \<Longrightarrow> waiting_ok S v"
  unfolding waiting_ok_def using checked_mono by (metis subsetD)


text \<open>
  What a handler that starts in \<open>w\<close> has done: \<open>E\<close> and \<open>R\<close> are the events and outputs so far, \<open>os\<close> the new outputs.
\<close>

definition done_right :: "login_event set \<Rightarrow> login_out set \<Rightarrow> login \<Rightarrow> login \<times> login_out list \<Rightarrow> bool" where
  "done_right E R w r \<longleftrightarrow>
     login_db_run w (snd r) (fst r) \<and> waiting_ok (R \<union> set (snd r)) (fst r) \<and> (\<forall>x \<in> set (snd r). login_grounded E (R \<union> set (snd r)) x)"

lemma done_nothing: "waiting_ok R w \<Longrightarrow> l_db v = l_db w \<Longrightarrow> m_WaitSessions v = m_WaitSessions w \<Longrightarrow> done_right E R w (v, [])"
  using login_db_run_same [of v w "[]"] waiting_ok_mono [of R w R v] by (simp add: done_right_def)

text \<open>Outputs that say nothing about accounts.\<close>

fun plain_out :: "login_out \<Rightarrow> bool" where
  "plain_out (User_login g a t ch) = False"
| "plain_out (Response s (LoginResult_Success ip port t)) = False"
| "plain_out (Db_out y) = False"
| "plain_out _ = True"

lemma plain_grounded: "plain_out x \<Longrightarrow> login_grounded E R x"
  by (cases "(E, R, x)" rule: login_grounded.cases) auto

lemma plain_no_db: "list_all plain_out os \<Longrightarrow> login_db_outs os = []"
proof (induction os)
  case (Cons x os)
  then show ?case by (cases x) auto
qed simp

lemma done_plain:
  "waiting_ok R w \<Longrightarrow> l_db v = l_db w \<Longrightarrow> m_WaitSessions v = m_WaitSessions w \<Longrightarrow> list_all plain_out os \<Longrightarrow> done_right E R w (v, os)"
  using login_db_run_same [of v w os] waiting_ok_mono [of R w "R \<union> set os" v] plain_no_db [of os]
  by (auto simp: done_right_def list_all_iff intro: plain_grounded)

lemma done_append:
  assumes "done_right E R w (v, os)" "done_right E (R \<union> set os) v (u, ps)"
  shows "done_right E R w (u, os @ ps)"
proof -
  have "login_grounded E (R \<union> set (os @ ps)) x" if "x \<in> set (os @ ps)" for x
    using that assms login_grounded_mono [of E "R \<union> set os" x E "R \<union> set (os @ ps)"] by (auto simp: done_right_def Un_assoc)
  then show ?thesis using assms login_db_run_trans by (auto simp: done_right_def Un_assoc)
qed

lemma done_task:
  assumes "waiting_ok R w" "l_db v = l_db w" "m_WaitSessions v = m_WaitSessions w" "login_grounded E R (Db_out (Queued x))"
  shows "done_right E R w (login_task k ty x v)"
proof -
  obtain u os where u: "login_task k ty x v = (u, os)" by fastforce
  note k = login_task_outs [OF u] login_task_run [OF u assms(2) [symmetric]]
  have "login_grounded E (R \<union> set os) y" if "y \<in> set os" for y
    using that k(1) login_grounded_mono [OF assms(4), of E "R \<union> set os"] by blast
  then show ?thesis using u k assms(1,3) waiting_ok_mono [of R w "R \<union> set os" u] by (simp add: done_right_def)
qed

lemma kicks_plain: "list_all plain_out (kickUserFromGate p w)"
  using kick_list [of p w] by (auto simp: list_all_iff elim!: is_kick.elims)

lemma done_give:
  assumes "waiting_ok R w" "l_db v = l_db w" "m_WaitSessions v = m_WaitSessions w" "checked R x (a_nId p) (a_nTranId p)"
    and "giveUserToGate now p (ca_ower x) v = (b, u, os)"
  shows "done_right E R w (u, os)"
proof (cases "getIdleGate v")
  case None
  then show ?thesis using assms done_nothing [of R w u] by (simp add: giveUserToGate_def)
next
  case (Some g)
  obtain ch where u: "os = [User_login g (a_nId p) (a_nTranId p) ch]" "l_db u = l_db w"
      "m_WaitSessions u = map_insert (a_nTranId p) (ca_ower x) (m_WaitSessions w)"
    using assms Some by (auto simp: giveUserToGate_def set_user_session_def addBalenceTime_def Let_def)
  have c: "checked (R \<union> set os) x (a_nId p) (a_nTranId p)" using assms(4) checked_mono by blast
  have "waiting_ok (R \<union> set os) u"
    unfolding waiting_ok_def
  proof (intro allI impI)
    fix t s
    assume "(t, s) \<in> set (m_WaitSessions u)"
    then consider "(t, s) \<in> set (m_WaitSessions w)" | "t = a_nTranId p" "s = ca_ower x"
      using u(3) set_map_insert [of "a_nTranId p" "ca_ower x" "m_WaitSessions w"] by auto
    then show "\<exists>x a g ch. checked (R \<union> set os) x a t \<and> ca_ower x = s \<and> User_login g a t ch \<in> R \<union> set os"
    proof cases
      case 1
      then show ?thesis using waiting_ok_mono [OF assms(1), of "R \<union> set os" w] unfolding waiting_ok_def by blast
    next
      case 2
      then show ?thesis using c u(1) by auto
    qed
  qed
  moreover have "login_db_run w os u" using login_db_run_same [of u w os] u(1,2) by simp
  ultimately show ?thesis using c u(1) by (auto simp: done_right_def)
qed


lemma done_check:
  assumes "waiting_ok R w" "l_db v = l_db w" "m_WaitSessions v = m_WaitSessions w"
    and "ok \<Longrightarrow> Db_out (Called x r True) \<in> R" "ca_check_type x = login_check"
  shows "done_right E R w (checkAccountCall now x r ok v)"
proof (cases "ls_valid (l_users v (ca_ower x)) \<and> ok \<and> checked_acct r \<noteq> INVALID_ACCOUNT")
  case False
  then show ?thesis
    using done_nothing [OF assms(1-3)]
      done_plain [OF assms(1), of "user_setState (ca_ower x) ls_wait_close v" "[Response (ca_ower x) LoginResult_Fail]"]
      done_plain [OF assms(1), of "user_setState (ca_ower x) ls_wait_close v" "[Response (ca_ower x) LoginResult_NameFail]"] assms(2,3)
    by (cases "ls_valid (l_users v (ca_ower x))"; cases ok) (simp_all add: checkAccountCall_def Let_def)
next
  case True
  let ?a = "checked_acct r"
  let ?k = "case map_find ?a (m_Accts v) of None \<Rightarrow> [] | Some p \<Rightarrow> kickUserFromGate p v"
  let ?p = "\<lparr>a_nId = ?a, a_nTranId = makeTransId now (tran_text x (l_users v (ca_ower x))), a_nGateId = 0\<rparr>"
  let ?v = "v\<lparr>m_Accts := map_assign ?a ?p (m_Accts v)\<rparr>"
  obtain b u os where g: "giveUserToGate now ?p (ca_ower x) ?v = (b, u, os)" by (metis prod_cases3)
  have k: "done_right E R w (v, ?k)"
    using kicks_plain by (intro done_plain [OF assms(1-3)]) (simp split: option.split)
  have "checked R x (a_nId ?p) (a_nTranId ?p)"
    using True assms(4,5) unfolding checked_def tran_text_def by auto
  then have c: "checked (R \<union> set ?k) x (a_nId ?p) (a_nTranId ?p)" by (rule checked_mono) blast
  have w: "waiting_ok (R \<union> set ?k) v" using k by (simp add: done_right_def)
  have u: "done_right E R w (u, ?k @ os)" using done_append [OF k done_give [OF w _ _ c g]] by simp
  have f: "done_right E (R \<union> set (?k @ os)) u
      (user_setState (ca_ower x) ls_wait_close (removeAccount ?a u), [Response (ca_ower x) LoginResult_Fail])"
    using u by (intro done_plain) (auto simp: done_right_def removeAccount_def)
  show ?thesis using True g u done_append [OF u f] by (simp add: checkAccountCall_def Let_def)
qed

lemma done_create:
  assumes "waiting_ok R w" "l_db v = l_db w" "m_WaitSessions v = m_WaitSessions w"
    and "ok \<Longrightarrow> Db_out (Called x r True) \<in> R" "ca_check_type x = new_acc_check"
  shows "done_right E R w (CreateNewAccount x r ok v)"
proof (cases "ls_valid (l_users v (ca_ower x)) \<and> ok \<and> checked_result r = 0")
  case False
  then show ?thesis
    using done_nothing [OF assms(1-3)]
      done_plain [OF assms(1), of "user_setState (ca_ower x) ls_wait_close v" "[Register_faild (ca_ower x)]"] assms(2,3)
    by (cases "ls_valid (l_users v (ca_ower x))"; cases ok) (simp_all add: CreateNewAccount_def Let_def)
next
  case True
  have "login_grounded E R (Db_out (Queued (x\<lparr>ca_check_type := login_check, ca_channel := 0\<rparr>)))"
    using True assms(4,5) by auto
  then show ?thesis using True done_task [OF assms(1-3)] by (simp add: CreateNewAccount_def)
qed

lemma done_prepar:
  assumes "waiting_ok R w" "Gate_prepar g a \<in> E"
  shows "done_right E R w (parseGateUserPrepar g a w)"
proof (cases "map_find (wrap_u32 a) (m_WaitSessions w)")
  case None
  then show ?thesis using done_nothing [OF assms(1)] by (simp add: parseGateUserPrepar_def receiveUserPrepar_def)
next
  case (Some s)
  let ?t = "wrap_u32 a"
  let ?y = "Response s (LoginResult_Success (out_ip (l_gates w g)) (out_port (l_gates w g)) ?t)"
  let ?v = "(user_setState s ls_wait_close w)\<lparr>m_WaitSessions := map_erase ?t (m_WaitSessions w)\<rparr>"
  have "(?t, s) \<in> set (m_WaitSessions w)" using Some map_find_Some_in by fast
  then obtain x b h ch where x: "checked R x b ?t" "ca_ower x = s" "User_login h b ?t ch \<in> R" using assms(1) unfolding waiting_ok_def by blast
  have "login_grounded E (R \<union> set [?y]) ?y"
    using x assms(2) checked_mono [of R x b ?t "R \<union> set [?y]"] by auto
  moreover have "waiting_ok (R \<union> set [?y]) ?v"
    using waiting_ok_mono [OF assms(1), of "R \<union> set [?y]" w] by (auto simp: waiting_ok_def map_erase_def)
  moreover have "login_db_run w [?y] ?v" by (rule login_db_run_same) simp_all
  ultimately show ?thesis using Some by (simp add: done_right_def parseGateUserPrepar_def receiveUserPrepar_def)
qed


lemma done_register:
  assumes "waiting_ok R w"
  shows "done_right E R w (parseGateRegister g n ok ip port ds w)"
proof -
  let ?w = "lg_addGate (n mod 256) g (w\<lparr>l_gates := (l_gates w)(g := (l_gates w g)
      \<lparr>gate_id := n mod 256, gate_onlines := wrap_u32 (int (length ds)), out_ip := ip, out_port := port mod 65536\<rparr>)\<rparr>)"
  obtain u os where r: "register_accounts (n mod 256) ds ?w = (u, os)" by fastforce
  have "list_all plain_out os" using register_accounts_kept [OF r] by (auto simp: list_all_iff elim!: is_kick.elims)
  then have "done_right E R w (u, (if ok then [] else [Close_gate g]) @ os)"
    using register_accounts_kept [OF r] by (intro done_plain [OF assms]) (auto simp: lg_addGate_def)
  then show ?thesis using r by (simp add: parseGateRegister_def Let_def)
qed

lemma done_login:
  assumes "waiting_ok R w" "Login_request s name pwd ver ch \<in> E"
  shows "done_right E R w (lg_parseLoginGame s name pwd ver ch w)"
proof -
  let ?x = "\<lparr>ca_str = name, ca_pwd = pwd, ca_ower = s, ca_check_type = login_check, ca_channel = ch\<rparr>"
  have plain: "done_right E R w (w, os)" if "list_all plain_out os" for os using done_plain [OF assms(1) refl refl that] .
  have more: "done_right E R w (u, os @ ps)"
    if "list_all plain_out os" "login_task BATCH_QUERY NORMAL_THREAD ?x (user_setState s ls_checking_data w) = (u, ps)" for u os ps
  proof (rule done_append [OF plain [OF that(1)]])
    have "waiting_ok (R \<union> set os) w" using plain [OF that(1)] by (simp add: done_right_def)
    moreover have "asked E ?x" using assms(2) unfolding asked_def by (metis CheckAcct.select_convs(1-3))
    ultimately show "done_right E (R \<union> set os) w (u, ps)"
      using done_task [of "R \<union> set os" w "user_setState s ls_checking_data w" E ?x] that(2) by (metis login_grounded.simps(3) user_setState_simps(1,2))
  qed
  obtain u ps where t: "login_task BATCH_QUERY NORMAL_THREAD ?x (user_setState s ls_checking_data w) = (u, ps)" by fastforce
  show ?thesis
    using plain [of "[]"] plain [of "[Response s LoginResult_ErrorNeedThirdVerify]"] plain
      more [OF _ t, of "[]"] more [OF _ t, of "[Response s LoginResult_ErrorNeedThirdVerify]"] t
    by (auto simp: lg_parseLoginGame_def checkAccount_def Let_def split: prod.split)
qed

lemma done_new_account:
  assumes "waiting_ok R w" "Register_request s name pwd \<in> E"
  shows "done_right E R w (parseRegister s name pwd w)"
  unfolding parseRegister_def checkAccount_def
  using assms(2) by (intro done_task [OF assms(1)]) (simp_all add: asked_def)

lemma done_handle:
  assumes "waiting_ok R w" "e \<in> E"
  shows "done_right E R w (login_handle e w)"
proof (cases e)
  case (Platform_verify junk s u a k t x ch)
  show ?thesis unfolding Platform_verify login_handle.simps
    by (rule done_nothing [OF assms(1)]) (simp_all add: parsePlatformVerify_def)
next
  case Platform_logic
  show ?thesis unfolding Platform_logic login_handle.simps http_logic_def logicExcute_def
    by (cases "l_complete w") (auto intro!: done_plain [OF assms(1)] done_nothing [OF assms(1)] simp: set_user_session_def Let_def)
qed (use assms done_login done_new_account done_register done_prepar in
    \<open>auto simp: login_on_accept_def login_on_close_def close_event_def parseGateOnlines_def lg_removeGate_def balenceInfoEvent_def loadBanCall_def
       set_user_session_def Let_def intro!: done_nothing\<close>)

fun engine_event :: "('a, 'r) db_event \<Rightarrow> bool" where
  "engine_event Main_run = True"
| "engine_event (Thread_run i up oc) = True"
| "engine_event (Set_obj_state st) = True"
| "engine_event _ = False"

lemma engine_queues_nothing: "engine_event e \<Longrightarrow> db_step e d = (d', os) \<Longrightarrow> Queued x \<notin> set os"
  by (cases e) (auto simp: Database_run_def thread_step_def thread_move_def Let_def
      split: if_splits main_pc.splits list.splits thread_pc.splits option.splits prod.splits)

lemma callback_done:
  assumes "waiting_ok R w" "Db_out y \<in> R"
  shows "done_right E R w (login_callback now y w)"
proof (cases y)
  case (Called x r ok)
  show ?thesis
  proof (cases "ca_check_type x")
    case login_check
    show ?thesis unfolding Called login_callback_def
      using done_check [OF assms(1) refl refl _ login_check, of ok r E now] assms(2) Called login_check by (cases ok) simp_all
  next
    case new_acc_check
    show ?thesis unfolding Called login_callback_def
      using done_create [OF assms(1) refl refl _ new_acc_check, of ok r E] assms(2) Called new_acc_check by (cases ok) simp_all
  qed
qed (use assms done_nothing in \<open>simp_all add: login_callback_def\<close>)

lemma run_done:
  assumes "waiting_ok R w" "engine_event e"
  shows "done_right E R w (run_login_db now e w)"
proof -
  obtain d os where d: "db_step e (l_db w) = (d, os)" by fastforce
  let ?w = "w\<lparr>l_db := d\<rparr>"
  have "login_grounded E S (Db_out y)" if "y \<in> set os" for y S
  proof (cases y)
    case (Queued x)
    then show ?thesis using that engine_queues_nothing [OF assms(2) d] by blast
  qed simp_all
  then have 1: "done_right E R w (?w, map Db_out os)"
    using login_db_run_step [OF d, of ?w "map Db_out os"] waiting_ok_mono [OF assms(1), of "R \<union> set (map Db_out os)" ?w]
    by (auto simp: done_right_def)
  show ?thesis
  proof (cases "\<exists>y. os = [y]")
    case True
    then obtain y where y: "os = [y]" by blast
    obtain u ps where u: "login_callback now y ?w = (u, ps)" by fastforce
    have "done_right E (R \<union> set (map Db_out os)) ?w (u, ps)"
      using callback_done [of "R \<union> set (map Db_out os)" ?w y E now] 1 y u by (simp add: done_right_def)
    then show ?thesis using done_append [OF 1] d y u by (simp add: run_login_db_def)
  next
    case False
    then have "run_login_db now e w = (?w, map Db_out os)" using d by (auto simp: run_login_db_def Let_def split: list.split)
    then show ?thesis using 1 by simp
  qed
qed

lemma login_step_done:
  assumes "waiting_ok R w" "e \<in> E" "login_step e w = Some r"
  shows "done_right E R w r"
proof -
  have idle: "done_right E R w (w, [])" using done_nothing [OF assms(1) refl refl] .
  have handle: "done_right E R w (if db_main (l_db w) = Main_idle then login_handle e w else (w, []))"
    using done_handle [OF assms(1,2)] idle by simp
  show ?thesis
  proof (cases e)
    case (Platform_thread x)
    show ?thesis
    proof (cases "l_https w")
      case Nil
      then show ?thesis using assms(3) idle Platform_thread by (auto simp: http_thread_def)
    next
      case (Cons t ts)
      then obtain t1 where "r = (w\<lparr>l_https := ts, l_complete := l_complete w @ [t1]\<rparr>, [Post (login_url (platform_url (l_config w)) t)])"
        using assms(3) Platform_thread by (auto simp: http_thread_def http_excute_def split: if_splits)
      then show ?thesis using done_plain [OF assms(1)] by simp
    qed
  next
    case (Login_run now)
    then show ?thesis using assms(3) run_done [OF assms(1), of Main_run] by auto
  next
    case (Login_thread i up oc)
    then show ?thesis using assms(3) run_done [OF assms(1), of "Thread_run i up oc"] by auto
  next
    case Login_set_stop
    then show ?thesis using assms(3) run_done [OF assms(1), of "Set_obj_state wait_stop"] by (auto simp: login_setStop_def)
  qed (use assms(3) handle in auto)
qed

lemma login_steps_done:
  "waiting_ok R w \<Longrightarrow> set es \<subseteq> E \<Longrightarrow> login_steps es w = Some r \<Longrightarrow> done_right E R w r"
proof (induction es arbitrary: R w r)
  case Nil
  then show ?case using done_nothing by auto
next
  case (Cons e es)
  obtain w1 os w2 ps where s: "login_step e w = Some (w1, os)" "login_steps es w1 = Some (w2, ps)" "r = (w2, os @ ps)"
    using Cons.prems(3) by (auto split: bind_splits)
  have 1: "done_right E R w (w1, os)" using login_step_done [OF Cons.prems(1) _ s(1)] Cons.prems(2) by auto
  have "done_right E (R \<union> set os) w1 (w2, ps)"
    using Cons.IH [OF _ _ s(2), of "R \<union> set os"] 1 Cons.prems(2) by (simp add: done_right_def)
  then show ?case using done_append [OF 1] s(3) by simp
qed

text \<open>A run of the server, with every event and every output.\<close>

lemma login_run_facts:
  assumes "login_steps es (login_start c n) = Some (w, os)"
  shows "\<exists>ds. run_steps db_step ds (initDatabase n) = (l_db w, login_db_outs os)"
    and "waiting_ok (set os) w"
    and "x \<in> set os \<Longrightarrow> login_grounded (set es) (set os) x"
proof -
  have "waiting_ok {} (login_start c n)" by (simp add: waiting_ok_def login_start_def)
  then have "done_right (set es) {} (login_start c n) (w, os)" using login_steps_done [OF _ order.refl assms] by blast
  then show "\<exists>ds. run_steps db_step ds (initDatabase n) = (l_db w, login_db_outs os)" "waiting_ok (set os) w"
    "x \<in> set os \<Longrightarrow> login_grounded (set es) (set os) x"
    by (simp_all add: done_right_def login_db_run_def login_start_def)
qed


section \<open>What an announcement rests on\<close>

lemma checked_asked:
  assumes "login_steps es (login_start c n) = Some (w, os)" "Db_out (Called x r ok) \<in> set os"
  shows "Db_out (Ran x (if ok then Ran_done else Ran_failed)) \<in> set os" "asked (set es) x"
proof -
  obtain ds where ds: "run_steps db_step ds (initDatabase n) = (l_db w, login_db_outs os)"
    using login_run_facts(1) [OF assms(1)] by blast
  have in_db: "Called y r' k \<in> set (login_db_outs os) \<longleftrightarrow> Db_out (Called y r' k) \<in> set os" for y r' k by (rule in_login_db_outs)
  show "Db_out (Ran x (if ok then Ran_done else Ran_failed)) \<in> set os"
    using db_run_passed [OF initDatabase_ok(2) ds] assms(2) by (simp add: in_login_db_outs)
  have queued: "Db_out (Queued y) \<in> set os" if "Db_out (Called y r' k) \<in> set os" for y r' k
  proof -
    have "y \<in># mset (called (login_db_outs os))" using that by (force simp: in_db [symmetric] called_def)
    then have "y \<in> set (queued (login_db_outs os))" using tasks_conserved [OF ds] by (metis set_mset_mset union_iff)
    then show ?thesis by (auto simp: queued_def in_login_db_outs [symmetric] split: db_out.splits)
  qed
  have new: "asked (set es) y" if "Db_out (Called y r' k) \<in> set os" "ca_check_type y = new_acc_check" for y r' k
    using login_run_facts(3) [OF assms(1) queued [OF that(1)]] that(2) by auto
  show "asked (set es) x"
    using login_run_facts(3) [OF assms(1) queued [OF assms(2)]] new by auto
qed

text \<open>
  Whom the login server announces.  In every run, however the threads of the engine and the messages
  interleave, a user is announced to a gate only after a login check for this account was executed to its end by
  a thread and handed back with it as the answer; the account is not the invalid one; the name and password are
  those that the session had sent with a login or a registration; and the number under which the gate will
  admit the client is the checksum of the name, the password, the address and the time.
\<close>

theorem announce_checked:
  assumes "login_steps es (login_start c n) = Some (w, os)" "User_login g a t ch \<in> set os"
  shows "a \<noteq> INVALID_ACCOUNT \<and>
    (\<exists>x r now addr. Db_out (Ran x Ran_done) \<in> set os \<and> Db_out (Called x r True) \<in> set os \<and> checked_acct r = a \<and>
       ca_check_type x = login_check \<and> asked (set es) x \<and> t = makeTransId now (ca_str x @ ca_pwd x @ addr))"
proof -
  obtain x where x: "checked (set os) x a t" using login_run_facts(3) [OF assms] by auto
  then obtain r now addr where r: "Db_out (Called x r True) \<in> set os" "checked_acct r = a" "ca_check_type x = login_check"
      "t = makeTransId now (ca_str x @ ca_pwd x @ addr)" unfolding checked_def by blast
  have "a \<noteq> INVALID_ACCOUNT" using x by (simp add: checked_def)
  then show ?thesis using r checked_asked [OF assms(1) r(1)] by auto
qed

text \<open>
  Who is told of a success.  A client is told that its login succeeded, with the address of a gate and a
  number, only if a gate has reported that it expects this number, and the number was announced to a gate for a
  login of this session that the database had checked.
\<close>

theorem login_success_agrees:
  assumes "login_steps es (login_start c n) = Some (w, os)" "Response s (LoginResult_Success ip port t) \<in> set os"
  shows "(\<exists>g a. Gate_prepar g a \<in> set es \<and> wrap_u32 a = t) \<and>
    (\<exists>x r a g ch. User_login g a t ch \<in> set os \<and> Db_out (Called x r True) \<in> set os \<and> checked_acct r = a \<and> a \<noteq> INVALID_ACCOUNT \<and>
       ca_ower x = s \<and> asked (set es) x)"
proof -
  obtain x a g ch where x: "checked (set os) x a t" "ca_ower x = s" "User_login g a t ch \<in> set os"
      "\<exists>g a. Gate_prepar g a \<in> set es \<and> wrap_u32 a = t"
    using login_run_facts(3) [OF assms] by auto
  then obtain r where r: "Db_out (Called x r True) \<in> set os" "checked_acct r = a" "a \<noteq> INVALID_ACCOUNT" unfolding checked_def by blast
  show ?thesis using x r checked_asked(2) [OF assms(1) r(1)] by blast
qed

text \<open>A client registers, is logged in at once, and is told the address of the gate.\<close>

definition sample_login_config :: LoginConfig where
  "sample_login_config = \<lparr>version = (1, 0, 2), channels = [0, 1], platform_url = ''http://p'', need_platform_verify = False\<rparr>"

definition sample_login :: "login_event list" where
  "sample_login =
     (let go = Login_thread 0 True (Exec_ok (Some (42, 0))); run = Login_run 100
      in [Register_gate 1 5 True ''9.9.9.9'' 7000 [], Accept_user 7 ''1.2.3.4'', Register_request 7 ''bob'' ''pw''] @
         replicate 8 go @ replicate 4 run @ replicate 8 go @ replicate 8 run @
         [Gate_prepar 1 (makeTransId 100 ''bobpw1.2.3.4'')])"

lemma sample_login_outputs:
  "map_option snd (login_steps sample_login (login_start sample_login_config 1)) =
     (let x = \<lparr>ca_str = ''bob'', ca_pwd = ''pw'', ca_ower = 7, ca_check_type = new_acc_check, ca_channel = 0\<rparr>;
          y = x\<lparr>ca_check_type := login_check\<rparr>; r = Some (Some (42, 0)); t = makeTransId 100 ''bobpw1.2.3.4''
      in Some [Db_out (Queued x), Db_out (Ran x Ran_done), Db_out (Called x r True), Db_out (Queued y), Db_out (Ran y Ran_done),
           Db_out (Called y r True), User_login 1 42 t 0, Response 7 (LoginResult_Success ''9.9.9.9'' 7000 t)])"
  by code_simp


lemma sample_login_run:
  "\<exists>w os. login_steps sample_login (login_start sample_login_config 1) = Some (w, os) \<and>
     User_login 1 42 (makeTransId 100 ''bobpw1.2.3.4'') 0 \<in> set os \<and>
     Response 7 (LoginResult_Success ''9.9.9.9'' 7000 (makeTransId 100 ''bobpw1.2.3.4'')) \<in> set os"
  using sample_login_outputs by (auto simp: Let_def)

lemma asked_sample: "asked (set sample_login) x \<Longrightarrow> ca_ower x = 7 \<and> ca_str x = ''bob'' \<and> ca_pwd x = ''pw''"
  by (auto simp: asked_def sample_login_def Let_def)

theorem announce_checked_witness:
  "\<exists>w os x. login_steps sample_login (login_start sample_login_config 1) = Some (w, os) \<and> Db_out (Ran x Ran_done) \<in> set os \<and>
     ca_str x = ''bob'' \<and> ca_pwd x = ''pw''"
proof -
  obtain w os where r: "login_steps sample_login (login_start sample_login_config 1) = Some (w, os)"
      "User_login 1 42 (makeTransId 100 ''bobpw1.2.3.4'') 0 \<in> set os" using sample_login_run by blast
  then show ?thesis using announce_checked [OF r] asked_sample by blast
qed

theorem login_success_agrees_witness:
  "\<exists>w os x. login_steps sample_login (login_start sample_login_config 1) = Some (w, os) \<and> asked (set sample_login) x \<and> ca_ower x = 7"
proof -
  obtain w os where r: "login_steps sample_login (login_start sample_login_config 1) = Some (w, os)"
      "Response 7 (LoginResult_Success ''9.9.9.9'' 7000 (makeTransId 100 ''bobpw1.2.3.4'')) \<in> set os" using sample_login_run by blast
  then show ?thesis using login_success_agrees [OF r] by blast
qed

end
