(* ===== verification/Login_Types.thy ===== *)
theory Login_Types
  imports Login_Runs
begin

text \<open>
  The login server keeps the types of the code: the range of every field, the size of the array of gates and the
  order of its maps.
\<close>

section \<open>The typed state\<close>

definition gate_typed :: "lg_gate \<Rightarrow> bool" where
  "gate_typed g \<longleftrightarrow> 0 \<le> gate_id g \<and> gate_id g < 256 \<and> 0 \<le> gate_onlines g \<and> gate_onlines g < 4294967296 \<and>
     0 \<le> out_port g \<and> out_port g < 65536 \<and> (\<forall>t \<in> set (balence_time g). 0 \<le> t \<and> t < 18446744073709551616)"

definition account_typed :: "int \<Rightarrow> Account \<Rightarrow> bool" where
  "account_typed a p \<longleftrightarrow> a_nId p = a \<and> 0 \<le> a \<and> a < 18446744073709551616 \<and> 0 \<le> a_nTranId p \<and> a_nTranId p < 4294967296 \<and>
     0 \<le> a_nGateId p \<and> a_nGateId p < 256"

definition login_wf :: "login \<Rightarrow> bool" where
  "login_wf w \<longleftrightarrow> (\<forall>g. gate_typed (l_gates w g)) \<and> length (l_active w) = 255 \<and> l_active w ! 0 = None \<and>
     map_wf (m_Accts w) \<and> (\<forall>(a, p) \<in> set (m_Accts w). account_typed a p) \<and>
     map_wf (m_WaitSessions w) \<and> (\<forall>(t, s) \<in> set (m_WaitSessions w). in_u32 t)"

fun out_typed :: "login_out \<Rightarrow> bool" where
  "out_typed (User_login g a t ch) \<longleftrightarrow> 0 \<le> a \<and> a < 18446744073709551616 \<and> in_u32 t"
| "out_typed (Kick_user g a t) \<longleftrightarrow> 0 \<le> a \<and> a < 18446744073709551616 \<and> in_u32 t"
| "out_typed (Response s (LoginResult_Success ip port t)) \<longleftrightarrow> 0 \<le> port \<and> port < 65536 \<and> in_u32 t"
| "out_typed _ \<longleftrightarrow> True"

definition kept_typed :: "login \<times> login_out list \<Rightarrow> bool" where
  "kept_typed r \<longleftrightarrow> login_wf (fst r) \<and> list_all out_typed (snd r)"

lemma wf_cong:
  "login_wf w \<Longrightarrow> l_gates v = l_gates w \<Longrightarrow> l_active v = l_active w \<Longrightarrow> m_Accts v = m_Accts w \<Longrightarrow>
     m_WaitSessions v = m_WaitSessions w \<Longrightarrow> login_wf v"
  by (simp add: login_wf_def)

lemma wf_gate: "login_wf w \<Longrightarrow> gate_typed p \<Longrightarrow> login_wf (w\<lparr>l_gates := (l_gates w)(g := p)\<rparr>)"
  by (simp add: login_wf_def)

lemma wf_account: "login_wf w \<Longrightarrow> account_typed a p \<Longrightarrow> login_wf (w\<lparr>m_Accts := map_assign a p (m_Accts w)\<rparr>)"
  using set_map_assign [of a p "m_Accts w"] by (auto simp: login_wf_def map_wf_assign)

lemma wf_set_session [simp]: "login_wf (set_user_session s u w) = login_wf w"
  by (simp add: login_wf_def set_user_session_def)

lemma wf_setState [simp]: "login_wf (user_setState s st w) = login_wf w"
  by (simp add: login_wf_def)

lemma wf_addGate: "login_wf w \<Longrightarrow> login_wf (lg_addGate n g w)"
  by (simp add: login_wf_def lg_addGate_def)

lemma wf_removeGate: "login_wf w \<Longrightarrow> login_wf (lg_removeGate g w)"
  by (simp add: login_wf_def lg_removeGate_def Let_def)

lemma wf_removeAccount: "login_wf w \<Longrightarrow> login_wf (removeAccount a w)"
  by (auto simp: login_wf_def removeAccount_def map_wf_erase) (auto simp: map_erase_def)

lemma wf_balence: "login_wf w \<Longrightarrow> login_wf (addBalenceTime now g w)"
  unfolding addBalenceTime_def by (rule wf_gate) (auto simp: login_wf_def gate_typed_def wrap64_def)

lemma found_account: "login_wf w \<Longrightarrow> map_find a (m_Accts w) = Some p \<Longrightarrow> account_typed a p"
  by (auto simp: login_wf_def dest: map_find_Some_in)

lemma kick_typed: "account_typed a p \<Longrightarrow> list_all out_typed (kickUserFromGate p w)"
  by (cases "l_active w ! nat (a_nGateId p)") (simp_all add: kickUserFromGate_def account_typed_def in_u32_def)

lemma wrap_typed [simp]: "0 \<le> wrap64 a" "wrap64 a < 18446744073709551616" "0 \<le> wrap_u32 a" "wrap_u32 a < 4294967296"
  by (simp_all add: wrap64_def wrap_u32_def)

lemma makeTransId_typed: "in_u32 (makeTransId now s)"
  using uint_ge_0 [of "sslCrc32 (Some (text_bytes (s @ show_int now)))"] uint_lt2p [of "sslCrc32 (Some (text_bytes (s @ show_int now)))"]
  by (simp add: in_u32_def makeTransId_def)

lemma register_typed:
  "login_wf w \<Longrightarrow> 0 \<le> n \<Longrightarrow> n < 256 \<Longrightarrow> kept_typed (register_accounts n ds w)"
proof (induction ds arbitrary: w)
  case (Cons d ds)
  obtain a t where d: "d = (a, t)" by force
  let ?v = "addAccount (wrap64 a) (wrap_u32 t) n w"
  have "login_wf ?v" unfolding addAccount_def using Cons.prems by (intro wf_account) (auto simp: account_typed_def)
  then have "kept_typed (register_accounts n ds ?v)" using Cons by blast
  moreover have "list_all out_typed (case map_find (wrap64 a) (m_Accts w) of None \<Rightarrow> []
      | Some p \<Rightarrow> if a_nGateId p \<noteq> n then kickUserFromGate p w else [])"
    using found_account [OF Cons.prems(1)] kick_typed by (fastforce split: option.split)
  ultimately show ?case
    using d by (cases "register_accounts n ds ?v") (simp add: kept_typed_def Let_def)
qed (simp add: kept_typed_def)

lemma give_typed:
  assumes "login_wf w" "account_typed (a_nId p) p" "giveUserToGate now p s w = (b, u, os)"
  shows "login_wf u" "list_all out_typed os"
proof -
  have "login_wf u \<and> list_all out_typed os"
  proof (cases "getIdleGate w")
    case None
    then show ?thesis using assms by (simp add: giveUserToGate_def)
  next
    case (Some g)
    let ?w1 = "w\<lparr>m_Accts := map_assign (a_nId p) (p\<lparr>a_nGateId := gate_id (l_gates w g)\<rparr>) (m_Accts w)\<rparr>"
    let ?w3 = "addBalenceTime now g (set_user_session s (ls_setState ls_wait_gate ((l_users ?w1 s)\<lparr>ls_accid := a_nId p\<rparr>)) ?w1)"
    have "gate_typed (l_gates w g)" using assms(1) by (simp add: login_wf_def)
    then have "login_wf ?w1" using assms(1,2) by (intro wf_account) (auto simp: account_typed_def gate_typed_def)
    then have w3: "login_wf ?w3" by (intro wf_balence) simp
    have "login_wf (?w3\<lparr>m_WaitSessions := map_insert (a_nTranId p) s (m_WaitSessions ?w3)\<rparr>)"
      using w3 assms(2) set_map_insert [of "a_nTranId p" s "m_WaitSessions ?w3"]
      by (auto simp: login_wf_def account_typed_def in_u32_def map_wf_insert)
    then show ?thesis using assms(2,3) Some by (auto simp: giveUserToGate_def Let_def account_typed_def in_u32_def)
  qed
  then show "login_wf u" "list_all out_typed os" by simp_all
qed


lemma check_typed:
  assumes "login_wf w"
  shows "kept_typed (checkAccountCall now x r ok w)"
proof (cases "ls_valid (l_users w (ca_ower x)) \<and> ok \<and> checked_acct r \<noteq> INVALID_ACCOUNT")
  case False
  then show ?thesis using assms
    by (cases "ls_valid (l_users w (ca_ower x))"; cases ok) (simp_all add: checkAccountCall_def Let_def kept_typed_def)
next
  case True
  let ?a = "checked_acct r"
  let ?k = "case map_find ?a (m_Accts w) of None \<Rightarrow> [] | Some p \<Rightarrow> kickUserFromGate p w"
  let ?p = "\<lparr>a_nId = ?a, a_nTranId = makeTransId now (tran_text x (l_users w (ca_ower x))), a_nGateId = 0\<rparr>"
  let ?w = "w\<lparr>m_Accts := map_assign ?a ?p (m_Accts w)\<rparr>"
  obtain b u os where g: "giveUserToGate now ?p (ca_ower x) ?w = (b, u, os)" by (metis prod_cases3)
  have "in_u32 ?a" by (simp add: checked_acct_def in_u32_def split: option.split)
  then have p: "account_typed ?a ?p" using makeTransId_typed by (auto simp: account_typed_def in_u32_def)
  have k: "list_all out_typed ?k" using found_account [OF assms] kick_typed by (fastforce split: option.split)
  have u: "login_wf u" "list_all out_typed os" using give_typed [OF wf_account [OF assms p] _ g] p by simp_all
  show ?thesis using True g u k by (simp add: checkAccountCall_def Let_def kept_typed_def wf_removeAccount)
qed

lemma task_typed: "login_wf w \<Longrightarrow> kept_typed (login_task k ty x w)"
  by (auto simp: login_task_def kept_typed_def list_all_iff intro: wf_cong split: prod.split)

lemma callback_typed: "login_wf w \<Longrightarrow> kept_typed (login_callback now y w)"
  using check_typed task_typed
  by (cases y) (auto simp: login_callback_def CreateNewAccount_def Let_def kept_typed_def split: check_type.split)

lemma prepar_typed:
  assumes "login_wf w"
  shows "kept_typed (parseGateUserPrepar g a w)"
proof -
  have "gate_typed (l_gates w g)" using assms by (simp add: login_wf_def)
  moreover have "login_wf ((user_setState s ls_wait_close w)\<lparr>m_WaitSessions := map_erase t (m_WaitSessions w)\<rparr>)" for s t
    using assms by (auto simp: login_wf_def map_wf_erase) (auto simp: map_erase_def)
  ultimately show ?thesis using assms
    by (auto simp: parseGateUserPrepar_def receiveUserPrepar_def kept_typed_def gate_typed_def split: option.split)
qed

lemma register_gate_typed:
  assumes "login_wf w"
  shows "kept_typed (parseGateRegister g n ok ip port ds w)"
proof -
  let ?p = "(l_gates w g)\<lparr>gate_id := n mod 256, gate_onlines := wrap_u32 (int (length ds)), out_ip := ip, out_port := port mod 65536\<rparr>"
  have "gate_typed (l_gates w g)" using assms by (simp add: login_wf_def)
  then have "login_wf (lg_addGate (n mod 256) g (w\<lparr>l_gates := (l_gates w)(g := ?p)\<rparr>))"
    using assms by (intro wf_addGate wf_gate) (auto simp: gate_typed_def)
  then show ?thesis using register_typed [of _ "n mod 256" ds]
    by (force simp: parseGateRegister_def kept_typed_def Let_def split: prod.split)
qed

lemma login_typed_request: "login_wf w \<Longrightarrow> kept_typed (lg_parseLoginGame s name pwd ver ch w)"
proof -
  assume w: "login_wf w"
  obtain u ps where t: "login_task BATCH_QUERY NORMAL_THREAD
      \<lparr>ca_str = name, ca_pwd = pwd, ca_ower = s, ca_check_type = login_check, ca_channel = ch\<rparr> (user_setState s ls_checking_data w) = (u, ps)"
    by fastforce
  then have "kept_typed (u, ps)" using task_typed w by (metis wf_setState)
  then show ?thesis using t w
    by (auto simp: lg_parseLoginGame_def checkAccount_def kept_typed_def Let_def split: prod.split)
qed

lemma gate_event_typed: "login_wf w \<Longrightarrow> login_wf (parseGateOnlines g n w)" "login_wf w \<Longrightarrow> login_wf (balenceInfoEvent now g w)"
  unfolding parseGateOnlines_def balenceInfoEvent_def by (intro wf_gate; auto simp: login_wf_def gate_typed_def)+

lemma handle_typed:
  assumes "login_wf w"
  shows "kept_typed (login_handle e w)"
proof (cases e)
  case (Login_request s name pwd ver ch)
  then show ?thesis using assms login_typed_request by (auto simp: kept_typed_def)
next
  case (Register_request s name pwd)
  then show ?thesis using assms task_typed [of "user_setState s ls_checking_data w"]
    by (auto simp: parseRegister_def checkAccount_def kept_typed_def)
next
  case (Platform_verify junk s u a k t x ch)
  then show ?thesis using assms
    by (auto simp: parsePlatformVerify_def kept_typed_def intro: wf_cong)
next
  case Platform_logic
  then show ?thesis using assms wf_cong [OF assms]
    by (auto simp: http_logic_def logicExcute_def kept_typed_def Let_def split: list.split)
next
  case (Load_bans rows)
  then show ?thesis using assms wf_cong [OF assms] by (auto simp: loadBanCall_def kept_typed_def)
qed (use assms register_gate_typed prepar_typed gate_event_typed wf_removeGate in
    \<open>auto simp: login_on_accept_def login_on_close_def close_event_def kept_typed_def\<close>)

lemma run_db_typed:
  assumes "login_wf w"
  shows "kept_typed (run_login_db now e w)"
proof -
  obtain d os where d: "db_step e (l_db w) = (d, os)" by fastforce
  have w: "login_wf (w\<lparr>l_db := d\<rparr>)" using wf_cong [OF assms] by simp
  have o: "list_all out_typed (map Db_out os)" by (simp add: list_all_iff)
  show ?thesis
  proof (cases "\<exists>y. os = [y]")
    case True
    then obtain y where y: "os = [y]" by blast
    show ?thesis using callback_typed [OF w, of now y] d y
      by (cases "login_callback now y (w\<lparr>l_db := d\<rparr>)") (simp add: run_login_db_def kept_typed_def)
  next
    case False
    then have "run_login_db now e w = (w\<lparr>l_db := d\<rparr>, map Db_out os)" using d by (auto simp: run_login_db_def Let_def split: list.split)
    then show ?thesis using w o by (simp add: kept_typed_def)
  qed
qed

lemma step_typed:
  assumes "login_wf w" "login_step e w = Some r"
  shows "kept_typed r"
proof (cases e)
  case (Platform_thread x)
  then show ?thesis using assms wf_cong [OF assms(1)]
    by (auto simp: http_thread_def http_excute_def kept_typed_def split: list.splits if_splits)
qed (use assms handle_typed [OF assms(1), of e] run_db_typed [OF assms(1)] in \<open>auto simp: kept_typed_def login_setStop_def split: if_splits\<close>)

lemma steps_typed: "login_wf w \<Longrightarrow> login_steps es w = Some r \<Longrightarrow> kept_typed r"
proof (induction es arbitrary: w r)
  case (Cons e es)
  obtain w1 os w2 ps where s: "login_step e w = Some (w1, os)" "login_steps es w1 = Some (w2, ps)" "r = (w2, os @ ps)"
    using Cons.prems(2) by (auto split: bind_splits)
  show ?case using step_typed [OF Cons.prems(1) s(1)] Cons.IH [OF _ s(2)] s(3) by (simp add: kept_typed_def)
qed (auto simp: kept_typed_def)

lemma start_wf: "login_wf (login_start c n)"
  by (simp add: login_wf_def login_start_def gate_typed_def new_lg_gate_def)



end
