(* ===== verification/Gate.thy ===== *)
theory Gate
  imports Std_Map
begin

text \<open>
  The gate server (\<^verbatim>\<open>src/gateserver\<close>): the client connections (\<^verbatim>\<open>UserSession\<close>), the tables of announced, online
  and reconnecting users (\<^verbatim>\<open>UserManager\<close>), the game servers (\<^verbatim>\<open>GameManager\<close>, \<^verbatim>\<open>GateGameClient\<close>) and the login
  server (\<^verbatim>\<open>GateLoginClient\<close>), with the containers \<^verbatim>\<open>obj_map\<close> of \<^verbatim>\<open>src/common/common_template.h\<close>.  Sessions and
  game clients live as long as the process (sessions are pooled), so that pointers are numbers and the
  objects a function of them.  The messages that are passed through are a type of their own.
\<close>

section \<open>State\<close>

datatype user_state = disable | wait_account | connect | wait_close

record UserSession =
  u_tranid :: int
  u_gs_id :: int
  u_state :: user_state
  u_ping_count :: int
  u_channel :: int
  u_close_event :: bool
  u_wait_ping :: bool
  u_ping_event :: bool

record GameInfo =
  game_id :: int
  game_onlines :: int

datatype timer = Remove_wait int | Remove_reconn int

record gate =
  users :: "int \<Rightarrow> UserSession"
  clients :: "int \<Rightarrow> GameInfo"
  active_games :: "(int, int) smap"
  onlines :: "(int, int) smap"
  onlineaccs :: "(int, int) smap"
  wait_map :: "(int, int) smap"
  wait_map_channel :: "(int, int) smap"
  recon_map :: "(int, int) smap"
  timers :: "timer list"

datatype 'm gate_effect =
    Add_player int int int int
  | Remove_player int int
  | Offline_player int int
  | Forward int int 'm
  | To_user int int 'm
  | Ping_notify int int
  | Prepar int
  | Close int

abbreviation (input) INVALID_ACCOUNT :: int where "INVALID_ACCOUNT \<equiv> 0"
abbreviation (input) INVALID_TRANS_ID :: int where "INVALID_TRANS_ID \<equiv> 0"
abbreviation (input) INVALID_GAME_ID :: int where "INVALID_GAME_ID \<equiv> 0"
abbreviation (input) MAX_GAME_ID :: int where "MAX_GAME_ID \<equiv> 255"

text \<open>\<^verbatim>\<open>obj_map::eraseValue\<close> and \<^verbatim>\<open>getKey\<close>; \<^verbatim>\<open>addData\<close> keeps an entry that is there.\<close>

definition eraseValue :: "int \<Rightarrow> (int, int) smap \<Rightarrow> (int, int) smap" where
  "eraseValue v m = filter (\<lambda>(_, a). a \<noteq> v) m"

fun getKey :: "int \<Rightarrow> (int, int) smap \<Rightarrow> int option" where
  "getKey t [] = None"
| "getKey t ((k, a) # m) = (if a = t then Some k else getKey t m)"

definition addData :: "int \<Rightarrow> int \<Rightarrow> (int, int) smap \<Rightarrow> (int, int) smap" where
  "addData k v m = map_insert k v m"

definition set_user :: "int \<Rightarrow> UserSession \<Rightarrow> gate \<Rightarrow> gate" where
  "set_user p u g = g\<lparr>users := (users g)(p := u)\<rparr>"

section \<open>Game servers\<close>

definition getGameClient :: "int \<Rightarrow> gate \<Rightarrow> int option" where
  "getGameClient gs g = (if INVALID_GAME_ID < gs \<and> gs < MAX_GAME_ID then map_find gs (active_games g) else None)"

fun idle_scan :: "(int \<Rightarrow> int) \<Rightarrow> int \<Rightarrow> int list \<Rightarrow> int option \<Rightarrow> int option" where
  "idle_scan load idle_max [] pkConn = pkConn"
| "idle_scan load idle_max (c # cs) pkConn =
     (case pkConn of
        None \<Rightarrow> if load c < idle_max then Some c else idle_scan load idle_max cs (Some c)
      | Some k \<Rightarrow>
          if load c < load k then if load c < idle_max then Some c else idle_scan load idle_max cs (Some c)
          else idle_scan load idle_max cs (Some k))"

definition getIdleGameClient :: "int \<Rightarrow> gate \<Rightarrow> int option" where
  "getIdleGameClient idle_max g = idle_scan (\<lambda>c. game_onlines (clients g c)) idle_max (map snd (active_games g)) None"

definition isGamesStop :: "gate \<Rightarrow> bool" where
  "isGamesStop g = (active_games g = [])"

definition addActiveGameClient :: "int \<Rightarrow> int \<Rightarrow> gate \<Rightarrow> gate" where
  "addActiveGameClient c n g = (if 0 < n \<and> n < MAX_GAME_ID then g\<lparr>active_games := map_assign n c (active_games g)\<rparr> else g)"

section \<open>Users\<close>

definition setState :: "user_state \<Rightarrow> UserSession \<Rightarrow> UserSession" where
  "setState s u =
     (let u1 = u\<lparr>u_state := s\<rparr>
      in case s of
           disable \<Rightarrow> u1\<lparr>u_tranid := INVALID_TRANS_ID, u_gs_id := INVALID_GAME_ID, u_close_event := False\<rparr>
         | wait_account \<Rightarrow> u1\<lparr>u_close_event := True\<rparr>
         | connect \<Rightarrow> u1\<lparr>u_close_event := False\<rparr>
         | wait_close \<Rightarrow> u1\<lparr>u_close_event := True\<rparr>)"

definition tell_game :: "int \<Rightarrow> gate \<Rightarrow> (int \<Rightarrow> 'm gate_effect) \<Rightarrow> 'm gate_effect list" where
  "tell_game gs g f = (case getGameClient gs g of None \<Rightarrow> [] | Some c \<Rightarrow> [f c])"

definition kickUser :: "int \<Rightarrow> int \<Rightarrow> gate \<Rightarrow> gate \<times> 'm gate_effect list" where
  "kickUser t a g =
     (case map_find t (onlines g) of
        Some p \<Rightarrow>
          (g\<lparr>onlines := map_erase t (onlines g), onlineaccs := map_erase a (onlineaccs g)\<rparr>,
           tell_game (u_gs_id (users g p)) g (\<lambda>c. Remove_player c t) @ [Close p])
      | None \<Rightarrow>
          let v = (case map_find t (wait_map g) of None \<Rightarrow> INVALID_ACCOUNT | Some v \<Rightarrow> v);
              g1 = g\<lparr>wait_map := map_erase t (wait_map g), wait_map_channel := map_erase t (wait_map_channel g)\<rparr>;
              g2 = (if v \<noteq> INVALID_ACCOUNT then g1\<lparr>onlineaccs := map_erase v (onlineaccs g1)\<rparr> else g1)
          in case map_find t (recon_map g2) of
               None \<Rightarrow> (g2, [])
             | Some gs \<Rightarrow> (g2\<lparr>recon_map := map_erase t (recon_map g2)\<rparr>, tell_game gs g2 (\<lambda>c. Remove_player c t)))"

definition addToWait :: "int \<Rightarrow> int \<Rightarrow> int \<Rightarrow> gate \<Rightarrow> gate \<times> 'm gate_effect list" where
  "addToWait t a c g =
     (let (g1, fx) = (case map_find t (onlines g) of
                        None \<Rightarrow> (g, [])
                      | Some p \<Rightarrow> kickUser t a (set_user p ((users g p)\<lparr>u_channel := c\<rparr>) g))
      in (g1\<lparr>wait_map := addData t a (wait_map g1), wait_map_channel := addData t c (wait_map_channel g1),
             timers := timers g1 @ [Remove_wait t]\<rparr>, fx @ [Prepar t]))"

definition eventCallRemoveWait :: "int \<Rightarrow> gate \<Rightarrow> gate" where
  "eventCallRemoveWait t g = g\<lparr>wait_map := map_erase t (wait_map g), wait_map_channel := map_erase t (wait_map_channel g)\<rparr>"

text \<open>\<open>removeUsers\<close> works on a copy of the table of online users: the table itself keeps them.\<close>

definition removeUsers :: "int \<Rightarrow> gate \<Rightarrow> gate" where
  "removeUsers gs g =
     (let g1 = fold (\<lambda>(t, p) h. if u_gs_id (users h p) = gs then set_user p (setState wait_close (users h p)) h else h) (onlines g) g
      in g1\<lparr>recon_map := eraseValue gs (recon_map g1)\<rparr>)"

definition removeActiveGameClient :: "int \<Rightarrow> gate \<Rightarrow> gate" where
  "removeActiveGameClient c g =
     (let n = game_id (clients g c)
      in if 0 < n \<and> n < MAX_GAME_ID \<and> map_find n (active_games g) = Some c
         then (removeUsers n g)\<lparr>active_games := map_erase n (active_games g)\<rparr> else g)"

definition getAccount :: "int \<Rightarrow> gate \<Rightarrow> int" where
  "getAccount t g = (case getKey t (onlineaccs g) of None \<Rightarrow> INVALID_ACCOUNT | Some a \<Rightarrow> a)"

definition checkClose :: "int \<Rightarrow> gate \<Rightarrow> gate \<times> 'm gate_effect list" where
  "checkClose p g =
     (let t = u_tranid (users g p); gs = u_gs_id (users g p);
          g1 = g\<lparr>onlines := map_erase t (onlines g)\<rparr>;
          (g2, fx) = (if getGameClient gs g \<noteq> None \<and> u_state (users g p) = connect
                      then (g1\<lparr>recon_map := addData t gs (recon_map g1)\<rparr>, tell_game gs g (\<lambda>c. Offline_player c t))
                      else (g1\<lparr>onlineaccs := eraseValue t (onlineaccs g1)\<rparr>, tell_game gs g (\<lambda>c. Remove_player c t)))
      in (g2\<lparr>timers := timers g2 @ [Remove_reconn t]\<rparr>, fx))"

definition eventCallRemoveReconn :: "int \<Rightarrow> gate \<Rightarrow> gate \<times> 'm gate_effect list" where
  "eventCallRemoveReconn t g =
     (let gsid = (case map_find t (recon_map g) of None \<Rightarrow> INVALID_GAME_ID | Some gs \<Rightarrow> gs);
          g1 = g\<lparr>recon_map := map_erase t (recon_map g), onlineaccs := eraseValue t (onlineaccs g)\<rparr>
      in (g1, if gsid \<noteq> INVALID_GAME_ID then tell_game gsid g1 (\<lambda>c. Remove_player c t) else []))"

definition checkConn :: "int \<Rightarrow> int \<Rightarrow> int \<Rightarrow> gate \<Rightarrow> bool \<times> gate \<times> 'm gate_effect list" where
  "checkConn idle_max t p g =
     (case map_find t (wait_map g) of
        Some v \<Rightarrow>
          let channel = (case map_find t (wait_map_channel g) of None \<Rightarrow> 0 | Some c \<Rightarrow> c);
              g1 = g\<lparr>wait_map := map_erase t (wait_map g), wait_map_channel := map_erase t (wait_map_channel g)\<rparr>
          in (case getIdleGameClient idle_max g1 of
                None \<Rightarrow> (False, set_user p (setState wait_close (users g1 p)) g1, [])
              | Some c \<Rightarrow>
                  (True, (set_user p (setState connect ((users g1 p)\<lparr>u_gs_id := game_id (clients g1 c)\<rparr>)) g1)
                           \<lparr>onlines := addData t p (onlines g1), onlineaccs := addData v t (onlineaccs g1)\<rparr>,
                   [Add_player c t v channel]))
      | None \<Rightarrow>
          (case map_find t (recon_map g) of
             Some gs \<Rightarrow>
               (True, (set_user p (setState connect ((users g p)\<lparr>u_gs_id := gs\<rparr>)) g)
                        \<lparr>recon_map := map_erase t (recon_map g), onlines := addData t p (onlines g)\<rparr>, [])
           | None \<Rightarrow> (False, set_user p (setState wait_close (users g p)) g, [])))"

definition makeRegisterData :: "gate \<Rightarrow> (int \<times> int) list" where
  "makeRegisterData g = onlineaccs g"

section \<open>Client connections\<close>

text \<open>A login of a connected session is ignored; every other one sets the timers of the ping.\<close>

definition parseLoginGame :: "int \<Rightarrow> int \<Rightarrow> int \<Rightarrow> gate \<Rightarrow> gate \<times> 'm gate_effect list" where
  "parseLoginGame idle_max p t g =
     (if u_state (users g p) = connect then (g, [])
      else let (ok, g1, fx) = checkConn idle_max t p g;
               u = (if ok then (users g1 p)\<lparr>u_tranid := t\<rparr> else users g1 p)
           in (set_user p (u\<lparr>u_wait_ping := True, u_ping_event := True\<rparr>) g1, fx))"

definition parsePingMsg :: "int \<Rightarrow> gate \<Rightarrow> gate" where
  "parsePingMsg p g = set_user p ((users g p)\<lparr>u_wait_ping := True\<rparr>) g"

definition pingNotify :: "int \<Rightarrow> gate \<Rightarrow> gate \<times> 'm gate_effect list" where
  "pingNotify p g =
     (let u = (users g p)\<lparr>u_ping_count := u_ping_count (users g p) + 1\<rparr> in (set_user p u g, [Ping_notify p (u_ping_count u)]))"

text \<open>Every message of a client without a handler of its own goes to his game server, whatever its type.\<close>

definition parseUserGameMsg :: "int \<Rightarrow> 'm \<Rightarrow> gate \<Rightarrow> 'm gate_effect list" where
  "parseUserGameMsg p m g = tell_game (u_gs_id (users g p)) g (\<lambda>c. Forward c (u_tranid (users g p)) m)"

definition on_accept :: "int \<Rightarrow> gate \<Rightarrow> gate" where
  "on_accept p g = set_user p (setState wait_account (users g p)) g"

definition user_on_close :: "int \<Rightarrow> gate \<Rightarrow> gate \<times> 'm gate_effect list" where
  "user_on_close p g = (let (g1, fx) = checkClose p g in (set_user p (setState disable (users g1 p)) g1, fx))"

section \<open>Messages of the game and login servers\<close>

definition parseGameRegister :: "int \<Rightarrow> int \<Rightarrow> gate \<Rightarrow> gate" where
  "parseGameRegister c n g =
     (let k = n mod 256 in addActiveGameClient c k (g\<lparr>clients := (clients g)(c := (clients g c)\<lparr>game_id := k\<rparr>)\<rparr>))"

definition parseGameOnlines :: "int \<Rightarrow> int \<Rightarrow> gate \<Rightarrow> gate" where
  "parseGameOnlines c n g = g\<lparr>clients := (clients g)(c := (clients g c)\<lparr>game_onlines := n\<rparr>)\<rparr>"

definition parseClientGameMsg :: "int \<Rightarrow> 'm \<Rightarrow> gate \<Rightarrow> 'm gate_effect list" where
  "parseClientGameMsg flag m g = (case map_find flag (onlines g) of None \<Rightarrow> [] | Some p \<Rightarrow> [To_user p flag m])"

definition parseChangeGS :: "int \<Rightarrow> int \<Rightarrow> int \<Rightarrow> gate \<Rightarrow> gate \<times> 'm gate_effect list" where
  "parseChangeGS c flag n g =
     (case map_find flag (onlines g) of
        None \<Rightarrow> (g, [])
      | Some p \<Rightarrow>
          (case getGameClient (n mod 65536) g of
             None \<Rightarrow> (g, [Close p])
           | Some new \<Rightarrow>
               let u = users g p; t = u_tranid u; a = getAccount t g
               in if a \<noteq> INVALID_ACCOUNT
                  then (set_user p (u\<lparr>u_gs_id := n mod 65536\<rparr>) g, [Remove_player c t, Add_player new t a (u_channel u)])
                  else (g, [Remove_player c t, Close p])))"

section \<open>Steps\<close>

datatype 'm gate_event =
    Login_user int int int
  | Login_kick int int
  | Accepted int
  | Client_login int int
  | Client_ping int
  | Client_msg int 'm
  | Client_closed int
  | Close_event int
  | No_ping int
  | Ping_event int
  | Timer nat
  | Game_register int int
  | Game_onlines int int
  | Game_msg int 'm
  | Game_change int int int
  | Game_closed int

definition fire :: "nat \<Rightarrow> gate \<Rightarrow> gate \<times> 'm gate_effect list" where
  "fire i g =
     (if i < length (timers g)
      then let g1 = g\<lparr>timers := take i (timers g) @ drop (Suc i) (timers g)\<rparr>
           in (case timers g ! i of
                 Remove_wait t \<Rightarrow> (eventCallRemoveWait t g1, [])
               | Remove_reconn t \<Rightarrow> eventCallRemoveReconn t g1)
      else (g, []))"

fun gate_step :: "int \<Rightarrow> 'm gate_event \<Rightarrow> gate \<Rightarrow> gate \<times> 'm gate_effect list" where
  "gate_step mx (Login_user t a c) g = addToWait t a c g"
| "gate_step mx (Login_kick t a) g = kickUser t a g"
| "gate_step mx (Accepted p) g = (on_accept p g, [])"
| "gate_step mx (Client_login p t) g = parseLoginGame mx p t g"
| "gate_step mx (Client_ping p) g = (parsePingMsg p g, [])"
| "gate_step mx (Client_msg p m) g = (g, parseUserGameMsg p m g)"
| "gate_step mx (Client_closed p) g = user_on_close p g"
| "gate_step mx (Close_event p) g =
     (if u_close_event (users g p) then (set_user p ((users g p)\<lparr>u_close_event := False\<rparr>) g, [Close p]) else (g, []))"
| "gate_step mx (No_ping p) g =
     (if u_wait_ping (users g p) then (set_user p ((users g p)\<lparr>u_wait_ping := False\<rparr>) g, [Close p]) else (g, []))"
| "gate_step mx (Ping_event p) g = (if u_ping_event (users g p) then pingNotify p g else (g, []))"
| "gate_step mx (Timer i) g = fire i g"
| "gate_step mx (Game_register c n) g = (parseGameRegister c n g, [])"
| "gate_step mx (Game_onlines c n) g = (parseGameOnlines c n g, [])"
| "gate_step mx (Game_msg flag m) g = (g, parseClientGameMsg flag m g)"
| "gate_step mx (Game_change c flag n) g = parseChangeGS c flag n g"
| "gate_step mx (Game_closed c) g = (removeActiveGameClient c g, [])"

fun gate_run :: "int \<Rightarrow> 'm gate_event list \<Rightarrow> gate \<Rightarrow> gate \<times> 'm gate_effect list" where
  "gate_run mx [] g = (g, [])"
| "gate_run mx (e # es) g = (let (g1, fx) = gate_step mx e g; (g2, gx) = gate_run mx es g1 in (g2, fx @ gx))"

definition new_user :: UserSession where
  "new_user = \<lparr>u_tranid = INVALID_TRANS_ID, u_gs_id = INVALID_GAME_ID, u_state = disable, u_ping_count = 0, u_channel = 0,
               u_close_event = False, u_wait_ping = False, u_ping_event = False\<rparr>"

definition gate_start :: gate where
  "gate_start = \<lparr>users = (\<lambda>_. new_user), clients = (\<lambda>_. \<lparr>game_id = 0, game_onlines = 0\<rparr>), active_games = [], onlines = [],
                 onlineaccs = [], wait_map = [], wait_map_channel = [], recon_map = [], timers = []\<rparr>"

section \<open>The choice of a game server\<close>

text \<open>The reference: the first server below the limit, or the first among those with the least load.\<close>

definition idle_choice :: "(int \<Rightarrow> int) \<Rightarrow> int \<Rightarrow> int list \<Rightarrow> int option" where
  "idle_choice load mx cs =
     (case find (\<lambda>c. load c < mx) cs of
        Some c \<Rightarrow> Some c
      | None \<Rightarrow> if cs = [] then None else Some (arg_min_list load cs))"

lemma arg_min_list_skip: "load k \<le> load c \<Longrightarrow> arg_min_list load (k # c # cs) = arg_min_list load (k # cs)" for load :: "int \<Rightarrow> int"
  by (cases cs) (auto simp: Let_def)

lemma arg_min_list_le: "x \<in> set cs \<Longrightarrow> load (arg_min_list load cs) \<le> load x" for load :: "int \<Rightarrow> int"
  by (induction load cs rule: arg_min_list.induct) (auto simp: Let_def)

lemma idle_scan_choice:
  "mx \<le> load k \<Longrightarrow> idle_scan load mx cs (Some k) =
    (case find (\<lambda>c. load c < mx) cs of Some c \<Rightarrow> Some c | None \<Rightarrow> Some (arg_min_list load (k # cs)))"
proof (induction cs arbitrary: k)
  case (Cons c cs)
  show ?case
  proof (cases "load c < load k")
    case True
    then have "arg_min_list load (k # c # cs) = arg_min_list load (c # cs)"
      using arg_min_list_le [of c "c # cs" load] by (auto simp: Let_def)
    then show ?thesis using Cons True by (simp del: arg_min_list.simps split: option.splits)
  next
    case False
    then show ?thesis using Cons arg_min_list_skip [of load k c cs] by (simp del: arg_min_list.simps split: option.splits)
  qed
qed simp

text \<open>
  The scan over the active game servers with its two early returns chooses the first server with fewer
  players than the limit and, when there is none, the first one with the fewest players; it fails only when
  no server is active.
\<close>

theorem idle_client_choice:
  "getIdleGameClient mx g = idle_choice (\<lambda>c. game_onlines (clients g c)) mx (map snd (active_games g))"
proof -
  have "idle_scan load mx cs None = idle_choice load mx cs" for load cs
    by (cases cs) (auto simp: idle_choice_def idle_scan_choice split: option.splits)
  then show ?thesis by (simp add: getIdleGameClient_def)
qed

section \<open>Only announced users reach a game server\<close>

text \<open>
  \<open>ann\<close> collects the pairs of transaction and account that the login server announced; the tables of the gate
  and the sessions that have a game server stay within them.
\<close>

definition gate_inv :: "(int \<times> int) set \<Rightarrow> gate \<Rightarrow> bool" where
  "gate_inv ann g \<longleftrightarrow>
     set (wait_map g) \<subseteq> ann \<and> (\<forall>(a, t) \<in> set (onlineaccs g). (t, a) \<in> ann) \<and> fst ` set (recon_map g) \<subseteq> fst ` ann \<and>
     (\<forall>p. u_gs_id (users g p) \<noteq> INVALID_GAME_ID \<longrightarrow> u_tranid (users g p) \<in> fst ` ann)"

definition fx_ok :: "(int \<times> int) set \<Rightarrow> 'm gate_effect list \<Rightarrow> bool" where
  "fx_ok ann fx \<longleftrightarrow>
     (\<forall>e \<in> set fx. case e of Add_player c t a ch \<Rightarrow> (t, a) \<in> ann | Forward c t m \<Rightarrow> t \<in> fst ` ann | _ \<Rightarrow> True)"

lemma fx_ok_simps [simp]:
  "fx_ok ann []" "fx_ok ann (fx @ gx) \<longleftrightarrow> fx_ok ann fx \<and> fx_ok ann gx"
  "fx_ok ann (tell_game gs g (\<lambda>c. Remove_player c t))" "fx_ok ann (tell_game gs g (\<lambda>c. Offline_player c t))"
  by (auto simp: fx_ok_def tell_game_def split: option.splits)

lemma set_addData: "set (addData k v m) \<subseteq> insert (k, v) (set m)"
  using set_map_insert by (simp add: addData_def)

lemma set_map_erase: "set (map_erase k m) \<subseteq> set m" "set (eraseValue v n) \<subseteq> set n"
  by (auto simp: map_erase_def eraseValue_def)

lemma gate_inv_mono: "gate_inv A g \<Longrightarrow> A \<subseteq> B \<Longrightarrow> gate_inv B g"
  unfolding gate_inv_def by (blast intro: image_mono)

lemma gate_inv_set_user:
  "gate_inv A g \<Longrightarrow> (u_gs_id u \<noteq> INVALID_GAME_ID \<Longrightarrow> u_tranid u \<in> fst ` A) \<Longrightarrow> gate_inv A (set_user p u g)"
  by (auto simp: gate_inv_def set_user_def)

lemma gate_inv_user: "gate_inv A g \<Longrightarrow> u_gs_id (users g p) \<noteq> INVALID_GAME_ID \<Longrightarrow> u_tranid (users g p) \<in> fst ` A"
  by (auto simp: gate_inv_def)

lemma gate_inv_wait: "gate_inv A g \<Longrightarrow> (t, v) \<in> set (wait_map g) \<Longrightarrow> (t, v) \<in> A"
  by (auto simp: gate_inv_def)

lemma gate_inv_acc: "gate_inv A g \<Longrightarrow> (a, t) \<in> set (onlineaccs g) \<Longrightarrow> (t, a) \<in> A"
  by (auto simp: gate_inv_def)

lemma gate_inv_recon: "gate_inv A g \<Longrightarrow> (t, gs) \<in> set (recon_map g) \<Longrightarrow> t \<in> fst ` A"
proof -
  assume "gate_inv A g" "(t, gs) \<in> set (recon_map g)"
  then have "fst ` set (recon_map g) \<subseteq> fst ` A" "t \<in> fst ` set (recon_map g)" by (auto simp: gate_inv_def intro: rev_image_eqI)
  then show ?thesis by blast
qed

lemma setState_ids: "s \<noteq> disable \<Longrightarrow> u_gs_id (setState s u) = u_gs_id u \<and> u_tranid (setState s u) = u_tranid u"
  "u_gs_id (setState disable u) = INVALID_GAME_ID"
  by (cases s; simp add: setState_def Let_def)+

text \<open>One session changes, and the tables lose entries or gain announced ones.\<close>

lemma gate_inv_change:
  assumes "gate_inv A g" "\<And>q. q \<noteq> p \<Longrightarrow> users g' q = users g q"
    "u_gs_id (users g' p) \<noteq> INVALID_GAME_ID \<Longrightarrow> u_tranid (users g' p) \<in> fst ` A"
    "set (wait_map g') \<subseteq> set (wait_map g)" "\<And>a t. (a, t) \<in> set (onlineaccs g') \<Longrightarrow> (a, t) \<in> set (onlineaccs g) \<or> (t, a) \<in> A"
    "\<And>t gs. (t, gs) \<in> set (recon_map g') \<Longrightarrow> (t, gs) \<in> set (recon_map g) \<or> t \<in> fst ` A"
  shows "gate_inv A g'"
  unfolding gate_inv_def
proof (intro conjI allI impI)
  show "set (wait_map g') \<subseteq> A" using assms(1,4) by (auto simp: gate_inv_def)
  show "\<forall>(a, t) \<in> set (onlineaccs g'). (t, a) \<in> A"
  proof (intro ballI, clarify)
    fix a t assume "(a, t) \<in> set (onlineaccs g')"
    then show "(t, a) \<in> A" using assms(5) gate_inv_acc [OF assms(1)] by blast
  qed
  show "fst ` set (recon_map g') \<subseteq> fst ` A"
  proof
    fix t assume "t \<in> fst ` set (recon_map g')"
    then obtain gs where "(t, gs) \<in> set (recon_map g')" by auto
    then have "(t, gs) \<in> set (recon_map g) \<or> t \<in> fst ` A" by (rule assms(6))
    then show "t \<in> fst ` A" using gate_inv_recon [OF assms(1)] by blast
  qed
  fix q assume "u_gs_id (users g' q) \<noteq> INVALID_GAME_ID"
  then show "u_tranid (users g' q) \<in> fst ` A" using assms(2,3) gate_inv_user [OF assms(1), of q] by (cases "q = p") auto
qed

lemma gate_inv_shrink:
  assumes "gate_inv A g" "users g' = users g" "set (wait_map g') \<subseteq> set (wait_map g)"
    "set (onlineaccs g') \<subseteq> set (onlineaccs g)" "set (recon_map g') \<subseteq> set (recon_map g)"
  shows "gate_inv A g'"
  by (rule gate_inv_change [OF assms(1), where p = 0]) (use assms gate_inv_user [OF assms(1)] in auto)

lemma kickUser_ok:
  assumes "gate_inv A g" "kickUser t a g = (g', fx)"
  shows "gate_inv A g' \<and> fx_ok A fx"
proof -
  have "users g' = users g \<and> set (wait_map g') \<subseteq> set (wait_map g) \<and> set (onlineaccs g') \<subseteq> set (onlineaccs g) \<and>
      set (recon_map g') \<subseteq> set (recon_map g)"
    using assms(2) by (auto simp: kickUser_def Let_def map_erase_def split: option.splits if_splits)
  moreover have "fx_ok A fx" using assms(2) by (auto simp: kickUser_def Let_def fx_ok_def tell_game_def split: option.splits if_splits)
  ultimately show ?thesis using gate_inv_shrink [OF assms(1)] by blast
qed

lemma addToWait_ok:
  assumes "gate_inv A g" "addToWait t a c g = (g', fx)"
  shows "gate_inv (insert (t, a) A) g' \<and> fx_ok (insert (t, a) A) fx"
proof -
  let ?B = "insert (t, a) A"
  have g: "gate_inv ?B g" using gate_inv_mono [OF assms(1)] by blast
  have keep: "gate_inv ?B (g1\<lparr>wait_map := addData t a (wait_map g1), wait_map_channel := m, timers := ts\<rparr>)"
    if "gate_inv ?B g1" for g1 m ts
    using that set_addData [of t a "wait_map g1"] by (auto simp: gate_inv_def)
  show ?thesis
  proof (cases "map_find t (onlines g)")
    case None
    then show ?thesis using assms(2) keep [OF g] by (auto simp: addToWait_def fx_ok_def)
  next
    case (Some p)
    let ?g = "set_user p ((users g p)\<lparr>u_channel := c\<rparr>) g"
    obtain g1 gx where k: "(kickUser t a ?g :: gate \<times> 'a gate_effect list) = (g1, gx)" by fastforce
    have "gate_inv ?B ?g" by (rule gate_inv_set_user [OF g]) (use gate_inv_user [OF g, of p] in simp)
    then have "gate_inv ?B g1" "fx_ok ?B gx" using kickUser_ok k by blast+
    then show ?thesis using assms(2) k Some keep by (auto simp: addToWait_def fx_ok_def)
  qed
qed

lemma removeUsers_ok:
  assumes "gate_inv A g"
  shows "gate_inv A (removeUsers gs g)"
proof -
  let ?f = "\<lambda>(t :: int, p) h. if u_gs_id (users h p) = gs then set_user p (setState wait_close (users h p)) h else h"
  have one: "gate_inv A (?f x h)" if "gate_inv A h" for x h
    using that gate_inv_user [OF that] by (cases x) (auto intro!: gate_inv_set_user simp: setState_ids)
  have "gate_inv A h \<Longrightarrow> gate_inv A (fold ?f ps h)" for ps h
    by (induction ps arbitrary: h) (simp_all add: one)
  then have "gate_inv A (fold ?f (onlines g) g)" using assms by blast
  then show ?thesis
    unfolding removeUsers_def Let_def by (rule gate_inv_shrink) (simp_all add: set_map_erase)
qed

lemma checkClose_ok:
  assumes "gate_inv A g" "checkClose p g = (g', fx)"
  shows "gate_inv A g' \<and> fx_ok A fx"
proof -
  let ?t = "u_tranid (users g p)" and ?gs = "u_gs_id (users g p)"
  have t: "?t \<in> fst ` A" if "getGameClient ?gs g \<noteq> None"
    using that gate_inv_user [OF assms(1), of p] by (auto simp: getGameClient_def split: if_splits)
  show ?thesis
  proof (cases "getGameClient ?gs g \<noteq> None \<and> u_state (users g p) = connect")
    case True
    then have g': "g' = g\<lparr>onlines := map_erase ?t (onlines g), recon_map := addData ?t ?gs (recon_map g), timers := timers g @ [Remove_reconn ?t]\<rparr>"
      "fx = tell_game ?gs g (\<lambda>c. Offline_player c ?t)"
      using assms(2) by (simp_all add: checkClose_def Let_def)
    have "gate_inv A g'" unfolding g'
      by (rule gate_inv_change [OF assms(1), where p = p]) (use t True set_addData gate_inv_user [OF assms(1)] in \<open>auto dest!: subsetD [OF set_addData]\<close>)
    then show ?thesis using g'(2) by simp
  next
    case False
    then have g': "g' = g\<lparr>onlines := map_erase ?t (onlines g), onlineaccs := eraseValue ?t (onlineaccs g), timers := timers g @ [Remove_reconn ?t]\<rparr>"
      "fx = tell_game ?gs g (\<lambda>c. Remove_player c ?t)"
      using assms(2) by (auto simp: checkClose_def Let_def)
    have "gate_inv A g'" unfolding g' by (rule gate_inv_shrink [OF assms(1)]) (simp_all add: set_map_erase)
    then show ?thesis using g'(2) by simp
  qed
qed

lemma getKey_in: "getKey t m = Some a \<Longrightarrow> (a, t) \<in> set m"
  by (induction m) (auto split: if_splits)

lemma checkConn_ok:
  assumes "gate_inv A g" "checkConn mx t p g = (ok, g1, fx)"
  shows "fx_ok A fx \<and> gate_inv A (set_user p (if ok then (users g1 p)\<lparr>u_tranid := t\<rparr> else users g1 p) g1)"
proof (cases "map_find t (wait_map g)")
  case (Some v)
  then have A: "(t, v) \<in> A" using gate_inv_wait [OF assms(1)] map_find_Some_in by metis
  then have t: "t \<in> fst ` A" by (auto intro: rev_image_eqI)
  let ?g = "g\<lparr>wait_map := map_erase t (wait_map g), wait_map_channel := map_erase t (wait_map_channel g)\<rparr>"
  have g: "gate_inv A ?g" by (rule gate_inv_shrink [OF assms(1)]) (simp_all add: set_map_erase)
  show ?thesis
  proof (cases "getIdleGameClient mx ?g")
    case None
    then have r: "ok = False" "fx = []" "g1 = set_user p (setState wait_close (users g p)) ?g"
      using assms(2) Some by (simp_all add: checkConn_def Let_def)
    have "gate_inv A (set_user p (users g1 p) g1)" unfolding r
      by (rule gate_inv_change [OF g, where p = p]) (use gate_inv_user [OF assms(1), of p] in \<open>auto simp: set_user_def setState_ids\<close>)
    then show ?thesis using r by simp
  next
    case idle: (Some c)
    then obtain ch where r: "ok = True" "fx = [Add_player c t v ch]"
      "g1 = (set_user p (setState connect ((users g p)\<lparr>u_gs_id := game_id (clients g c)\<rparr>)) ?g)
              \<lparr>onlines := addData t p (onlines g), onlineaccs := addData v t (onlineaccs g)\<rparr>"
      using assms(2) Some by (auto simp: checkConn_def Let_def)
    have "gate_inv A (set_user p ((users g1 p)\<lparr>u_tranid := t\<rparr>) g1)" unfolding r
      by (rule gate_inv_change [OF g, where p = p]) (use A t in \<open>auto simp: set_user_def dest!: subsetD [OF set_addData]\<close>)
    then show ?thesis using r A by (simp add: fx_ok_def)
  qed
next
  case None
  have fx: "fx_ok A fx" using assms(2) None by (auto simp: checkConn_def Let_def fx_ok_def split: option.splits)
  have rec: "t \<in> fst ` A" if "map_find t (recon_map g) = Some gs" for gs
    using gate_inv_recon [OF assms(1) map_find_Some_in [OF that]] .
  have "gate_inv A (set_user p (if ok then (users g1 p)\<lparr>u_tranid := t\<rparr> else users g1 p) g1)"
    by (rule gate_inv_change [OF assms(1), where p = p])
       (use assms(2) None rec gate_inv_user [OF assms(1), of p] in
         \<open>auto simp: checkConn_def Let_def set_user_def setState_ids split: option.splits dest!: subsetD [OF set_map_erase(1)]\<close>)
  with fx show ?thesis by simp
qed

lemma fire_ok:
  assumes "gate_inv A g" "fire i g = (g', fx)"
  shows "gate_inv A g' \<and> fx_ok A fx"
proof -
  have "users g' = users g \<and> set (wait_map g') \<subseteq> set (wait_map g) \<and> set (onlineaccs g') \<subseteq> set (onlineaccs g) \<and>
      set (recon_map g') \<subseteq> set (recon_map g)"
    using assms(2) by (auto simp: fire_def Let_def eventCallRemoveWait_def eventCallRemoveReconn_def map_erase_def eraseValue_def
        split: timer.splits if_splits)
  moreover have "fx_ok A fx"
    using assms(2) by (auto simp: fire_def Let_def eventCallRemoveReconn_def split: timer.splits if_splits)
  ultimately show ?thesis using gate_inv_shrink [OF assms(1)] by blast
qed

lemma parseChangeGS_ok:
  assumes "gate_inv A g" "parseChangeGS c flag n g = (g', fx)"
  shows "gate_inv A g' \<and> fx_ok A fx"
proof (cases "\<exists>p new. map_find flag (onlines g) = Some p \<and> getGameClient (n mod 65536) g = Some new \<and> getAccount (u_tranid (users g p)) g \<noteq> 0")
  case True
  then obtain p new where p: "map_find flag (onlines g) = Some p" "getGameClient (n mod 65536) g = Some new"
    "getAccount (u_tranid (users g p)) g \<noteq> 0" by blast
  let ?t = "u_tranid (users g p)"
  have "getKey ?t (onlineaccs g) = Some (getAccount ?t g)" using p(3) by (auto simp: getAccount_def split: option.splits)
  then have A: "(?t, getAccount ?t g) \<in> A" using gate_inv_acc [OF assms(1)] getKey_in by blast
  then have t: "?t \<in> fst ` A" by (auto intro: rev_image_eqI)
  have "g' = set_user p ((users g p)\<lparr>u_gs_id := n mod 65536\<rparr>) g" "fx = [Remove_player c ?t, Add_player new ?t (getAccount ?t g) (u_channel (users g p))]"
    using assms(2) p by (simp_all add: parseChangeGS_def Let_def)
  then show ?thesis using gate_inv_set_user [OF assms(1)] A t by (simp add: fx_ok_def)
next
  case False
  then have "g' = g \<and> fx_ok A fx" using assms(2) by (auto simp: parseChangeGS_def Let_def fx_ok_def split: option.splits if_splits)
  then show ?thesis using assms(1) by simp
qed

fun announced :: "'m gate_event \<Rightarrow> (int \<times> int) set" where
  "announced (Login_user t a c) = {(t, a)}"
| "announced _ = {}"

lemma gate_step_ok:
  assumes "gate_inv A g" "gate_step mx e g = (g', fx)"
  shows "gate_inv (A \<union> announced e) g' \<and> fx_ok (A \<union> announced e) fx"
proof (cases e)
  case (Login_user t a c)
  then show ?thesis using assms addToWait_ok [OF assms(1)] by simp
next
  case (Login_kick t a)
  then show ?thesis using assms kickUser_ok [OF assms(1)] by simp
next
  case (Client_login p t)
  show ?thesis
  proof (cases "u_state (users g p) = connect")
    case False
    obtain ok g1 gx where c: "(checkConn mx t p g :: bool \<times> gate \<times> 'a gate_effect list) = (ok, g1, gx)" by (metis prod_cases3)
    let ?u = "if ok then (users g1 p)\<lparr>u_tranid := t\<rparr> else users g1 p"
    have k: "fx_ok A gx" "gate_inv A (set_user p ?u g1)" using checkConn_ok [OF assms(1) c] by auto
    have g': "g' = set_user p (?u\<lparr>u_wait_ping := True, u_ping_event := True\<rparr>) g1" "fx = gx"
      using assms(2) Client_login False c by (auto simp: parseLoginGame_def Let_def)
    have "gate_inv A g'" unfolding g'(1)
      by (rule gate_inv_change [OF k(2), where p = p]) (use gate_inv_user [OF k(2), of p] in \<open>auto simp: set_user_def\<close>)
    then show ?thesis using k(1) g'(2) Client_login by simp
  qed (use assms Client_login in \<open>simp add: parseLoginGame_def\<close>)
next
  case (Client_msg p m)
  have "fx_ok A [Forward c (u_tranid (users g p)) m]" if "getGameClient (u_gs_id (users g p)) g = Some c" for c
    using that gate_inv_user [OF assms(1), of p] by (simp add: fx_ok_def getGameClient_def split: if_splits)
  then have "fx_ok A fx"
    using assms(2) Client_msg by (auto simp: parseUserGameMsg_def tell_game_def split: option.splits)
  then show ?thesis using assms Client_msg by simp
next
  case (Client_closed p)
  obtain g1 gx where c: "(checkClose p g :: gate \<times> 'a gate_effect list) = (g1, gx)" by fastforce
  then have "gate_inv A g1" "fx_ok A gx" using checkClose_ok [OF assms(1)] by blast+
  then show ?thesis using assms(2) Client_closed c by (auto simp: user_on_close_def setState_ids intro!: gate_inv_set_user)
next
  case (Timer i)
  then show ?thesis using assms fire_ok [OF assms(1)] by simp
next
  case (Game_register c n)
  have "gate_inv A (parseGameRegister c n g)"
    by (rule gate_inv_shrink [OF assms(1)]) (simp_all add: parseGameRegister_def addActiveGameClient_def Let_def)
  then show ?thesis using assms Game_register by simp
next
  case (Game_change c flag n)
  then show ?thesis using assms parseChangeGS_ok [OF assms(1)] by simp
next
  case (Game_closed c)
  have "gate_inv A (removeActiveGameClient c g)"
    using removeUsers_ok [OF assms(1), of "game_id (clients g c)"] assms(1)
    by (auto simp: removeActiveGameClient_def Let_def intro: gate_inv_shrink)
  then show ?thesis using assms Game_closed by simp
qed (use assms gate_inv_user [OF assms(1)] in
      \<open>auto simp: on_accept_def parsePingMsg_def pingNotify_def parseGameOnlines_def parseClientGameMsg_def setState_ids fx_ok_def
         Let_def split: option.splits if_splits intro!: gate_inv_set_user intro: gate_inv_shrink [OF assms(1)]\<close>)

lemma fx_ok_mono: "fx_ok A fx \<Longrightarrow> A \<subseteq> B \<Longrightarrow> fx_ok B fx"
  by (fastforce simp: fx_ok_def split: gate_effect.splits)

lemma gate_run_ok:
  "gate_inv A g \<Longrightarrow> gate_run mx es g = (g', fx) \<Longrightarrow> fx_ok (A \<union> (\<Union>e \<in> set es. announced e)) fx"
proof (induction es arbitrary: A g fx)
  case (Cons e es)
  obtain g1 fx1 gx where s: "gate_step mx e g = (g1, fx1)" "gate_run mx es g1 = (g', gx)" "fx = fx1 @ gx"
    using Cons.prems(2) by (auto split: prod.splits)
  let ?all = "A \<union> (\<Union>e \<in> set (e # es). announced e)"
  have "gate_inv (A \<union> announced e) g1" "fx_ok (A \<union> announced e) fx1" using gate_step_ok [OF Cons.prems(1) s(1)] by auto
  then have "fx_ok ?all fx1" "fx_ok ?all gx"
    using fx_ok_mono [of "A \<union> announced e" fx1 ?all] Cons.IH [OF _ s(2), of "A \<union> announced e"] by (auto simp: Un_assoc)
  then show ?case using s(3) by simp
qed simp

text \<open>
  C8.  From its start, and over every sequence of announcements, connections, logins, messages, losses of
  connections, timers and registrations, the gate adds a user to a game server only with a transaction and
  an account that the login server announced together, and passes a client's message on only under a
  transaction that was announced.  (Every prefix of a run is a run, so that the announcement came first.)
\<close>

theorem only_announced_users:
  assumes "gate_run mx es gate_start = (g, fx)"
  shows "(Add_player c t a ch \<in> set fx \<longrightarrow> (\<exists>c'. Login_user t a c' \<in> set es)) \<and>
    (Forward c t m \<in> set fx \<longrightarrow> (\<exists>a' c'. Login_user t a' c' \<in> set es))"
proof -
  have "gate_inv {} gate_start" by (simp add: gate_inv_def gate_start_def new_user_def)
  then have ok: "fx_ok (\<Union>e \<in> set es. announced e) fx" using gate_run_ok assms by fastforce
  have ann: "\<exists>c'. Login_user t a c' \<in> set es" if pair: "(t, a) \<in> (\<Union>e \<in> set es. announced e)" for t a
  proof -
    obtain e where e: "e \<in> set es" "(t, a) \<in> announced e" using pair by auto
    obtain c' where "e = Login_user t a c'" using e(2) by (cases e rule: gate_event.exhaust) auto
    then show ?thesis using e(1) by blast
  qed
  show ?thesis using ok ann by (fastforce simp: fx_ok_def)
qed

definition sample_gate_events :: "string gate_event list" where
  "sample_gate_events = [Game_register 1 7, Login_user 21 500 3, Accepted 40, Client_login 40 21, Client_msg 40 ''move'']"

lemma sample_gate_run:
  "snd (gate_run 100 sample_gate_events gate_start) = [Prepar 21, Add_player 1 21 500 3, Forward 1 21 ''move'']"
  by (simp add: sample_gate_events_def gate_start_def new_user_def parseGameRegister_def addActiveGameClient_def addToWait_def
      on_accept_def parseLoginGame_def checkConn_def getIdleGameClient_def parseUserGameMsg_def tell_game_def getGameClient_def
      set_user_def setState_def addData_def map_insert_def map_erase_def Let_def)

theorem only_announced_users_witness:
  "snd (gate_run 100 sample_gate_events gate_start) = [Prepar 21, Add_player 1 21 500 3, Forward 1 21 ''move''] \<and>
   (\<exists>a' c'. Login_user 21 a' c' \<in> set sample_gate_events)"
  using conjunct2 [OF only_announced_users [OF surjective_pairing, where mx = 100 and es = sample_gate_events and c = 1 and t = 21
      and m = "''move''"]]
  by (simp add: sample_gate_run)

section \<open>Timers that are not taken back\<close>

text \<open>
  The timer of a lost connection is not removed when the user reconnects: when it fires, the account of the
  user, who is online again, is forgotten, and a change of the game server then closes his connection.
\<close>

lemma reconnect_timer_forgets:
  assumes "map_find t (recon_map g) = None"
  shows "getAccount t (fst (eventCallRemoveReconn t g :: gate \<times> 'm gate_effect list)) = INVALID_ACCOUNT \<and>
    onlines (fst (eventCallRemoveReconn t g :: gate \<times> 'm gate_effect list)) = onlines g"
proof -
  have "getKey t (eraseValue t m) = None" for m by (induction m) (auto simp: eraseValue_def)
  then show ?thesis by (simp add: eventCallRemoveReconn_def getAccount_def Let_def)
qed

text \<open>
  The end of a session erases the entry of its transaction whichever session stands there: a session that was
  kicked and ends late takes the user off line who has logged in again in the meantime.
\<close>

lemma late_close_takes_offline:
  "map_find (u_tranid (users g p)) (onlines (fst (user_on_close p g :: gate \<times> 'm gate_effect list))) = None"
  by (auto simp: user_on_close_def checkClose_def set_user_def Let_def map_find_erase split: prod.splits if_splits)

end
