(* ===== verification/Login_Gate.thy ===== *)
theory Login_Gate
  imports Login_Types Gate
begin

text \<open>
  The login server and a gate together: the announcements of the one and the reports of the other travel in
  order over the connection between them, and each side takes its next step when it likes.  What the game
  servers behind the gate and the clients are told is traced back to the database behind the login server.
\<close>

section \<open>The system\<close>

record 'm login_link =
  k_login :: login
  k_gate :: gate
  to_gate :: "'m gate_event list"
  to_login :: "int list"

text \<open>
  The events of either side that do not come over this connection, and the arrival of what does.  Other gates
  may be connected to the login server: their messages are among its events.
\<close>

datatype 'm link_event = At_login login_event | At_gate "'m gate_event" | Arrive_gate | Arrive_login

datatype 'm link_out = Login_out login_out | Gate_out "'m gate_effect"

text \<open>What goes over the connection of the gate \<open>k\<close>.\<close>

definition for_gate :: "int \<Rightarrow> login_out list \<Rightarrow> 'm gate_event list" where
  "for_gate k os =
     concat (map (\<lambda>x. case x of
         User_login g a t ch \<Rightarrow> if g = k then [Login_user t a ch] else []
       | Kick_user g a t \<Rightarrow> if g = k then [Login_kick t a] else []
       | _ \<Rightarrow> []) os)"

definition for_login :: "'m gate_effect list \<Rightarrow> int list" where
  "for_login fx = concat (map (\<lambda>x. case x of Prepar t \<Rightarrow> [t] | _ \<Rightarrow> []) fx)"

definition link_login :: "int \<Rightarrow> login_event \<Rightarrow> 'm login_link \<Rightarrow> ('m login_link \<times> 'm link_out list) option" where
  "link_login k e y =
     map_option (\<lambda>(w, os). (y\<lparr>k_login := w, to_gate := to_gate y @ for_gate k os\<rparr>, map Login_out os)) (login_step e (k_login y))"

definition link_gate :: "int \<Rightarrow> 'm gate_event \<Rightarrow> 'm login_link \<Rightarrow> 'm login_link \<times> 'm link_out list" where
  "link_gate mx e y =
     (let (g, fx) = gate_step mx e (k_gate y) in (y\<lparr>k_gate := g, to_login := to_login y @ for_login fx\<rparr>, map Gate_out fx))"

fun own_login :: "int \<Rightarrow> login_event \<Rightarrow> bool" where
  "own_login k (Gate_prepar g a) = (g \<noteq> k)"
| "own_login k _ = True"

fun own_gate :: "'m gate_event \<Rightarrow> bool" where
  "own_gate (Login_user t a c) = False"
| "own_gate (Login_kick t a) = False"
| "own_gate _ = True"

fun link_step :: "int \<Rightarrow> int \<Rightarrow> 'm link_event \<Rightarrow> 'm login_link \<Rightarrow> ('m login_link \<times> 'm link_out list) option" where
  "link_step k mx (At_login e) y = (if own_login k e then link_login k e y else Some (y, []))"
| "link_step k mx (At_gate e) y = Some (if own_gate e then link_gate mx e y else (y, []))"
| "link_step k mx Arrive_gate y =
     Some (case to_gate y of [] \<Rightarrow> (y, []) | e # es \<Rightarrow> link_gate mx e (y\<lparr>to_gate := es\<rparr>))"
| "link_step k mx Arrive_login y =
     (case to_login y of [] \<Rightarrow> Some (y, []) | t # ts \<Rightarrow> link_login k (Gate_prepar k t) (y\<lparr>to_login := ts\<rparr>))"

fun link_steps :: "int \<Rightarrow> int \<Rightarrow> 'm link_event list \<Rightarrow> 'm login_link \<Rightarrow> ('m login_link \<times> 'm link_out list) option" where
  "link_steps k mx [] y = Some (y, [])"
| "link_steps k mx (e # es) y =
     Option.bind (link_step k mx e y) (\<lambda>(y1, os). map_option (\<lambda>(y2, ps). (y2, os @ ps)) (link_steps k mx es y1))"

definition link_start :: "LoginConfig \<Rightarrow> nat \<Rightarrow> 'm login_link" where
  "link_start c n = \<lparr>k_login = login_start c n, k_gate = gate_start, to_gate = [], to_login = []\<rparr>"

section \<open>The two runs within the run of the system\<close>

definition login_outs :: "'m link_out list \<Rightarrow> login_out list" where
  "login_outs os = concat (map (\<lambda>x. case x of Login_out y \<Rightarrow> [y] | _ \<Rightarrow> []) os)"

definition gate_outs :: "'m link_out list \<Rightarrow> 'm gate_effect list" where
  "gate_outs os = concat (map (\<lambda>x. case x of Gate_out y \<Rightarrow> [y] | _ \<Rightarrow> []) os)"

lemma link_outs_simps [simp]:
  "login_outs (os @ ps) = login_outs os @ login_outs ps" "gate_outs (os @ ps) = gate_outs os @ gate_outs ps"
  "login_outs [] = []" "gate_outs [] = []"
  by (simp_all add: login_outs_def gate_outs_def)

lemma link_outs_map [simp]:
  "login_outs (map Login_out xs) = xs" "login_outs (map Gate_out ys) = []"
  "gate_outs (map Login_out xs) = []" "gate_outs (map Gate_out ys) = ys"
  by (induction xs; simp add: login_outs_def) (induction ys; simp add: login_outs_def gate_outs_def;
      simp add: gate_outs_def)+

lemma in_link_outs: "x \<in> set (login_outs os) \<longleftrightarrow> Login_out x \<in> set os" "z \<in> set (gate_outs os) \<longleftrightarrow> Gate_out z \<in> set os"
  by (force simp: login_outs_def gate_outs_def split: link_out.splits)+

lemma in_for_gate: "Login_user t a c \<in> set (for_gate k os) \<longleftrightarrow> User_login k a t c \<in> set os"
proof (induction os)
  case (Cons x os)
  then show ?case by (cases x) (auto simp: for_gate_def)
qed (simp add: for_gate_def)

lemma in_for_login: "t \<in> set (for_login fx) \<longleftrightarrow> Prepar t \<in> set fx"
proof (induction fx)
  case (Cons x fx)
  then show ?case by (cases x) (auto simp: for_login_def)
qed (simp add: for_login_def)

text \<open>
  The events that the login server and the gate have handled in a run; the announcements and the reports among
  them were under way at its start, or were sent in it.
\<close>

definition split_run ::
  "int \<Rightarrow> int \<Rightarrow> 'm link_event list \<Rightarrow> 'm login_link \<Rightarrow> 'm link_out list \<Rightarrow> 'm login_link \<Rightarrow> login_event list \<Rightarrow> 'm gate_event list \<Rightarrow> bool" where
  "split_run k mx es y os y' el eg \<longleftrightarrow>
     login_steps el (k_login y) = Some (k_login y', login_outs os) \<and> gate_run mx eg (k_gate y) = (k_gate y', gate_outs os) \<and>
     (\<forall>t a c. Login_user t a c \<in> set eg \<longrightarrow> Login_user t a c \<in> set (to_gate y) \<or> Login_out (User_login k a t c) \<in> set os) \<and>
     (\<forall>t. Gate_prepar k t \<in> set el \<longrightarrow> t \<in> set (to_login y) \<or> Gate_out (Prepar t) \<in> set os) \<and>
     (\<forall>e. e \<in> set el \<longrightarrow> At_login e \<in> set es \<or> (\<exists>t. e = Gate_prepar k t))"

lemma split_login:
  assumes "link_login k e y = Some (y1, os1)" "split_run k mx es y1 os2 y' el eg"
    and "At_login e \<in> set es' \<and> own_login k e \<or> (\<exists>t. e = Gate_prepar k t \<and> t \<in> set (to_login y0))" "set es \<subseteq> set es'"
    and "k_login y0 = k_login y" "k_gate y0 = k_gate y" "to_gate y0 = to_gate y" "set (to_login y) \<subseteq> set (to_login y0)"
  shows "split_run k mx es' y0 (os1 @ os2) y' (e # el) eg"
proof -
  obtain w os where w: "login_step e (k_login y) = Some (w, os)" "y1 = y\<lparr>k_login := w, to_gate := to_gate y @ for_gate k os\<rparr>"
      "os1 = map Login_out os"
    using assms(1) by (auto simp: link_login_def)
  show ?thesis
    unfolding split_run_def
  proof (intro conjI allI impI)
    show "login_steps (e # el) (k_login y0) = Some (k_login y', login_outs (os1 @ os2))"
      using w assms(2,5) by (simp add: split_run_def)
    show "gate_run mx eg (k_gate y0) = (k_gate y', gate_outs (os1 @ os2))" using w assms(2,6) by (simp add: split_run_def)
  next
    fix t a c assume "Login_user t a c \<in> set eg"
    then have "Login_user t a c \<in> set (to_gate y1) \<or> Login_out (User_login k a t c) \<in> set os2" using assms(2) by (simp add: split_run_def)
    then show "Login_user t a c \<in> set (to_gate y0) \<or> Login_out (User_login k a t c) \<in> set (os1 @ os2)"
      using w assms(7) by (auto simp: in_for_gate)
  next
    fix t assume "Gate_prepar k t \<in> set (e # el)"
    then consider "e = Gate_prepar k t" | "Gate_prepar k t \<in> set el" by auto
    then show "t \<in> set (to_login y0) \<or> Gate_out (Prepar t) \<in> set (os1 @ os2)"
    proof cases
      case 1
      then show ?thesis using assms(3) by auto
    next
      case 2
      then have "t \<in> set (to_login y1) \<or> Gate_out (Prepar t) \<in> set os2" using assms(2) by (simp add: split_run_def)
      then show ?thesis using w assms(8) by auto
    qed
  next
    fix e' assume "e' \<in> set (e # el)"
    then show "At_login e' \<in> set es' \<or> (\<exists>t. e' = Gate_prepar k t)" using assms(2,3,4) by (auto simp: split_run_def)
  qed
qed

lemma split_gate:
  assumes "link_gate mx e y = (y1, os1)" "split_run k mx es y1 os2 y' el eg"
    and "own_gate e \<or> e \<in> set (to_gate y0)" "set es \<subseteq> set es'"
    and "k_login y0 = k_login y" "k_gate y0 = k_gate y" "to_login y0 = to_login y" "set (to_gate y) \<subseteq> set (to_gate y0)"
  shows "split_run k mx es' y0 (os1 @ os2) y' el (e # eg)"
proof -
  obtain g fx where g: "gate_step mx e (k_gate y) = (g, fx)" "y1 = y\<lparr>k_gate := g, to_login := to_login y @ for_login fx\<rparr>"
      "os1 = map Gate_out fx"
    using assms(1) by (auto simp: link_gate_def split: prod.splits)
  show ?thesis
    unfolding split_run_def
  proof (intro conjI allI impI)
    show "login_steps el (k_login y0) = Some (k_login y', login_outs (os1 @ os2))"
      using g assms(2,5) by (simp add: split_run_def)
    show "gate_run mx (e # eg) (k_gate y0) = (k_gate y', gate_outs (os1 @ os2))" using g assms(2,6) by (simp add: split_run_def)
  next
    fix t a c assume "Login_user t a c \<in> set (e # eg)"
    then consider "e = Login_user t a c" | "Login_user t a c \<in> set eg" by auto
    then show "Login_user t a c \<in> set (to_gate y0) \<or> Login_out (User_login k a t c) \<in> set (os1 @ os2)"
    proof cases
      case 1
      then show ?thesis using assms(3) by auto
    next
      case 2
      then have "Login_user t a c \<in> set (to_gate y1) \<or> Login_out (User_login k a t c) \<in> set os2" using assms(2) by (simp add: split_run_def)
      then show ?thesis using g assms(8) by auto
    qed
  next
    fix t assume "Gate_prepar k t \<in> set el"
    then have "t \<in> set (to_login y1) \<or> Gate_out (Prepar t) \<in> set os2" using assms(2) by (simp add: split_run_def)
    then show "t \<in> set (to_login y0) \<or> Gate_out (Prepar t) \<in> set (os1 @ os2)" using g assms(7) by (auto simp: in_for_login)
  next
    fix e' assume "e' \<in> set el"
    then show "At_login e' \<in> set es' \<or> (\<exists>t. e' = Gate_prepar k t)" using assms(2,4) by (auto simp: split_run_def)
  qed
qed

lemma split_skip: "split_run k mx es y os y' el eg \<Longrightarrow> split_run k mx (e # es) y os y' el eg"
  by (auto simp: split_run_def)

lemma split_runs: "link_steps k mx es y = Some (y', os) \<Longrightarrow> \<exists>el eg. split_run k mx es y os y' el eg"
proof (induction es arbitrary: y os)
  case Nil
  then show ?case by (intro exI [of _ "[]"]) (simp add: split_run_def)
next
  case (Cons e es)
  obtain y1 os1 os2 where s: "link_step k mx e y = Some (y1, os1)" "link_steps k mx es y1 = Some (y', os2)" "os = os1 @ os2"
    using Cons.prems by (auto split: bind_splits)
  obtain el eg where r: "split_run k mx es y1 os2 y' el eg" using Cons.IH [OF s(2)] by blast
  have skip: "\<exists>el eg. split_run k mx (e # es) y os y' el eg" if "y1 = y" "os1 = []" using that s(3) split_skip [OF r] by auto
  show ?case
  proof (cases e)
    case (At_login e')
    show ?thesis
    proof (cases "own_login k e'")
      case True
      then show ?thesis using split_login [where e = e' and y = y and es' = "e # es" and ?y0.0 = y, OF _ r] s(1,3) At_login by auto
    next
      case False
      then show ?thesis using skip s(1) At_login by simp
    qed
  next
    case (At_gate e')
    show ?thesis
    proof (cases "own_gate e'")
      case True
      then show ?thesis using split_gate [where e = e' and y = y and es' = "e # es" and ?y0.0 = y, OF _ r] s(1,3) At_gate by (auto simp del: own_gate.simps)
    next
      case False
      then show ?thesis using skip s(1) At_gate by simp
    qed
  next
    case Arrive_gate
    show ?thesis
    proof (cases "to_gate y")
      case Nil
      then show ?thesis using skip s(1) Arrive_gate by simp
    next
      case (Cons e' es')
      then show ?thesis using split_gate [where e = e' and y = "y\<lparr>to_gate := es'\<rparr>" and es' = "e # es" and ?y0.0 = y, OF _ r] s(1,3) Arrive_gate by (auto simp del: own_gate.simps)
    qed
  next
    case Arrive_login
    show ?thesis
    proof (cases "to_login y")
      case Nil
      then show ?thesis using skip s(1) Arrive_login by simp
    next
      case (Cons t ts)
      then show ?thesis using split_login [where e = "Gate_prepar k t" and y = "y\<lparr>to_login := ts\<rparr>" and es' = "e # es" and ?y0.0 = y, OF _ r] s(1,3) Arrive_login by auto
    qed
  qed
qed


section \<open>From the database to the game server\<close>

lemma prepar_announced:
  assumes "gate_run mx es g = (g', fx)" "Prepar t \<in> set fx"
  shows "\<exists>a c. Login_user t a c \<in> set es"
  using assms
proof (induction es arbitrary: g fx)
  case (Cons e es)
  obtain g1 fx1 gx where s: "gate_step mx e g = (g1, fx1)" "gate_run mx es g1 = (g', gx)" "fx = fx1 @ gx"
    using Cons.prems(1) by (auto split: prod.splits)
  have tell: "Prepar t \<notin> set (tell_game gs h f)" if "\<And>c. f c \<noteq> Prepar t" for gs h and f :: "int \<Rightarrow> 'a gate_effect"
    using that [symmetric] by (auto simp: tell_game_def split: option.split)
  have kick: "Prepar t \<notin> set gx" if "kickUser t' a h = (h', gx)" for t' a h h' and gx :: "'a gate_effect list"
    using that by (auto simp: kickUser_def Let_def tell split: option.splits if_splits)
  have "\<exists>a c. e = Login_user t a c" if "Prepar t \<in> set fx1"
  proof (cases e)
    case (Login_user t' a c)
    then have "t' = t"
      using s(1) that kick by (auto simp: addToWait_def split: prod.splits option.splits)
    then show ?thesis using Login_user by blast
  next
    case (Login_kick t' a)
    then show ?thesis using s(1) that kick by auto
  qed (use s(1) that tell in \<open>auto simp: parseLoginGame_def checkConn_def parseUserGameMsg_def user_on_close_def checkClose_def fire_def
         eventCallRemoveReconn_def pingNotify_def parseClientGameMsg_def parseChangeGS_def Let_def
         split: prod.splits option.splits if_splits timer.splits\<close>)
  then show ?case using Cons.IH [OF s(2)] Cons.prems(2) s(3) by auto
qed simp

lemma link_run_facts:
  assumes "link_steps k mx es (link_start c n) = Some (y, os)"
  obtains el eg where "login_steps el (login_start c n) = Some (k_login y, login_outs os)"
    and "gate_run mx eg gate_start = (k_gate y, gate_outs os)"
    and "\<And>t a ch. Login_user t a ch \<in> set eg \<Longrightarrow> Login_out (User_login k a t ch) \<in> set os"
    and "\<And>t. Gate_prepar k t \<in> set el \<Longrightarrow> Gate_out (Prepar t) \<in> set os"
    and "\<And>x. asked (set el) x \<Longrightarrow> asked {e. At_login e \<in> set es} x"
    and "\<And>g t. Gate_prepar g t \<in> set el \<Longrightarrow> g \<noteq> k \<Longrightarrow> At_login (Gate_prepar g t) \<in> set es"
proof -
  obtain el eg where r: "split_run k mx es (link_start c n) os y el eg" using split_runs [OF assms] by blast
  have a: "asked {e. At_login e \<in> set es} x" if "asked (set el) x" for x
    using that r by (fastforce simp: asked_def split_run_def)
  show ?thesis
    by (rule that [of el eg]) (use r a in \<open>auto simp: split_run_def link_start_def\<close>)
qed




text \<open>A client that registers is played through to the game server.\<close>

definition sample_link :: "string link_event list" where
  "sample_link =
     (let go = At_login (Login_thread 0 True (Exec_ok (Some (42, 0)))); run = At_login (Login_run 100); t = makeTransId 100 ''bobpw1.2.3.4''
      in [At_login (Register_gate 1 5 True ''9.9.9.9'' 7000 []), At_gate (Game_register 1 7),
          At_login (Accept_user 7 ''1.2.3.4''), At_login (Register_request 7 ''bob'' ''pw'')] @
         replicate 8 go @ replicate 4 run @ replicate 8 go @ replicate 8 run @
         [Arrive_gate, Arrive_login, At_gate (Accepted 40), At_gate (Client_login 40 t)])"

lemma sample_link_outputs:
  "map_option (\<lambda>(y, os). drop 6 os) (link_steps 1 100 sample_link (link_start sample_login_config 1)) =
     (let t = makeTransId 100 ''bobpw1.2.3.4''
      in Some [Login_out (User_login 1 42 t 0), Gate_out (Prepar t),
           Login_out (Response 7 (LoginResult_Success ''9.9.9.9'' 7000 t)), Gate_out (Add_player 1 t 42 0)])"
  by code_simp

lemma sample_link_run:
  "\<exists>y os. link_steps 1 100 sample_link (link_start sample_login_config 1) = Some (y, os) \<and>
     Gate_out (Add_player 1 (makeTransId 100 ''bobpw1.2.3.4'') 42 0) \<in> set os \<and>
     Login_out (Response 7 (LoginResult_Success ''9.9.9.9'' 7000 (makeTransId 100 ''bobpw1.2.3.4''))) \<in> set os"
proof -
  obtain y os where "link_steps 1 100 sample_link (link_start sample_login_config 1) = Some (y, os)"
      "drop 6 os = (let t = makeTransId 100 ''bobpw1.2.3.4''
      in [Login_out (User_login 1 42 t 0), Gate_out (Prepar t),
           Login_out (Response 7 (LoginResult_Success ''9.9.9.9'' 7000 t)), Gate_out (Add_player 1 t 42 0)])"
    using sample_link_outputs by (auto simp: Let_def)
  then show ?thesis using set_drop_subset [of 6 os] by (auto simp: Let_def)
qed



end
