(* ===== verification/Login_Checks.thy ===== *)
theory Login_Checks
  imports Login
begin

text \<open>
  The choice of a gate, and what the checks of a login amount to: the local checks, the platform's, and the
  places where the sessions, which are pooled, carry something of one client over to the next.
\<close>

section \<open>The idle gate\<close>

text \<open>The scan keeps the first of the least loaded: \<open>k\<close>, found before, wins against equals.\<close>

lemma idle_scan_none: "idle_gate_scan f gs k = None \<longleftrightarrow> k = None \<and> (\<forall>x \<in> set gs. x = None)"
  by (induction f gs k rule: idle_gate_scan.induct) (auto split: option.split)

lemma idle_scan_some:
  "idle_gate_scan f gs (Some k) = Some g \<Longrightarrow>
     (g = k \<and> (\<forall>h. Some h \<in> set gs \<longrightarrow> f k \<le> f h)) \<or>
     (\<exists>i < length gs. gs ! i = Some g \<and> f g < f k \<and> (\<forall>h. Some h \<in> set gs \<longrightarrow> f g \<le> f h) \<and>
        (\<forall>j h. j < i \<longrightarrow> gs ! j = Some h \<longrightarrow> f g < f h))"
proof (induction gs arbitrary: k)
  case (Cons x gs)
  show ?case
  proof (cases x)
    case None
    then have "idle_gate_scan f gs (Some k) = Some g" using Cons.prems by simp
    from Cons.IH [OF this] show ?thesis
    proof
      assume "g = k \<and> (\<forall>h. Some h \<in> set gs \<longrightarrow> f k \<le> f h)"
      then show ?thesis using None by simp
    next
      assume "\<exists>i < length gs. gs ! i = Some g \<and> f g < f k \<and> (\<forall>h. Some h \<in> set gs \<longrightarrow> f g \<le> f h) \<and>
        (\<forall>j h. j < i \<longrightarrow> gs ! j = Some h \<longrightarrow> f g < f h)"
      then obtain i where "i < length gs" "gs ! i = Some g" "f g < f k" "\<forall>h. Some h \<in> set gs \<longrightarrow> f g \<le> f h"
        "\<forall>j h. j < i \<longrightarrow> gs ! j = Some h \<longrightarrow> f g < f h" by blast
      then show ?thesis using None by (intro disjI2 exI [of _ "Suc i"]) (auto simp: nth_Cons split: nat.splits)
    qed
  next
    case (Some y)
    let ?k = "if f y < f k then y else k"
    have "idle_gate_scan f gs (Some ?k) = Some g" using Cons.prems Some by auto
    from Cons.IH [OF this] show ?thesis
    proof
      assume a: "g = ?k \<and> (\<forall>h. Some h \<in> set gs \<longrightarrow> f ?k \<le> f h)"
      show ?thesis
      proof (cases "f y < f k")
        case True
        then show ?thesis using a Some by (intro disjI2 exI [of _ 0]) auto
      next
        case False
        then show ?thesis using a Some by auto
      qed
    next
      assume "\<exists>i < length gs. gs ! i = Some g \<and> f g < f ?k \<and> (\<forall>h. Some h \<in> set gs \<longrightarrow> f g \<le> f h) \<and>
        (\<forall>j h. j < i \<longrightarrow> gs ! j = Some h \<longrightarrow> f g < f h)"
      then obtain i where "i < length gs" "gs ! i = Some g" "f g < f ?k" "\<forall>h. Some h \<in> set gs \<longrightarrow> f g \<le> f h"
        "\<forall>j h. j < i \<longrightarrow> gs ! j = Some h \<longrightarrow> f g < f h" by blast
      then show ?thesis using Some
        by (intro disjI2 exI [of _ "Suc i"]) (auto simp: nth_Cons split: nat.splits if_splits)
    qed
  qed
qed simp

lemma idle_scan_first:
  "idle_gate_scan f gs None = Some g \<Longrightarrow>
     \<exists>i < length gs. gs ! i = Some g \<and> (\<forall>h. Some h \<in> set gs \<longrightarrow> f g \<le> f h) \<and> (\<forall>j h. j < i \<longrightarrow> gs ! j = Some h \<longrightarrow> f g < f h)"
proof (induction gs)
  case (Cons x gs)
  show ?case
  proof (cases x)
    case None
    then obtain i where "i < length gs" "gs ! i = Some g" "\<forall>h. Some h \<in> set gs \<longrightarrow> f g \<le> f h"
      "\<forall>j h. j < i \<longrightarrow> gs ! j = Some h \<longrightarrow> f g < f h" using Cons by auto
    then show ?thesis using None by (intro exI [of _ "Suc i"]) (auto simp: nth_Cons split: nat.splits)
  next
    case (Some y)
    then have "idle_gate_scan f gs (Some y) = Some g" using Cons.prems by simp
    from idle_scan_some [OF this] show ?thesis
    proof
      assume "g = y \<and> (\<forall>h. Some h \<in> set gs \<longrightarrow> f y \<le> f h)"
      then show ?thesis using Some by (intro exI [of _ 0]) auto
    next
      assume "\<exists>i < length gs. gs ! i = Some g \<and> f g < f y \<and> (\<forall>h. Some h \<in> set gs \<longrightarrow> f g \<le> f h) \<and>
        (\<forall>j h. j < i \<longrightarrow> gs ! j = Some h \<longrightarrow> f g < f h)"
      then obtain i where "i < length gs" "gs ! i = Some g" "f g < f y" "\<forall>h. Some h \<in> set gs \<longrightarrow> f g \<le> f h"
        "\<forall>j h. j < i \<longrightarrow> gs ! j = Some h \<longrightarrow> f g < f h" by blast
      then show ?thesis using Some by (intro exI [of _ "Suc i"]) (auto simp: nth_Cons split: nat.splits)
    qed
  qed
qed simp

text \<open>
  A user is given to the first of the active gates whose load, its users online and those given to it of
  late, is least; there is none to give to only if no gate is active.
\<close>

theorem idle_gate_least:
  "case getIdleGate w of
     None \<Rightarrow> \<forall>x \<in> set (l_active w). x = None
   | Some g \<Rightarrow> \<exists>i < length (l_active w). l_active w ! i = Some g \<and>
       (\<forall>h. Some h \<in> set (l_active w) \<longrightarrow> getBalenceCount (l_gates w g) \<le> getBalenceCount (l_gates w h)) \<and>
       (\<forall>j h. j < i \<longrightarrow> l_active w ! j = Some h \<longrightarrow> getBalenceCount (l_gates w g) < getBalenceCount (l_gates w h))"
  using idle_scan_none [of _ "l_active w" None] idle_scan_first [of _ "l_active w"]
  by (auto simp: getIdleGate_def split: option.split)


definition sample_gates :: login where
  "sample_gates =
     (let c = \<lparr>version = (1, 0, 2), channels = [1], platform_url = ''http://p'', need_platform_verify = True\<rparr>;
          w = fst (parseGateRegister 8 5 True ''9.9.9.9'' 7000 [(1, 11), (2, 12)] (login_start c 1))
      in addBalenceTime 100 8 (fst (parseGateRegister 9 6 True ''9.9.9.8'' 7000 [(3, 13)] w)))"

lemma sample_idle: "getIdleGate sample_gates = Some 9"
  by code_simp

theorem idle_gate_least_witness:
  "\<forall>h. Some h \<in> set (l_active sample_gates) \<longrightarrow> getBalenceCount (l_gates sample_gates 9) \<le> getBalenceCount (l_gates sample_gates h)"
  using idle_gate_least [of sample_gates] unfolding sample_idle by auto

text \<open>A gate that registers a second time under another number keeps its first place, also after it is closed.\<close>

lemma second_number_stays:
  assumes "0 < m" "m < 255" "0 < n" "n < 255" "m \<noteq> n" "length (l_active w) = 255"
  shows "l_active (lg_removeGate g (fst (parseGateRegister g n ok ip port [] (fst (parseGateRegister g m ok ip port [] w))))) ! nat m = Some g"
proof -
  have "nat m \<noteq> nat n" using assms by simp
  then show ?thesis using assms by (simp add: parseGateRegister_def lg_removeGate_def lg_addGate_def Let_def)
qed

section \<open>The checks of a login\<close>

text \<open>What a login is without a platform: the version, the channel and the lengths, then the check of the account.\<close>

definition local_login :: "int \<Rightarrow> string \<Rightarrow> string \<Rightarrow> int \<times> int \<times> int \<Rightarrow> int \<Rightarrow> login \<Rightarrow> login \<times> login_out list" where
  "local_login s name pwd ver ch w =
     (if fst ver \<noteq> fst (version (l_config w)) \<or> fst (snd ver) \<noteq> fst (snd (version (l_config w)))
      then (w, [Response s (LoginResult_ErrorVersion (version (l_config w)))])
      else if ch \<notin> set (channels (l_config w)) then (w, [Response s LoginResult_ErrorChannel])
      else if 128 \<le> length name \<or> 128 \<le> length pwd then (w, [Response s LoginResult_NameFail])
      else checkAccount name pwd ch s login_check w)"

lemma channel_scan_in: "channel_scan ch cs \<longleftrightarrow> ch \<in> set cs"
  by (induction cs) auto

lemma local_checks:
  "local_login s name pwd ver ch w =
     (if \<not> (case ver of (n1, n2, n3) \<Rightarrow> CompareVersion n1 n2 n3 (l_config w))
      then (w, [Response s (LoginResult_ErrorVersion (version (l_config w)))])
      else if \<not> CompareChannel ch (l_config w) then (w, [Response s LoginResult_ErrorChannel])
      else if 128 \<le> length name \<or> 128 \<le> length pwd then (w, [Response s LoginResult_NameFail])
      else checkAccount name pwd ch s login_check w)"
  by (simp add: local_login_def CompareVersion_def CompareChannel_def channel_scan_in case_prod_beta)


text \<open>\<^verbatim>\<open>_platform_user_id\<close> is never set, so that a client with a name is never taken for a verified one.\<close>

definition no_platform_user :: "login \<Rightarrow> bool" where
  "no_platform_user w \<longleftrightarrow> (\<forall>s. ls_platform_user (l_users w s) = [])"

lemma setState_platform_user [simp]: "ls_platform_user (ls_setState st u) = ls_platform_user u" "ls_channel (ls_setState st u) = ls_channel u"
  by (cases st; simp add: ls_setState_def Let_def)+

lemma no_platform_simps [simp]:
  "no_platform_user (user_setState s st w) = no_platform_user w"
  "no_platform_user (w\<lparr>l_gates := f\<rparr>) = no_platform_user w" "no_platform_user (w\<lparr>l_active := g\<rparr>) = no_platform_user w"
  "no_platform_user (w\<lparr>m_Accts := h\<rparr>) = no_platform_user w" "no_platform_user (w\<lparr>m_WaitSessions := i\<rparr>) = no_platform_user w"
  "no_platform_user (w\<lparr>m_BanAndMute := j\<rparr>) = no_platform_user w" "no_platform_user (w\<lparr>l_db := k\<rparr>) = no_platform_user w"
  "no_platform_user (w\<lparr>l_https := l\<rparr>) = no_platform_user w" "no_platform_user (w\<lparr>l_complete := m\<rparr>) = no_platform_user w"
  by (auto simp: no_platform_user_def user_setState_def set_user_session_def)

lemma no_platform_session: "no_platform_user w \<Longrightarrow> ls_platform_user u = [] \<Longrightarrow> no_platform_user (set_user_session s u w)"
  by (simp add: no_platform_user_def set_user_session_def)

lemma no_platform_at: "no_platform_user w \<Longrightarrow> ls_platform_user (l_users w s) = []"
  by (simp add: no_platform_user_def)

lemma no_platform_register: "no_platform_user w \<Longrightarrow> no_platform_user (fst (register_accounts n ds w))"
proof (induction ds arbitrary: w)
  case (Cons d ds)
  obtain a t where d: "d = (a, t)" by force
  have "no_platform_user (fst (register_accounts n ds (addAccount (wrap64 a) (wrap_u32 t) n w)))"
    using Cons by (simp add: addAccount_def)
  then show ?case using d by (cases "register_accounts n ds (addAccount (wrap64 a) (wrap_u32 t) n w)") (simp add: Let_def)
qed simp

lemma no_platform_task: "no_platform_user w \<Longrightarrow> no_platform_user (fst (login_task k ty x w))"
  by (simp add: login_task_def split: prod.split)

lemma no_platform_give: "no_platform_user w \<Longrightarrow> no_platform_user (fst (snd (giveUserToGate now p s w)))"
  by (cases "getIdleGate w") (simp_all add: giveUserToGate_def addBalenceTime_def Let_def no_platform_session no_platform_user_def set_user_session_def)

lemma no_platform_callback: "no_platform_user w \<Longrightarrow> no_platform_user (fst (login_callback now y w))"
proof (cases y)
  case (Called x r ok)
  assume w: "no_platform_user w"
  let ?p = "\<lparr>a_nId = checked_acct r, a_nTranId = makeTransId now (tran_text x (l_users w (ca_ower x))), a_nGateId = 0\<rparr>"
  let ?w = "w\<lparr>m_Accts := map_assign (checked_acct r) ?p (m_Accts w)\<rparr>"
  obtain b u os where g: "giveUserToGate now ?p (ca_ower x) ?w = (b, u, os)" by (metis prod_cases3)
  have "no_platform_user u" using no_platform_give [of ?w now ?p "ca_ower x"] g w by simp
  then show ?thesis using Called g w no_platform_task
    by (simp add: login_callback_def checkAccountCall_def CreateNewAccount_def removeAccount_def Let_def split: check_type.split)
qed (simp_all add: login_callback_def)

lemma no_platform_login: "no_platform_user w \<Longrightarrow> no_platform_user (fst (lg_parseLoginGame s name pwd ver ch w))"
proof -
  assume w: "no_platform_user w"
  obtain u ps where t: "checkAccount name pwd ch s login_check w = (u, ps)" by fastforce
  have "no_platform_user u" using no_platform_task [of "user_setState s ls_checking_data w"] t w by (metis checkAccount_def fst_conv no_platform_simps(1))
  then show ?thesis using t w by (auto simp: lg_parseLoginGame_def Let_def split: prod.split)
qed

lemma no_platform_handle:
  assumes "no_platform_user w"
  shows "no_platform_user (fst (login_handle e w))"
proof (cases e)
  case (Platform_logic)
  then show ?thesis using assms
    by (auto simp: http_logic_def logicExcute_def Let_def no_platform_user_def set_user_session_def split: list.split)
next
  case (Register_gate g n ok ip port ds)
  let ?w = "lg_addGate (n mod 256) g (w\<lparr>l_gates := (l_gates w)(g := (l_gates w g)
      \<lparr>gate_id := n mod 256, gate_onlines := wrap_u32 (int (length ds)), out_ip := ip, out_port := port mod 65536\<rparr>)\<rparr>)"
  have "no_platform_user ?w" using assms by (simp add: lg_addGate_def)
  then have "no_platform_user (fst (register_accounts (n mod 256) ds ?w))" by (rule no_platform_register)
  then show ?thesis using Register_gate by (cases "register_accounts (n mod 256) ds ?w") (simp add: parseGateRegister_def Let_def)
qed (use assms no_platform_login no_platform_task in
    \<open>auto simp: login_on_accept_def login_on_close_def close_event_def parseGateOnlines_def balenceInfoEvent_def loadBanCall_def
       lg_removeGate_def parseRegister_def checkAccount_def parsePlatformVerify_def parseGateUserPrepar_def receiveUserPrepar_def Let_def
       no_platform_session no_platform_at split: option.split\<close>)

lemma no_platform_step:
  assumes "no_platform_user w" "login_step e w = Some (v, os)"
  shows "no_platform_user v"
proof -
  have run: "no_platform_user (fst (run_login_db now d w))" for now d
    using no_platform_callback assms(1) by (auto simp: run_login_db_def Let_def split: prod.split list.split)
      (metis fst_conv no_platform_simps(7))
  show ?thesis
    using assms no_platform_handle [OF assms(1), of e] run
    by (cases e) (auto simp: http_thread_def login_setStop_def split: if_splits list.splits, (metis fst_conv)+)
qed

lemma never_a_platform_user: "login_steps es (login_start c n) = Some (w, os) \<Longrightarrow> ls_platform_user (l_users w s) = []"
proof -
  have "no_platform_user w \<Longrightarrow> login_steps es w = Some (v, os) \<Longrightarrow> no_platform_user v" for w v
  proof (induction es arbitrary: w os)
    case (Cons e es)
    obtain w1 os1 os2 where s: "login_step e w = Some (w1, os1)" "login_steps es w1 = Some (v, os2)"
      using Cons.prems(2) by (auto split: bind_splits)
    show ?case using Cons.IH [OF no_platform_step [OF Cons.prems(1) s(1)] s(2)] .
  qed simp
  moreover have "no_platform_user (login_start c n)" by (simp add: no_platform_user_def login_start_def new_login_session_def)
  ultimately show "login_steps es (login_start c n) = Some (w, os) \<Longrightarrow> ls_platform_user (l_users w s) = []"
    unfolding no_platform_user_def by blast
qed


section \<open>What a session carries over\<close>

text \<open>The channel that the platform has accepted stays with the session, and is announced for the next client of it.\<close>

lemma channel_leaks: "ls_channel (l_users (login_on_accept s addr (login_on_close s w)) s) = ls_channel (l_users w s)"
  by (simp add: login_on_accept_def login_on_close_def set_user_session_def)

text \<open>
  A client that waits for its gate leaves, and its session is taken by another: when the gate is ready, the
  stranger is told where and under which number the first client will be admitted.
\<close>

definition stranger_events :: "login_event list" where
  "stranger_events =
     [Register_gate 1 5 True ''9.9.9.9'' 7000 [], Accept_user 7 ''1.2.3.4'', Login_request 7 ''bob'' ''pw'' (1, 0, 3) 1] @
     replicate 8 (Login_thread 0 True (Exec_ok (Some (42, 0)))) @ replicate 8 (Login_run 100) @
     [Close_user 7, Accept_user 7 ''6.6.6.6'', Gate_prepar 1 (makeTransId 100 ''bobpw1.2.3.4'')]"

lemma stranger_is_told:
  "map_option (\<lambda>(w, os). (ls_addr (l_users w 7), last os))
     (login_steps stranger_events (login_start \<lparr>version = (1, 0, 2), channels = [1], platform_url = [], need_platform_verify = False\<rparr> 1)) =
   Some (''6.6.6.6'', Response 7 (LoginResult_Success ''9.9.9.9'' 7000 (makeTransId 100 ''bobpw1.2.3.4'')))"
  by code_simp

text \<open>The texts of a request, which the client chooses, are printed into a buffer of a fixed size.\<close>

lemma long_token_leaves_buffer: "10240 \<le> length (ht_token t) \<Longrightarrow> l_https w = t # ts \<Longrightarrow> login_step (Platform_thread r) w = None"
  by (simp add: http_thread_def http_excute_def login_url_def)

text \<open>A gate that is refused for its version is registered all the same, and is given users.\<close>

lemma refused_gate_registered:
  assumes "0 < n" "n < 255" "length (l_active w) = 255"
  shows "l_active (fst (parseGateRegister g n False ip port [] w)) ! nat n = Some g" "Close_gate g \<in> set (snd (parseGateRegister g n False ip port [] w))"
  using assms by (simp_all add: parseGateRegister_def lg_addGate_def Let_def)

text \<open>
  The engine refuses tasks from the moment the server is told to stop: a client that asks to log in then waits
  in vain.
\<close>

lemma login_while_stopping:
  assumes "db_state (l_db w) = wait_stop"
  shows "login_task k ty x w = (w, [])"
  using assms by (auto simp: login_task_def addKindTask_def isObjState_def)

text \<open>The third number of a version is not compared, and channels are read as numbers from a text.\<close>

lemma version_third_ignored: "CompareVersion n1 n2 n3 c = CompareVersion n1 n2 n4 c"
  by (simp add: CompareVersion_def)

lemma loaded_channels:
  "CompareChannel ch (load_login_config [(v, ''1;3;20'', url, b)] \<lparr>version = u, channels = [], platform_url = [], need_platform_verify = b'\<rparr>) \<longleftrightarrow>
     ch \<in> {1, 3, 20}"
proof -
  have "map atoi (SplitStringA ''1;3;20'' '';'') = [1, 3, 20]" by code_simp
  then show ?thesis
    by (cases v) (auto simp: load_login_config_def SetVersion_def SetChannels_def SetPlatform_def SetNeedPlatformVerify_def CompareChannel_def)
qed

text \<open>The clock of a session runs out without an effect on its connection.\<close>

lemma timeout_keeps_connection: "ls_valid (l_users (close_event s w) s) = ls_valid (l_users w s)"
  by (simp add: close_event_def set_user_session_def)

end
