(* ===== verification/DBServer.thy ===== *)
theory DBServer
  imports Hero_Save Database_Tasks
begin

text \<open>
  The database server (\<^verbatim>\<open>src/databaseserver\<close>): the connections of the game servers (\<^verbatim>\<open>GameSession\<close>,
  \<^verbatim>\<open>GameManager\<close>), their queries and saves (\<^verbatim>\<open>DBQuestManager\<close>) on the engines for players and records, and the stop.
  What MySQL returns comes with the execution of a task.  Statements are values of a type of their own.
\<close>

section \<open>State\<close>

text \<open>The data of a task, \<^verbatim>\<open>tgHeroData\<close> or nothing, with the statement that it executes.\<close>

datatype 'sql db_work =
    Query_hero int int int
  | Query_deals int int int MsgHeroDataDB2GS
  | Save_sql 'sql
  | Record_sql 'sql

datatype db_rows = Character_rows "character_row list" | Deal_rows "deal_row list" | No_rows

abbreviation (input) QUERY_HERO_INFO :: int where "QUERY_HERO_INFO \<equiv> 1"
abbreviation (input) SAVE_HERO_INFO :: int where "SAVE_HERO_INFO \<equiv> 3"
abbreviation (input) SAVE_RECORD :: int where "SAVE_RECORD \<equiv> 4"

record 'sql dbserver =
  gDBCharDatabase :: "('sql db_work, db_rows) Database"
  gDBRecordDatabase :: "('sql db_work, db_rows) Database"
  m_Games :: "int \<Rightarrow> int option"
  m_game_id :: "int \<Rightarrow> int"
  receive_close_msg :: bool
  save_to_close :: bool
  dbs_stop :: bool

datatype db_answer = Hero_data MsgHeroDataDB2GS | Need_create_hero | Save_all_heroes

datatype 'sql dbs_out =
    Char_out "('sql db_work, db_rows) db_out"
  | Record_out "('sql db_work, db_rows) db_out"
  | Answer int db_answer int
  | Close_game int

section \<open>Game servers\<close>

definition addGame :: "int \<Rightarrow> int \<Rightarrow> 'sql dbserver \<Rightarrow> 'sql dbserver" where
  "addGame n p w = (if 0 < n \<and> n < 255 then w\<lparr>m_Games := (m_Games w)(n := Some p)\<rparr> else w)"

definition removeGame :: "int \<Rightarrow> 'sql dbserver \<Rightarrow> 'sql dbserver" where
  "removeGame p w =
     (let n = m_game_id w p
      in if 0 < n \<and> n < 255 \<and> m_Games w n = Some p then w\<lparr>m_Games := (m_Games w)(n := None)\<rparr> else w)"

definition sendMessage :: "db_answer \<Rightarrow> int \<Rightarrow> int \<Rightarrow> 'sql dbserver \<Rightarrow> 'sql dbs_out list" where
  "sendMessage msg flag gs w =
     (if 0 < gs \<and> gs < 255 then (case m_Games w gs of None \<Rightarrow> [] | Some p \<Rightarrow> [Answer p msg flag]) else [])"

text \<open>\<^verbatim>\<open>m_game_id\<close> has 16 bits.  A server of another version is closed, and registered all the same.\<close>

definition db_parseGameRegister :: "int \<Rightarrow> int \<Rightarrow> bool \<Rightarrow> 'sql dbserver \<Rightarrow> 'sql dbserver \<times> 'sql dbs_out list" where
  "db_parseGameRegister p serverid version_ok w =
     (let n = serverid mod 65536
      in (addGame n p (w\<lparr>m_game_id := (m_game_id w)(p := n)\<rparr>), if version_ok then [] else [Close_game p]))"

section \<open>Queries and saves\<close>

definition add_char_task :: "int \<Rightarrow> 'sql db_work \<Rightarrow> 'sql dbserver \<Rightarrow> 'sql dbserver \<times> 'sql dbs_out list" where
  "add_char_task ty x w =
     (let (d, os) = db_step (Add_task STORE_QUERY ty x) (gDBCharDatabase w) in (w\<lparr>gDBCharDatabase := d\<rparr>, map Char_out os))"

definition add_record_task :: "int \<Rightarrow> 'sql db_work \<Rightarrow> 'sql dbserver \<Rightarrow> 'sql dbserver \<times> 'sql dbs_out list" where
  "add_record_task ty x w =
     (let (d, os) = db_step (Add_task STORE_QUERY ty x) (gDBRecordDatabase w) in (w\<lparr>gDBRecordDatabase := d\<rparr>, map Record_out os))"

definition quest_queryHeroInfo :: "int \<Rightarrow> int \<Rightarrow> int \<Rightarrow> 'sql dbserver \<Rightarrow> 'sql dbserver \<times> 'sql dbs_out list" where
  "quest_queryHeroInfo a t gs = add_char_task QUERY_HERO_INFO (Query_hero a t gs)"

definition saveSqlData :: "'sql \<Rightarrow> 'sql dbserver \<Rightarrow> 'sql dbserver \<times> 'sql dbs_out list" where
  "saveSqlData sql = add_char_task SAVE_HERO_INFO (Save_sql sql)"

definition saveSqlRecord :: "'sql \<Rightarrow> 'sql dbserver \<Rightarrow> 'sql dbserver \<times> 'sql dbs_out list" where
  "saveSqlRecord sql = add_record_task SAVE_RECORD (Record_sql sql)"

text \<open>
  The callback of the query for a player.  No result (\<^verbatim>\<open>r == NULL\<close>, the query failed) and an empty result are
  answered alike: a new hero is needed.
\<close>

definition on_query_hero :: "int \<Rightarrow> int \<Rightarrow> int \<Rightarrow> db_rows option \<Rightarrow> 'sql dbserver \<Rightarrow> 'sql dbserver \<times> 'sql dbs_out list" where
  "on_query_hero a t gs r w =
     (case r of
        Some (Character_rows rows) \<Rightarrow>
          (case dbDoQueryHeroInfo rows of
             Some m \<Rightarrow> add_char_task QUERY_HERO_INFO (Query_deals a t gs m) w
           | None \<Rightarrow> (w, sendMessage Need_create_hero t gs w))
      | _ \<Rightarrow> (w, sendMessage Need_create_hero t gs w))"

definition on_query_deals :: "int \<Rightarrow> int \<Rightarrow> MsgHeroDataDB2GS \<Rightarrow> db_rows option \<Rightarrow> 'sql dbserver \<Rightarrow> 'sql dbserver \<times> 'sql dbs_out list" where
  "on_query_deals t gs m r w =
     (w, sendMessage (Hero_data (case r of Some (Deal_rows rows) \<Rightarrow> dbDoQueryHeroDeals rows m | _ \<Rightarrow> m)) t gs w)"

definition db_callback :: "('sql db_work, db_rows) db_out \<Rightarrow> 'sql dbserver \<Rightarrow> 'sql dbserver \<times> 'sql dbs_out list" where
  "db_callback x w =
     (case x of
        Called (Query_hero a t gs) r ok \<Rightarrow> on_query_hero a t gs r w
      | Called (Query_deals a t gs m) r ok \<Rightarrow> on_query_deals t gs m r w
      | _ \<Rightarrow> (w, []))"

section \<open>The stop\<close>

definition saveToClose :: "int \<Rightarrow> 'sql dbserver \<Rightarrow> 'sql dbserver \<times> 'sql dbs_out list" where
  "saveToClose gs w =
     (if receive_close_msg w then (w, [])
      else let w1 = w\<lparr>save_to_close := True, receive_close_msg := True\<rparr> in (w1, sendMessage Save_all_heroes 0 gs w1))"

definition onSaveToClose :: "'sql dbserver \<Rightarrow> 'sql dbserver" where
  "onSaveToClose w =
     w\<lparr>gDBCharDatabase := setObjState wait_stop (gDBCharDatabase w),
       gDBRecordDatabase := setObjState wait_stop (gDBRecordDatabase w), save_to_close := False\<rparr>"

definition dbs_checkStop :: "'sql dbserver \<Rightarrow> 'sql dbserver" where
  "dbs_checkStop w =
     (if isObjStop (gDBCharDatabase w) \<and> isObjStop (gDBRecordDatabase w) then w\<lparr>dbs_stop := True\<rparr> else w)"

section \<open>Steps\<close>

text \<open>
  The main thread handles messages and events when it is in neither engine; the threads of the engines run
  freely.
\<close>

datatype 'sql dbs_event =
    Register_game int int bool
  | Req_hero int int int
  | Save_data int 'sql
  | Save_record int 'sql
  | Save_all int
  | Game_close int
  | Close_time
  | Check_stop
  | Run_chars
  | Run_records
  | Char_thread nat bool "db_rows outcome"
  | Record_thread nat bool "db_rows outcome"

definition main_idle :: "'sql dbserver \<Rightarrow> bool" where
  "main_idle w \<longleftrightarrow> db_main (gDBCharDatabase w) = Main_idle \<and> db_main (gDBRecordDatabase w) = Main_idle"

fun handle :: "'sql dbs_event \<Rightarrow> 'sql dbserver \<Rightarrow> 'sql dbserver \<times> 'sql dbs_out list" where
  "handle (Register_game p n ok) w = db_parseGameRegister p n ok w"
| "handle (Req_hero p a t) w = quest_queryHeroInfo a t (m_game_id w p) w"
| "handle (Save_data p sql) w = saveSqlData sql w"
| "handle (Save_record p sql) w = saveSqlRecord sql w"
| "handle (Save_all p) w = saveToClose (m_game_id w p) w"
| "handle (Game_close p) w = (removeGame p w, [])"
| "handle Close_time w = (if save_to_close w then onSaveToClose w else w, [])"
| "handle Check_stop w = (dbs_checkStop w, [])"
| "handle _ w = (w, [])"

definition run_chars :: "('sql db_work, db_rows) db_event \<Rightarrow> 'sql dbserver \<Rightarrow> 'sql dbserver \<times> 'sql dbs_out list" where
  "run_chars e w =
     (let (d, os) = db_step e (gDBCharDatabase w); w1 = w\<lparr>gDBCharDatabase := d\<rparr>
      in (case os of
            [x] \<Rightarrow> let (w2, ps) = db_callback x w1 in (w2, map Char_out os @ ps)
          | _ \<Rightarrow> (w1, map Char_out os)))"

text \<open>The callbacks of the engine for records do nothing (\<^verbatim>\<open>dbCallNothing\<close>).\<close>

definition run_records :: "('sql db_work, db_rows) db_event \<Rightarrow> 'sql dbserver \<Rightarrow> 'sql dbserver \<times> 'sql dbs_out list" where
  "run_records e w = (let (d, os) = db_step e (gDBRecordDatabase w) in (w\<lparr>gDBRecordDatabase := d\<rparr>, map Record_out os))"

fun dbs_step :: "'sql dbs_event \<Rightarrow> 'sql dbserver \<Rightarrow> 'sql dbserver \<times> 'sql dbs_out list" where
  "dbs_step Run_chars w = (if db_main (gDBRecordDatabase w) = Main_idle then run_chars Main_run w else (w, []))"
| "dbs_step Run_records w = (if db_main (gDBCharDatabase w) = Main_idle then run_records Main_run w else (w, []))"
| "dbs_step (Char_thread i up oc) w = run_chars (Thread_run i up oc) w"
| "dbs_step (Record_thread i up oc) w = run_records (Thread_run i up oc) w"
| "dbs_step e w = (if main_idle w then handle e w else (w, []))"

definition dbs_start :: "nat \<Rightarrow> nat \<Rightarrow> 'sql dbserver" where
  "dbs_start n m =
     \<lparr>gDBCharDatabase = initDatabase n, gDBRecordDatabase = initDatabase m, m_Games = (\<lambda>_. None), m_game_id = (\<lambda>_. 0),
      receive_close_msg = False, save_to_close = False, dbs_stop = False\<rparr>"


section \<open>The engines within the server\<close>

definition char_outs :: "'sql dbs_out list \<Rightarrow> ('sql db_work, db_rows) db_out list" where
  "char_outs os = concat (map (\<lambda>x. case x of Char_out y \<Rightarrow> [y] | _ \<Rightarrow> []) os)"

lemma char_outs_simps [simp]:
  "char_outs [] = []" "char_outs (os @ ps) = char_outs os @ char_outs ps" "char_outs (map Char_out ys) = ys"
  "char_outs (map Record_out zs) = []" "char_outs (Char_out y # os) = y # char_outs os"
  "char_outs (Answer p m f # os) = char_outs os" "char_outs (Close_game p # os) = char_outs os"
  "char_outs (Record_out z # os) = char_outs os"
  by (induction ys; simp add: char_outs_def) (induction zs; simp add: char_outs_def)+

lemma char_outs_sendMessage [simp]: "char_outs (sendMessage m f gs w) = []"
  by (simp add: sendMessage_def split: option.splits)

fun work_type :: "'sql db_work \<Rightarrow> int" where
  "work_type (Query_hero a t gs) = QUERY_HERO_INFO"
| "work_type (Query_deals a t gs m) = QUERY_HERO_INFO"
| "work_type (Save_sql sql) = SAVE_HERO_INFO"
| "work_type (Record_sql sql) = SAVE_RECORD"

text \<open>What the server does to the engine for players is a run of the engine, with every task under its type.\<close>

definition char_run ::
  "'sql dbserver \<Rightarrow> 'sql dbs_out list \<Rightarrow> 'sql dbserver \<Rightarrow> bool" where
  "char_run w os w' \<longleftrightarrow>
     (\<exists>es. run_steps db_step es (gDBCharDatabase w) = (gDBCharDatabase w', char_outs os) \<and>
        (\<forall>k ty x. Add_task k ty x \<in> set es \<longrightarrow> ty = work_type x))"

lemma char_run_same: "gDBCharDatabase w' = gDBCharDatabase w \<Longrightarrow> char_outs os = [] \<Longrightarrow> char_run w os w'"
  unfolding char_run_def by (rule exI [of _ "[]"]) simp

lemma char_run_trans: "char_run w os w1 \<Longrightarrow> char_run w1 ps w2 \<Longrightarrow> char_run w (os @ ps) w2"
  unfolding char_run_def
  by (elim exE conjE, rule_tac x = "es @ esa" in exI) (auto simp: run_steps_append)

lemma list_cases2: "(xs = [] \<Longrightarrow> R) \<Longrightarrow> (\<And>x. xs = [x] \<Longrightarrow> R) \<Longrightarrow> (\<And>x y ys. xs = x # y # ys \<Longrightarrow> R) \<Longrightarrow> R"
  by (metis list.exhaust)

lemma char_run_step:
  "db_step e (gDBCharDatabase w) = (d, ys) \<Longrightarrow> (\<And>k ty x. e = Add_task k ty x \<Longrightarrow> ty = work_type x) \<Longrightarrow>
     char_run w (map Char_out ys) (w\<lparr>gDBCharDatabase := d\<rparr>)"
  unfolding char_run_def by (rule exI [of _ "[e]"]) auto

lemma add_char_task_run: "add_char_task ty x w = (w', os) \<Longrightarrow> ty = work_type x \<Longrightarrow> char_run w os w'"
proof -
  assume a: "add_char_task ty x w = (w', os)" "ty = work_type x"
  obtain d ys where s: "db_step (Add_task STORE_QUERY ty x) (gDBCharDatabase w) = (d, ys)" by fastforce
  then have "w' = w\<lparr>gDBCharDatabase := d\<rparr>" "os = map Char_out ys" using a(1) by (simp_all add: add_char_task_def)
  then show ?thesis using char_run_step [OF s] a(2) by simp
qed

lemma db_callback_run: "db_callback x w = (w', os) \<Longrightarrow> char_run w os w'"
  by (auto simp: db_callback_def on_query_hero_def on_query_deals_def
      split: db_out.splits db_work.splits option.splits db_rows.splits
      intro: char_run_same add_char_task_run)

lemma run_chars_run:
  assumes "run_chars e w = (w', os)" "\<And>k ty x. e = Add_task k ty x \<Longrightarrow> ty = work_type x"
  shows "char_run w os w'"
proof -
  obtain d ys where s: "db_step e (gDBCharDatabase w) = (d, ys)" by fastforce
  have one: "char_run w (map Char_out ys) (w\<lparr>gDBCharDatabase := d\<rparr>)" by (rule char_run_step [OF s assms(2)])
  show ?thesis
  proof (cases "\<exists>y. ys = [y]")
    case True
    then obtain y w2 ps where y: "ys = [y]" "db_callback y (w\<lparr>gDBCharDatabase := d\<rparr>) = (w2, ps)" by fastforce
    then show ?thesis using assms(1) s char_run_trans [OF one db_callback_run [OF y(2)]] by (simp add: run_chars_def)
  next
    case False
    then have "w' = w\<lparr>gDBCharDatabase := d\<rparr> \<and> os = map Char_out ys"
      using assms(1) s by (cases ys rule: list_cases2) (auto simp: run_chars_def Let_def)
    then show ?thesis using one by simp
  qed
qed

lemma dbs_step_run: "dbs_step e w = (w', os) \<Longrightarrow> char_run w os w'"
proof (cases e)
  case Close_time
  assume "dbs_step e w = (w', os)"
  moreover have "char_run w [] (onSaveToClose w)" if "main_idle w"
    unfolding char_run_def by (rule exI [of _ "[Set_obj_state wait_stop]"]) (use that in \<open>simp add: onSaveToClose_def main_free_def main_idle_def\<close>)
  ultimately show ?thesis using Close_time by (auto simp: char_run_same split: if_splits)
qed (auto simp: quest_queryHeroInfo_def saveSqlData_def saveSqlRecord_def add_record_task_def run_records_def db_parseGameRegister_def
       addGame_def removeGame_def saveToClose_def dbs_checkStop_def Let_def split: if_splits prod.splits
       intro: char_run_same run_chars_run add_char_task_run)

lemma dbs_run_char: "run_steps dbs_step es w = (w', os) \<Longrightarrow> char_run w os w'"
proof (induction es arbitrary: w os)
  case (Cons e es)
  then obtain w1 os1 os2 where "dbs_step e w = (w1, os1)" "run_steps dbs_step es w1 = (w', os2)" "os = os1 @ os2"
    by (auto split: prod.splits)
  then show ?case using char_run_trans dbs_step_run Cons.IH by metis
qed (simp add: char_run_same)

text \<open>
  C19.  The statements that game servers send to be stored are executed in the order in which they arrive: in
  every run of the database server, whatever connections to MySQL are lost, the saves that have been executed
  to their end are a prefix of those that were accepted, and so are those whose result has been received.
\<close>

definition is_save :: "'sql db_work \<Rightarrow> bool" where
  "is_save x = (case x of Save_sql _ \<Rightarrow> True | _ \<Rightarrow> False)"

theorem saves_in_order:
  assumes "run_steps dbs_step es (dbs_start n m) = (w, os)"
  shows "prefix (filter is_save (finished (char_outs os))) (filter is_save (queued (char_outs os))) \<and>
    prefix (filter is_save (called (char_outs os))) (filter is_save (queued (char_outs os)))"
proof -
  obtain ces where ces: "run_steps db_step ces (initDatabase n) = (gDBCharDatabase w, char_outs os)"
    "\<And>k ty x. Add_task k ty x \<in> set ces \<Longrightarrow> ty = work_type x"
    using dbs_run_char [OF assms] by (auto simp: char_run_def dbs_start_def)
  show ?thesis
    by (rule tasks_in_turn [OF ces(1), where ty = SAVE_HERO_INFO]) (auto dest!: ces(2) simp: is_save_def split: db_work.splits)
qed


section \<open>Answers\<close>

text \<open>
  What an output presupposes: a query for deals is made for a player that the query for the account returned,
  and data is sent for a query for deals that has been called back.
\<close>

definition same_player :: "MsgHeroDataDB2GS \<Rightarrow> MsgHeroDataDB2GS \<Rightarrow> bool" where
  "same_player m m' \<longleftrightarrow> db_account m = db_account m'"

definition grounded :: "'sql dbs_out set \<Rightarrow> 'sql dbs_out \<Rightarrow> bool" where
  "grounded R x \<longleftrightarrow>
     (case x of
        Char_out (Queued (Query_deals a t gs m)) \<Rightarrow>
          \<exists>rows ok. Char_out (Called (Query_hero a t gs) (Some (Character_rows rows)) ok) \<in> R \<and> dbDoQueryHeroInfo rows = Some m
      | Answer p (Hero_data m) t \<Rightarrow>
          \<exists>a gs m' r ok. Char_out (Called (Query_deals a t gs m') r ok) \<in> R \<and> same_player m m'
      | _ \<Rightarrow> True)"

lemma grounded_simps [simp]:
  "grounded R (Answer p Need_create_hero f)" "grounded R (Answer p Save_all_heroes f)" "grounded R (Close_game p)"
  "grounded R (Record_out z)" "grounded R (Char_out (Ran x e))" "grounded R (Char_out (Called x r ok))"
  "grounded R (Char_out (Queued (Query_hero a t gs)))" "grounded R (Char_out (Queued (Save_sql sql)))"
  "grounded R (Char_out (Queued (Record_sql sql)))"
  by (simp_all add: grounded_def)

lemma grounded_data:
  "grounded R (Answer p (Hero_data m) t) \<longleftrightarrow>
     (\<exists>a gs m' r ok. Char_out (Called (Query_deals a t gs m') r ok) \<in> R \<and> same_player m m')"
  by (simp add: grounded_def)

lemma grounded_mono: "grounded R x \<Longrightarrow> R \<subseteq> S \<Longrightarrow> grounded S x"
  by (auto simp: grounded_def split: dbs_out.splits db_out.splits db_work.splits db_answer.splits) blast+

lemma add_task_outs: "db_step (Add_task k ty x) d = (d', ys) \<Longrightarrow> set ys \<subseteq> {Queued x}"
  by (auto simp: addKindTask_def split: if_splits)

lemma run_outs: "db_step e d = (d', ys) \<Longrightarrow> e = Main_run \<or> (\<exists>i up oc. e = Thread_run i up oc) \<Longrightarrow> Queued x \<notin> set ys"
  by (auto simp: Database_run_def thread_step_def thread_move_def Let_def
      split: main_pc.splits list.splits if_splits thread_pc.splits option.splits prod.splits)

lemma add_char_task_grounded:
  "add_char_task ty x w = (w', os) \<Longrightarrow> grounded R (Char_out (Queued x)) \<Longrightarrow> \<forall>y \<in> set os. grounded R y"
  using add_task_outs [of STORE_QUERY ty x "gDBCharDatabase w"]
  by (fastforce simp: add_char_task_def simp del: db_step.simps split: prod.splits)

lemma sendMessage_cases: "sendMessage msg f gs w = [] \<or> (\<exists>p. sendMessage msg f gs w = [Answer p msg f])"
  by (simp add: sendMessage_def split: option.split)

lemma grounded_none: "\<forall>y \<in> set (sendMessage Need_create_hero f gs w). grounded R y"
  using sendMessage_cases [of Need_create_hero f gs w] by (elim disjE exE) simp_all

lemma db_callback_grounded:
  assumes "db_callback x w = (w', os)"
  shows "\<forall>y \<in> set os. grounded {Char_out x} y"
proof (cases "\<exists>z r ok. x = Called z r ok")
  case True
  then obtain z r ok where x: "x = Called z r ok" by blast
  show ?thesis
  proof (cases z)
    case (Query_hero a t gs)
    show ?thesis
    proof (cases "\<exists>rows m. r = Some (Character_rows rows) \<and> dbDoQueryHeroInfo rows = Some m")
      case True
      then obtain rows m where r: "r = Some (Character_rows rows)" "dbDoQueryHeroInfo rows = Some m" by blast
      then show ?thesis
        using assms add_char_task_grounded [of QUERY_HERO_INFO "Query_deals a t gs m" w w' os "{Char_out x}"]
        by (simp add: db_callback_def x Query_hero on_query_hero_def grounded_def)
    next
      case False
      then have "os = sendMessage Need_create_hero t gs w"
        using assms
        by (cases r; (cases "the r")?; auto simp: db_callback_def x Query_hero on_query_hero_def split: option.split_asm)
      then show ?thesis using grounded_none by simp
    qed
  next
    case (Query_deals a t gs m)
    define m' where "m' = (case r of Some (Deal_rows rows) \<Rightarrow> dbDoQueryHeroDeals rows m | _ \<Rightarrow> m)"
    have "same_player m' m" by (simp add: m'_def same_player_def dbDoQueryHeroDeals_def split: option.split db_rows.split)
    then have "grounded {Char_out x} (Answer p (Hero_data m') t)" for p
      unfolding grounded_data x Query_deals by blast
    moreover have "os = sendMessage (Hero_data m') t gs w"
      using assms unfolding m'_def by (auto simp: db_callback_def x Query_deals on_query_deals_def)
    ultimately show ?thesis using sendMessage_cases [of "Hero_data m'" t gs w] by (elim disjE exE) simp_all
  qed (use assms in \<open>auto simp: db_callback_def x\<close>)
qed (use assms in \<open>auto simp: db_callback_def split: db_out.splits\<close>)

lemma run_chars_grounded:
  assumes "run_chars e w = (w', os)" "e = Main_run \<or> (\<exists>i up oc. e = Thread_run i up oc)"
  shows "\<forall>y \<in> set os. grounded (set os) y"
proof -
  obtain d ys where s: "db_step e (gDBCharDatabase w) = (d, ys)" by fastforce
  have own: "grounded R y" if "y \<in> set (map Char_out ys)" for R y
    using that run_outs [OF s assms(2)] by (auto simp: grounded_def split: db_out.splits db_work.splits)
  show ?thesis
  proof (cases "\<exists>y. ys = [y]")
    case True
    then obtain y w2 ps where y: "ys = [y]" "db_callback y (w\<lparr>gDBCharDatabase := d\<rparr>) = (w2, ps)" by fastforce
    then have "os = Char_out y # ps" using assms(1) s by (simp add: run_chars_def)
    then show ?thesis using db_callback_grounded [OF y(2)] own y(1) grounded_mono [of "{Char_out y}" _ "set os"] by auto
  next
    case False
    then have "os = map Char_out ys" using assms(1) s by (cases ys rule: list_cases2) (auto simp: run_chars_def Let_def)
    then show ?thesis using own by blast
  qed
qed

lemma dbs_step_grounded: "dbs_step e w = (w', os) \<Longrightarrow> \<forall>y \<in> set os. grounded (set os) y"
proof (cases "\<exists>e'. (e' = Main_run \<or> (\<exists>i up oc. e' = Thread_run i up oc)) \<and> run_chars e' w = (w', os)")
  case False
  assume "dbs_step e w = (w', os)"
  with False show ?thesis
    by (cases e)
       (auto simp: quest_queryHeroInfo_def saveSqlData_def saveSqlRecord_def add_record_task_def run_records_def db_parseGameRegister_def
         saveToClose_def sendMessage_def grounded_def Let_def split: if_splits prod.splits option.splits
         dest!: add_char_task_grounded [where R = "set os"])
qed (use run_chars_grounded in blast)

lemma dbs_run_grounded: "run_steps dbs_step es w = (w', os) \<Longrightarrow> y \<in> set os \<Longrightarrow> grounded (set os) y"
proof (induction es arbitrary: w os)
  case (Cons e es)
  then obtain w1 os1 os2 where s: "dbs_step e w = (w1, os1)" "run_steps dbs_step es w1 = (w', os2)" "os = os1 @ os2"
    by (auto split: prod.splits)
  then show ?case
    using Cons.IH [OF s(2)] dbs_step_grounded [OF s(1)] Cons.prems(2) grounded_mono [of "set os1" y "set os"] grounded_mono [of "set os2" y "set os"]
    by auto
qed simp

lemma in_char_outs: "y \<in> set (char_outs os) \<longleftrightarrow> Char_out y \<in> set os"
  by (force simp: char_outs_def split: dbs_out.splits)

lemma called_was_queued:
  assumes "run_steps dbs_step es (dbs_start n m) = (w, os)" "Char_out (Called x r ok) \<in> set os"
  shows "Char_out (Queued x) \<in> set os"
proof -
  obtain ces where "run_steps db_step ces (initDatabase n) = (gDBCharDatabase w, char_outs os)"
    using dbs_run_char [OF assms(1)] by (auto simp: char_run_def dbs_start_def)
  then have "mset (queued (char_outs os)) = mset (called (char_outs os)) + mset (under_way (gDBCharDatabase w))"
    using tasks_conserved by blast
  moreover have "x \<in> set (called (char_outs os))" using assms(2) by (force simp: called_def in_char_outs [symmetric])
  ultimately have "x \<in> set (queued (char_outs os))" by (metis set_mset_mset union_iff)
  then have "Queued x \<in> set (char_outs os)" by (auto simp: queued_def split: db_out.splits)
  then show ?thesis by (simp add: in_char_outs)
qed



section \<open>Runs\<close>

text \<open>Steps of the thread \<open>i\<close> of the engine for players: from its start, and from one execution to the next.\<close>

definition char_steps :: "nat \<Rightarrow> nat \<Rightarrow> db_rows \<Rightarrow> string dbs_event list" where
  "char_steps n i rows = replicate n (Char_thread i True (Exec_ok rows))"

definition sample_dbs_events :: "string dbs_event list" where
  "sample_dbs_events =
     [Register_game 1 5 True, Req_hero 1 42 9] @ char_steps 8 0 (Character_rows [save_row sample_hero]) @ replicate 3 Run_chars @
     char_steps 4 0 (Deal_rows []) @ replicate 4 Run_chars"

lemma sample_hero_row: "c_account_id (save_row sample_hero) = 42"
  by (simp add: save_row_def sample_hero_def Let_def)

lemma sample_dbs_outputs:
  "snd (run_steps dbs_step sample_dbs_events (dbs_start 0 0)) =
     (let m = the (dbDoQueryHeroInfo [save_row sample_hero])
      in [Char_out (Queued (Query_hero 42 9 5)), Char_out (Ran (Query_hero 42 9 5) Ran_done),
          Char_out (Called (Query_hero 42 9 5) (Some (Character_rows [save_row sample_hero])) True),
          Char_out (Queued (Query_deals 42 9 5 m)), Char_out (Ran (Query_deals 42 9 5 m) Ran_done),
          Char_out (Called (Query_deals 42 9 5 m) (Some (Deal_rows [])) True), Answer 1 (Hero_data m) 9])"
  by code_simp


definition sample_saves :: "string dbs_event list" where
  "sample_saves = [Register_game 1 5 True, Save_data 1 ''s1'', Save_data 1 ''s2''] @ char_steps 11 0 No_rows"

lemma sample_saves_done:
  "filter is_save (finished (char_outs (snd (run_steps dbs_step sample_saves (dbs_start 0 0))))) = [Save_sql ''s1'', Save_sql ''s2'']"
  by code_simp

theorem saves_in_order_witness:
  "case run_steps dbs_step sample_saves (dbs_start 0 0) of
     (w, os) \<Rightarrow> prefix [Save_sql ''s1'', Save_sql ''s2''] (filter is_save (queued (char_outs os)))"
  using saves_in_order [OF surjective_pairing, where es = sample_saves and n = 0 and m = 0]
  by (simp add: sample_saves_done case_prod_beta)


section \<open>What goes wrong\<close>

text \<open>
  A query that fails is answered like one for an account without a player: the game server is told to create a
  new hero, which its next save stores over the existing one.
\<close>

lemma failed_query_creates:
  "case run_steps dbs_step
     ([Register_game 1 5 True, Req_hero 1 42 9] @ char_steps 6 0 No_rows @
      [Char_thread 0 True (Exec_fail (Bad_query 1205) None)] @ char_steps 1 0 No_rows @ replicate 3 Run_chars)
     (dbs_start 0 0 :: string dbserver) of
     (w, os) \<Rightarrow> drop 2 os = [Char_out (Called (Query_hero 42 9 5) None False), Answer 1 Need_create_hero 9]"
  by code_simp

text \<open>
  Saves and queries have a thread each: a query that arrives after a save of the same player can be executed
  before it, and then reads the player as he was.
\<close>

lemma query_overtakes_save:
  "case run_steps dbs_step
     ([Register_game 1 5 True, Save_data 1 ''save of 42'', Req_hero 1 42 9] @ char_steps 7 1 (Character_rows []) @ char_steps 7 0 No_rows)
     (dbs_start 0 0) of
     (w, os) \<Rightarrow> os = [Char_out (Queued (Save_sql ''save of 42'')), Char_out (Queued (Query_hero 42 9 5)),
       Char_out (Ran (Query_hero 42 9 5) Ran_done), Char_out (Ran (Save_sql ''save of 42'') Ran_done)]"
  by code_simp

text \<open>
  When the time of the stop has come, what is still sent to be stored is dropped without a word; the time starts
  with the first game server that has saved its heroes, and only this one is asked for a last save.
\<close>

lemma late_save_dropped:
  assumes "main_idle w" "save_to_close w"
  shows "snd (run_steps dbs_step [Close_time, Save_data p sql] w) = []"
  using assms by (simp add: main_idle_def onSaveToClose_def setObjState_def saveSqlData_def add_char_task_def addKindTask_def
      isObjState_def main_free_def)

lemma only_one_asked:
  assumes "receive_close_msg w"
  shows "saveToClose gs w = (w, [])"
  using assms by (simp add: saveToClose_def)

end
