(* ===== verification/Server_Frame.thy ===== *)
theory Server_Frame
  imports DreamHeroManager DBServer Login Gate
begin

text \<open>
  The frame loop that the four servers share (\<^verbatim>\<open>src/common/server_frame.cpp\<close>), its clock and its stop, and the
  part that each server plays in the stop.  The signal handler may run at any moment; it only sets a flag that the
  loop reads at the end of a frame, so that signals come between frames.
\<close>

section \<open>The loop\<close>

record 's ServerFrame =
  sf_stop :: bool
  sf_wait_stop :: bool
  g_wait_stop :: bool
  sf_last_server_time :: int
  g_server_time :: int
  sf_server :: 's

text \<open>
  What a server supplies: \<^verbatim>\<open>runOnce\<close>, \<^verbatim>\<open>setStop\<close> and \<^verbatim>\<open>checkStop\<close>, the last with the value of \<^verbatim>\<open>_stop\<close> that it leaves.
  The first argument is the time in seconds.
\<close>

record ('s, 'o) server_hooks =
  run_once :: "int \<Rightarrow> int \<Rightarrow> 's \<Rightarrow> 's \<times> 'o list"
  set_stop :: "int \<Rightarrow> 's \<Rightarrow> 's \<times> 'o list"
  check_stop :: "int \<Rightarrow> 's \<Rightarrow> 's \<times> 'o list \<times> bool"

datatype 'o frame_out = Ran_once int | Stop_set | Stop_checked bool | Out 'o

text \<open>A signal with its number, and one turn of the loop, with the clock in milliseconds and in seconds.\<close>

datatype frame_event = Signal int | Frame int int

definition frame_init :: "int \<Rightarrow> 's \<Rightarrow> 's ServerFrame" where
  "frame_init ms s =
     \<lparr>sf_stop = False, sf_wait_stop = False, g_wait_stop = False, sf_last_server_time = wrap_u32 ms, g_server_time = ms div 1000, sf_server = s\<rparr>"

text \<open>Of the signals that are caught (SIGINT, SIGHUP, SIGQUIT) only the last, with the number 3, has an effect.\<close>

definition signal_handle :: "int \<Rightarrow> 's ServerFrame \<Rightarrow> 's ServerFrame" where
  "signal_handle n f = (if n = 3 then f\<lparr>g_wait_stop := True\<rparr> else f)"

definition frame_run_once :: "('s, 'o) server_hooks \<Rightarrow> int \<Rightarrow> 's ServerFrame \<Rightarrow> 's ServerFrame \<times> 'o frame_out list" where
  "frame_run_once h time_spawn f =
     (if time_spawn \<noteq> 0
      then let (s, os) = run_once h (g_server_time f) (wrap_u32 time_spawn) (sf_server f)
           in (f\<lparr>sf_server := s\<rparr>, Ran_once (wrap_u32 time_spawn) # map Out os)
      else (f, []))"

definition frame_check_stop :: "('s, 'o) server_hooks \<Rightarrow> 's ServerFrame \<Rightarrow> 's ServerFrame \<times> 'o frame_out list" where
  "frame_check_stop h f =
     (if sf_wait_stop f
      then let (s, os, b) = check_stop h (g_server_time f) (sf_server f)
           in (f\<lparr>sf_server := s, sf_stop := b\<rparr>, Stop_checked b # map Out os)
      else (f, []))"

definition signalStop :: "('s, 'o) server_hooks \<Rightarrow> 's ServerFrame \<Rightarrow> 's ServerFrame \<times> 'o frame_out list" where
  "signalStop h f =
     (if g_wait_stop f \<and> g_wait_stop f \<noteq> sf_wait_stop f
      then let (s, os) = set_stop h (g_server_time f) (sf_server f)
           in (f\<lparr>sf_server := s, sf_wait_stop := True\<rparr>, Stop_set # map Out os)
      else (f, []))"

text \<open>\<^verbatim>\<open>_last_server_time\<close> has 32 bits, the clock and the difference 64.\<close>

definition frame_turn :: "('s, 'o) server_hooks \<Rightarrow> int \<Rightarrow> int \<Rightarrow> 's ServerFrame \<Rightarrow> 's ServerFrame \<times> 'o frame_out list" where
  "frame_turn h ms secs f =
     (if sf_stop f then (f, [])
      else let time_spawn = ms - sf_last_server_time f;
               f1 = f\<lparr>sf_last_server_time := wrap_u32 ms, g_server_time := secs\<rparr>;
               (f2, os) = frame_run_once h time_spawn f1;
               (f3, ps) = frame_check_stop h f2;
               (f4, qs) = signalStop h f3
           in (f4, os @ ps @ qs))"

fun frame_step :: "('s, 'o) server_hooks \<Rightarrow> frame_event \<Rightarrow> 's ServerFrame \<Rightarrow> 's ServerFrame \<times> 'o frame_out list" where
  "frame_step h (Signal n) f = (signal_handle n f, [])"
| "frame_step h (Frame ms secs) f = frame_turn h ms secs f"

section \<open>The clock\<close>

definition elapsed :: "'o frame_out list \<Rightarrow> int" where
  "elapsed os = sum_list (map (\<lambda>x. case x of Ran_once d \<Rightarrow> d | _ \<Rightarrow> 0) os)"

lemma elapsed_simps [simp]:
  "elapsed [] = 0" "elapsed (os @ ps) = elapsed os + elapsed ps" "elapsed (map Out xs) = 0"
  "elapsed (Ran_once d # os) = d + elapsed os" "elapsed (Stop_set # os) = elapsed os" "elapsed (Stop_checked b # os) = elapsed os"
  by (simp_all add: elapsed_def comp_def)

lemma stop_parts:
  "signalStop h f = (f1, os) \<Longrightarrow> elapsed os = 0 \<and> sf_last_server_time f1 = sf_last_server_time f \<and> sf_stop f1 = sf_stop f"
  "frame_check_stop h f = (f1, os) \<Longrightarrow> elapsed os = 0 \<and> sf_last_server_time f1 = sf_last_server_time f"
  "frame_run_once h d f = (f1, os) \<Longrightarrow> elapsed os = (if d = 0 then 0 else wrap_u32 d) \<and> sf_last_server_time f1 = sf_last_server_time f"
  by (auto simp: signalStop_def frame_check_stop_def frame_run_once_def split: if_splits prod.splits)

lemma frame_turn_time:
  assumes "frame_turn h ms secs f = (f1, os)" "\<not> sf_stop f"
  shows "elapsed os = wrap_u32 (ms - sf_last_server_time f) \<and> sf_last_server_time f1 = wrap_u32 ms"
proof -
  let ?f = "f\<lparr>sf_last_server_time := wrap_u32 ms, g_server_time := secs\<rparr>"
  obtain f2 a f3 b f4 c where p: "frame_run_once h (ms - sf_last_server_time f) ?f = (f2, a)" "frame_check_stop h f2 = (f3, b)"
      "signalStop h f3 = (f4, c)" by (meson surj_pair)
  then have "f1 = f4" "os = a @ b @ c" using assms by (simp_all add: frame_turn_def Let_def)
  then show ?thesis using stop_parts(3) [OF p(1)] stop_parts(2) [OF p(2)] stop_parts(1) [OF p(3)]
    by (simp add: wrap_u32_def)
qed

text \<open>
  The 32 bits of the last time do no harm as long as a frame takes less than 49 days: what the server is told has
  passed is what has passed.
\<close>

lemma frame_time_exact:
  assumes "frame_turn h ms secs f = (f1, os)" "\<not> sf_stop f" "sf_last_server_time f = wrap_u32 t" "t \<le> ms" "ms - t < 4294967296"
  shows "elapsed os = ms - t"
proof -
  have "wrap_u32 (ms - wrap_u32 t) = wrap_u32 (ms - t)" by (simp add: wrap_u32_def mod_diff_right_eq)
  then show ?thesis using frame_turn_time [OF assms(1,2)] assms(3-5) by (simp add: wrap_u32_id in_u32_def)
qed

text \<open>The times of a run, each after the one before by less than 49 days.\<close>

fun clock_runs :: "int \<Rightarrow> frame_event list \<Rightarrow> bool" where
  "clock_runs t [] = True"
| "clock_runs t (Signal n # es) = clock_runs t es"
| "clock_runs t (Frame ms secs # es) \<longleftrightarrow> t \<le> ms \<and> ms - t < 4294967296 \<and> clock_runs ms es"

fun last_clock :: "int \<Rightarrow> frame_event list \<Rightarrow> int" where
  "last_clock t [] = t"
| "last_clock t (Signal n # es) = last_clock t es"
| "last_clock t (Frame ms secs # es) = last_clock ms es"

lemma signal_simps [simp]:
  "sf_last_server_time (signal_handle n f) = sf_last_server_time f" "sf_stop (signal_handle n f) = sf_stop f"
  "sf_wait_stop (signal_handle n f) = sf_wait_stop f" "sf_server (signal_handle n f) = sf_server f"
  "g_wait_stop (signal_handle n f) \<longleftrightarrow> n = 3 \<or> g_wait_stop f"
  by (simp_all add: signal_handle_def)

lemma stopped_stays: "run_steps (frame_step h) es f = (f1, os) \<Longrightarrow> sf_stop f \<Longrightarrow> os = [] \<and> sf_stop f1 \<and> sf_server f1 = sf_server f"
proof (induction es arbitrary: f os)
  case (Cons e es)
  then show ?case by (cases e) (auto simp: frame_turn_def split: prod.splits)
qed simp

lemma frame_clock:
  "run_steps (frame_step h) es f = (f1, os) \<Longrightarrow> sf_last_server_time f = wrap_u32 t \<Longrightarrow> clock_runs t es \<Longrightarrow> \<not> sf_stop f1 \<Longrightarrow>
     elapsed os = last_clock t es - t"
proof (induction es arbitrary: f os t)
  case (Cons e es)
  obtain f2 a b where s: "frame_step h e f = (f2, a)" "run_steps (frame_step h) es f2 = (f1, b)" "os = a @ b"
    using Cons.prems(1) by (auto split: prod.splits)
  have run: "\<not> sf_stop f" using stopped_stays [OF Cons.prems(1)] Cons.prems(4) by blast
  show ?case
  proof (cases e)
    case (Signal n)
    then show ?thesis using Cons.IH [OF s(2), of t] Cons.prems s by auto
  next
    case (Frame ms secs)
    have f: "frame_turn h ms secs f = (f2, a)" using s(1) Frame by simp
    have "elapsed a = ms - t" using frame_time_exact [OF f run Cons.prems(2)] Cons.prems(3) Frame by simp
    moreover have "elapsed b = last_clock ms es - ms"
      using Cons.IH [OF s(2), of ms] frame_turn_time [OF f run] Cons.prems(3,4) Frame by simp
    ultimately show ?thesis using s(3) Frame by simp
  qed
qed simp

text \<open>A clock that is set back by a millisecond makes the servers believe that 49 days have passed.\<close>

lemma clock_set_back:
  assumes "frame_turn h ms secs f = (f1, os)" "\<not> sf_stop f" "sf_last_server_time f = wrap_u32 (ms + 1)"
  shows "elapsed os = 4294967295"
proof -
  have "wrap_u32 (ms - wrap_u32 (ms + 1)) = wrap_u32 (ms - (ms + 1))" by (simp only: wrap_u32_def mod_diff_right_eq)
  then show ?thesis using frame_turn_time [OF assms(1,2)] assms(3) by (simp add: wrap_u32_def)
qed

text \<open>
  The test that is to leave out \<^verbatim>\<open>runOnce\<close> when no time has passed compares a time of 64 bits with one of 32, which
  have not been equal since February 1970.
\<close>

lemma frame_never_skipped:
  assumes "4294967296 \<le> ms" "0 \<le> sf_last_server_time f" "sf_last_server_time f < 4294967296" "\<not> sf_stop f"
  shows "\<exists>d. Ran_once d \<in> set (snd (frame_turn h ms secs f))"
  using assms by (auto simp: frame_turn_def frame_run_once_def Let_def split: prod.split)


section \<open>The stop\<close>

text \<open>
  The phases of a server: running, stopping and stopped.  A frame may run in the first two; \<^verbatim>\<open>setStop\<close> leads from
  the first to the second, \<^verbatim>\<open>checkStop\<close> runs in the second, and leads to the third when it sets \<^verbatim>\<open>_stop\<close>.
\<close>

datatype phase = Running | Stopping | Stopped

fun phase_step :: "phase \<Rightarrow> 'o frame_out \<Rightarrow> phase option" where
  "phase_step Stopped (Ran_once d) = None"
| "phase_step p (Ran_once d) = Some p"
| "phase_step Running Stop_set = Some Stopping"
| "phase_step p Stop_set = None"
| "phase_step Stopping (Stop_checked b) = Some (if b then Stopped else Stopping)"
| "phase_step p (Stop_checked b) = None"
| "phase_step p (Out x) = Some p"

fun phase_run :: "phase \<Rightarrow> 'o frame_out list \<Rightarrow> phase option" where
  "phase_run p [] = Some p"
| "phase_run p (x # xs) = Option.bind (phase_step p x) (\<lambda>q. phase_run q xs)"

definition phase_of :: "'s ServerFrame \<Rightarrow> phase" where
  "phase_of f = (if sf_stop f then Stopped else if sf_wait_stop f then Stopping else Running)"

definition frame_wf :: "'s ServerFrame \<Rightarrow> bool" where
  "frame_wf f \<longleftrightarrow> (sf_stop f \<longrightarrow> sf_wait_stop f) \<and> (sf_wait_stop f \<longrightarrow> g_wait_stop f)"

lemma phase_run_append [simp]: "phase_run p (xs @ ys) = Option.bind (phase_run p xs) (\<lambda>q. phase_run q ys)"
  by (induction xs arbitrary: p) (auto split: bind_splits)

lemma phase_run_outs [simp]: "phase_run p (map Out xs) = Some p"
  by (induction xs) (auto split: phase.split; cases p; simp)+

lemma phase_parts:
  "frame_run_once h d f = (f1, os) \<Longrightarrow> \<not> sf_stop f \<Longrightarrow> phase_run (phase_of f) os = Some (phase_of f1) \<and> frame_wf f1 = frame_wf f \<and> \<not> sf_stop f1"
  "frame_check_stop h f = (f1, os) \<Longrightarrow> \<not> sf_stop f \<Longrightarrow> frame_wf f \<Longrightarrow> phase_run (phase_of f) os = Some (phase_of f1) \<and> frame_wf f1"
  "signalStop h f = (f1, os) \<Longrightarrow> frame_wf f \<Longrightarrow> phase_run (phase_of f) os = Some (phase_of f1) \<and> frame_wf f1"
  by (auto simp: frame_run_once_def frame_check_stop_def signalStop_def phase_of_def frame_wf_def split: if_splits prod.splits)

lemma phase_turn:
  assumes "frame_turn h ms secs f = (f1, os)" "frame_wf f"
  shows "phase_run (phase_of f) os = Some (phase_of f1) \<and> frame_wf f1"
proof (cases "sf_stop f")
  case False
  let ?f = "f\<lparr>sf_last_server_time := wrap_u32 ms, g_server_time := secs\<rparr>"
  obtain f2 a f3 b f4 c where p: "frame_run_once h (ms - sf_last_server_time f) ?f = (f2, a)" "frame_check_stop h f2 = (f3, b)"
      "signalStop h f3 = (f4, c)" by (meson surj_pair)
  have "f1 = f4" "os = a @ b @ c" using assms(1) p False by (simp_all add: frame_turn_def Let_def)
  moreover have "phase_of ?f = phase_of f" "frame_wf ?f" using assms(2) by (simp_all add: phase_of_def frame_wf_def)
  ultimately show ?thesis
    using phase_parts(1) [OF p(1)] phase_parts(2) [OF p(2)] phase_parts(3) [OF p(3)] False by simp
qed (use assms in \<open>simp add: frame_turn_def\<close>)

lemma phase_steps: "run_steps (frame_step h) es f = (f1, os) \<Longrightarrow> frame_wf f \<Longrightarrow> phase_run (phase_of f) os = Some (phase_of f1) \<and> frame_wf f1"
proof (induction es arbitrary: f os)
  case (Cons e es)
  obtain f2 a b where s: "frame_step h e f = (f2, a)" "run_steps (frame_step h) es f2 = (f1, b)" "os = a @ b"
    using Cons.prems(1) by (auto split: prod.splits)
  have "phase_run (phase_of f) a = Some (phase_of f2) \<and> frame_wf f2"
  proof (cases e)
    case (Signal n)
    then show ?thesis using s(1) Cons.prems(2) by (auto simp: phase_of_def frame_wf_def)
  next
    case (Frame ms secs)
    then show ?thesis using s(1) phase_turn [OF _ Cons.prems(2)] by simp
  qed
  then show ?case using Cons.IH [OF s(2)] s(3) by simp
qed simp

lemma only_quit_stops:
  "run_steps (frame_step h) es f = (f1, os) \<Longrightarrow> Signal 3 \<notin> set es \<Longrightarrow> g_wait_stop f1 = g_wait_stop f"
proof (induction es arbitrary: f os)
  case (Cons e es)
  obtain f2 a b where s: "frame_step h e f = (f2, a)" "run_steps (frame_step h) es f2 = (f1, b)" "os = a @ b"
    using Cons.prems(1) by (auto split: prod.splits)
  have "g_wait_stop f2 = g_wait_stop f"
    using s(1) Cons.prems(2) by (cases e) (auto simp: frame_turn_def frame_run_once_def frame_check_stop_def signalStop_def
        Let_def split: if_splits prod.splits)
  then show ?case using Cons.IH [OF s(2)] Cons.prems(2) by simp
qed simp

lemma frame_init_parts: "frame_wf (frame_init ms s)" "phase_of (frame_init ms s) = Running" "\<not> g_wait_stop (frame_init ms s)"
    "sf_last_server_time (frame_init ms s) = wrap_u32 ms" "\<not> sf_stop (frame_init ms s)"
  by (simp_all add: frame_wf_def phase_of_def frame_init_def)

text \<open>
  C38.  The protocol of the stop, whatever the server behind it does.  Over every sequence of frames and signals
  \<^verbatim>\<open>setStop\<close> runs at most once, and only after signal 3; \<^verbatim>\<open>checkStop\<close> runs only after it, and once in every later
  frame until it lets the server stop; and no frame runs after that.  As long as the loop runs, the times that
  the frames were told add up to the time that has passed, although the time of the last frame is kept in 32 bits.
\<close>

theorem frame_protocol:
  assumes "run_steps (frame_step h) es (frame_init t s) = (f, os)"
  shows "phase_run Running os = Some (phase_of f) \<and> (Signal 3 \<notin> set es \<longrightarrow> phase_of f = Running) \<and>
    (clock_runs t es \<and> \<not> sf_stop f \<longrightarrow> elapsed os = last_clock t es - t)"
proof -
  have 1: "phase_run Running os = Some (phase_of f)" "frame_wf f"
    using phase_steps [OF assms frame_init_parts(1)] by (simp_all add: frame_init_parts)
  moreover have "Signal 3 \<notin> set es \<longrightarrow> phase_of f = Running"
    using only_quit_stops [OF assms] 1(2) by (auto simp: frame_init_parts phase_of_def frame_wf_def)
  moreover have "clock_runs t es \<and> \<not> sf_stop f \<longrightarrow> elapsed os = last_clock t es - t"
    using frame_clock [OF assms frame_init_parts(4)] by blast
  ultimately show ?thesis by blast
qed

section \<open>The servers in the loop\<close>

text \<open>A server that stops exactly when \<open>may_stop\<close> holds as it is asked.\<close>

locale stoppable =
  fixes h :: "('s, 'o) server_hooks"
    and may_stop :: "'s \<Rightarrow> bool"
  assumes asked_stop: "check_stop h now s = (s', os, b) \<Longrightarrow> b = may_stop s"
begin

lemma stops_when_asked:
  assumes "sf_wait_stop f" "\<not> sf_stop f"
  shows "sf_stop (fst (frame_turn h ms secs f)) =
    may_stop (sf_server (fst (frame_run_once h (ms - sf_last_server_time f) (f\<lparr>sf_last_server_time := wrap_u32 ms, g_server_time := secs\<rparr>))))"
proof -
  let ?f = "f\<lparr>sf_last_server_time := wrap_u32 ms, g_server_time := secs\<rparr>"
  obtain f2 a f3 b f4 c where p: "frame_run_once h (ms - sf_last_server_time f) ?f = (f2, a)" "frame_check_stop h f2 = (f3, b)"
      "signalStop h f3 = (f4, c)" by (meson surj_pair)
  have "sf_wait_stop f2" using p(1) assms(1) by (auto simp: frame_run_once_def split: if_splits prod.splits)
  then have "sf_stop f3 = may_stop (sf_server f2)"
    using p(2) asked_stop by (auto simp: frame_check_stop_def split: prod.splits)
  then show ?thesis using p assms stop_parts(1) [OF p(3)] by (simp add: frame_turn_def Let_def)
qed

lemma never_stops:
  assumes "\<And>s. \<not> may_stop s"
  shows "\<not> sf_stop f \<Longrightarrow> \<not> sf_stop (fst (run_steps (frame_step h) es f))"
proof (induction es arbitrary: f)
  case (Cons e es)
  have "\<not> sf_stop (fst (frame_step h e f))"
  proof (cases e)
    case (Frame ms secs)
    show ?thesis
    proof (cases "sf_wait_stop f")
      case True
      then show ?thesis using stops_when_asked [OF True Cons.prems] assms Frame by simp
    next
      case False
      then show ?thesis using Cons.prems Frame
        by (auto simp: frame_turn_def frame_run_once_def frame_check_stop_def signalStop_def Let_def split: prod.splits)
    qed
  qed (use Cons.prems in simp)
  then show ?case using Cons.IH by (simp add: case_prod_beta Let_def)
qed simp

end

text \<open>
  The game server saves its heroes, waits for the answer of the database server, saves once more and stops; the
  database server does nothing at the signal and stops when both engines have; the login server stops its engine;
  the gate closes the connections to the game servers, in every frame, but the line that would stop it is
  disabled.  What a frame does is any function here: the steps of the servers are the matter of their theories.
\<close>

definition game_hooks :: "(int \<Rightarrow> int \<Rightarrow> game \<Rightarrow> game \<times> effect list) \<Rightarrow> (game, effect) server_hooks" where
  "game_hooks run =
     \<lparr>run_once = run, set_stop = SaveDreamHeroes,
      check_stop = (\<lambda>now g. if mg_save_all_heroes_ok (g_mgr g) then (let (g1, fx) = SaveDreamHeroes now g in (g1, fx, True)) else (g, [], False))\<rparr>"

definition dbs_hooks :: "(int \<Rightarrow> int \<Rightarrow> 'sql dbserver \<Rightarrow> 'sql dbserver \<times> 'sql dbs_out list) \<Rightarrow> ('sql dbserver, 'sql dbs_out) server_hooks" where
  "dbs_hooks run =
     \<lparr>run_once = run, set_stop = (\<lambda>_ w. (w, [])),
      check_stop = (\<lambda>_ w. (dbs_checkStop w, [], isObjStop (gDBCharDatabase w) \<and> isObjStop (gDBRecordDatabase w)))\<rparr>"

definition login_hooks :: "(int \<Rightarrow> int \<Rightarrow> login \<Rightarrow> login \<times> login_out list) \<Rightarrow> (login, login_out) server_hooks" where
  "login_hooks run = \<lparr>run_once = run, set_stop = (\<lambda>_. login_setStop), check_stop = (\<lambda>_ w. (w, [], login_checkStop w))\<rparr>"

definition gate_hooks :: "(int \<Rightarrow> int \<Rightarrow> gate \<Rightarrow> gate \<times> 'm gate_effect list) \<Rightarrow> (gate, 'm gate_effect) server_hooks" where
  "gate_hooks run =
     \<lparr>run_once = run, set_stop = (\<lambda>_ g. (g, [])), check_stop = (\<lambda>_ g. (g\<lparr>active_games := []\<rparr>, [], False))\<rparr>"

interpretation game_frame: stoppable "game_hooks run" "\<lambda>g. mg_save_all_heroes_ok (g_mgr g)" for run
  by unfold_locales (auto simp: game_hooks_def split: if_splits prod.splits)

interpretation dbs_frame: stoppable "dbs_hooks run" "\<lambda>w. isObjStop (gDBCharDatabase w) \<and> isObjStop (gDBRecordDatabase w)" for run
  by unfold_locales (auto simp: dbs_hooks_def)

interpretation login_frame: stoppable "login_hooks run" login_checkStop for run
  by unfold_locales (auto simp: login_hooks_def)

interpretation gate_frame: stoppable "gate_hooks run" "\<lambda>_. False" for run
  by unfold_locales (auto simp: gate_hooks_def)

text \<open>The gate never stops, whatever signals it gets.\<close>

lemma gate_never_stops: "\<not> sf_stop (fst (run_steps (frame_step (gate_hooks run)) es (frame_init t g)))"
  using gate_frame.never_stops [of "frame_init t g"] by (simp add: frame_init_parts)

text \<open>The game server stops in the first frame after the answer of the database server, and not without it.\<close>

lemma game_waits_for_save:
  assumes "sf_wait_stop f" "\<not> sf_stop f" "\<And>now d g. mg_save_all_heroes_ok (g_mgr (fst (run now d g))) = mg_save_all_heroes_ok (g_mgr g)"
  shows "sf_stop (fst (frame_turn (game_hooks run) ms secs f)) = mg_save_all_heroes_ok (g_mgr (sf_server f))"
proof -
  have "mg_save_all_heroes_ok (g_mgr (sf_server (fst (frame_run_once (game_hooks run) d f')))) =
      mg_save_all_heroes_ok (g_mgr (sf_server f'))" for d f'
    using assms(3) by (auto simp: frame_run_once_def game_hooks_def split: prod.split) (metis fst_conv)+
  then show ?thesis using game_frame.stops_when_asked [OF assms(1,2), of run ms secs] by simp
qed

text \<open>A server that counts its frames, stops after the second check, and is interrupted in vain at first.\<close>

definition sample_hooks :: "(int, string) server_hooks" where
  "sample_hooks = \<lparr>run_once = (\<lambda>_ d n. (n + 1, [''frame''])), set_stop = (\<lambda>_ n. (n, [''save''])), check_stop = (\<lambda>_ n. (n, [], 4 \<le> n))\<rparr>"

definition sample_frames :: "frame_event list" where
  "sample_frames = [Frame 5000000007 5000000, Signal 2, Frame 5000000010 5000000, Signal 3, Frame 5000000010 5000000, Frame 5000000030 5000000]"

lemma sample_frame_run:
  "run_steps (frame_step sample_hooks) (sample_frames @ [Frame 5000000031 5000000]) (frame_init 5000000000 1) =
     (\<lparr>sf_stop = True, sf_wait_stop = True, g_wait_stop = True, sf_last_server_time = wrap_u32 5000000030, g_server_time = 5000000,
       sf_server = 5\<rparr>,
      [Ran_once 7, Out ''frame'', Ran_once 3, Out ''frame'', Ran_once 0, Out ''frame'', Stop_set, Out ''save'', Ran_once 20, Out ''frame'',
       Stop_checked True])"
  by code_simp

theorem frame_protocol_witness:
  "phase_run Running (snd (run_steps (frame_step sample_hooks) (take 5 sample_frames) (frame_init 5000000000 1))) = Some Stopping \<and>
   elapsed (snd (run_steps (frame_step sample_hooks) (take 5 sample_frames) (frame_init 5000000000 1))) = 10"
proof -
  let ?r = "run_steps (frame_step sample_hooks) (take 5 sample_frames) (frame_init 5000000000 1)"
  have "\<not> sf_stop (fst ?r)" "phase_of (fst ?r) = Stopping" "clock_runs 5000000000 (take 5 sample_frames)"
      "last_clock 5000000000 (take 5 sample_frames) = 5000000010"
    by code_simp+
  then show ?thesis using frame_protocol [OF surjective_pairing, where h = sample_hooks and es = "take 5 sample_frames" and t = 5000000000 and s = 1]
    by simp
qed

end
