(* ===== verification/Spec2Isabelle.thy ===== *)
theory Spec2Isabelle
  imports Server_Runs Packet Net_Server Md5 Event_Progress Login_Gate Login_Checks Server_Frame
begin

text \<open>
  A verification development of the servers of DreamHeroes.

  \<^bold>\<open>The program.\<close>  Clients hold a TCP connection to a gate server, which passes their messages on to a game
  server; a login server tells the gate which users to expect, and a database server stores the players.
  The game server keeps every player in memory as a \<^verbatim>\<open>DreamHero\<close>, found through a session per connected
  client, and shares four managers among them: the configuration tables, the daily rank list, the timed shop
  promotions and the log of records.  Messages travel as protocol buffers in framed packets.

  \<^bold>\<open>The theories\<close>, in the order in which they build on each other.

  \<^item> \<open>Prelude\<close>: machine integers (\<open>wrap32\<close>, \<open>wrap_u32\<close>), single precision floats, the lemma collections and the
    locale \<open>invariant_system\<close>.  \<open>Std_Map\<close>: \<^verbatim>\<open>std::map\<close> as an ordered association list, with its laws as the locale
    \<open>std_map\<close>.  \<open>Strings\<close>: \<^verbatim>\<open>SplitStringA\<close>, number texts and calendar days of \<^verbatim>\<open>src/common/utilities.cpp\<close>.
    \<open>Messages\<close>: the messages of \<^verbatim>\<open>src/message\<close> as records and datatypes.

  \<^item> \<open>RecordManager\<close> (\<^verbatim>\<open>gameserver/RecordManager.cpp\<close>): the log queues and the statements built from them; every
    queued row is inserted exactly once, in order, into its table.

  \<^item> \<open>GameConfig\<close> (\<^verbatim>\<open>gameserver/GameConfig.cpp\<close>): loading of the tables, lookups, and the test whether a time lies
    in today, which begins at the refresh hour.

  \<^item> \<open>RankManager\<close> (\<^verbatim>\<open>gameserver/RankManager.cpp\<close>): the daily rank list; sorting, ranks and the account map after
    an update, and that no account is on the list twice over every sequence of operations.

  \<^item> \<open>ShopSales\<close> (\<^verbatim>\<open>gameserver/ShopSalesPromotionManager.cpp\<close>): promotions that switch themselves on and off; over
    every run the discounts and the recharge bonus are the sums of the promotions in effect, and the mutually
    recursive calls end.

  \<^item> \<open>Hero_State\<close>, \<open>Hero_Play\<close>, \<open>Hero_Shop\<close>, \<open>Hero_Daily\<close>, \<open>Hero_Deal\<close>, \<open>Hero_Save\<close>, \<open>Hero_Login\<close>
    (\<^verbatim>\<open>gameserver/DreamHero.cpp\<close> and, for the row of a player, \<^verbatim>\<open>databaseserver/db_quest.cpp\<close>): the state of a hero
    and one definition per handler (a map from hero to hero and effects): tasks, chapters and maps, shop and
    lottery, the daily game, deals, saving and logging in.  The lemmas give the exact effect of the handlers,
    accepted and refused: what is paid, that a deal is credited and an exit is paid at most once, that a saved
    hero is the hero after the next login.

  \<^item> \<open>DreamHeroManager\<close> (\<^verbatim>\<open>gameserver/DreamHeroManager.cpp\<close>): the table of heroes, the state \<open>game\<close> of all
    managers, names, and the periodic events.  \<open>Session\<close> (\<^verbatim>\<open>gameserver/session.cpp\<close>): the dispatch of every client
    message and the administration commands; who may change whom.

  \<^item> \<open>GameServer\<close>, \<open>Server_Steady\<close>, \<open>Server_Links\<close>, \<open>Server_Runs\<close> (\<^verbatim>\<open>gameserver/gate_manager.cpp\<close>,
    \<^verbatim>\<open>gate_session.cpp\<close>, \<^verbatim>\<open>db_client .cpp\<close>, \<^verbatim>\<open>GSHttpManager.cpp\<close>, \<^verbatim>\<open>platform_client.cpp\<close>): sessions and gates, and
    the step relation of the whole game server.  Its invariant: the heroes are well-formed and stored under
    their accounts, and the pointers between sessions and heroes lead to each other; therefore the removal of
    sessions and heroes follows no dangling pointer.

  \<^item> \<open>Crypt\<close> (\<^verbatim>\<open>common/crypt.cpp\<close>): the checksum equals the bitwise CRC-32, decryption inverts encryption.
    \<open>Base64\<close> (\<^verbatim>\<open>common/utilities.cpp\<close>): decoding inverts encoding.  \<open>Wire\<close> (\<^verbatim>\<open>common/message_interface.cpp\<close>,
    \<^verbatim>\<open>tcpsession.cpp\<close>): frames, receive buffer and send queue; the delivered messages do not depend on how the
    stream is cut, the buffer is never overrun, and the bytes sent are the frames in order.  \<open>Packet\<close>
    (\<^verbatim>\<open>common/protoc_common.h\<close>, \<^verbatim>\<open>thread_buffer.h\<close>): packets, and the delivery of messages from end to end.
    \<open>Net_Server\<close> (\<^verbatim>\<open>common/tcpserver.cpp\<close>, \<^verbatim>\<open>call_back.cpp\<close>, \<^verbatim>\<open>HttpManager.cpp\<close>): the queues between threads as
    interpretations of the locale \<open>pipeline\<close>, and the banned addresses.

    \<open>Pipelines\<close> holds that locale and its companion \<open>conveyor\<close>, for what may be refused or may overtake.

  \<^item> \<open>Md5\<close> (\<^verbatim>\<open>common/md5.cpp\<close>): the streaming digest, which equals the digest of RFC 1321 of all the bytes,
    however they are split over the calls.

  \<^item> \<open>Events\<close>, \<open>Event_Refs\<close>, \<open>Event_Time\<close>, \<open>Event_Progress\<close> (\<^verbatim>\<open>common/event_table_object.cpp\<close>,
    \<^verbatim>\<open>event_manager.h\<close>, \<^verbatim>\<open>event_call_back.h\<close>): the table of timers with its reference counts, its objects and
    holders; no update uses a freed event, a timer runs when its time is over and not before, and an update
    returns.

  \<^item> \<open>Gate\<close> (\<^verbatim>\<open>src/gateserver\<close>): the gate as a machine that reacts to announcements, connections, logins, messages
    and timers; only announced users reach a game server, and which game server is chosen.

  \<^item> \<open>Database\<close>, \<open>Database_Tasks\<close> (\<^verbatim>\<open>common/database.cpp\<close>, \<^verbatim>\<open>database.h\<close>): the task engine in front of MySQL, as an
    interleaving of the steps of its threads and of the main thread; no task is lost or called back twice, a
    callback is told the truth about its task, and the tasks of a type with one thread keep their order.  What
    it does not promise follows: a task that fails for ever, and results that a stop leaves behind.

  \<^item> \<open>DBServer\<close> (\<^verbatim>\<open>src/databaseserver\<close>): the database server on two of these engines; saves are executed in the
    order in which they were accepted, and a game server is sent the player it asked for.

  \<^item> \<open>Login\<close>, \<open>Login_Runs\<close>, \<open>Login_Types\<close>, \<open>Login_Checks\<close> (\<^verbatim>\<open>src/login\<close>): the login server, with its pooled sessions,
    its accounts and gates, and the engine as a part of its state.  Every announcement of a user rests on an
    answer of the database; the types of all fields are kept; the choice of a gate, and what the checks of a
    login amount to.  \<open>Login_Gate\<close> joins it to a gate: the players of a game server were all checked by the
    database, and a client that is sent to the gate is expected there.

  \<^item> \<open>Server_Frame\<close> (\<^verbatim>\<open>common/server_frame.cpp\<close> and the \<^verbatim>\<open>server.cpp\<close> of the four servers): the frame loop, its
    clock and its stop; the order of the calls in a stop, whatever the server, that the frames account for the
    time that has passed, and, as interpretations of the locale \<open>stoppable\<close>, when each server stops: the gate
    never does.

  \<^bold>\<open>Conventions.\<close>  A handler that may follow a null or dangling pointer, leave an array or throw returns \<open>None\<close>
  there.  Effects (messages, statements, records, requests) are values in the order in which the code causes
  them.  Random draws, the clock, uninitialised memory and the answers of other processes are arguments.
  \<^verbatim>\<open>int\<close> values wrap at 32 bits where the code computes them, sizes at 64 bits where a comparison depends on it;
  the clock has 64 bits and stays far from its bounds.

  \<^bold>\<open>Bounds.\<close>  The calls of \<^verbatim>\<open>DayPass\<close>, \<^verbatim>\<open>apply\<close> and \<^verbatim>\<open>excute\<close> nest to a depth of at most six (\<open>promo_depth\<close>), which
  \<open>DayPass_returns\<close> shows to be enough; the generation of a name calls itself at most 101 times, as in the code;
  the loop over the frames of a buffer ends because every frame has a head.

  \<^bold>\<open>Assumptions\<close> on the outside, each a hypothesis of the theorems that use it: a gate announces one session per
  account at a time, the database answers with a well-formed player of the account that was asked for, a
  shuffle is a permutation, the protocol buffer library and the compression restore what they packed.

  \<^bold>\<open>Not modelled.\<close>  Sockets, threads and mutexes beyond the interleavings above, MySQL itself, libcurl and logging
  (external code, or wrappers around it); the start-up and the configuration files of the processes; of the
  task engine \<^verbatim>\<open>addBlockTask\<close>, which runs one function at the start of a process, and \<^verbatim>\<open>shutDown\<close>, which frees
  what has stopped; helper functions of \<^verbatim>\<open>utilities.cpp\<close> that nothing calls.  The step relations of the game
  server, the gate and the login server let a timer that is set fire at any time, which covers every schedule
  the table of timers can produce.  The prototype of a battle server and the test clients.
\<close>

end
